(* ===== verification/Prelude.thy ===== *)
theory Prelude
  imports Main "HOL-Library.Word" "HOL-Library.Char_ord" "HOL-Library.List_Lexorder"
    "HOL-Library.Product_Lexorder" "HOL-Library.Multiset"
begin

text \<open>
  Types, collections of facts and generic lemmas the components share: Python text as
  lists of code points with \<open>str.strip\<close>, points in time as microseconds, results of
  fallible calls, positional number systems (used by the UUID texts and the cursor
  bytes), lexicographic order on texts of one length, and lists seen as keyed tables.
\<close>

subsection \<open>Collections\<close>

named_theorems table_simps \<open>lookup after insert, update and delete on tables\<close>
named_theorems op_defs \<open>unfolding of the operations of a component\<close>

subsection \<open>Types\<close>

text \<open>A Python \<open>str\<close> is a list of code points; \<open>py\<close> lifts an ASCII literal.\<close>

type_synonym pystr = "nat list"

abbreviation py :: "string \<Rightarrow> pystr" where
  "py s \<equiv> map of_char s"

text \<open>A timezone-aware \<open>datetime\<close> is its distance from the Unix epoch in microseconds,
  the resolution of the Python type and of the database column.\<close>

type_synonym datetime = int

abbreviation seconds :: "int \<Rightarrow> int" where
  "seconds n \<equiv> n * 1000000"

type_synonym uuid = "128 word"

subsection \<open>Results of fallible calls\<close>

fun and_then :: "'e + 'a \<Rightarrow> ('a \<Rightarrow> 'e + 'b) \<Rightarrow> 'e + 'b" where
  "and_then (Inl e) f = Inl e"
| "and_then (Inr a) f = f a"

lemma and_then_eq_Inr [simp]:
  "and_then r f = Inr b \<longleftrightarrow> (\<exists>a. r = Inr a \<and> f a = Inr b)"
  by (cases r) auto

lemma and_then_eq_Inl:
  "and_then r f = Inl e \<longleftrightarrow> r = Inl e \<or> (\<exists>a. r = Inr a \<and> f a = Inl e)"
  by (cases r) auto

definition check :: "bool \<Rightarrow> 'e \<Rightarrow> 'e + unit" where
  "check b e = (if b then Inr () else Inl e)"

lemma check_eq [simp]:
  "check b e = Inr u \<longleftrightarrow> b"
  "check b e = Inl e' \<longleftrightarrow> \<not> b \<and> e' = e"
  by (auto simp: check_def)

lemma check_simps [simp]: "check True e = Inr ()" "check False e = Inl e"
  by (simp_all add: check_def)

subsection \<open>White space and strip\<close>

text \<open>The code points for which Python's \<open>str.isspace\<close> holds, which are those
  \<open>str.strip()\<close> removes.\<close>

definition py_isspace :: "nat \<Rightarrow> bool" where
  "py_isspace c \<longleftrightarrow>
     (9 \<le> c \<and> c \<le> 13) \<or> (28 \<le> c \<and> c \<le> 32) \<or> c = 133 \<or> c = 160 \<or> c = 5760 \<or>
     (8192 \<le> c \<and> c \<le> 8202) \<or> c = 8232 \<or> c = 8233 \<or> c = 8239 \<or> c = 8287 \<or> c = 12288"

definition strip_by :: "('a \<Rightarrow> bool) \<Rightarrow> 'a list \<Rightarrow> 'a list" where
  "strip_by p xs = rev (dropWhile p (rev (dropWhile p xs)))"

definition py_strip :: "pystr \<Rightarrow> pystr" where
  "py_strip = strip_by py_isspace"

lemma strip_by_Nil_iff [simp]: "strip_by p xs = [] \<longleftrightarrow> (\<forall>x\<in>set xs. p x)"
proof
  assume *: "strip_by p xs = []"
  then have "\<forall>x\<in>set (dropWhile p xs). p x"
    by (auto simp: strip_by_def)
  then have "dropWhile p xs = []"
    by (metis dropWhile_eq_Nil_conv hd_dropWhile list.set_sel(1))
  then show "\<forall>x\<in>set xs. p x" by simp
next
  assume "\<forall>x\<in>set xs. p x"
  then show "strip_by p xs = []" by (auto simp: strip_by_def dest: set_dropWhileD)
qed

lemma set_strip_by: "set (strip_by p xs) \<subseteq> set xs"
  unfolding strip_by_def by (auto dest!: set_dropWhileD)

lemma length_strip_by: "length (strip_by p xs) \<le> length xs"
proof -
  have "length (dropWhile p (rev (dropWhile p xs))) \<le> length (dropWhile p xs)"
    by (metis length_dropWhile_le length_rev)
  also have "\<dots> \<le> length xs" by (rule length_dropWhile_le)
  finally show ?thesis by (simp add: strip_by_def)
qed

text \<open>\<open>text.split(sep)\<close> for a separator of one character.\<close>

fun split_on :: "'a \<Rightarrow> 'a list \<Rightarrow> 'a list list" where
  "split_on sep [] = [[]]"
| "split_on sep (c # cs) =
     (if c = sep then [] # split_on sep cs
      else case split_on sep cs of [] \<Rightarrow> [[c]] | w # ws \<Rightarrow> (c # w) # ws)"

lemma split_on_parts: "w \<in> set (split_on sep cs) \<Longrightarrow> set w \<subseteq> set cs - {sep}"
proof (induction cs arbitrary: w)
  case (Cons c cs)
  show ?case
  proof (cases "c = sep")
    case True
    then show ?thesis using Cons.prems Cons.IH by fastforce
  next
    case False
    then show ?thesis
      using Cons.prems Cons.IH by (cases "split_on sep cs") (fastforce+)
  qed
qed simp

subsection \<open>Positional number systems\<close>

text \<open>\<open>digits_be b k v\<close>: the \<open>k\<close> digits of \<open>v\<close> in base \<open>b\<close>, most significant first.\<close>

fun digits_be :: "nat \<Rightarrow> nat \<Rightarrow> nat \<Rightarrow> nat list" where
  "digits_be b 0 v = []"
| "digits_be b (Suc k) v = digits_be b k (v div b) @ [v mod b]"

definition of_digits :: "nat \<Rightarrow> nat list \<Rightarrow> nat" where
  "of_digits b ds = foldl (\<lambda>acc d. acc * b + d) 0 ds"

lemma length_digits_be [simp]: "length (digits_be b k v) = k"
  by (induction k arbitrary: v) auto

lemma of_digits_snoc [simp]: "of_digits b (ds @ [d]) = of_digits b ds * b + d"
  by (simp add: of_digits_def)

lemma of_digits_Nil [simp]: "of_digits b [] = 0"
  by (simp add: of_digits_def)

lemma of_digits_digits: "of_digits b (digits_be b k v) = v mod b ^ k"
proof (induction k arbitrary: v)
  case 0
  then show ?case by simp
next
  case (Suc k)
  have "v mod (b * b ^ k) = b * (v div b mod b ^ k) + v mod b"
    by (rule mod_mult2_eq)
  with Suc show ?case by (simp add: mult.commute)
qed

lemma digits_be_less: "0 < b \<Longrightarrow> d \<in> set (digits_be b k v) \<Longrightarrow> d < b"
  by (induction k arbitrary: v) auto

lemma digits_of_digits:
  "\<forall>d\<in>set ds. d < b \<Longrightarrow> digits_be b (length ds) (of_digits b ds) = ds"
  by (induction ds rule: rev_induct) auto

lemma digits_be_inj:
  assumes "digits_be b k v = digits_be b k w" "v < b ^ k" "w < b ^ k"
  shows "v = w"
  by (metis assms of_digits_digits mod_less)


subsection \<open>Lexicographic order on texts of one length\<close>

text \<open>Python compares strings, and HOL lists of ordered elements, lexicographically.\<close>

lemma le_Cons_iff:
  fixes x y :: "'a::linorder"
  shows "x # xs \<le> y # ys \<longleftrightarrow> x < y \<or> x = y \<and> xs \<le> ys"
  by (auto simp: Cons_le_Cons)

lemma map_le_iff:
  fixes xs ys :: "'a::linorder list" and f :: "'a \<Rightarrow> 'b::linorder"
  assumes "length xs = length ys"
    and "\<And>a b. a \<in> set xs \<Longrightarrow> b \<in> set ys \<Longrightarrow> f a < f b \<longleftrightarrow> a < b"
    and "\<And>a b. a \<in> set xs \<Longrightarrow> b \<in> set ys \<Longrightarrow> f a = f b \<longleftrightarrow> a = b"
  shows "map f xs \<le> map f ys \<longleftrightarrow> xs \<le> ys"
  using assms by (induction xs ys rule: list_induct2) (auto simp: le_Cons_iff)

lemma append_le_iff:
  fixes xs ys :: "'a::linorder list"
  assumes "length xs = length ys"
  shows "xs @ us \<le> ys @ vs \<longleftrightarrow> xs < ys \<or> xs = ys \<and> us \<le> vs"
  using assms by (induction xs ys rule: list_induct2) (auto simp: le_Cons_iff)

lemma snoc_le_iff:
  fixes xs ys :: "'a::linorder list"
  assumes "length xs = length ys"
  shows "xs @ [u] \<le> ys @ [v] \<longleftrightarrow> xs < ys \<or> xs = ys \<and> u \<le> v"
  using append_le_iff [OF assms, of "[u]" "[v]"] by (auto simp: le_Cons_iff)

text \<open>Inserting one separator at the same position of both texts keeps their order.\<close>

definition insert_at :: "nat \<Rightarrow> 'a \<Rightarrow> 'a list \<Rightarrow> 'a list" where
  "insert_at n c xs = take n xs @ c # drop n xs"

lemma length_insert_at [simp]: "length (insert_at n c xs) = Suc (length xs)"
  by (simp add: insert_at_def)

lemma insert_at_le_iff:
  fixes xs ys :: "'a::linorder list"
  assumes "length xs = length ys"
  shows "insert_at n c xs \<le> insert_at n c ys \<longleftrightarrow> xs \<le> ys"
  using assms
proof (induction n arbitrary: xs ys)
  case 0
  then show ?case by (simp add: insert_at_def le_Cons_iff)
next
  case (Suc n)
  show ?case
  proof (cases xs)
    case Nil
    with Suc.prems show ?thesis by (simp add: insert_at_def)
  next
    case (Cons x xs')
    with Suc.prems obtain y ys' where ys: "ys = y # ys'" "length xs' = length ys'"
      by (cases ys) auto
    from Suc.IH [OF ys(2)] Cons ys(1) show ?thesis
      by (simp add: insert_at_def le_Cons_iff)
  qed
qed

lemma insert_at_inj:
  assumes "insert_at n c xs = insert_at n c ys" "length xs = length ys"
  shows "xs = ys"
  using assms by (metis append_eq_append_conv append_take_drop_id insert_at_def length_take list.inject)

lemma digits_be_mono:
  assumes "0 < b" "v < b ^ k" "w < b ^ k"
  shows "digits_be b k v \<le> digits_be b k w \<longleftrightarrow> v \<le> w"
  using assms(2,3)
proof (induction k arbitrary: v w)
  case 0
  then show ?case by simp
next
  case (Suc k)
  have lt: "v div b < b ^ k" "w div b < b ^ k"
    using Suc.prems \<open>0 < b\<close> by (simp_all add: less_mult_imp_div_less mult.commute)
  note IH = Suc.IH [OF lt] Suc.IH [OF lt(2) lt(1)]
  have eq: "digits_be b k (v div b) = digits_be b k (w div b) \<longleftrightarrow> v div b = w div b"
    using digits_be_inj [OF _ lt] by auto
  have "digits_be b k (v div b) < digits_be b k (w div b) \<longleftrightarrow> v div b < w div b"
    using IH by (metis linorder_not_less)
  then have "digits_be b (Suc k) v \<le> digits_be b (Suc k) w \<longleftrightarrow>
      v div b < w div b \<or> v div b = w div b \<and> v mod b \<le> w mod b"
    using eq by (simp add: snoc_le_iff)
  also have "\<dots> \<longleftrightarrow> v \<le> w"
  proof -
    have v: "v = b * (v div b) + v mod b" and w: "w = b * (w div b) + w mod b"
      by simp_all
    show ?thesis
    proof (cases "v div b" "w div b" rule: linorder_cases)
      case less
      then have "\<not> w div b \<le> v div b" by simp
      then have "\<not> w \<le> v" using div_le_mono by blast
      with less show ?thesis by simp
    next
      case equal
      then show ?thesis using v w by (metis add_le_cancel_left less_irrefl)
    next
      case greater
      then have "\<not> v div b \<le> w div b" by simp
      then have "\<not> v \<le> w" using div_le_mono by blast
      with greater show ?thesis by simp
    qed
  qed
  finally show ?case .
qed

end
