(* ===== verification/Identifiers.thy ===== *)
theory Identifiers
  imports Prelude
begin

text \<open>
  Identifiers and names: the application-side UUIDv7 generator of
  \<^verbatim>\<open>app/core/ids.py\<close>, the text form of a UUID, the Redis keys and pub/sub topics of
  \<^verbatim>\<open>app/core/redis_keys.py\<close> and the canonical user pair of a direct conversation
  (\<^verbatim>\<open>app/services/messages.py\<close>).  The lemmas show that generated ids increase, that the
  two orders on a pair of users (on UUIDs and on their texts) agree, and that no two
  conversations, users or roles share a topic or a key.
\<close>

subsection \<open>Generating ids\<close>

text \<open>
  \<open>candidate\<close> is what the third-party \<open>uuid7()\<close> returned; \<open>stamp\<close> is its constructor
  \<open>UUID(int=..., version=7)\<close>, which re-applies the version and variant bits.  The state
  is \<open>_last_generated_int\<close>; the lock makes a call atomic.
\<close>

definition generate_id :: "(int \<Rightarrow> uuid) \<Rightarrow> uuid \<Rightarrow> int option \<Rightarrow> uuid \<times> int option" where
  "generate_id stamp candidate prev =
     (case prev of
        Some l \<Rightarrow>
          if uint candidate \<le> l then (stamp (l + 1), Some (l + 1))
          else (candidate, Some (uint candidate))
      | None \<Rightarrow> (candidate, Some (uint candidate)))"

fun generate_ids :: "(int \<Rightarrow> uuid) \<Rightarrow> uuid list \<Rightarrow> int option \<Rightarrow> uuid list" where
  "generate_ids stamp [] prev = []"
| "generate_ids stamp (c # cs) prev =
     (case generate_id stamp c prev of
        (u, prev') \<Rightarrow> u # generate_ids stamp cs prev')"

text \<open>The counter kept in the module strictly increases with every call.\<close>

lemma generate_id_counter:
  assumes "generate_id stamp c prev = (u, prev')"
  obtains n where "prev' = Some n" "\<And>l. prev = Some l \<Longrightarrow> l < n"
  using assms by (auto simp: generate_id_def split: option.splits if_splits)

text \<open>\<open>stamp_exact\<close>: stamping leaves the bumped value alone, which holds as long as the
  increment does not carry out of the random field into the variant bits.\<close>

definition stamp_exact :: "(int \<Rightarrow> uuid) \<Rightarrow> int \<Rightarrow> bool" where
  "stamp_exact stamp n \<longleftrightarrow> uint (stamp n) = n"

lemma generate_id_uint:
  assumes "generate_id stamp c prev = (u, Some n)" "stamp_exact stamp n"
  shows "uint u = n"
  using assms
  by (auto simp: generate_id_def stamp_exact_def split: option.splits if_splits)

subsection \<open>Text of a UUID\<close>

definition hex_digit :: "nat \<Rightarrow> char" where
  "hex_digit d = (if d < 10 then char_of (48 + d) else char_of (87 + d))"

definition uuid_hex :: "uuid \<Rightarrow> string" where
  "uuid_hex u = map hex_digit (digits_be 16 32 (unat u))"

text \<open>\<open>str(u)\<close>: eight, four, four, four and twelve hexadecimal digits.\<close>

definition uuid_str :: "uuid \<Rightarrow> string" where
  "uuid_str u =
     (let h = uuid_hex u in
      take 8 h @ ''-'' @ take 4 (drop 8 h) @ ''-'' @ take 4 (drop 12 h) @ ''-'' @
      take 4 (drop 16 h) @ ''-'' @ drop 20 h)"

lemma length_uuid_hex [simp]: "length (uuid_hex u) = 32"
  by (simp add: uuid_hex_def)

lemma of_char_hex_digit:
  "d < 16 \<Longrightarrow> (of_char (hex_digit d) :: nat) = (if d < 10 then 48 + d else 87 + d)"
  by (simp add: hex_digit_def)

lemma hex_digit_less_iff:
  "a < 16 \<Longrightarrow> b < 16 \<Longrightarrow> hex_digit a < hex_digit b \<longleftrightarrow> a < b"
  by (simp add: less_char_def of_char_hex_digit)

lemma hex_digit_eq_iff:
  "a < 16 \<Longrightarrow> b < 16 \<Longrightarrow> hex_digit a = hex_digit b \<longleftrightarrow> a = b"
  using hex_digit_less_iff [of a b] hex_digit_less_iff [of b a]
  by (metis less_irrefl linorder_neqE_nat)

lemma uuid_unat_less: "unat (u :: uuid) < 16 ^ 32"
  using unsigned_less [of u] by simp

lemma hex_digits_less: "d \<in> set (digits_be 16 k n) \<Longrightarrow> d < 16"
  by (rule digits_be_less) simp_all

lemma uuid_hex_le_iff: "uuid_hex u \<le> uuid_hex v \<longleftrightarrow> u \<le> v"
proof -
  have "uuid_hex u \<le> uuid_hex v \<longleftrightarrow> digits_be 16 32 (unat u) \<le> digits_be 16 32 (unat v)"
    unfolding uuid_hex_def
    by (rule map_le_iff)
      (auto dest!: hex_digits_less simp: hex_digit_less_iff hex_digit_eq_iff)
  also have "\<dots> \<longleftrightarrow> unat u \<le> unat v"
    by (rule digits_be_mono) (rule uuid_unat_less | simp)+
  finally show ?thesis by (simp add: word_le_nat_alt)
qed

lemma uuid_str_insert_at:
  "uuid_str u = insert_at 23 CHR ''-'' (insert_at 18 CHR ''-'' (insert_at 13 CHR ''-''
     (insert_at 8 CHR ''-'' (uuid_hex u))))"
proof -
  have len: "length (uuid_hex u) = 32" by simp
  show ?thesis
    using len
    by (simp add: uuid_str_def insert_at_def Let_def take_drop min_def take_Cons' drop_Cons')
qed

text \<open>Comparing the texts of two UUIDs is comparing the UUIDs.\<close>

lemma uuid_str_le_iff: "uuid_str u \<le> uuid_str v \<longleftrightarrow> u \<le> v"
  by (simp add: uuid_str_insert_at insert_at_le_iff uuid_hex_le_iff)

lemma uuid_str_inj [simp]: "uuid_str u = uuid_str v \<longleftrightarrow> u = v"
  by (metis order_antisym order_refl uuid_str_le_iff)

lemma length_uuid_str [simp]: "length (uuid_str u) = 36"
  by (simp add: uuid_str_insert_at)

lemma hyphen_or_hex:
  assumes "c \<in> set (uuid_str u)"
  shows "c = CHR ''-'' \<or> (\<exists>d<16. c = hex_digit d)"
proof -
  have "set (insert_at n x xs) = insert x (set xs)" for n and x :: char and xs
    by (simp add: insert_at_def) (metis Un_insert_right append_take_drop_id set_append)
  with assms have "c = CHR ''-'' \<or> c \<in> set (uuid_hex u)"
    by (auto simp: uuid_str_insert_at)
  then show ?thesis unfolding uuid_hex_def by (auto dest: hex_digits_less)
qed

lemma colon_notin_uuid_str [simp]: "CHR '':'' \<notin> set (uuid_str u)"
proof
  assume "CHR '':'' \<in> set (uuid_str u)"
  from hyphen_or_hex [OF this] obtain d where d: "d < 16" "CHR '':'' = hex_digit d"
    by auto
  from arg_cong [OF d(2), of "of_char :: char \<Rightarrow> nat"] d(1) show False
    by (simp add: of_char_hex_digit split: if_splits)
qed


subsection \<open>Topics and keys\<close>

definition channel_topic :: "uuid \<Rightarrow> string" where
  "channel_topic c = ''chan:'' @ uuid_str c"

text \<open>\<open>dm_topic\<close> orders the two texts, as the code does.\<close>

definition dm_topic :: "uuid \<Rightarrow> uuid \<Rightarrow> string" where
  "dm_topic a b =
     (let first = uuid_str a; second = uuid_str b;
          (least, greatest) = (if first \<le> second then (first, second) else (second, first))
      in ''dm:'' @ least @ '':'' @ greatest)"

definition user_topic :: "uuid \<Rightarrow> string" where
  "user_topic u = ''user:'' @ uuid_str u"

definition presence_connection_count_key :: "uuid \<Rightarrow> string" where
  "presence_connection_count_key u = ''presence:conn_count:'' @ uuid_str u"

definition presence_state_key :: "uuid \<Rightarrow> string" where
  "presence_state_key u = ''presence:state:'' @ uuid_str u"

definition presence_topic :: "uuid \<Rightarrow> string" where
  "presence_topic u = ''presence:'' @ uuid_str u"

definition typing_indicator_key :: "string \<Rightarrow> string" where
  "typing_indicator_key topic = ''presence:typing:'' @ topic"

datatype rate_limit_scope = MESSAGE_SEND | AUTH | MEDIA_UPLOAD | GENERAL_READ

fun scope_value :: "rate_limit_scope \<Rightarrow> string" where
  "scope_value MESSAGE_SEND = ''message_send''"
| "scope_value AUTH = ''auth''"
| "scope_value MEDIA_UPLOAD = ''media_upload''"
| "scope_value GENERAL_READ = ''general_read''"

text \<open>The subject of a bucket is client text (an address and a hash, or a user id).\<close>

definition rate_limit_bucket_key :: "rate_limit_scope \<Rightarrow> pystr \<Rightarrow> pystr" where
  "rate_limit_bucket_key scope subject =
     py ''ratelimit:'' @ py (scope_value scope) @ py '':'' @ subject"

definition session_revocation_key :: "uuid \<Rightarrow> string" where
  "session_revocation_key sid = ''session:revocation:'' @ uuid_str sid"

text \<open>The idempotency key of a send; \<open>key\<close> is the client's header.\<close>

definition idempotency_redis_key :: "uuid \<Rightarrow> pystr \<Rightarrow> pystr" where
  "idempotency_redis_key sender key =
     py ''idem:message_send:'' @ py (uuid_str sender) @ py '':'' @ key"

text \<open>\<open>_dm_pair\<close>: the canonical order on the UUIDs themselves, used by the history query.\<close>

definition dm_pair :: "uuid \<Rightarrow> uuid \<Rightarrow> uuid \<times> uuid" where
  "dm_pair a b = (if a \<le> b then (a, b) else (b, a))"

lemma dm_pair_commute: "dm_pair a b = dm_pair b a"
  by (auto simp: dm_pair_def)

lemma dm_pair_eq_iff: "dm_pair a b = dm_pair c d \<longleftrightarrow> {a, b} = {c, d}"
  by (auto simp: dm_pair_def doubleton_eq_iff)

lemma dm_topic_pair:
  "dm_topic a b = ''dm:'' @ uuid_str (fst (dm_pair a b)) @ '':'' @ uuid_str (snd (dm_pair a b))"
  by (simp add: dm_topic_def dm_pair_def uuid_str_le_iff)

lemma dm_topic_pair_eq: "dm_topic a b = dm_topic c d \<longleftrightarrow> dm_pair a b = dm_pair c d"
  by (simp add: dm_topic_pair prod_eq_iff)

lemmas topic_defs = channel_topic_def user_topic_def presence_topic_def dm_topic_pair
  presence_connection_count_key_def presence_state_key_def session_revocation_key_def

lemma channel_topic_inj [simp]: "channel_topic a = channel_topic b \<longleftrightarrow> a = b"
  by (simp add: channel_topic_def)

lemma user_topic_inj [simp]: "user_topic a = user_topic b \<longleftrightarrow> a = b"
  by (simp add: user_topic_def)

lemma presence_topic_inj [simp]: "presence_topic a = presence_topic b \<longleftrightarrow> a = b"
  by (simp add: presence_topic_def)

lemma topics_distinct [simp]:
  "channel_topic a \<noteq> dm_topic b c" "dm_topic b c \<noteq> channel_topic a"
  "channel_topic a \<noteq> user_topic b" "user_topic b \<noteq> channel_topic a"
  "user_topic a \<noteq> dm_topic b c" "dm_topic b c \<noteq> user_topic a"
  "presence_topic a \<noteq> channel_topic b" "channel_topic b \<noteq> presence_topic a"
  "presence_topic a \<noteq> user_topic b" "user_topic b \<noteq> presence_topic a"
  "presence_topic a \<noteq> dm_topic b c" "dm_topic b c \<noteq> presence_topic a"
  by (simp_all add: topic_defs)

lemma scope_value_inj [simp]: "scope_value s = scope_value t \<longleftrightarrow> s = t"
  by (cases s; cases t) simp_all

lemma no_colon_scope: "58 \<notin> set (py (scope_value s))"
  by (cases s) simp_all

lemma split_at_separator:
  assumes "xs @ c # ys = us @ c # vs" "c \<notin> set xs" "c \<notin> set us"
  shows "xs = us \<and> ys = vs"
  using assms by (auto simp: append_eq_append_conv2 append_eq_Cons_conv Cons_eq_append_conv)

lemma py_inj [simp]: "py a = py b \<longleftrightarrow> a = b"
  by (simp add: inj_map_eq_map inj_def)

lemma rate_limit_bucket_key_inj:
  "rate_limit_bucket_key s x = rate_limit_bucket_key t y \<longleftrightarrow> s = t \<and> x = y"
proof
  assume "rate_limit_bucket_key s x = rate_limit_bucket_key t y"
  then have "py (scope_value s) @ 58 # x = py (scope_value t) @ 58 # y"
    by (simp add: rate_limit_bucket_key_def)
  from split_at_separator [OF this no_colon_scope no_colon_scope] show "s = t \<and> x = y"
    by simp
qed simp

lemma idempotency_redis_key_inj:
  "idempotency_redis_key s x = idempotency_redis_key t y \<longleftrightarrow> s = t \<and> x = y"
  by (auto simp: idempotency_redis_key_def)

text \<open>
  A direct conversation has exactly one topic: swapping sender and recipient does not
  change it, two conversations share a topic only if they are between the same two users,
  and the order of the texts used for the topic is the order of the UUIDs used by the
  history query and its index.
\<close>

theorem dm_topic_canonical:
  "dm_topic a b = dm_topic b a
   \<and> (dm_topic a b = dm_topic c d \<longleftrightarrow> {a, b} = {c, d})
   \<and> dm_topic a b = ''dm:'' @ uuid_str (fst (dm_pair a b)) @ '':'' @ uuid_str (snd (dm_pair a b))"
proof (intro conjI)
  show "dm_topic a b = dm_topic b a"
    by (simp only: dm_topic_pair_eq dm_pair_commute)
  show "dm_topic a b = dm_topic c d \<longleftrightarrow> {a, b} = {c, d}"
    by (simp only: dm_topic_pair_eq dm_pair_eq_iff)
qed (rule dm_topic_pair)

text \<open>The values the counter takes during a run of calls.\<close>

fun counters :: "(int \<Rightarrow> uuid) \<Rightarrow> uuid list \<Rightarrow> int option \<Rightarrow> int list" where
  "counters stamp [] prev = []"
| "counters stamp (c # cs) prev =
     (case generate_id stamp c prev of
        (u, Some n) \<Rightarrow> n # counters stamp cs (Some n)
      | (u, None) \<Rightarrow> [])"

lemma counters_above: "n \<in> set (counters stamp cs prev) \<Longrightarrow> prev = Some l \<Longrightarrow> l < n"
proof (induction cs arbitrary: prev l)
  case (Cons c cs)
  obtain u prev' where g: "generate_id stamp c prev = (u, prev')"
    by (cases "generate_id stamp c prev")
  obtain m where m: "prev' = Some m" "l < m"
    by (rule generate_id_counter [OF g]) (use Cons.prems(2) in simp)
  have "n = m \<or> n \<in> set (counters stamp cs (Some m))"
    using Cons.prems(1) unfolding counters.simps g m(1) by simp
  then show ?case
  proof
    assume "n = m"
    then show ?thesis using m(2) by simp
  next
    assume "n \<in> set (counters stamp cs (Some m))"
    then have "m < n" using Cons.IH by blast
    then show ?thesis using m(2) by simp
  qed
qed simp

lemma generate_ids_counters:
  assumes "\<And>n. n \<in> set (counters stamp cs prev) \<Longrightarrow> stamp_exact stamp n"
  shows "map uint (generate_ids stamp cs prev) = counters stamp cs prev"
  using assms
proof (induction cs arbitrary: prev)
  case (Cons c cs)
  obtain u prev' where g: "generate_id stamp c prev = (u, prev')"
    by (cases "generate_id stamp c prev")
  obtain m where m: "prev' = Some m" using generate_id_counter [OF g] by blast
  from g m have eq: "counters stamp (c # cs) prev = m # counters stamp cs prev'" by simp
  have "stamp_exact stamp m" by (rule Cons.prems) (simp add: eq del: counters.simps)
  with g m have "uint u = m" using generate_id_uint by blast
  moreover have "map uint (generate_ids stamp cs prev') = counters stamp cs prev'"
    by (rule Cons.IH, rule Cons.prems) (simp add: eq del: counters.simps)
  ultimately show ?case by (simp add: g eq del: counters.simps)
qed simp

lemma sorted_counters: "sorted_wrt (<) (counters stamp cs prev)"
proof (induction cs arbitrary: prev)
  case (Cons c cs)
  then show ?case by (auto dest: counters_above split: prod.split option.split)
qed simp

text \<open>
  Successive calls of the id generator return strictly increasing ids, whatever
  candidates the UUIDv7 library supplies, provided that re-applying the version bits
  leaves the values the counter takes alone.
\<close>

theorem generate_ids_strictly_increasing:
  assumes "\<And>n. n \<in> set (counters stamp cs prev) \<Longrightarrow> stamp_exact stamp n"
  shows "sorted_wrt (<) (generate_ids stamp cs prev)"
proof -
  have "sorted_wrt (<) (map uint (generate_ids stamp cs prev))"
    by (simp add: generate_ids_counters [OF assms] sorted_counters)
  then show ?thesis
    by (simp add: sorted_wrt_map) (erule sorted_wrt_mono_rel [rotated], simp add: word_less_def)
qed

text \<open>Three calls in one millisecond, the second and third with a stale candidate.\<close>

lemma generate_ids_strictly_increasing_witness:
  "generate_ids of_int [7, 7, 3] None = [7, 8, 9] \<and> sorted_wrt (<) (generate_ids of_int [7, 7, 3] None)"
  using generate_ids_strictly_increasing [of of_int "[7, 7, 3]" None]
  by (simp add: generate_id_def stamp_exact_def)

end
