(* ===== verification/Cursor.thy ===== *)
theory Cursor
  imports Identifiers
begin

text \<open>
  The opaque keyset cursor of \<^verbatim>\<open>app/core/pagination.py\<close>: \<open>encode_cursor\<close> and
  \<open>decode_cursor\<close> over the 24-byte payload (eight bytes of microseconds, sixteen of
  UUID) in unpadded URL-safe base64, with the parts of the standard library they use
  (\<open>struct\<close>, \<open>base64\<close>, the bounds of \<open>datetime\<close>).  The lemmas show the round trip and
  which tokens the decoder accepts.
\<close>

type_synonym byte = "8 word"

record cursor_key =
  ck_created_at :: datetime
  ck_id :: uuid

datatype pagination_error = PaginationError string string

subsection \<open>Integers as bytes\<close>

definition bytes_be :: "nat \<Rightarrow> nat \<Rightarrow> byte list" where
  "bytes_be k n = map of_nat (digits_be 256 k n)"

definition nat_of_bytes :: "byte list \<Rightarrow> nat" where
  "nat_of_bytes bs = of_digits 256 (map unat bs)"

lemma length_bytes_be [simp]: "length (bytes_be k n) = k"
  by (simp add: bytes_be_def)

lemma unat_byte_less [simp]: "unat (b :: byte) < 256"
  using unsigned_less [of b] by simp

lemma unat_of_nat_byte: "n < 256 \<Longrightarrow> unat (of_nat n :: byte) = n"
  by (simp add: unat_of_nat)

lemma nat_of_bytes_be: "nat_of_bytes (bytes_be k n) = n mod 256 ^ k"
proof -
  have "map unat (map of_nat (digits_be 256 k n) :: byte list) = digits_be 256 k n"
    by (auto simp: map_idI unat_of_nat_byte dest: digits_be_less [rotated] intro!: map_idI)
  then show ?thesis
    by (simp add: nat_of_bytes_def bytes_be_def of_digits_digits del: map_map)
qed

lemma bytes_be_of_bytes:
  assumes "length bs = k"
  shows "bytes_be k (nat_of_bytes bs) = bs"
proof -
  have "digits_be 256 (length (map unat bs)) (of_digits 256 (map unat bs)) = map unat bs"
    by (rule digits_of_digits) auto
  with assms show ?thesis
    by (simp add: bytes_be_def nat_of_bytes_def comp_def)
qed

lemma nat_of_bytes_less: "nat_of_bytes bs < 256 ^ length bs"
  using nat_of_bytes_be [of "length bs" "nat_of_bytes bs"] bytes_be_of_bytes [of bs]
  by (metis mod_less_divisor zero_less_numeral zero_less_power)

text \<open>\<open>struct.Struct(">q")\<close>: eight bytes, two's complement, most significant first.\<close>

definition pack_q :: "int \<Rightarrow> byte list" where
  "pack_q v = bytes_be 8 (nat (v mod 2 ^ 64))"

definition unpack_q :: "byte list \<Rightarrow> int" where
  "unpack_q bs = (let n = int (nat_of_bytes bs) in if n < 2 ^ 63 then n else n - 2 ^ 64)"

lemma unpack_pack:
  assumes "- (2 ^ 63) \<le> v" "v < 2 ^ 63"
  shows "unpack_q (pack_q v) = v"
proof -
  have r: "0 \<le> v mod 2 ^ 64" "v mod 2 ^ 64 < 2 ^ 64" by simp_all
  then have "nat (v mod 2 ^ 64) < 256 ^ 8" by (simp add: nat_less_iff)
  then have n: "int (nat_of_bytes (pack_q v)) = v mod 2 ^ 64"
    using r by (simp add: pack_q_def nat_of_bytes_be)
  show ?thesis
  proof (cases "0 \<le> v")
    case True
    with assms have "v mod 2 ^ 64 = v" by simp
    with n assms(2) show ?thesis by (simp add: unpack_q_def)
  next
    case False
    have "v mod 2 ^ 64 = (v + 2 ^ 64) mod 2 ^ 64" by simp
    also have "\<dots> = v + 2 ^ 64" using False assms(1) by (intro mod_pos_pos_trivial) simp_all
    finally show ?thesis using n assms(1) False by (simp add: unpack_q_def)
  qed
qed

lemma pack_unpack:
  assumes "length bs = 8"
  shows "pack_q (unpack_q bs) = bs"
proof -
  have lt: "nat_of_bytes bs < 2 ^ 64"
    using nat_of_bytes_less [of bs] assms by simp
  have "unpack_q bs mod 2 ^ 64 = int (nat_of_bytes bs) mod 2 ^ 64"
    by (simp add: unpack_q_def Let_def)
  also have "\<dots> = int (nat_of_bytes bs)" using lt by simp
  finally show ?thesis
    using assms by (simp add: pack_q_def bytes_be_of_bytes)
qed

text \<open>\<open>UUID.bytes\<close> and \<open>UUID(bytes=...)\<close>.\<close>

definition uuid_bytes :: "uuid \<Rightarrow> byte list" where
  "uuid_bytes u = bytes_be 16 (unat u)"

definition uuid_of_bytes :: "byte list \<Rightarrow> uuid" where
  "uuid_of_bytes bs = of_nat (nat_of_bytes bs)"

lemma length_uuid_bytes [simp]: "length (uuid_bytes u) = 16"
  by (simp add: uuid_bytes_def)

lemma length_pack_q [simp]: "length (pack_q v) = 8"
  by (simp add: pack_q_def)

lemma uuid_of_bytes_bytes [simp]: "uuid_of_bytes (uuid_bytes u) = u"
proof -
  have "unat u < 256 ^ 16" using uuid_unat_less [of u] by simp
  then show ?thesis by (simp add: uuid_of_bytes_def uuid_bytes_def nat_of_bytes_be)
qed

lemma uuid_bytes_of_bytes:
  assumes "length bs = 16"
  shows "uuid_bytes (uuid_of_bytes bs) = bs"
proof -
  have "nat_of_bytes bs < 2 ^ 128"
    using nat_of_bytes_less [of bs] assms by simp
  then have "unat (of_nat (nat_of_bytes bs) :: uuid) = nat_of_bytes bs"
    by (simp add: unat_of_nat)
  with assms show ?thesis
    by (simp add: uuid_bytes_def uuid_of_bytes_def bytes_be_of_bytes)
qed


subsection \<open>URL-safe base64\<close>

definition b64_char :: "nat \<Rightarrow> nat" where
  "b64_char v =
     (if v < 26 then 65 + v else if v < 52 then 97 + (v - 26)
      else if v < 62 then 48 + (v - 52) else if v = 62 then 45 else 95)"

definition b64_alphabet :: "nat \<Rightarrow> bool" where
  "b64_alphabet c \<longleftrightarrow>
     (65 \<le> c \<and> c \<le> 90) \<or> (97 \<le> c \<and> c \<le> 122) \<or> (48 \<le> c \<and> c \<le> 57) \<or> c = 95 \<or> c = 45"

text \<open>\<open>base64.urlsafe_b64encode\<close>, with its padding.\<close>

fun urlsafe_b64encode :: "byte list \<Rightarrow> pystr" where
  "urlsafe_b64encode (a # b # c # bs) =
     b64_char (unat a div 4) #
     b64_char (unat a mod 4 * 16 + unat b div 16) #
     b64_char (unat b mod 16 * 4 + unat c div 64) #
     b64_char (unat c mod 64) # urlsafe_b64encode bs"
| "urlsafe_b64encode [a, b] =
     [b64_char (unat a div 4), b64_char (unat a mod 4 * 16 + unat b div 16),
      b64_char (unat b mod 16 * 4), 61]"
| "urlsafe_b64encode [a] = [b64_char (unat a div 4), b64_char (unat a mod 4 * 16), 61, 61]"
| "urlsafe_b64encode [] = []"

text \<open>
  \<open>base64.urlsafe_b64decode\<close>: translate the two URL-safe characters, then
  \<open>binascii.a2b_base64\<close> in its lenient mode, which skips every character outside the
  alphabet, stops at a complete padding and fails on an incomplete last group.  The
  arguments of \<open>a2b\<close> are the position in the group, the bits carried over and the
  padding characters seen.
\<close>

definition urlsafe_translate :: "nat \<Rightarrow> nat" where
  "urlsafe_translate c = (if c = 45 then 43 else if c = 95 then 47 else c)"

definition a2b_value :: "nat \<Rightarrow> nat option" where
  "a2b_value c =
     (if 65 \<le> c \<and> c \<le> 90 then Some (c - 65)
      else if 97 \<le> c \<and> c \<le> 122 then Some (c - 97 + 26)
      else if 48 \<le> c \<and> c \<le> 57 then Some (c - 48 + 52)
      else if c = 43 then Some 62 else if c = 47 then Some 63 else None)"

fun a2b :: "nat \<Rightarrow> nat \<Rightarrow> nat \<Rightarrow> pystr \<Rightarrow> byte list option" where
  "a2b q left pads [] = (if q = 0 then Some [] else None)"
| "a2b q left pads (c # cs) =
     (if c = 61 then
        if 2 \<le> q \<and> 4 \<le> q + (pads + 1) then Some []
        else a2b q left (if 2 \<le> q then pads + 1 else pads) cs
      else case a2b_value c of
        None \<Rightarrow> a2b q left pads cs
      | Some v \<Rightarrow>
          if q = 0 then a2b 1 v 0 cs
          else if q = 1 then
            map_option (\<lambda>bs. of_nat (left * 4 + v div 16) # bs) (a2b 2 (v mod 16) 0 cs)
          else if q = 2 then
            map_option (\<lambda>bs. of_nat (left * 16 + v div 4) # bs) (a2b 3 (v mod 4) 0 cs)
          else map_option (\<lambda>bs. of_nat (left * 64 + v) # bs) (a2b 0 0 0 cs))"

definition urlsafe_b64decode :: "pystr \<Rightarrow> byte list option" where
  "urlsafe_b64decode s = a2b 0 0 0 (map urlsafe_translate s)"

text \<open>\<open>bytes.rstrip(b"=")\<close>.\<close>

definition rstrip_pad :: "pystr \<Rightarrow> pystr" where
  "rstrip_pad s = rev (dropWhile (\<lambda>c. c = 61) (rev s))"

lemma a2b_value_char: "v < 64 \<Longrightarrow> a2b_value (urlsafe_translate (b64_char v)) = Some v"
  by (auto simp: b64_char_def urlsafe_translate_def a2b_value_def)

lemma translate_char_not_pad: "v < 64 \<Longrightarrow> urlsafe_translate (b64_char v) \<noteq> 61"
  by (auto simp: b64_char_def urlsafe_translate_def)

lemma b64_alphabet_char: "v < 64 \<Longrightarrow> b64_alphabet (b64_char v)"
  by (auto simp: b64_char_def b64_alphabet_def)

lemma b64_alphabetE:
  assumes "b64_alphabet c"
  obtains v where "v < 64" "c = b64_char v"
proof -
  consider "65 \<le> c \<and> c \<le> 90" | "97 \<le> c \<and> c \<le> 122" | "48 \<le> c \<and> c \<le> 57" | "c = 95" | "c = 45"
    using assms by (auto simp: b64_alphabet_def)
  then show thesis
  proof cases
    case 1 then show ?thesis by (intro that [of "c - 65"]) (auto simp: b64_char_def)
  next
    case 2 then show ?thesis by (intro that [of "c - 71"]) (auto simp: b64_char_def)
  next
    case 3 then show ?thesis by (intro that [of "c + 4"]) (auto simp: b64_char_def)
  next
    case 4 then show ?thesis by (intro that [of 63]) (auto simp: b64_char_def)
  next
    case 5 then show ?thesis by (intro that [of 62]) (auto simp: b64_char_def)
  qed
qed

lemma a2b_start: "a2b 0 l p cs = a2b 0 0 0 cs"
  by (induction cs arbitrary: l p) (auto split: option.split)

text \<open>Splitting three bytes into four sextets and joining them again.\<close>

lemma join_sextets:
  fixes a b c :: nat
  assumes "a < 256" "b < 256" "c < 256"
  shows "a div 4 * 4 + (a mod 4 * 16 + b div 16) div 16 = a"
    and "(a mod 4 * 16 + b div 16) mod 16 * 16 + (b mod 16 * 4 + c div 64) div 4 = b"
    and "(b mod 16 * 4 + c div 64) mod 4 * 64 + c mod 64 = c"
proof -
  have "b div 16 < 16" "c div 64 < 4" using assms by auto
  then show "a div 4 * 4 + (a mod 4 * 16 + b div 16) div 16 = a"
    and "(a mod 4 * 16 + b div 16) mod 16 * 16 + (b mod 16 * 4 + c div 64) div 4 = b"
    and "(b mod 16 * 4 + c div 64) mod 4 * 64 + c mod 64 = c"
    by (simp_all add: div_add1_eq mod_add_eq [symmetric])
qed

text \<open>One group of four characters yields three bytes.\<close>

lemma a2b_quad:
  assumes "v0 < 64" "v1 < 64" "v2 < 64" "v3 < 64"
  shows "a2b 0 0 0 (map urlsafe_translate [b64_char v0, b64_char v1, b64_char v2, b64_char v3] @ cs)
    = map_option (\<lambda>bs. of_nat (v0 * 4 + v1 div 16) # of_nat (v1 mod 16 * 16 + v2 div 4) #
        of_nat (v2 mod 4 * 64 + v3) # bs) (a2b 0 0 0 cs)"
  using assms by (simp add: a2b_value_char translate_char_not_pad option.map_comp comp_def)

lemma a2b_encode:
  assumes "length bs = 3 * m"
  shows "a2b 0 0 0 (map urlsafe_translate (urlsafe_b64encode bs) @ cs)
    = map_option ((@) bs) (a2b 0 0 0 cs)"
  using assms
proof (induction m arbitrary: bs)
  case 0
  then show ?case by (simp add: option.map_ident)
next
  case (Suc m)
  then obtain a b c bs' where bs: "bs = a # b # c # bs'" "length bs' = 3 * m"
    by (auto simp: length_Suc_conv numeral_eq_Suc)
  define w0 w1 w2 w3 where w: "w0 = unat a div 4" "w1 = unat a mod 4 * 16 + unat b div 16"
    "w2 = unat b mod 16 * 4 + unat c div 64" "w3 = unat c mod 64"
  have lt: "w0 < 64" "w1 < 64" "w2 < 64" "w3 < 64"
    using unat_byte_less [of a] unat_byte_less [of b] unat_byte_less [of c]
    unfolding w by linarith+
  have "w0 * 4 + w1 div 16 = unat a" "w1 mod 16 * 16 + w2 div 4 = unat b" "w2 mod 4 * 64 + w3 = unat c"
    unfolding w by (rule join_sextets; rule unat_byte_less)+
  then have bytes: "(of_nat (w0 * 4 + w1 div 16) :: byte) = a" "(of_nat (w1 mod 16 * 16 + w2 div 4) :: byte) = b"
    "(of_nat (w2 mod 4 * 64 + w3) :: byte) = c"
    by simp_all
  from bs(1) have "map urlsafe_translate (urlsafe_b64encode bs) @ cs =
      map urlsafe_translate [b64_char w0, b64_char w1, b64_char w2, b64_char w3] @
        (map urlsafe_translate (urlsafe_b64encode bs') @ cs)"
    by (simp add: w)
  then show ?case
    using a2b_quad [OF lt] bytes Suc.IH [OF bs(2)] bs(1)
    by (simp add: option.map_comp comp_def)
qed


text \<open>The reverse direction: groups of alphabet characters come from encoding their bytes.\<close>

lemma split_sextets:
  fixes v0 v1 v2 v3 :: nat
  assumes "v0 < 64" "v1 < 64" "v2 < 64" "v3 < 64"
  shows "(v0 * 4 + v1 div 16) div 4 = v0"
    and "(v0 * 4 + v1 div 16) mod 4 * 16 + (v1 mod 16 * 16 + v2 div 4) div 16 = v1"
    and "(v1 mod 16 * 16 + v2 div 4) mod 16 * 4 + (v2 mod 4 * 64 + v3) div 64 = v2"
    and "(v2 mod 4 * 64 + v3) mod 64 = v3"
proof -
  have "v1 div 16 < 4" "v2 div 4 < 16" using assms by auto
  then show "(v0 * 4 + v1 div 16) div 4 = v0"
    and "(v0 * 4 + v1 div 16) mod 4 * 16 + (v1 mod 16 * 16 + v2 div 4) div 16 = v1"
    and "(v1 mod 16 * 16 + v2 div 4) mod 16 * 4 + (v2 mod 4 * 64 + v3) div 64 = v2"
    and "(v2 mod 4 * 64 + v3) mod 64 = v3"
    using assms by (simp_all add: div_add1_eq mod_add_eq [symmetric])
qed

lemma sextet_bytes_less:
  fixes v0 v1 v2 v3 :: nat
  assumes "v0 < 64" "v1 < 64" "v2 < 64" "v3 < 64"
  shows "v0 * 4 + v1 div 16 < 256" "v1 mod 16 * 16 + v2 div 4 < 256" "v2 mod 4 * 64 + v3 < 256"
proof -
  have "v1 div 16 < 4" "v2 div 4 < 16" "v1 mod 16 < 16" "v2 mod 4 < 4" using assms by auto
  then show "v0 * 4 + v1 div 16 < 256" "v1 mod 16 * 16 + v2 div 4 < 256" "v2 mod 4 * 64 + v3 < 256"
    using assms by linarith+
qed

lemma a2b_groups:
  assumes "length s = 4 * m" "\<forall>c\<in>set s. b64_alphabet c"
  shows "\<exists>bs. length bs = 3 * m \<and> urlsafe_b64encode bs = s \<and>
    (\<forall>cs. a2b 0 0 0 (map urlsafe_translate s @ cs) = map_option ((@) bs) (a2b 0 0 0 cs))"
  using assms
proof (induction m arbitrary: s)
  case 0
  then show ?case by (intro exI [of _ "[]"]) (simp add: option.map_ident)
next
  case (Suc m)
  then obtain c0 c1 c2 c3 s' where s: "s = c0 # c1 # c2 # c3 # s'" "length s' = 4 * m"
    by (auto simp: length_Suc_conv numeral_eq_Suc)
  from Suc.prems(2) s(1) have "b64_alphabet c0" "b64_alphabet c1" "b64_alphabet c2" "b64_alphabet c3"
    by simp_all
  then obtain v0 v1 v2 v3 where v: "v0 < 64" "v1 < 64" "v2 < 64" "v3 < 64"
    and c: "c0 = b64_char v0" "c1 = b64_char v1" "c2 = b64_char v2" "c3 = b64_char v3"
    by (elim b64_alphabetE) blast
  from Suc.IH [OF s(2)] Suc.prems(2) s(1) obtain bs' where bs': "length bs' = 3 * m"
    "urlsafe_b64encode bs' = s'"
    "\<And>cs. a2b 0 0 0 (map urlsafe_translate s' @ cs) = map_option ((@) bs') (a2b 0 0 0 cs)"
    by auto
  note lt = sextet_bytes_less [OF v]
  define b0 b1 b2 :: byte where "b0 = of_nat (v0 * 4 + v1 div 16)"
    and "b1 = of_nat (v1 mod 16 * 16 + v2 div 4)" and "b2 = of_nat (v2 mod 4 * 64 + v3)"
  define bs where "bs = b0 # b1 # b2 # bs'"
  have un: "unat b0 = v0 * 4 + v1 div 16" "unat b1 = v1 mod 16 * 16 + v2 div 4"
    "unat b2 = v2 mod 4 * 64 + v3"
    unfolding b0_def b1_def b2_def by (rule unat_of_nat_byte, rule lt)+
  have "urlsafe_b64encode bs = s"
    by (simp add: bs_def s(1) c bs'(2) split_sextets [OF v, folded un])
  moreover have "a2b 0 0 0 (map urlsafe_translate s @ cs) = map_option ((@) bs) (a2b 0 0 0 cs)" for cs
  proof -
    have "map urlsafe_translate s @ cs =
      map urlsafe_translate [b64_char v0, b64_char v1, b64_char v2, b64_char v3] @
        (map urlsafe_translate s' @ cs)"
      by (simp add: s(1) c)
    then show ?thesis
      by (simp only: a2b_quad [OF v, folded b0_def b1_def b2_def] bs'(3) option.map_comp bs_def)
        (rule option.map_cong0, simp)
  qed
  moreover have "length bs = 3 * Suc m" by (simp add: bs_def bs'(1))
  ultimately show ?case by blast
qed

text \<open>What is left after whole groups: with their padding, one to three characters never
  yield a whole number of groups.\<close>

lemma a2b_rest:
  assumes "\<forall>c\<in>set r. b64_alphabet c" "0 < length r" "length r < 4"
    "set pad \<subseteq> {10, 61}"
    "a2b 0 0 0 (map urlsafe_translate r @ pad) = Some bs"
  shows "length bs \<in> {1, 2}"
proof -
  have skip: "a2b q l p pad = Some bs \<Longrightarrow> bs = []" for q l p bs
    using assms(4)
    by (induction pad arbitrary: q l p bs) (auto simp: a2b_value_def split: if_splits)
  have one: "a2b 1 l p pad = None" for l p
    using assms(4) by (induction pad arbitrary: l p) (auto simp: a2b_value_def)
  consider c0 where "r = [c0]" | c0 c1 where "r = [c0, c1]" | c0 c1 c2 where "r = [c0, c1, c2]"
    using assms(2,3) by (auto simp: length_Suc_conv less_Suc_eq numeral_eq_Suc)
  then show ?thesis
  proof cases
    case (1 c0)
    with assms(1) obtain v0 where "v0 < 64" "c0 = b64_char v0" by (auto elim: b64_alphabetE)
    with 1 assms(5) one show ?thesis by (simp add: a2b_value_char translate_char_not_pad)
  next
    case (2 c0 c1)
    with assms(1) obtain v0 v1 where "v0 < 64" "c0 = b64_char v0" "v1 < 64" "c1 = b64_char v1"
      by (auto elim!: b64_alphabetE)
    with 2 assms(5) show ?thesis
      by (auto simp: a2b_value_char translate_char_not_pad dest: skip)
  next
    case (3 c0 c1 c2)
    with assms(1) obtain v0 v1 v2 where "v0 < 64" "c0 = b64_char v0" "v1 < 64" "c1 = b64_char v1"
      "v2 < 64" "c2 = b64_char v2"
      by (auto elim!: b64_alphabetE)
    with 3 assms(5) show ?thesis
      by (auto simp: a2b_value_char translate_char_not_pad dest: skip)
  qed
qed

subsection \<open>Encoding and decoding a position\<close>

text \<open>The range of a Python \<open>datetime\<close>, years 1 to 9999.\<close>

definition datetime_min :: int where
  "datetime_min = - 62135596800000000"

definition datetime_max :: int where
  "datetime_max = 253402300799999999"

definition valid_datetime :: "datetime \<Rightarrow> bool" where
  "valid_datetime t \<longleftrightarrow> datetime_min \<le> t \<and> t \<le> datetime_max"

text \<open>Every \<open>datetime\<close> fits the 64-bit field, so \<open>struct.pack\<close> never fails in
  \<open>encode_cursor\<close>.\<close>

definition encode_cursor :: "cursor_key \<Rightarrow> pystr" where
  "encode_cursor key =
     rstrip_pad (urlsafe_b64encode (pack_q (ck_created_at key) @ uuid_bytes (ck_id key)))"

text \<open>\<open>_BASE64URL_RE.match\<close>: Python's \<open>$\<close> also matches before a final newline.\<close>

definition base64url_re_match :: "pystr \<Rightarrow> bool" where
  "base64url_re_match s \<longleftrightarrow>
     (let s' = (if s \<noteq> [] \<and> List.last s = 10 then butlast s else s)
      in s' \<noteq> [] \<and> (\<forall>c\<in>set s'. b64_alphabet c))"

definition pad_cursor :: "pystr \<Rightarrow> pystr" where
  "pad_cursor cursor = cursor @ replicate (nat (- int (length cursor) mod 4)) 61"

definition decode_cursor :: "pystr \<Rightarrow> pagination_error + cursor_key" where
  "decode_cursor cursor =
     (if cursor = [] then Inl (PaginationError ''cursor'' ''cursor must not be empty'')
      else if \<not> base64url_re_match cursor
      then Inl (PaginationError ''cursor'' ''cursor is not valid base64url'')
      else case urlsafe_b64decode (pad_cursor cursor) of
        None \<Rightarrow> Inl (PaginationError ''cursor'' ''cursor is not valid base64url'')
      | Some payload \<Rightarrow>
          if length payload \<noteq> 24
          then Inl (PaginationError ''cursor'' ''cursor has an invalid length'')
          else
            let micros = unpack_q (take 8 payload); cursor_id = uuid_of_bytes (drop 8 payload)
            in if valid_datetime micros
               then Inr \<lparr>ck_created_at = micros, ck_id = cursor_id\<rparr>
               else Inl (PaginationError ''cursor'' ''cursor payload is corrupt''))"


lemma b64encode_shape:
  assumes "length bs = 3 * m"
  shows "length (urlsafe_b64encode bs) = 4 * m \<and> (\<forall>c\<in>set (urlsafe_b64encode bs). b64_alphabet c)"
  using assms
proof (induction m arbitrary: bs)
  case (Suc m)
  then obtain a b c bs' where bs: "bs = a # b # c # bs'" "length bs' = 3 * m"
    by (auto simp: length_Suc_conv numeral_eq_Suc)
  have "unat a div 4 < 64" "unat a mod 4 * 16 + unat b div 16 < 64"
    "unat b mod 16 * 4 + unat c div 64 < 64" "unat c mod 64 < 64"
    using unat_byte_less [of a] unat_byte_less [of b] unat_byte_less [of c] by linarith+
  with Suc.IH [OF bs(2)] bs(1) show ?case by (simp add: b64_alphabet_char)
qed simp

lemma alphabet_not_special: "b64_alphabet c \<Longrightarrow> c \<noteq> 10 \<and> c \<noteq> 61"
  by (auto simp: b64_alphabet_def)

lemma rstrip_pad_alphabet:
  "\<forall>c\<in>set s. b64_alphabet c \<Longrightarrow> rstrip_pad s = s"
  by (cases s rule: rev_cases) (auto simp: rstrip_pad_def dest: alphabet_not_special)

definition cursor_payload :: "cursor_key \<Rightarrow> byte list" where
  "cursor_payload key = pack_q (ck_created_at key) @ uuid_bytes (ck_id key)"

lemma length_cursor_payload [simp]: "length (cursor_payload key) = 24"
  by (simp add: cursor_payload_def)

lemma encode_cursor_eq: "encode_cursor key = urlsafe_b64encode (cursor_payload key)"
  using b64encode_shape [of "cursor_payload key" 8]
  by (simp add: encode_cursor_def cursor_payload_def rstrip_pad_alphabet)

lemma encode_cursor_shape:
  "length (encode_cursor key) = 32" "\<forall>c\<in>set (encode_cursor key). b64_alphabet c"
  using b64encode_shape [of "cursor_payload key" 8] by (simp_all add: encode_cursor_eq)

lemma decode_payload:
  assumes "\<forall>c\<in>set pad. c \<in> {10, 61}"
  shows "urlsafe_b64decode (encode_cursor key @ pad) = Some (cursor_payload key)"
proof -
  have "a2b 0 0 0 (map urlsafe_translate pad) = Some []"
    using assms by (induction pad) (auto simp: urlsafe_translate_def a2b_value_def)
  then show ?thesis
    using a2b_encode [of "cursor_payload key" 8 "map urlsafe_translate pad"]
    by (simp add: urlsafe_b64decode_def encode_cursor_eq)
qed

lemma valid_datetime_int64: "valid_datetime t \<Longrightarrow> - (2 ^ 63) \<le> t \<and> t < 2 ^ 63"
  by (simp add: valid_datetime_def datetime_min_def datetime_max_def)

lemma payload_fields:
  assumes "valid_datetime (ck_created_at key)"
  shows "unpack_q (take 8 (cursor_payload key)) = ck_created_at key"
    and "uuid_of_bytes (drop 8 (cursor_payload key)) = ck_id key"
  using valid_datetime_int64 [OF assms] by (simp_all add: cursor_payload_def unpack_pack)

lemma decode_encode_newline:
  assumes "valid_datetime (ck_created_at key)" "nl = [] \<or> nl = [10]"
  shows "decode_cursor (encode_cursor key @ nl) = Inr key"
proof -
  have ne: "encode_cursor key \<noteq> []" using encode_cursor_shape(1) [of key] by force
  then have "List.last (encode_cursor key) \<noteq> 10"
    using encode_cursor_shape(2) [of key] alphabet_not_special last_in_set by blast
  then have re: "base64url_re_match (encode_cursor key @ nl)"
    using assms(2) ne encode_cursor_shape(2) [of key] by (auto simp: base64url_re_match_def)
  have "urlsafe_b64decode (pad_cursor (encode_cursor key @ nl)) = Some (cursor_payload key)"
    using assms(2) decode_payload [of "nl @ replicate n 61" key for n]
    by (auto simp: pad_cursor_def)
  with re ne payload_fields [OF assms(1)] assms(1) show ?thesis
    by (simp add: decode_cursor_def Let_def)
qed

text \<open>What the decoder accepts.\<close>

lemma decode_cursor_alphabet:
  assumes "\<forall>c\<in>set s. b64_alphabet c" "set pad \<subseteq> {10, 61}"
    "urlsafe_b64decode (s @ pad) = Some payload" "length payload = 24"
  shows "urlsafe_b64encode payload = s"
proof -
  define m where "m = length s div 4"
  define t r where "t = take (4 * m) s" and "r = drop (4 * m) s"
  have s: "s = t @ r" "length t = 4 * m" "length r < 4"
    by (auto simp: t_def r_def m_def)
  from s(1) assms(1) have al: "\<forall>c\<in>set t. b64_alphabet c" "\<forall>c\<in>set r. b64_alphabet c" by auto
  from a2b_groups [OF s(2) al(1)] obtain bs where bs: "length bs = 3 * m" "urlsafe_b64encode bs = t"
    "\<And>cs. a2b 0 0 0 (map urlsafe_translate t @ cs) = map_option ((@) bs) (a2b 0 0 0 cs)"
    by blast
  have pad: "map urlsafe_translate pad = pad"
    using assms(2) by (induction pad) (auto simp: urlsafe_translate_def)
  from assms(3) obtain ds where ds: "a2b 0 0 0 (map urlsafe_translate r @ pad) = Some ds"
    "payload = bs @ ds"
    by (auto simp: urlsafe_b64decode_def s(1) bs(3) pad)
  show ?thesis
  proof (cases "r = []")
    case True
    have "a2b 0 0 0 pad = Some []"
      using assms(2) by (induction pad) (auto simp: a2b_value_def)
    with True ds s(1) bs(2) show ?thesis by simp
  next
    case False
    then have "length ds \<in> {1, 2}"
      using a2b_rest [OF al(2) _ s(3) assms(2) ds(1)] by simp
    with ds(2) bs(1) assms(4) have "3 * m + 1 = 24 \<or> 3 * m + 2 = 24" by auto
    then have False by presburger
    then show ?thesis ..
  qed
qed

text \<open>
  C25. A position survives encoding: decoding the token of any position whose time is a
  Python datetime gives the same time (to the microsecond) and the same 128-bit id.
\<close>

theorem decode_encode_cursor:
  assumes "valid_datetime (ck_created_at key)"
  shows "decode_cursor (encode_cursor key) = Inr key"
  using decode_encode_newline [OF assms, of "[]"] by simp

lemma decode_encode_cursor_witness:
  "decode_cursor (encode_cursor \<lparr>ck_created_at = 1700000000123456, ck_id = 42\<rparr>)
     = Inr \<lparr>ck_created_at = 1700000000123456, ck_id = 42\<rparr>"
  by (rule decode_encode_cursor) (simp add: valid_datetime_def datetime_min_def datetime_max_def)

text \<open>
  The decoder accepts exactly the tokens the encoder produces, each also with one
  trailing newline: a token is accepted with position \<open>key\<close> iff \<open>key\<close> has a representable
  time and the token is the encoding of \<open>key\<close>, possibly followed by a newline.  In
  particular it never accepts a token with any other foreign character, and never turns
  one into a different position.
\<close>

theorem decode_cursor_accepts_iff:
  "decode_cursor token = Inr key \<longleftrightarrow>
     valid_datetime (ck_created_at key) \<and>
     (token = encode_cursor key \<or> token = encode_cursor key @ [10])"
proof
  assume d: "decode_cursor token = Inr key"
  then obtain payload where p: "token \<noteq> []" "base64url_re_match token"
    "urlsafe_b64decode (pad_cursor token) = Some payload" "length payload = 24"
    "valid_datetime (unpack_q (take 8 payload))"
    "key = \<lparr>ck_created_at = unpack_q (take 8 payload), ck_id = uuid_of_bytes (drop 8 payload)\<rparr>"
    by (auto simp: decode_cursor_def Let_def split: if_splits option.splits)
  obtain s nl where s: "token = s @ nl" "nl = [] \<or> nl = [10]" "\<forall>c\<in>set s. b64_alphabet c"
  proof (cases "List.last token = 10")
    case True
    with p(1,2) have "\<forall>c\<in>set (butlast token). b64_alphabet c"
      by (auto simp: base64url_re_match_def Let_def)
    moreover have "token = butlast token @ [10]"
      using True p(1) append_butlast_last_id [of token] by simp
    ultimately show ?thesis by (intro that [of "butlast token" "[10]"]) auto
  next
    case False
    with p(1,2) show ?thesis by (intro that [of token "[]"]) (auto simp: base64url_re_match_def)
  qed
  have "urlsafe_b64encode payload = s"
    by (rule decode_cursor_alphabet [OF s(3) _ _ p(4), of "nl @ replicate (nat (- int (length token) mod 4)) 61"])
      (use s p(3) in \<open>auto simp: pad_cursor_def\<close>)
  moreover have "cursor_payload key = payload"
    using p(4) by (simp add: cursor_payload_def p(6) pack_unpack uuid_bytes_of_bytes)
  ultimately have "encode_cursor key = s" by (simp add: encode_cursor_eq)
  with s(1,2) p(5,6) show "valid_datetime (ck_created_at key) \<and>
      (token = encode_cursor key \<or> token = encode_cursor key @ [10])" by auto
next
  assume "valid_datetime (ck_created_at key) \<and>
    (token = encode_cursor key \<or> token = encode_cursor key @ [10])"
  then show "decode_cursor token = Inr key"
    using decode_encode_newline [of key "[]"] decode_encode_newline [of key "[10]"] by auto
qed

end
