(* ===== verification/Pagination.thy ===== *)
theory Pagination
  imports Cursor
begin

text \<open>
  Keyset pagination (\<^verbatim>\<open>app/core/pagination.py\<close>): limit validation, the keyset
  predicate and order, the look-ahead split and the response envelope.  The locale
  \<open>keyset_source\<close> is the contract of every paginated query of the services: the page
  is the look-ahead page of the visible rows.  Its lemmas show that walking the pages
  with the returned cursors visits every visible row once, in order.
\<close>

subsection \<open>The helper functions\<close>

definition DEFAULT_LIMIT :: int where "DEFAULT_LIMIT = 50"
definition MAX_LIMIT :: int where "MAX_LIMIT = 100"

definition resolve_limit :: "int option \<Rightarrow> pagination_error + int" where
  "resolve_limit raw_limit =
     (case raw_limit of
        None \<Rightarrow> Inr DEFAULT_LIMIT
      | Some l \<Rightarrow>
          if l < 1 then Inl (PaginationError ''limit'' ''limit must be a positive integer'')
          else Inr (min l MAX_LIMIT))"

definition key_pos :: "cursor_key \<Rightarrow> datetime \<times> uuid" where
  "key_pos k = (ck_created_at k, ck_id k)"

text \<open>\<open>keyset_predicate\<close>: the row comparison \<open>(created_at, id) < (c, i)\<close>.\<close>

definition keyset_predicate :: "('r \<Rightarrow> cursor_key) \<Rightarrow> cursor_key \<Rightarrow> 'r \<Rightarrow> bool" where
  "keyset_predicate key cursor r \<longleftrightarrow> key_pos (key r) < key_pos cursor"

text \<open>\<open>keyset_order_by\<close>: \<open>ORDER BY created_at DESC, id DESC\<close>.\<close>

definition keyset_order_by :: "('r \<Rightarrow> cursor_key) \<Rightarrow> 'r list \<Rightarrow> 'r list" where
  "keyset_order_by key rows = rev (sort_key (\<lambda>r. key_pos (key r)) rows)"

definition apply_keyset :: "('r \<Rightarrow> cursor_key) \<Rightarrow> cursor_key option \<Rightarrow> 'r list \<Rightarrow> 'r list" where
  "apply_keyset key cursor rows =
     keyset_order_by key
       (case cursor of None \<Rightarrow> rows | Some c \<Rightarrow> filter (keyset_predicate key c) rows)"

definition sql_limit :: "int \<Rightarrow> 'r list \<Rightarrow> 'r list" where
  "sql_limit n rows = take (nat n) rows"

definition split_keyset_page :: "'r list \<Rightarrow> int \<Rightarrow> 'r list \<times> bool" where
  "split_keyset_page rows limit = (take (nat limit) rows, int (length rows) > limit)"

record 'r page =
  items :: "'r list"
  next_cursor :: "pystr option"

definition build_page :: "'r list \<Rightarrow> bool \<Rightarrow> ('r \<Rightarrow> cursor_key) \<Rightarrow> 'r page" where
  "build_page rows has_more key =
     \<lparr>items = rows,
      next_cursor =
        (if has_more \<and> rows \<noteq> [] then Some (encode_cursor (key (List.last rows))) else None)\<rparr>"

definition paginate_rows :: "'r list \<Rightarrow> int \<Rightarrow> ('r \<Rightarrow> cursor_key) \<Rightarrow> 'r page" where
  "paginate_rows rows limit key =
     (case split_keyset_page rows limit of (page_rows, has_more) \<Rightarrow> build_page page_rows has_more key)"

text \<open>The query every service builds: keyset, order, \<open>LIMIT limit + 1\<close>, envelope.\<close>

definition keyset_page ::
  "('r \<Rightarrow> cursor_key) \<Rightarrow> 'r list \<Rightarrow> int \<Rightarrow> cursor_key option \<Rightarrow> 'r page" where
  "keyset_page key rows limit cursor =
     paginate_rows (sql_limit (limit + 1) (apply_keyset key cursor rows)) limit key"

lemmas [op_defs] = paginate_rows_def split_keyset_page_def build_page_def sql_limit_def

subsection \<open>Ordering\<close>

lemma set_keyset_order_by [simp]: "set (keyset_order_by key rows) = set rows"
  by (simp add: keyset_order_by_def)

lemma mset_keyset_order_by [simp]: "mset (keyset_order_by key rows) = mset rows"
  by (simp add: keyset_order_by_def)

lemma length_keyset_order_by [simp]: "length (keyset_order_by key rows) = length rows"
  by (simp add: keyset_order_by_def)

definition newest_first :: "('r \<Rightarrow> cursor_key) \<Rightarrow> 'r list \<Rightarrow> bool" where
  "newest_first key rows \<longleftrightarrow> sorted_wrt (\<lambda>r s. key_pos (key s) < key_pos (key r)) rows"

lemma key_pos_inj [simp]: "key_pos a = key_pos b \<longleftrightarrow> a = b"
  by (cases a; cases b) (simp add: key_pos_def)

lemma newest_first_order_by:
  assumes "distinct (map key rows)"
  shows "newest_first key (keyset_order_by key rows)"
proof -
  let ?f = "\<lambda>r. key_pos (key r)"
  have "distinct (map ?f rows)"
    using assms by (simp add: distinct_map inj_on_def)
  then have "distinct (map ?f (sort_key ?f rows))"
    by (metis distinct_map distinct_sort set_sort)
  moreover have "sorted (map ?f (sort_key ?f rows))" by simp
  ultimately have "sorted_wrt (<) (map ?f (sort_key ?f rows))"
    by (simp add: strict_sorted_iff)
  then have "sorted_wrt (\<lambda>r s. ?f r < ?f s) (sort_key ?f rows)"
    by (simp add: sorted_wrt_map)
  then show ?thesis by (simp add: newest_first_def keyset_order_by_def sorted_wrt_rev)
qed

lemma apply_keyset_filter:
  "apply_keyset key (Some c) rows = filter (keyset_predicate key c) (apply_keyset key None rows)"
  by (simp add: apply_keyset_def keyset_order_by_def rev_filter filter_sort [symmetric])

text \<open>In a strictly descending list, the rows before the position of the \<open>n\<close>-th row are
  those after it.\<close>

lemma filter_below_nth:
  assumes "newest_first key L" "0 < n" "n \<le> length L"
  shows "filter (keyset_predicate key (key (L ! (n - 1)))) L = drop n L"
proof -
  let ?c = "key (L ! (n - 1))"
  have L: "L = take n L @ drop n L" by simp
  have sw: "key_pos (key (L ! j)) < key_pos (key (L ! i))" if "i < j" "j < length L" for i j
    using assms(1) that by (simp add: newest_first_def sorted_wrt_iff_nth_less)
  have "filter (keyset_predicate key ?c) (take n L) = []"
  proof (rule filter_False, intro ballI)
    fix r assume "r \<in> set (take n L)"
    then obtain i where i: "i < n" "i < length L" "r = L ! i"
      by (auto simp: in_set_conv_nth)
    show "\<not> keyset_predicate key ?c r"
    proof (cases "i = n - 1")
      case False
      with i assms(2,3) have "key_pos ?c < key_pos (key r)" using sw [of i "n - 1"] by simp
      then show ?thesis by (simp add: keyset_predicate_def)
    qed (simp add: keyset_predicate_def i)
  qed
  moreover have "filter (keyset_predicate key ?c) (drop n L) = drop n L"
  proof (rule filter_True, intro ballI)
    fix r assume "r \<in> set (drop n L)"
    then obtain j where "j < length L - n" "r = L ! (n + j)"
      by (auto simp: in_set_conv_nth)
    then have j: "n + j < length L" "r = L ! (n + j)" by auto
    with assms(2) have "key_pos (key r) < key_pos ?c" using sw [of "n - 1" "n + j"] by simp
    then show "keyset_predicate key ?c r" by (simp add: keyset_predicate_def)
  qed
  ultimately show ?thesis by (metis L append_Nil filter_append)
qed

text \<open>Rows at or above the cursor do not change the page below it: rows inserted while a
  client walks neither repeat nor hide older rows.\<close>

lemma apply_keyset_new_rows:
  assumes "\<And>r. r \<in> set new \<Longrightarrow> \<not> key_pos (key r) < key_pos c"
  shows "apply_keyset key (Some c) (rows @ new) = apply_keyset key (Some c) rows"
proof -
  have "filter (keyset_predicate key c) new = []"
    using assms by (simp add: filter_empty_conv keyset_predicate_def)
  then show ?thesis by (simp add: apply_keyset_def)
qed


subsection \<open>Walking the pages\<close>

text \<open>A client that follows \<open>next_cursor\<close> until it is null.  The fuel bounds the number of
  requests; \<open>None\<close> is running out of it or a token the server rejects.\<close>

fun walk_pages :: "(cursor_key option \<Rightarrow> 'r page) \<Rightarrow> nat \<Rightarrow> cursor_key option \<Rightarrow> 'r list option" where
  "walk_pages fetch 0 c = None"
| "walk_pages fetch (Suc n) c =
     (case next_cursor (fetch c) of
        None \<Rightarrow> Some (items (fetch c))
      | Some token \<Rightarrow>
          (case decode_cursor token of
             Inl e \<Rightarrow> None
           | Inr k \<Rightarrow> map_option ((@) (items (fetch c))) (walk_pages fetch n (Some k))))"

text \<open>A listing served in pages: the page after the first \<open>n\<close> rows of the listing is cut from
  the rest of it.  How the query selects the rest from the cursor is the provider's matter.\<close>

locale cursor_listing =
  fixes page :: "'d \<Rightarrow> int \<Rightarrow> cursor_key option \<Rightarrow> 'r page"
    and listing :: "'d \<Rightarrow> 'r list"
    and key :: "'r \<Rightarrow> cursor_key"
    and invar :: "'d \<Rightarrow> bool"
  assumes page_rest: "invar d \<Longrightarrow> n \<le> length (listing d) \<Longrightarrow>
      n = 0 \<and> c = None \<or> 0 < n \<and> c = Some (key (listing d ! (n - 1))) \<Longrightarrow>
      page d limit c = paginate_rows (sql_limit (limit + 1) (drop n (listing d))) limit key"
    and valid_listing: "invar d \<Longrightarrow> r \<in> set (listing d) \<Longrightarrow> valid_datetime (ck_created_at (key r))"
begin

lemma page_from:
  assumes "invar d" "1 \<le> limit" "n \<le> length (listing d)"
    and c: "n = 0 \<and> c = None \<or> 0 < n \<and> c = Some (key (listing d ! (n - 1)))"
  defines "rest \<equiv> drop n (listing d)"
  shows "items (page d limit c) = take (nat limit) rest"
    and "next_cursor (page d limit c) =
      (if int (length rest) > limit
       then Some (encode_cursor (key (listing d ! (n + nat limit - 1)))) else None)"
proof -
  let ?L = "listing d"
  have "min (nat limit) (nat (limit + 1)) = nat limit"
    using assms(2) by simp
  then have it: "items (page d limit c) = take (nat limit) rest"
    and nx: "next_cursor (page d limit c) =
      (if int (length rest) > limit \<and> rest \<noteq> []
       then Some (encode_cursor (key (List.last (take (nat limit) rest)))) else None)"
    using assms(2) by (auto simp: page_rest [OF assms(1,3) c] op_defs rest_def [symmetric])
  show "items (page d limit c) = take (nat limit) rest" by (rule it)
  show "next_cursor (page d limit c) =
      (if int (length rest) > limit
       then Some (encode_cursor (key (?L ! (n + nat limit - 1)))) else None)"
  proof (cases "int (length rest) > limit")
    case True
    then have "List.last (take (nat limit) rest) = rest ! (nat limit - 1)"
      using assms(2) by (subst last_conv_nth) auto
    also have "\<dots> = ?L ! (n + nat limit - 1)"
      using assms(2,3) by (simp add: rest_def)
    finally show ?thesis using True assms(2) nx by auto
  qed (simp add: nx)
qed

lemma walk_from:
  assumes "invar d" "1 \<le> limit" "n \<le> length (listing d)" "length (listing d) - n < fuel"
    and "n = 0 \<and> c = None \<or> 0 < n \<and> c = Some (key (listing d ! (n - 1)))"
  shows "walk_pages (page d limit) fuel c = Some (drop n (listing d))"
  using assms(3,4,5)
proof (induction fuel arbitrary: n c)
  case (Suc fuel)
  let ?L = "listing d"
  note pf = page_from [OF assms(1,2) Suc.prems(1,3)]
  show ?case
  proof (cases "int (length (drop n ?L)) > limit")
    case True
    let ?m = "n + nat limit"
    have m: "?m \<le> length ?L" "length ?L - ?m < fuel" "0 < ?m"
      using True Suc.prems(1,2) assms(2) by auto
    then have "?m - 1 < length ?L" using assms(2) by simp
    then have "?L ! (?m - 1) \<in> set ?L" by simp
    then have dec: "decode_cursor (encode_cursor (key (?L ! (?m - 1)))) = Inr (key (?L ! (?m - 1)))"
      using decode_encode_newline [of _ "[]"] valid_listing [OF assms(1)] by simp
    have "walk_pages (page d limit) fuel (Some (key (?L ! (?m - 1)))) = Some (drop ?m ?L)"
      by (rule Suc.IH) (use m in auto)
    with True dec have "walk_pages (page d limit) (Suc fuel) c =
        Some (take (nat limit) (drop n ?L) @ drop ?m ?L)"
      by (simp add: pf)
    also have "take (nat limit) (drop n ?L) @ drop ?m ?L = drop n ?L"
      by (metis add.commute append_take_drop_id drop_drop)
    finally show ?thesis .
  next
    case False
    then show ?thesis using assms(2) by (simp add: pf)
  qed
qed simp

lemma walk_complete:
  assumes "invar d" "1 \<le> limit" "length (listing d) < fuel"
  shows "walk_pages (page d limit) fuel None = Some (listing d)"
  using walk_from [OF assms(1,2), of 0 fuel None] assms(3) by simp

end

text \<open>The generic \<open>(created_at, id)\<close> query is such a listing of the rows it may show.\<close>

locale keyset_source =
  fixes page :: "'d \<Rightarrow> int \<Rightarrow> cursor_key option \<Rightarrow> 'r page"
    and visible :: "'d \<Rightarrow> 'r list"
    and key :: "'r \<Rightarrow> cursor_key"
    and invar :: "'d \<Rightarrow> bool"
  assumes page_eq: "page d limit c = keyset_page key (visible d) limit c"
    and distinct_keys: "invar d \<Longrightarrow> distinct (map key (visible d))"
    and valid_keys: "invar d \<Longrightarrow> r \<in> set (visible d) \<Longrightarrow> valid_datetime (ck_created_at (key r))"

sublocale keyset_source \<subseteq> cursor_listing page "\<lambda>d. keyset_order_by key (visible d)" key invar
proof unfold_locales
  fix d n c limit
  let ?L = "keyset_order_by key (visible d)"
  assume d: "invar d" and n: "n \<le> length ?L"
    and c: "n = 0 \<and> c = None \<or> 0 < n \<and> c = Some (key (?L ! (n - 1)))"
  have nf: "newest_first key ?L"
    using newest_first_order_by distinct_keys [OF d] by blast
  have "apply_keyset key c (visible d) = drop n ?L"
    using c
  proof
    assume "0 < n \<and> c = Some (key (?L ! (n - 1)))"
    then show ?thesis
      using filter_below_nth [OF nf, of n] n
      by (simp add: apply_keyset_filter apply_keyset_def [where cursor = None])
  qed (simp add: apply_keyset_def)
  then show "page d limit c = paginate_rows (sql_limit (limit + 1) (drop n ?L)) limit key"
    by (simp add: page_eq keyset_page_def)
qed (simp add: valid_keys)

context keyset_source begin

lemma walk_visits_once:
  assumes "invar d" "1 \<le> limit" "length (visible d) < fuel"
  shows "\<exists>rows. walk_pages (page d limit) fuel None = Some rows
    \<and> mset rows = mset (visible d) \<and> newest_first key rows"
  using walk_complete [OF assms(1,2)] assms(3) newest_first_order_by distinct_keys [OF assms(1)]
  by auto

text \<open>Pages are bounded, hold visible rows only, and below the cursor only.\<close>

lemma page_bound:
  assumes "0 \<le> limit"
  shows "int (length (items (page d limit c))) \<le> limit"
  using assms by (auto simp: page_eq keyset_page_def op_defs)

lemma page_items_visible: "set (items (page d limit c)) \<subseteq> set (visible d)"
  by (auto simp: page_eq keyset_page_def op_defs apply_keyset_def dest!: in_set_takeD
      split: option.splits)

lemma page_items_below:
  "r \<in> set (items (page d limit (Some c))) \<Longrightarrow> key_pos (key r) < key_pos c"
  by (auto simp: page_eq keyset_page_def op_defs apply_keyset_def keyset_predicate_def
      dest!: in_set_takeD)

end

subsection \<open>Limits\<close>

text \<open>
  A client limit is resolved to a value between 1 and 100, or rejected: absent is 50,
  more than 100 is clamped, less than 1 is an error naming the limit field, and every
  other value is kept.
\<close>

theorem resolve_limit_cases:
  "resolve_limit raw =
     (case raw of
        None \<Rightarrow> Inr 50
      | Some l \<Rightarrow> if l < 1 then Inl (PaginationError ''limit'' ''limit must be a positive integer'')
                 else Inr (if 100 < l then 100 else l))
   \<and> (\<forall>l. resolve_limit raw = Inr l \<longrightarrow> 1 \<le> l \<and> l \<le> 100)"
  by (auto simp: resolve_limit_def DEFAULT_LIMIT_def MAX_LIMIT_def split: option.splits)

lemma resolve_limit_cases_witness:
  "resolve_limit (Some 250) = Inr 100 \<and> 1 \<le> (100::int) \<and> (100::int) \<le> 100"
proof -
  have "resolve_limit (Some 250) = Inr 100"
    by (simp add: resolve_limit_def MAX_LIMIT_def)
  with resolve_limit_cases [of "Some 250"] show ?thesis by auto
qed

end
