(* ===== verification/Schema.thy ===== *)
theory Schema
  imports Pagination
begin

text \<open>
  The relational store the services work on: one record per table (\<^verbatim>\<open>app/models\<close>), the
  enums, and the constraints of \<^verbatim>\<open>alembic/versions/0001_initial_schema.py\<close> that decide
  whether an \<open>INSERT\<close> succeeds.  A table is the list of its rows in an arbitrary physical
  order, so a query with an incomplete \<open>ORDER BY\<close> may break ties in any way.  The locale
  \<open>row_store\<close> is the contract of a table: lookup after insert, update and delete.
\<close>

subsection \<open>Enums\<close>

datatype channel_member_role = MEMBER | ADMIN

fun role_value :: "channel_member_role \<Rightarrow> string" where
  "role_value MEMBER = ''member''"
| "role_value ADMIN = ''admin''"

datatype attachment_kind = IMAGE | FILE | VIDEO

fun kind_value :: "attachment_kind \<Rightarrow> string" where
  "kind_value IMAGE = ''image''"
| "kind_value FILE = ''file''"
| "kind_value VIDEO = ''video''"

datatype invite_status = PENDING | ACCEPTED | REVOKED

subsection \<open>Rows\<close>

record user =
  u_id :: uuid
  u_username :: pystr
  u_email :: pystr
  u_hashed_password :: pystr
  u_first_name :: pystr
  u_last_name :: pystr
  u_avatar_url :: "pystr option"
  u_is_active :: bool
  u_is_system_admin :: bool
  u_must_change_password :: bool
  u_email_verified :: bool
  u_last_seen :: "datetime option"
  u_created_at :: datetime

record channel =
  c_id :: uuid
  c_name :: pystr
  c_is_private :: bool
  c_created_by :: uuid
  c_created_at :: datetime

record channel_member =
  cm_channel_id :: uuid
  cm_user_id :: uuid
  cm_role :: channel_member_role
  cm_joined_at :: datetime

record message =
  m_id :: uuid
  m_channel_id :: "uuid option"
  m_recipient_id :: "uuid option"
  m_sender_id :: uuid
  m_content :: pystr
  m_created_at :: datetime
  m_edited_at :: "datetime option"
  m_deleted_at :: "datetime option"

record attachment =
  a_id :: uuid
  a_message_id :: "uuid option"
  a_uploader_id :: uuid
  a_kind :: attachment_kind
  a_content_type :: pystr
  a_storage_key :: pystr
  a_filename :: pystr
  a_byte_size :: int
  a_created_at :: datetime

record invite =
  i_id :: uuid
  i_email :: pystr
  i_token_hash :: pystr
  i_status :: invite_status
  i_created_by :: uuid
  i_expires_at :: datetime
  i_accepted_at :: "datetime option"
  i_created_at :: datetime

record password_reset_token =
  t_id :: uuid
  t_user_id :: uuid
  t_token_hash :: pystr
  t_expires_at :: datetime
  t_used_at :: "datetime option"
  t_created_at :: datetime

record session =
  s_id :: uuid
  s_user_id :: uuid
  s_refresh_token_hash :: pystr
  s_user_agent :: "pystr option"
  s_ip_address :: "pystr option"
  s_issued_at :: datetime
  s_last_used_at :: "datetime option"
  s_expires_at :: datetime
  s_revoked_at :: "datetime option"

record database =
  tb_users :: "user list"
  tb_channels :: "channel list"
  tb_members :: "channel_member list"
  tb_messages :: "message list"
  tb_attachments :: "attachment list"
  tb_invites :: "invite list"
  tb_reset_tokens :: "password_reset_token list"
  tb_sessions :: "session list"

definition cm_key :: "channel_member \<Rightarrow> uuid \<times> uuid" where
  "cm_key m = (cm_channel_id m, cm_user_id m)"

subsection \<open>Statements\<close>

definition db_get :: "('r \<Rightarrow> 'k) \<Rightarrow> 'k \<Rightarrow> 'r list \<Rightarrow> 'r option" where
  "db_get pk k rows = find (\<lambda>r. pk r = k) rows"

definition db_update :: "('r \<Rightarrow> bool) \<Rightarrow> ('r \<Rightarrow> 'r) \<Rightarrow> 'r list \<Rightarrow> 'r list" where
  "db_update cond f rows = map (\<lambda>r. if cond r then f r else r) rows"

definition db_delete :: "('r \<Rightarrow> bool) \<Rightarrow> 'r list \<Rightarrow> 'r list" where
  "db_delete cond rows = filter (\<lambda>r. \<not> cond r) rows"

definition db_exists :: "('r \<Rightarrow> bool) \<Rightarrow> 'r list \<Rightarrow> bool" where
  "db_exists cond rows = list_ex cond rows"

text \<open>\<open>IntegrityError\<close> with the name of the violated constraint; the code distinguishes
  SQLSTATE 23505 (unique violation) from the others.\<close>

datatype integrity_error =
    UniqueViolation string
  | ForeignKeyViolation string
  | CheckViolation string

fun is_unique_violation :: "integrity_error \<Rightarrow> bool" where
  "is_unique_violation (UniqueViolation c) = True"
| "is_unique_violation _ = False"

text \<open>Constraints are tried in PostgreSQL's order: checks, unique indexes, foreign keys.
  \<open>lower\<close> is the database function of the two case-insensitive indexes on \<open>users\<close>.\<close>

definition ascii_lower :: "pystr \<Rightarrow> pystr" where
  "ascii_lower = map (\<lambda>c. if 65 \<le> c \<and> c \<le> 90 then c + 32 else c)"

definition btrim :: "pystr \<Rightarrow> pystr" where
  "btrim = strip_by (\<lambda>c. c = 32)"

lemma strip_btrim: "py_strip s \<noteq> [] \<Longrightarrow> btrim s \<noteq> []"
proof -
  have "py_isspace 32" by (simp add: py_isspace_def)
  then show "py_strip s \<noteq> [] \<Longrightarrow> btrim s \<noteq> []"
    unfolding py_strip_def btrim_def strip_by_Nil_iff by metis
qed

definition channel_name_char :: "nat \<Rightarrow> bool" where
  "channel_name_char c \<longleftrightarrow>
     65 \<le> c \<and> c \<le> 90 \<or> 97 \<le> c \<and> c \<le> 122 \<or> 48 \<le> c \<and> c \<le> 57 \<or> c = 32 \<or> c = 95 \<or> c = 45"

text \<open>\<open>CHECK (name ~ '^[A-Za-z0-9 _-]{1,80}$')\<close>: PostgreSQL's \<open>$\<close> is the end of the text.\<close>

definition ck_channels_name :: "pystr \<Rightarrow> bool" where
  "ck_channels_name name \<longleftrightarrow>
     1 \<le> length name \<and> length name \<le> 80 \<and> list_all channel_name_char name"

definition insert_user ::
  "(pystr \<Rightarrow> pystr) \<Rightarrow> user \<Rightarrow> database \<Rightarrow> integrity_error + database" where
  "insert_user lower u d =
     (if \<not> (1 \<le> length (u_username u) \<and> length (u_username u) \<le> 32)
      then Inl (CheckViolation ''ck_users_username_len'')
      else if btrim (u_first_name u) = [] \<or> btrim (u_last_name u) = []
      then Inl (CheckViolation ''ck_users_names_present'')
      else if db_exists (\<lambda>v. u_id v = u_id u) (tb_users d)
      then Inl (UniqueViolation ''pk_users'')
      else if db_exists (\<lambda>v. lower (u_username v) = lower (u_username u)) (tb_users d)
      then Inl (UniqueViolation ''uq_users_username_lower'')
      else if db_exists (\<lambda>v. lower (u_email v) = lower (u_email u)) (tb_users d)
      then Inl (UniqueViolation ''uq_users_email_lower'')
      else Inr (d\<lparr>tb_users := tb_users d @ [u]\<rparr>))"

definition insert_channel :: "channel \<Rightarrow> database \<Rightarrow> integrity_error + database" where
  "insert_channel c d =
     (if \<not> ck_channels_name (c_name c) then Inl (CheckViolation ''ck_channels_name'')
      else if db_exists (\<lambda>b. c_id b = c_id c) (tb_channels d)
      then Inl (UniqueViolation ''pk_channels'')
      else if db_exists (\<lambda>b. ascii_lower (c_name b) = ascii_lower (c_name c)) (tb_channels d)
      then Inl (UniqueViolation ''uq_channels_name_lower'')
      else if \<not> db_exists (\<lambda>u. u_id u = c_created_by c) (tb_users d)
      then Inl (ForeignKeyViolation ''fk_channels_created_by_users'')
      else Inr (d\<lparr>tb_channels := tb_channels d @ [c]\<rparr>))"

definition insert_member :: "channel_member \<Rightarrow> database \<Rightarrow> integrity_error + database" where
  "insert_member m d =
     (if db_exists (\<lambda>n. cm_key n = cm_key m) (tb_members d)
      then Inl (UniqueViolation ''pk_channel_members'')
      else if \<not> db_exists (\<lambda>c. c_id c = cm_channel_id m) (tb_channels d)
      then Inl (ForeignKeyViolation ''fk_channel_members_channel_id_channels'')
      else if \<not> db_exists (\<lambda>u. u_id u = cm_user_id m) (tb_users d)
      then Inl (ForeignKeyViolation ''fk_channel_members_user_id_users'')
      else Inr (d\<lparr>tb_members := tb_members d @ [m]\<rparr>))"

definition ck_messages_target_xor :: "message \<Rightarrow> bool" where
  "ck_messages_target_xor m \<longleftrightarrow>
     (case (m_channel_id m, m_recipient_id m) of
        (Some c, None) \<Rightarrow> True
      | (None, Some r) \<Rightarrow> r \<noteq> m_sender_id m
      | _ \<Rightarrow> False)"

definition ck_messages_content :: "pystr \<Rightarrow> bool" where
  "ck_messages_content content \<longleftrightarrow> length content \<le> 4000 \<and> btrim content \<noteq> []"

definition fk_ok :: "('r \<Rightarrow> uuid) \<Rightarrow> uuid option \<Rightarrow> 'r list \<Rightarrow> bool" where
  "fk_ok pk k rows = (case k of None \<Rightarrow> True | Some v \<Rightarrow> db_exists (\<lambda>r. pk r = v) rows)"

definition insert_message :: "message \<Rightarrow> database \<Rightarrow> integrity_error + database" where
  "insert_message m d =
     (if \<not> ck_messages_target_xor m then Inl (CheckViolation ''ck_messages_target_xor'')
      else if \<not> ck_messages_content (m_content m) then Inl (CheckViolation ''ck_messages_content'')
      else if db_exists (\<lambda>n. m_id n = m_id m) (tb_messages d)
      then Inl (UniqueViolation ''pk_messages'')
      else if \<not> fk_ok c_id (m_channel_id m) (tb_channels d)
      then Inl (ForeignKeyViolation ''fk_messages_channel_id_channels'')
      else if \<not> fk_ok u_id (m_recipient_id m) (tb_users d)
      then Inl (ForeignKeyViolation ''fk_messages_recipient_id_users'')
      else if \<not> fk_ok u_id (Some (m_sender_id m)) (tb_users d)
      then Inl (ForeignKeyViolation ''fk_messages_sender_id_users'')
      else Inr (d\<lparr>tb_messages := tb_messages d @ [m]\<rparr>))"

fun size_cap :: "attachment_kind \<Rightarrow> int" where
  "size_cap IMAGE = 10485760"
| "size_cap FILE = 52428800"
| "size_cap VIDEO = 209715200"

definition insert_attachment :: "attachment \<Rightarrow> database \<Rightarrow> integrity_error + database" where
  "insert_attachment a d =
     (if \<not> 0 < a_byte_size a then Inl (CheckViolation ''ck_attachments_size_positive'')
      else if \<not> a_byte_size a \<le> size_cap (a_kind a)
      then Inl (CheckViolation ''ck_attachments_size_cap'')
      else if db_exists (\<lambda>b. a_id b = a_id a) (tb_attachments d)
      then Inl (UniqueViolation ''pk_attachments'')
      else if \<not> fk_ok m_id (a_message_id a) (tb_messages d)
      then Inl (ForeignKeyViolation ''fk_attachments_message_id_messages'')
      else if \<not> fk_ok u_id (Some (a_uploader_id a)) (tb_users d)
      then Inl (ForeignKeyViolation ''fk_attachments_uploader_id_users'')
      else Inr (d\<lparr>tb_attachments := tb_attachments d @ [a]\<rparr>))"

definition insert_invite :: "invite \<Rightarrow> database \<Rightarrow> integrity_error + database" where
  "insert_invite i d =
     (if db_exists (\<lambda>j. i_id j = i_id i) (tb_invites d) then Inl (UniqueViolation ''pk_invites'')
      else if db_exists (\<lambda>j. i_token_hash j = i_token_hash i) (tb_invites d)
      then Inl (UniqueViolation ''uq_invites_token_hash'')
      else if \<not> fk_ok u_id (Some (i_created_by i)) (tb_users d)
      then Inl (ForeignKeyViolation ''fk_invites_created_by_users'')
      else Inr (d\<lparr>tb_invites := tb_invites d @ [i]\<rparr>))"

definition insert_reset_token ::
  "password_reset_token \<Rightarrow> database \<Rightarrow> integrity_error + database" where
  "insert_reset_token t d =
     (if db_exists (\<lambda>s. t_id s = t_id t) (tb_reset_tokens d)
      then Inl (UniqueViolation ''pk_password_reset_tokens'')
      else if db_exists (\<lambda>s. t_token_hash s = t_token_hash t) (tb_reset_tokens d)
      then Inl (UniqueViolation ''uq_prt_token_hash'')
      else if \<not> fk_ok u_id (Some (t_user_id t)) (tb_users d)
      then Inl (ForeignKeyViolation ''fk_password_reset_tokens_user_id_users'')
      else Inr (d\<lparr>tb_reset_tokens := tb_reset_tokens d @ [t]\<rparr>))"

definition insert_session :: "session \<Rightarrow> database \<Rightarrow> integrity_error + database" where
  "insert_session s d =
     (if db_exists (\<lambda>t. s_id t = s_id s) (tb_sessions d) then Inl (UniqueViolation ''pk_sessions'')
      else if db_exists (\<lambda>t. s_refresh_token_hash t = s_refresh_token_hash s) (tb_sessions d)
      then Inl (UniqueViolation ''uq_sessions_refresh_hash'')
      else if \<not> fk_ok u_id (Some (s_user_id s)) (tb_users d)
      then Inl (ForeignKeyViolation ''fk_sessions_user_id_users'')
      else Inr (d\<lparr>tb_sessions := tb_sessions d @ [s]\<rparr>))"

lemmas insert_defs =
  insert_user_def insert_channel_def insert_member_def insert_message_def insert_attachment_def
  insert_invite_def insert_reset_token_def insert_session_def

subsection \<open>Table access\<close>

definition get_user :: "uuid \<Rightarrow> database \<Rightarrow> user option" where
  "get_user k d = db_get u_id k (tb_users d)"
definition get_channel :: "uuid \<Rightarrow> database \<Rightarrow> channel option" where
  "get_channel k d = db_get c_id k (tb_channels d)"
definition get_member :: "uuid \<times> uuid \<Rightarrow> database \<Rightarrow> channel_member option" where
  "get_member k d = db_get cm_key k (tb_members d)"
definition get_message :: "uuid \<Rightarrow> database \<Rightarrow> message option" where
  "get_message k d = db_get m_id k (tb_messages d)"
definition get_attachment :: "uuid \<Rightarrow> database \<Rightarrow> attachment option" where
  "get_attachment k d = db_get a_id k (tb_attachments d)"
definition get_invite :: "uuid \<Rightarrow> database \<Rightarrow> invite option" where
  "get_invite k d = db_get i_id k (tb_invites d)"
definition get_reset_token :: "uuid \<Rightarrow> database \<Rightarrow> password_reset_token option" where
  "get_reset_token k d = db_get t_id k (tb_reset_tokens d)"
definition get_session :: "uuid \<Rightarrow> database \<Rightarrow> session option" where
  "get_session k d = db_get s_id k (tb_sessions d)"

lemmas get_defs =
  get_user_def get_channel_def get_member_def get_message_def get_attachment_def
  get_invite_def get_reset_token_def get_session_def

definition update_users :: "(user \<Rightarrow> bool) \<Rightarrow> (user \<Rightarrow> user) \<Rightarrow> database \<Rightarrow> database" where
  "update_users cond f d = d\<lparr>tb_users := db_update cond f (tb_users d)\<rparr>"
definition update_members ::
  "(channel_member \<Rightarrow> bool) \<Rightarrow> (channel_member \<Rightarrow> channel_member) \<Rightarrow> database \<Rightarrow> database" where
  "update_members cond f d = d\<lparr>tb_members := db_update cond f (tb_members d)\<rparr>"
definition update_messages ::
  "(message \<Rightarrow> bool) \<Rightarrow> (message \<Rightarrow> message) \<Rightarrow> database \<Rightarrow> database" where
  "update_messages cond f d = d\<lparr>tb_messages := db_update cond f (tb_messages d)\<rparr>"
definition update_attachments ::
  "(attachment \<Rightarrow> bool) \<Rightarrow> (attachment \<Rightarrow> attachment) \<Rightarrow> database \<Rightarrow> database" where
  "update_attachments cond f d = d\<lparr>tb_attachments := db_update cond f (tb_attachments d)\<rparr>"
definition update_invites ::
  "(invite \<Rightarrow> bool) \<Rightarrow> (invite \<Rightarrow> invite) \<Rightarrow> database \<Rightarrow> database" where
  "update_invites cond f d = d\<lparr>tb_invites := db_update cond f (tb_invites d)\<rparr>"
definition update_reset_tokens ::
  "(password_reset_token \<Rightarrow> bool) \<Rightarrow> (password_reset_token \<Rightarrow> password_reset_token) \<Rightarrow>
   database \<Rightarrow> database" where
  "update_reset_tokens cond f d = d\<lparr>tb_reset_tokens := db_update cond f (tb_reset_tokens d)\<rparr>"
definition update_sessions ::
  "(session \<Rightarrow> bool) \<Rightarrow> (session \<Rightarrow> session) \<Rightarrow> database \<Rightarrow> database" where
  "update_sessions cond f d = d\<lparr>tb_sessions := db_update cond f (tb_sessions d)\<rparr>"

definition delete_members :: "(channel_member \<Rightarrow> bool) \<Rightarrow> database \<Rightarrow> database" where
  "delete_members cond d = d\<lparr>tb_members := db_delete cond (tb_members d)\<rparr>"
definition delete_attachments :: "(attachment \<Rightarrow> bool) \<Rightarrow> database \<Rightarrow> database" where
  "delete_attachments cond d = d\<lparr>tb_attachments := db_delete cond (tb_attachments d)\<rparr>"

lemmas table_defs =
  update_users_def update_members_def update_messages_def update_attachments_def
  update_invites_def update_reset_tokens_def update_sessions_def
  delete_members_def delete_attachments_def

subsection \<open>Laws of the statements\<close>

lemma find_SomeD: "find P xs = Some x \<Longrightarrow> x \<in> set xs \<and> P x"
  by (induction xs) (auto split: if_splits)

lemma find_snoc: "\<forall>x\<in>set xs. \<not> P x \<Longrightarrow> P y \<Longrightarrow> find P (xs @ [y]) = Some y"
  by (induction xs) auto

lemma db_get_Some:
  "distinct (map pk rows) \<Longrightarrow> db_get pk k rows = Some r \<longleftrightarrow> r \<in> set rows \<and> pk r = k"
  by (induction rows) (auto simp: db_get_def rev_image_eqI)

lemma db_get_None: "db_get pk k rows = None \<longleftrightarrow> k \<notin> pk ` set rows"
  by (auto simp: db_get_def find_None_iff)

lemma db_get_SomeD: "db_get pk k rows = Some r \<Longrightarrow> r \<in> set rows \<and> pk r = k"
  by (auto simp: db_get_def find_Some_iff)

lemma db_get_append:
  "db_get pk k (rows @ [r]) =
     (case db_get pk k rows of Some s \<Rightarrow> Some s | None \<Rightarrow> if pk r = k then Some r else None)"
  by (induction rows) (auto simp: db_get_def)

lemma db_get_update:
  assumes "\<And>r. pk (f r) = pk r"
  shows "db_get pk k (db_update c f rows) = map_option (\<lambda>r. if c r then f r else r) (db_get pk k rows)"
  using assms by (induction rows) (auto simp: db_get_def db_update_def)

lemma db_exists_iff [simp]: "db_exists c rows \<longleftrightarrow> (\<exists>r\<in>set rows. c r)"
  by (simp add: db_exists_def list_ex_iff)

lemma set_db_update [simp]: "set (db_update c f rows) = (\<lambda>r. if c r then f r else r) ` set rows"
  by (simp add: db_update_def)

lemma set_db_delete [simp]: "set (db_delete c rows) = {r \<in> set rows. \<not> c r}"
  by (auto simp: db_delete_def)

lemma db_get_delete:
  assumes "distinct (map pk rows)"
  shows "db_get pk k (db_delete c rows) =
    (case db_get pk k rows of Some r \<Rightarrow> if c r then None else Some r | None \<Rightarrow> None)"
proof (cases "db_get pk k rows")
  case None
  then have "db_get pk k (db_delete c rows) = None" by (auto simp: db_get_None)
  with None show ?thesis by simp
next
  case (Some r)
  then have r: "r \<in> set rows" "pk r = k" by (auto dest: db_get_SomeD)
  have only: "s = r" if "s \<in> set rows" "pk s = k" for s
    using assms that r by (auto simp: distinct_map inj_on_def)
  have del: "distinct (map pk (db_delete c rows))"
    using assms by (simp add: db_delete_def distinct_map inj_on_def)
  show ?thesis
  proof (cases "c r")
    case True
    with only have "db_get pk k (db_delete c rows) = None" by (auto simp: db_get_None)
    with Some True show ?thesis by simp
  next
    case False
    with r have "db_get pk k (db_delete c rows) = Some r"
      by (simp add: db_get_Some [OF del])
    with Some False show ?thesis by simp
  qed
qed

lemma map_db_update [simp]:
  assumes "\<And>r. g (f r) = g r"
  shows "map g (db_update c f rows) = map g rows"
  using assms by (auto simp: db_update_def)

lemma distinct_map_db_delete [simp]:
  "distinct (map g rows) \<Longrightarrow> distinct (map g (db_delete c rows))"
  by (simp add: db_delete_def distinct_map inj_on_def)

lemma fk_ok_simps [simp]:
  "fk_ok pk None rows"
  "fk_ok pk (Some k) rows \<longleftrightarrow> k \<in> pk ` set rows"
  by (auto simp: fk_ok_def)

text \<open>A join whose inner blocks have at most one row keeps keys distinct.\<close>

lemma apart: "B \<subseteq> H \<Longrightarrow> a \<notin> H \<Longrightarrow> A \<subseteq> {a} \<Longrightarrow> A \<inter> B = {}"
  by auto

lemma distinct_join:
  assumes "\<forall>x\<in>set xs. length (f x) \<le> 1 \<and> (\<forall>y\<in>set (f x). g y = h x)"
    and "distinct (map h xs)"
  shows "distinct (map g (concat (map f xs)))"
  using assms
proof (induction xs)
  case Nil show ?case by simp
next
  case (Cons x xs)
  have len: "length (f x) \<le> 1" and hx: "\<forall>y\<in>set (f x). g y = h x"
    and tl: "\<forall>z\<in>set xs. \<forall>y\<in>set (f z). g y = h z"
    using Cons.prems(1) by auto
  have 1: "distinct (map g (f x))" using len by (cases "f x") auto
  have 2: "distinct (map g (concat (map f xs)))"
    using Cons.prems by (intro Cons.IH) auto
  have "g ` set (concat (map f xs)) \<subseteq> h ` set xs"
  proof
    fix v assume "v \<in> g ` set (concat (map f xs))"
    then obtain y z where "z \<in> set xs" "y \<in> set (f z)" "v = g y" by auto
    moreover from this have "g y = h z" using tl by blast
    ultimately show "v \<in> h ` set xs" by blast
  qed
  moreover have "h x \<notin> h ` set xs" using Cons.prems(2) by simp
  moreover have "g ` set (f x) \<subseteq> {h x}" using hx by (intro image_subsetI) simp
  ultimately have "g ` set (f x) \<inter> g ` set (concat (map f xs)) = {}"
    by (rule apart)
  with 1 2 show ?case by (simp only: list.map concat.simps map_append distinct_append set_map simp_thms)
qed

lemma filter_by_key_le_1:
  assumes "distinct (map pk rows)" "\<And>r. P r \<Longrightarrow> pk r = k"
  shows "length (filter P rows) \<le> 1"
proof -
  have dist: "distinct (map pk (filter P rows))" using assms(1) by (rule distinct_map_filter)
  have "set (map pk (filter P rows)) \<subseteq> {k}" using assms(2) by auto
  then have "card (set (map pk (filter P rows))) \<le> card {k}" by (intro card_mono) auto
  then show ?thesis using distinct_card [OF dist] by simp
qed

subsection \<open>The contract of a table\<close>

text \<open>\<open>get\<close>, \<open>ins\<close>, \<open>upd\<close> are the point lookup, the insert and the update of one table of a
  state \<open>'d\<close>; \<open>rows\<close> its rows and \<open>pk\<close> its primary key.\<close>

locale row_store =
  fixes get :: "'k \<Rightarrow> 'd \<Rightarrow> 'r option"
    and ins :: "'r \<Rightarrow> 'd \<Rightarrow> integrity_error + 'd"
    and upd :: "('r \<Rightarrow> bool) \<Rightarrow> ('r \<Rightarrow> 'r) \<Rightarrow> 'd \<Rightarrow> 'd"
    and pk :: "'r \<Rightarrow> 'k"
    and rows :: "'d \<Rightarrow> 'r list"
  assumes get_rows: "get k d = db_get pk k (rows d)"
    and ins_rows: "ins r d = Inr d' \<Longrightarrow> rows d' = rows d @ [r] \<and> pk r \<notin> pk ` set (rows d)"
    and upd_rows: "rows (upd c f d) = db_update c f (rows d)"
begin

lemma ins_distinct:
  "ins r d = Inr d' \<Longrightarrow> distinct (map pk (rows d)) \<Longrightarrow> distinct (map pk (rows d'))"
  by (auto dest: ins_rows)

lemma upd_distinct:
  "(\<And>r. pk (f r) = pk r) \<Longrightarrow> distinct (map pk (rows d)) \<Longrightarrow> distinct (map pk (rows (upd c f d)))"
  by (simp add: upd_rows)

lemma get_ins:
  "ins r d = Inr d' \<Longrightarrow> get k d' = (if k = pk r then Some r else get k d)"
proof -
  assume "ins r d = Inr d'"
  then have *: "rows d' = rows d @ [r]" "pk r \<notin> pk ` set (rows d)"
    by (auto dest: ins_rows)
  show ?thesis
  proof (cases "db_get pk k (rows d)")
    case None
    with * show ?thesis by (auto simp: get_rows db_get_append)
  next
    case (Some s)
    then have "k \<noteq> pk r" using *(2) by (metis db_get_SomeD image_eqI)
    with Some *(1) show ?thesis by (simp add: get_rows db_get_append)
  qed
qed

lemma get_upd:
  "(\<And>r. pk (f r) = pk r) \<Longrightarrow>
   get k (upd c f d) = map_option (\<lambda>r. if c r then f r else r) (get k d)"
  by (simp add: get_rows upd_rows db_get_update)

lemma ins_existing:
  assumes "get (pk r) d \<noteq> None"
  shows "\<exists>e. ins r d = Inl e"
proof (rule ccontr)
  assume "\<nexists>e. ins r d = Inl e"
  then obtain d' where "ins r d = Inr d'" by (cases "ins r d") auto
  with assms show False by (auto dest!: ins_rows simp: get_rows db_get_None)
qed

lemma get_pk: "get k d = Some r \<Longrightarrow> pk r = k \<and> r \<in> set (rows d)"
  by (auto simp: get_rows dest: db_get_SomeD)

lemma get_mem: "distinct (map pk (rows d)) \<Longrightarrow> r \<in> set (rows d) \<Longrightarrow> get (pk r) d = Some r"
  by (simp add: get_rows db_get_Some)

end

text \<open>Deleting rows is part of the contract of some tables only.\<close>

locale deletable_store = row_store +
  fixes del :: "('c \<Rightarrow> bool) \<Rightarrow> 'b \<Rightarrow> 'b"
  assumes del_rows: "rows (del c d) = db_delete c (rows d)"
begin

lemma del_distinct: "distinct (map pk (rows d)) \<Longrightarrow> distinct (map pk (rows (del c d)))"
  by (simp add: del_rows)

lemma get_del:
  "distinct (map pk (rows d)) \<Longrightarrow>
   get k (del c d) = (case get k d of Some r \<Rightarrow> if c r then None else Some r | None \<Rightarrow> None)"
  by (simp add: get_rows del_rows db_get_delete)

end

interpretation user_row: row_store get_user "insert_user lower" update_users u_id tb_users
  for lower
  by unfold_locales (auto simp: get_defs insert_defs table_defs split: if_splits)

interpretation member_row: deletable_store get_member insert_member update_members cm_key tb_members
    delete_members
  by unfold_locales (auto simp: get_defs insert_defs table_defs split: if_splits)

interpretation message_row: row_store get_message insert_message update_messages m_id tb_messages
  by unfold_locales (auto simp: get_defs insert_defs table_defs split: if_splits)

interpretation attachment_row: deletable_store get_attachment insert_attachment update_attachments
    a_id tb_attachments delete_attachments
  by unfold_locales (auto simp: get_defs insert_defs table_defs split: if_splits)

interpretation invite_row: row_store get_invite insert_invite update_invites i_id tb_invites
  by unfold_locales (auto simp: get_defs insert_defs table_defs split: if_splits)

interpretation reset_token_row: row_store get_reset_token insert_reset_token update_reset_tokens
    t_id tb_reset_tokens
  by unfold_locales (auto simp: get_defs insert_defs table_defs split: if_splits)

interpretation session_row: row_store get_session insert_session update_sessions s_id tb_sessions
  by unfold_locales (auto simp: get_defs insert_defs table_defs split: if_splits)

lemma insert_member_frame:
  "insert_member m d = Inr d' \<Longrightarrow> d' = d\<lparr>tb_members := tb_members d @ [m]\<rparr>"
  by (simp add: insert_member_def split: if_splits)

end
