(* ===== verification/Channels.thy ===== *)
theory Channels
  imports Schema
begin

text \<open>
  Channels and memberships (\<^verbatim>\<open>app/services/channels.py\<close>): creation, views, listings, the
  membership mutations and the succession of a sole admin.  An operation that reads before
  it writes takes \<open>others\<close>, what concurrent transactions commit between its read and its
  write (the session runs at read committed); \<open>others = id\<close> is the run without interference.
\<close>

subsection \<open>Names, counts and creation\<close>

text \<open>\<open>re.compile(r"^[A-Za-z0-9 _-]{1,80}$").match\<close>: Python's \<open>$\<close> also matches before a
  newline that ends the text.\<close>

definition is_valid_channel_name :: "pystr \<Rightarrow> bool" where
  "is_valid_channel_name name \<longleftrightarrow>
     ck_channels_name name
     \<or> (name \<noteq> [] \<and> List.last name = 10 \<and> ck_channels_name (butlast name))"

definition count_channel_members :: "uuid \<Rightarrow> database \<Rightarrow> int" where
  "count_channel_members channel_id d =
     int (length (filter (\<lambda>m. cm_channel_id m = channel_id) (tb_members d)))"

text \<open>The derived table \<open>channel_id \<mapsto> count\<close>; the outer join with \<open>coalesce(..., 0)\<close> reads it.\<close>

definition member_count_subquery :: "database \<Rightarrow> (uuid \<times> int) list" where
  "member_count_subquery d =
     map (\<lambda>c. (c, count_channel_members c d)) (remdups (map cm_channel_id (tb_members d)))"

definition coalesce_count :: "(uuid \<times> int) list \<Rightarrow> uuid \<Rightarrow> int" where
  "coalesce_count sub c = (case map_of sub c of None \<Rightarrow> 0 | Some n \<Rightarrow> n)"

definition create_channel ::
  "uuid \<Rightarrow> datetime \<Rightarrow> pystr \<Rightarrow> bool \<Rightarrow> uuid \<Rightarrow> database \<Rightarrow>
   integrity_error + channel \<times> database" where
  "create_channel new_id now name is_private created_by d =
     (let channel = \<lparr>c_id = new_id, c_name = name, c_is_private = is_private,
                     c_created_by = created_by, c_created_at = now\<rparr>
      in and_then (insert_channel channel d) (\<lambda>d1.
         and_then (insert_member \<lparr>cm_channel_id = c_id channel, cm_user_id = created_by,
                                  cm_role = ADMIN, cm_joined_at = now\<rparr> d1) (\<lambda>d2.
         Inr (channel, d2))))"

definition get_membership :: "uuid \<Rightarrow> uuid \<Rightarrow> database \<Rightarrow> channel_member option" where
  "get_membership channel_id user_id d = get_member (channel_id, user_id) d"

subsection \<open>Views and listings\<close>

record channel_view =
  v_channel :: channel
  v_member_count :: int
  v_my_role :: "channel_member_role option"

definition get_channel_view :: "uuid \<Rightarrow> uuid \<Rightarrow> database \<Rightarrow> channel_view option" where
  "get_channel_view channel_id caller_id d =
     (case get_channel channel_id d of
        None \<Rightarrow> None
      | Some channel \<Rightarrow>
          (let membership = get_member (channel_id, caller_id) d
           in if c_is_private channel \<and> membership = None then None
              else Some \<lparr>v_channel = channel,
                         v_member_count = count_channel_members channel_id d,
                         v_my_role = map_option cm_role membership\<rparr>))"

record public_channel_page =
  pc_rows :: "(channel \<times> int) list"
  pc_total :: int

definition sql_offset :: "int \<Rightarrow> 'r list \<Rightarrow> 'r list" where
  "sql_offset n rows = drop (nat n) rows"

definition public_filter :: "uuid \<Rightarrow> database \<Rightarrow> channel \<Rightarrow> bool" where
  "public_filter caller_id d c \<longleftrightarrow>
     \<not> c_is_private c \<and>
     c_id c \<notin> set (map cm_channel_id (filter (\<lambda>m. cm_user_id m = caller_id) (tb_members d)))"

definition list_public_channels :: "uuid \<Rightarrow> int \<Rightarrow> int \<Rightarrow> database \<Rightarrow> public_channel_page" where
  "list_public_channels caller_id limit offset d =
     (let selected = filter (public_filter caller_id d) (tb_channels d);
          sub = member_count_subquery d
      in \<lparr>pc_rows = map (\<lambda>c. (c, coalesce_count sub (c_id c)))
            (sql_limit limit (sql_offset offset
              (sort_key (\<lambda>c. (c_created_at c, c_id c)) selected))),
          pc_total = int (length selected)\<rparr>)"

text \<open>The inner join on the caller's own memberships.\<close>

definition my_channel_rows :: "uuid \<Rightarrow> database \<Rightarrow> channel_view list" where
  "my_channel_rows caller_id d =
     concat (map (\<lambda>c.
       map (\<lambda>m. \<lparr>v_channel = c,
                 v_member_count = coalesce_count (member_count_subquery d) (c_id c),
                 v_my_role = Some (cm_role m)\<rparr>)
         (filter (\<lambda>m. cm_channel_id m = c_id c \<and> cm_user_id m = caller_id) (tb_members d)))
       (tb_channels d))"

definition view_key :: "channel_view \<Rightarrow> cursor_key" where
  "view_key v = \<lparr>ck_created_at = c_created_at (v_channel v), ck_id = c_id (v_channel v)\<rparr>"

definition list_my_channels ::
  "uuid \<Rightarrow> int \<Rightarrow> cursor_key option \<Rightarrow> database \<Rightarrow> channel_view page" where
  "list_my_channels caller_id limit cursor d =
     paginate_rows (sql_limit (limit + 1) (apply_keyset view_key cursor (my_channel_rows caller_id d)))
       limit view_key"

record members_page =
  mp_rows :: "(user \<times> channel_member) list"
  mp_total :: int

definition list_channel_members :: "uuid \<Rightarrow> int \<Rightarrow> int \<Rightarrow> database \<Rightarrow> members_page" where
  "list_channel_members channel_id limit offset d =
     \<lparr>mp_rows = sql_limit limit (sql_offset offset
        (sort_key (\<lambda>(u, m). (cm_joined_at m, cm_user_id m))
          (concat (map (\<lambda>m. map (\<lambda>u. (u, m)) (filter (\<lambda>u. cm_user_id m = u_id u) (tb_users d)))
            (filter (\<lambda>m. cm_channel_id m = channel_id) (tb_members d)))))),
      mp_total = count_channel_members channel_id d\<rparr>"

subsection \<open>Succession of a sole admin\<close>

definition lock_channel_admin_ids :: "uuid \<Rightarrow> database \<Rightarrow> uuid list" where
  "lock_channel_admin_ids channel_id d =
     sort (map cm_user_id
       (filter (\<lambda>m. cm_channel_id m = channel_id \<and> cm_role m = ADMIN) (tb_members d)))"

text \<open>\<open>ORDER BY joined_at LIMIT 1\<close>; equal \<open>joined_at\<close> are ordered by the physical order.\<close>

definition find_successor :: "uuid \<Rightarrow> uuid \<Rightarrow> database \<Rightarrow> channel_member option" where
  "find_successor channel_id departing_user_id d =
     (case sort_key cm_joined_at
             (filter (\<lambda>m. cm_channel_id m = channel_id \<and> cm_user_id m \<noteq> departing_user_id)
               (tb_members d)) of
        [] \<Rightarrow> None
      | successor # rest \<Rightarrow> Some successor)"

definition set_role :: "channel_member_role \<Rightarrow> channel_member \<Rightarrow> database \<Rightarrow> database" where
  "set_role role m = update_members (\<lambda>n. cm_key n = cm_key m) (\<lambda>n. n\<lparr>cm_role := role\<rparr>)"

fun succession_loop :: "uuid \<Rightarrow> uuid list \<Rightarrow> database \<Rightarrow> uuid list \<times> database" where
  "succession_loop departing_user_id [] d = ([], d)"
| "succession_loop departing_user_id (c # cs) d =
     (if length (lock_channel_admin_ids c d) \<noteq> 1 then succession_loop departing_user_id cs d
      else case find_successor c departing_user_id d of
             None \<Rightarrow> succession_loop departing_user_id cs d
           | Some successor \<Rightarrow>
               (case succession_loop departing_user_id cs (set_role ADMIN successor d) of
                  (promoted, d') \<Rightarrow> (c # promoted, d')))"

definition run_sole_admin_succession ::
  "uuid \<Rightarrow> uuid option \<Rightarrow> database \<Rightarrow> uuid list \<times> database" where
  "run_sole_admin_succession departing_user_id channel_id d =
     succession_loop departing_user_id
       (map cm_channel_id
         (filter (\<lambda>m. cm_user_id m = departing_user_id \<and> cm_role m = ADMIN \<and>
                      (case channel_id of None \<Rightarrow> True | Some c \<Rightarrow> cm_channel_id m = c))
           (tb_members d))) d"

subsection \<open>Join and leave\<close>

datatype join_outcome = JOINED | JOIN_ALREADY_MEMBER | JOIN_PRIVATE | JOIN_NOT_FOUND

record join_result =
  j_outcome :: join_outcome
  j_membership :: "channel_member option"
  j_channel :: "channel option"
  j_member_count :: "int option"

definition join_public_channel ::
  "(database \<Rightarrow> database) \<Rightarrow> datetime \<Rightarrow> uuid \<Rightarrow> uuid \<Rightarrow> database \<Rightarrow>
   integrity_error + join_result \<times> database" where
  "join_public_channel others now channel_id user_id d =
     (case get_channel channel_id d of
        None \<Rightarrow> Inr (\<lparr>j_outcome = JOIN_NOT_FOUND, j_membership = None, j_channel = None,
                      j_member_count = None\<rparr>, d)
      | Some channel \<Rightarrow>
         (case get_membership channel_id user_id d of
            Some existing \<Rightarrow>
              Inr (\<lparr>j_outcome = JOIN_ALREADY_MEMBER, j_membership = Some existing,
                    j_channel = Some channel, j_member_count = None\<rparr>, d)
          | None \<Rightarrow>
              if c_is_private channel
              then Inr (\<lparr>j_outcome = JOIN_PRIVATE, j_membership = None,
                         j_channel = Some channel, j_member_count = None\<rparr>, d)
              else
                (let membership = \<lparr>cm_channel_id = channel_id, cm_user_id = user_id,
                                   cm_role = MEMBER, cm_joined_at = now\<rparr>
                 in case insert_member membership (others d) of
                      Inl e \<Rightarrow>
                        (case get_membership channel_id user_id (others d) of
                           Some existing \<Rightarrow>
                             Inr (\<lparr>j_outcome = JOIN_ALREADY_MEMBER, j_membership = Some existing,
                                   j_channel = Some channel, j_member_count = None\<rparr>, others d)
                         | None \<Rightarrow> Inl e)
                    | Inr d' \<Rightarrow>
                        Inr (\<lparr>j_outcome = JOINED, j_membership = Some membership,
                              j_channel = Some channel,
                              j_member_count = Some (count_channel_members channel_id d')\<rparr>, d'))))"

datatype leave_outcome = LEFT | LEAVE_NOT_MEMBER

definition delete_membership :: "channel_member \<Rightarrow> database \<Rightarrow> database" where
  "delete_membership m = delete_members (\<lambda>n. cm_key n = cm_key m)"

definition leave_channel ::
  "(database \<Rightarrow> database) \<Rightarrow> uuid \<Rightarrow> uuid \<Rightarrow> database \<Rightarrow> leave_outcome \<times> database" where
  "leave_channel others channel_id user_id d =
     (case get_channel channel_id d of
        None \<Rightarrow> (LEAVE_NOT_MEMBER, d)
      | Some channel \<Rightarrow>
         (case get_membership channel_id user_id d of
            None \<Rightarrow> (LEAVE_NOT_MEMBER, d)
          | Some membership \<Rightarrow>
             (let d1 = (if cm_role membership = ADMIN
                        then snd (run_sole_admin_succession user_id (Some channel_id) (others d))
                        else others d)
              in (LEFT, delete_membership membership d1))))"

subsection \<open>Mutations by a channel admin\<close>

datatype add_member_outcome =
    ADDED | ADD_ALREADY_MEMBER | ADD_CHANNEL_NOT_FOUND | ADD_TARGET_USER_NOT_FOUND
  | ADD_CALLER_NOT_ADMIN | ADD_ZERO_ADMIN

record add_member_result =
  ad_outcome :: add_member_outcome
  ad_membership :: "channel_member option"
  ad_channel :: "channel option"
  ad_member_count :: "int option"

definition add_refused :: "add_member_outcome \<Rightarrow> add_member_result" where
  "add_refused out = \<lparr>ad_outcome = out, ad_membership = None, ad_channel = None,
                      ad_member_count = None\<rparr>"

definition add_existing :: "channel \<Rightarrow> channel_member \<Rightarrow> add_member_result" where
  "add_existing channel existing =
     \<lparr>ad_outcome = ADD_ALREADY_MEMBER, ad_membership = Some existing,
      ad_channel = Some channel, ad_member_count = None\<rparr>"

definition add_channel_member ::
  "(database \<Rightarrow> database) \<Rightarrow> datetime \<Rightarrow> uuid \<Rightarrow> uuid \<Rightarrow> uuid \<Rightarrow> channel_member_role \<Rightarrow>
   database \<Rightarrow> integrity_error + add_member_result \<times> database" where
  "add_channel_member others now channel_id caller_id target_user_id role d =
     (case get_channel channel_id d of
        None \<Rightarrow> Inr (add_refused ADD_CHANNEL_NOT_FOUND, d)
      | Some channel \<Rightarrow>
         (let admin_ids = lock_channel_admin_ids channel_id d in
          if admin_ids = [] then Inr (add_refused ADD_ZERO_ADMIN, d)
          else if caller_id \<notin> set admin_ids then Inr (add_refused ADD_CALLER_NOT_ADMIN, d)
          else if get_user target_user_id d = None
          then Inr (add_refused ADD_TARGET_USER_NOT_FOUND, d)
          else
           (case get_membership channel_id target_user_id d of
              Some existing \<Rightarrow> Inr (add_existing channel existing, d)
            | None \<Rightarrow>
               (let membership = \<lparr>cm_channel_id = channel_id, cm_user_id = target_user_id,
                                  cm_role = role, cm_joined_at = now\<rparr>
                in case insert_member membership (others d) of
                     Inl e \<Rightarrow>
                       (case get_membership channel_id target_user_id (others d) of
                          Some existing \<Rightarrow> Inr (add_existing channel existing, others d)
                        | None \<Rightarrow> Inl e)
                   | Inr d' \<Rightarrow>
                       Inr (\<lparr>ad_outcome = ADDED, ad_membership = Some membership,
                             ad_channel = Some channel,
                             ad_member_count = Some (count_channel_members channel_id d')\<rparr>, d')))))"

datatype change_role_outcome =
    UPDATED | NO_OP | CHANGE_CHANNEL_NOT_FOUND | CHANGE_TARGET_NOT_MEMBER
  | CHANGE_CALLER_NOT_ADMIN | CHANGE_ZERO_ADMIN

definition change_member_role ::
  "uuid \<Rightarrow> uuid \<Rightarrow> uuid \<Rightarrow> channel_member_role \<Rightarrow> database \<Rightarrow>
   (change_role_outcome \<times> channel_member option) \<times> database" where
  "change_member_role channel_id caller_id target_user_id role d =
     (case get_channel channel_id d of
        None \<Rightarrow> ((CHANGE_CHANNEL_NOT_FOUND, None), d)
      | Some channel \<Rightarrow>
         (let admin_ids = lock_channel_admin_ids channel_id d in
          if admin_ids = [] then ((CHANGE_ZERO_ADMIN, None), d)
          else if caller_id \<notin> set admin_ids then ((CHANGE_CALLER_NOT_ADMIN, None), d)
          else
           (case get_membership channel_id target_user_id d of
              None \<Rightarrow> ((CHANGE_TARGET_NOT_MEMBER, None), d)
            | Some membership \<Rightarrow>
                if cm_role membership = role then ((NO_OP, Some membership), d)
                else ((UPDATED, Some (membership\<lparr>cm_role := role\<rparr>)), set_role role membership d))))"

datatype remove_member_outcome =
    REMOVED | REMOVE_NOT_MEMBER | REMOVE_CHANNEL_NOT_FOUND | REMOVE_TARGET_USER_NOT_FOUND
  | REMOVE_CALLER_NOT_ADMIN | REMOVE_ZERO_ADMIN

definition remove_channel_member ::
  "uuid \<Rightarrow> uuid \<Rightarrow> uuid \<Rightarrow> database \<Rightarrow> remove_member_outcome \<times> database" where
  "remove_channel_member channel_id caller_id target_user_id d =
     (case get_channel channel_id d of
        None \<Rightarrow> (REMOVE_CHANNEL_NOT_FOUND, d)
      | Some channel \<Rightarrow>
         (let admin_ids = lock_channel_admin_ids channel_id d in
          if admin_ids = [] then (REMOVE_ZERO_ADMIN, d)
          else if caller_id \<notin> set admin_ids then (REMOVE_CALLER_NOT_ADMIN, d)
          else if get_user target_user_id d = None then (REMOVE_TARGET_USER_NOT_FOUND, d)
          else
           (case get_membership channel_id target_user_id d of
              None \<Rightarrow> (REMOVE_NOT_MEMBER, d)
            | Some membership \<Rightarrow>
               (let d1 = (if cm_role membership = ADMIN
                          then snd (run_sole_admin_succession target_user_id (Some channel_id) d)
                          else d)
                in (REMOVED, delete_membership membership d1)))))"

subsection \<open>Invariants\<close>

text \<open>What the primary key of \<open>channel_members\<close> and its foreign keys guarantee.\<close>

definition members_ok :: "database \<Rightarrow> bool" where
  "members_ok d \<longleftrightarrow> distinct (map cm_key (tb_members d))"

definition member_refs_ok :: "database \<Rightarrow> bool" where
  "member_refs_ok d \<longleftrightarrow>
     (\<forall>m\<in>set (tb_members d). get_channel (cm_channel_id m) d \<noteq> None \<and>
                              get_user (cm_user_id m) d \<noteq> None)"

definition channel_members :: "uuid \<Rightarrow> database \<Rightarrow> uuid set" where
  "channel_members c d = {u. get_membership c u d \<noteq> None}"

definition channel_admins :: "uuid \<Rightarrow> database \<Rightarrow> uuid set" where
  "channel_admins c d = {u. map_option cm_role (get_membership c u d) = Some ADMIN}"

definition governed :: "uuid \<Rightarrow> database \<Rightarrow> bool" where
  "governed c d \<longleftrightarrow> channel_members c d \<noteq> {} \<longrightarrow> channel_admins c d \<noteq> {}"

lemma get_membership_iff:
  "members_ok d \<Longrightarrow> get_membership c u d = Some m \<longleftrightarrow>
     m \<in> set (tb_members d) \<and> cm_channel_id m = c \<and> cm_user_id m = u"
  by (auto simp: members_ok_def get_membership_def get_member_def db_get_Some cm_key_def)

lemma get_membership_None:
  "get_membership c u d = None \<longleftrightarrow>
     \<not> (\<exists>m\<in>set (tb_members d). cm_channel_id m = c \<and> cm_user_id m = u)"
  by (auto simp: get_membership_def get_member_def db_get_None cm_key_def image_iff)

lemma get_membershipD:
  "get_membership c u d = Some m \<Longrightarrow>
     m \<in> set (tb_members d) \<and> cm_channel_id m = c \<and> cm_user_id m = u"
  by (auto simp: get_membership_def get_member_def cm_key_def dest: db_get_SomeD)

lemma set_lock_channel_admin_ids:
  "members_ok d \<Longrightarrow> set (lock_channel_admin_ids c d) = channel_admins c d"
  by (auto simp: lock_channel_admin_ids_def channel_admins_def get_membership_iff)

lemma distinct_lock_channel_admin_ids:
  "members_ok d \<Longrightarrow> distinct (lock_channel_admin_ids c d)"
  by (auto simp: lock_channel_admin_ids_def members_ok_def distinct_map inj_on_def cm_key_def)

lemma sole_admin_iff:
  assumes "members_ok d"
  shows "length (lock_channel_admin_ids c d) = 1 \<longleftrightarrow> (\<exists>u. channel_admins c d = {u})"
proof -
  have "length (lock_channel_admin_ids c d) = card (channel_admins c d)"
    by (metis assms distinct_card distinct_lock_channel_admin_ids set_lock_channel_admin_ids)
  then show ?thesis by (simp add: card_1_singleton_iff)
qed

lemma find_successor_Some:
  assumes "find_successor c u d = Some s"
  shows "s \<in> set (tb_members d)" "cm_channel_id s = c" "cm_user_id s \<noteq> u"
    and "\<And>m. m \<in> set (tb_members d) \<Longrightarrow> cm_channel_id m = c \<Longrightarrow> cm_user_id m \<noteq> u \<Longrightarrow>
           cm_joined_at s \<le> cm_joined_at m"
proof -
  let ?xs = "filter (\<lambda>m. cm_channel_id m = c \<and> cm_user_id m \<noteq> u) (tb_members d)"
  from assms obtain rest where eq: "sort_key cm_joined_at ?xs = s # rest"
    by (auto simp: find_successor_def split: list.splits)
  have set: "set (s # rest) = set ?xs" unfolding eq [symmetric] by simp
  then show "s \<in> set (tb_members d)" "cm_channel_id s = c" "cm_user_id s \<noteq> u" by auto
  have "sorted (map cm_joined_at (s # rest))" unfolding eq [symmetric] by (rule sorted_sort_key)
  then show "cm_joined_at s \<le> cm_joined_at m"
    if "m \<in> set (tb_members d)" "cm_channel_id m = c" "cm_user_id m \<noteq> u" for m
  proof -
    from that have "m \<in> set (s # rest)" using set by auto
    with \<open>sorted _\<close> show ?thesis by auto
  qed
qed

lemma find_successor_None:
  "find_successor c u d = None \<longleftrightarrow>
     \<not> (\<exists>m\<in>set (tb_members d). cm_channel_id m = c \<and> cm_user_id m \<noteq> u)"
proof -
  let ?xs = "filter (\<lambda>m. cm_channel_id m = c \<and> cm_user_id m \<noteq> u) (tb_members d)"
  have "find_successor c u d = None \<longleftrightarrow> sort_key cm_joined_at ?xs = []"
    unfolding find_successor_def by (simp split: list.split)
  also have "\<dots> \<longleftrightarrow> set (sort_key cm_joined_at ?xs) = {}" by (rule set_empty [symmetric])
  also have "\<dots> \<longleftrightarrow> set ?xs = {}" by simp
  also have "\<dots> \<longleftrightarrow> \<not> (\<exists>m\<in>set (tb_members d). cm_channel_id m = c \<and> cm_user_id m \<noteq> u)"
    by auto
  finally show ?thesis .
qed

lemma cm_key_role [simp]: "cm_key (m\<lparr>cm_role := r\<rparr>) = cm_key m"
  by (simp add: cm_key_def)

lemma members_ok_set_role [simp]: "members_ok d \<Longrightarrow> members_ok (set_role r m d)"
  unfolding members_ok_def set_role_def by (rule member_row.upd_distinct) simp_all

lemma members_ok_delete [simp]: "members_ok d \<Longrightarrow> members_ok (delete_membership m d)"
  unfolding members_ok_def delete_membership_def by (rule member_row.del_distinct)

lemma members_ok_insert: "insert_member m d = Inr d' \<Longrightarrow> members_ok d \<Longrightarrow> members_ok d'"
  unfolding members_ok_def by (rule member_row.ins_distinct)

lemma get_membership_set_role [table_simps]:
  "get_membership c u (set_role r m d) =
     (if (c, u) = cm_key m then map_option (\<lambda>n. n\<lparr>cm_role := r\<rparr>) (get_membership c u d)
      else get_membership c u d)"
proof (cases "get_member (c, u) d")
  case (Some n)
  then have "cm_key n = (c, u)" by (blast dest: member_row.get_pk)
  with Some show ?thesis by (auto simp: get_membership_def set_role_def member_row.get_upd)
qed (auto simp: get_membership_def set_role_def member_row.get_upd)

lemma get_membership_delete [table_simps]:
  "members_ok d \<Longrightarrow>
   get_membership c u (delete_membership m d) =
     (if (c, u) = cm_key m then None else get_membership c u d)"
proof (cases "get_member (c, u) d")
  case (Some n)
  then have "cm_key n = (c, u)" by (blast dest: member_row.get_pk)
  moreover assume "members_ok d"
  ultimately show ?thesis
    using Some by (auto simp: get_membership_def delete_membership_def member_row.get_del members_ok_def)
qed (auto simp: get_membership_def delete_membership_def member_row.get_del members_ok_def)

lemma get_membership_insert [table_simps]:
  "insert_member m d = Inr d' \<Longrightarrow>
   get_membership c u d' = (if (c, u) = cm_key m then Some m else get_membership c u d)"
  by (auto simp: get_membership_def member_row.get_ins)

text \<open>The membership operations touch no other table.\<close>

definition same_but_members :: "database \<Rightarrow> database \<Rightarrow> bool" where
  "same_but_members d d' \<longleftrightarrow> d' = d\<lparr>tb_members := tb_members d'\<rparr>"

lemma same_but_members_refl [simp]: "same_but_members d d"
  by (simp add: same_but_members_def)

lemma same_but_members_trans:
  "same_but_members d e \<Longrightarrow> same_but_members e f \<Longrightarrow> same_but_members d f"
  unfolding same_but_members_def by (metis database.surjective database.update_convs(3) database.select_convs(3))

lemma same_but_members_set_role [simp]: "same_but_members d (set_role r m d)"
  by (simp add: same_but_members_def set_role_def update_members_def)

lemma same_but_members_delete [simp]: "same_but_members d (delete_membership m d)"
  by (simp add: same_but_members_def delete_membership_def delete_members_def)

lemma same_but_members_insert: "insert_member m d = Inr d' \<Longrightarrow> same_but_members d d'"
  by (auto simp: same_but_members_def dest: insert_member_frame)

lemma same_but_members_get:
  assumes "same_but_members d d'"
  shows "get_channel c d' = get_channel c d" "get_user u d' = get_user u d"
    "tb_users d' = tb_users d" "tb_channels d' = tb_channels d"
  using assms unfolding same_but_members_def get_channel_def get_user_def
  by (metis database.select_convs database.surjective database.update_convs(3))+

subsection \<open>Succession: who is promoted\<close>

definition promotes :: "uuid \<Rightarrow> uuid \<Rightarrow> database \<Rightarrow> uuid \<Rightarrow> bool" where
  "promotes c departing d v \<longleftrightarrow>
     channel_admins c d = {departing} \<and>
     map_option cm_user_id (find_successor c departing d) = Some v"

lemma filter_db_update_other:
  "(\<And>r. cond r \<Longrightarrow> \<not> P r \<and> \<not> P (f r)) \<Longrightarrow> filter P (db_update cond f rows) = filter P rows"
  by (induction rows) (auto simp: db_update_def)

lemma find_successor_set_role_other:
  assumes "cm_channel_id s \<noteq> c"
  shows "find_successor c u (set_role r s d) = find_successor c u d"
proof -
  have "filter (\<lambda>m. cm_channel_id m = c \<and> cm_user_id m \<noteq> u) (tb_members (set_role r s d)) =
      filter (\<lambda>m. cm_channel_id m = c \<and> cm_user_id m \<noteq> u) (tb_members d)"
    unfolding set_role_def member_row.upd_rows
    by (rule filter_db_update_other) (use assms in \<open>auto simp: cm_key_def\<close>)
  then show ?thesis by (simp add: find_successor_def)
qed

lemma get_membership_set_role_other:
  "cm_channel_id s \<noteq> c \<Longrightarrow> get_membership c v (set_role r s d) = get_membership c v d"
  by (simp add: get_membership_set_role cm_key_def)

lemma promotes_set_role_other:
  assumes "cm_channel_id s \<noteq> c"
  shows "promotes c u (set_role r s d) v \<longleftrightarrow> promotes c u d v"
  using assms
  by (simp add: promotes_def channel_admins_def find_successor_set_role_other
      get_membership_set_role_other)

lemma sole_adminD:
  "members_ok d \<Longrightarrow> u \<in> channel_admins c d \<Longrightarrow>
   length (lock_channel_admin_ids c d) = 1 \<longleftrightarrow> channel_admins c d = {u}"
  by (simp only: sole_admin_iff) auto

lemma succession_loop_spec:
  assumes "members_ok d" "distinct cs" "\<And>c. c \<in> set cs \<Longrightarrow> u \<in> channel_admins c d"
  shows "get_membership c v (snd (succession_loop u cs d)) =
      (if c \<in> set cs \<and> promotes c u d v
       then map_option (\<lambda>m. m\<lparr>cm_role := ADMIN\<rparr>) (get_membership c v d)
       else get_membership c v d)
    \<and> members_ok (snd (succession_loop u cs d))
    \<and> same_but_members d (snd (succession_loop u cs d))
    \<and> set (fst (succession_loop u cs d)) = {c\<in>set cs. \<exists>v. promotes c u d v}"
  using assms
proof (induction cs arbitrary: d)
  case (Cons b cs)
  have ub: "u \<in> channel_admins b d" using Cons.prems by simp
  note sole = sole_adminD [OF Cons.prems(1) ub]
  show ?case
  proof (cases "channel_admins b d = {u} \<and> find_successor b u d \<noteq> None")
    case False
    then have "succession_loop u (b # cs) d = succession_loop u cs d"
      using sole by (auto split: option.splits)
    moreover have "\<not> promotes b u d w" for w using False by (auto simp: promotes_def)
    moreover have "distinct cs" "\<And>c. c \<in> set cs \<Longrightarrow> u \<in> channel_admins c d"
      using Cons.prems by auto
    note Cons.IH [OF Cons.prems(1) this]
    ultimately show ?thesis by auto
  next
    case True
    then obtain s where s: "find_successor b u d = Some s" by blast
    let ?d = "set_role ADMIN s d"
    note fs = find_successor_Some [OF s]
    have other: "promotes c u ?d v \<longleftrightarrow> promotes c u d v"
      "get_membership c v ?d = get_membership c v d" if "c \<noteq> b" for c v
      using that fs(2) by (simp_all add: promotes_set_role_other get_membership_set_role_other)
    have ids: "u \<in> channel_admins c ?d" if "c \<in> set cs" for c
    proof -
      have "c \<noteq> b" using that Cons.prems(2) by auto
      then show ?thesis
        using that Cons.prems(3) [of c] other(2) [of c u] by (simp add: channel_admins_def)
    qed
    with Cons.prems(1,2) have IH: "get_membership c v (snd (succession_loop u cs ?d)) =
      (if c \<in> set cs \<and> promotes c u ?d v
       then map_option (\<lambda>m. m\<lparr>cm_role := ADMIN\<rparr>) (get_membership c v ?d)
       else get_membership c v ?d)
      \<and> members_ok (snd (succession_loop u cs ?d))
      \<and> same_but_members ?d (snd (succession_loop u cs ?d))
      \<and> set (fst (succession_loop u cs ?d)) = {c\<in>set cs. \<exists>v. promotes c u ?d v}"
      by (intro Cons.IH) auto
    have step: "succession_loop u (b # cs) d =
        (b # fst (succession_loop u cs ?d), snd (succession_loop u cs ?d))"
      using True s sole by (simp split: prod.split)
    have b: "promotes b u d v \<longleftrightarrow> v = cm_user_id s" for v
      using True s by (auto simp: promotes_def)
    have at_b: "get_membership b v ?d =
       (if promotes b u d v then map_option (\<lambda>m. m\<lparr>cm_role := ADMIN\<rparr>) (get_membership b v d)
        else get_membership b v d)" for v
      using fs(2) by (auto simp: b get_membership_set_role cm_key_def)
    have "b \<notin> set cs" using Cons.prems(2) by simp
    then have "{c\<in>set cs. \<exists>v. promotes c u ?d v} = {c\<in>set cs. \<exists>v. promotes c u d v}"
      using other(1) by metis
    moreover have "same_but_members d (snd (succession_loop u cs ?d))"
      using IH same_but_members_set_role same_but_members_trans by blast
    ultimately show ?thesis
      using IH step at_b other \<open>b \<notin> set cs\<close> b by (cases "c = b") auto
  qed
qed simp

definition succession_scope :: "uuid \<Rightarrow> uuid option \<Rightarrow> database \<Rightarrow> uuid \<Rightarrow> bool" where
  "succession_scope u scope d c \<longleftrightarrow>
     u \<in> channel_admins c d \<and> (case scope of None \<Rightarrow> True | Some c' \<Rightarrow> c = c')"

lemma run_sole_admin_succession_spec:
  fixes u :: uuid and scope :: "uuid option"
  assumes "members_ok d"
  defines "d' \<equiv> snd (run_sole_admin_succession u scope d)"
  shows "get_membership c v d' =
      (if succession_scope u scope d c \<and> promotes c u d v
       then map_option (\<lambda>m. m\<lparr>cm_role := ADMIN\<rparr>) (get_membership c v d)
       else get_membership c v d)"
    and "members_ok d'" "same_but_members d d'"
    and "set (fst (run_sole_admin_succession u scope d)) =
      {c. succession_scope u scope d c \<and> (\<exists>v. promotes c u d v)}"
proof -
  let ?P = "\<lambda>m. cm_user_id m = u \<and> cm_role m = ADMIN \<and>
    (case scope of None \<Rightarrow> True | Some c' \<Rightarrow> cm_channel_id m = c')"
  let ?cs = "map cm_channel_id (filter ?P (tb_members d))"
  have set: "c \<in> set ?cs \<longleftrightarrow> succession_scope u scope d c" for c
    using assms(1)
    by (auto simp: succession_scope_def channel_admins_def get_membership_iff split: option.splits)
  have "distinct ?cs"
    using assms(1) by (auto simp: members_ok_def distinct_map inj_on_def cm_key_def)
  moreover have "u \<in> channel_admins c d" if "c \<in> set ?cs" for c
    using that unfolding set by (simp add: succession_scope_def)
  ultimately have *: "get_membership c v (snd (succession_loop u ?cs d)) =
      (if c \<in> set ?cs \<and> promotes c u d v
       then map_option (\<lambda>m. m\<lparr>cm_role := ADMIN\<rparr>) (get_membership c v d)
       else get_membership c v d)
    \<and> members_ok (snd (succession_loop u ?cs d))
    \<and> same_but_members d (snd (succession_loop u ?cs d))
    \<and> set (fst (succession_loop u ?cs d)) = {c\<in>set ?cs. \<exists>v. promotes c u d v}"
    by (intro succession_loop_spec assms(1)) auto
  have run: "run_sole_admin_succession u scope d = succession_loop u ?cs d"
    unfolding run_sole_admin_succession_def ..
  from * show "get_membership c v d' =
      (if succession_scope u scope d c \<and> promotes c u d v
       then map_option (\<lambda>m. m\<lparr>cm_role := ADMIN\<rparr>) (get_membership c v d)
       else get_membership c v d)"
    unfolding d'_def run set by blast
  from * show "members_ok d'" "same_but_members d d'" unfolding d'_def run by blast+
  from * have "set (fst (succession_loop u ?cs d)) = {c\<in>set ?cs. \<exists>v. promotes c u d v}"
    by blast
  then show "set (fst (run_sole_admin_succession u scope d)) =
      {c. succession_scope u scope d c \<and> (\<exists>v. promotes c u d v)}"
    unfolding run by (simp only: set)
qed

subsection \<open>Effect of the operations on the membership relation\<close>

text \<open>Leaving and being removed share this tail: succession if needed, then the delete.\<close>

abbreviation depart :: "channel_member \<Rightarrow> database \<Rightarrow> database" where
  "depart m d \<equiv> delete_membership m
     (if cm_role m = ADMIN
      then snd (run_sole_admin_succession (cm_user_id m) (Some (cm_channel_id m)) d) else d)"

lemma depart_spec:
  assumes "members_ok d" "get_membership c u d = Some m"
  shows "get_membership c' v (depart m d) =
      (if c' = c \<and> v = u then None
       else if c' = c \<and> promotes c u d v
       then map_option (\<lambda>n. n\<lparr>cm_role := ADMIN\<rparr>) (get_membership c v d)
       else get_membership c' v d)"
    and "members_ok (depart m d)" "same_but_members d (depart m d)"
proof -
  have m: "cm_key m = (c, u)" "cm_channel_id m = c" "cm_user_id m = u"
    using get_membershipD [OF assms(2)] by (auto simp: cm_key_def)
  let ?e = "if cm_role m = ADMIN then snd (run_sole_admin_succession u (Some c) d) else d"
  note run = run_sole_admin_succession_spec [OF assms(1), where u = u and scope = "Some c"]
  have ok: "members_ok ?e" using run(2) assms(1) by simp
  have admin: "u \<in> channel_admins c d \<longleftrightarrow> cm_role m = ADMIN"
    using assms(2) by (simp add: channel_admins_def)
  have e: "get_membership c' v ?e =
      (if c' = c \<and> promotes c u d v
       then map_option (\<lambda>n. n\<lparr>cm_role := ADMIN\<rparr>) (get_membership c v d)
       else get_membership c' v d)"
  proof (cases "cm_role m = ADMIN")
    case True
    then show ?thesis using run(1) [of c' v] admin by (auto simp: succession_scope_def)
  next
    case False
    then have "\<not> promotes c u d v" using admin by (auto simp: promotes_def)
    with False show ?thesis by simp
  qed
  show "get_membership c' v (depart m d) =
      (if c' = c \<and> v = u then None
       else if c' = c \<and> promotes c u d v
       then map_option (\<lambda>n. n\<lparr>cm_role := ADMIN\<rparr>) (get_membership c v d)
       else get_membership c' v d)"
    unfolding m get_membership_delete [OF ok] e by auto
  show "members_ok (depart m d)" unfolding m by (rule members_ok_delete [OF ok])
  have "same_but_members d ?e" using run(3) by simp
  then show "same_but_members d (depart m d)"
    unfolding m using same_but_members_delete same_but_members_trans by blast
qed

lemma depart_governed:
  assumes "members_ok d" "get_membership c u d = Some m" "governed b d"
  shows "governed b (depart m d)"
proof (cases "b = c \<and> channel_members c (depart m d) \<noteq> {}")
  case False
  show ?thesis
  proof (cases "b = c")
    case True
    with False show ?thesis by (simp add: governed_def)
  next
    case False
    then have "get_membership b v (depart m d) = get_membership b v d" for v
      by (simp add: depart_spec(1) [OF assms(1,2)])
    with assms(3) show ?thesis by (simp add: governed_def channel_members_def channel_admins_def)
  qed
next
  case True
  let ?d = "depart m d"
  note spec = depart_spec(1) [OF assms(1,2)]
  from True obtain w n where w: "get_membership c w d = Some n" "w \<noteq> u"
    by (auto simp: channel_members_def spec split: if_splits)
  then have "channel_admins c d \<noteq> {}"
    using assms(3) True by (auto simp: governed_def channel_members_def)
  show ?thesis
  proof (cases "channel_admins c d = {u}")
    case sole: True
    have "find_successor c u d \<noteq> None"
      using w get_membershipD [OF w(1)] by (auto simp: find_successor_None)
    then obtain s where s: "find_successor c u d = Some s" by blast
    note fs = find_successor_Some [OF s]
    have "get_membership c (cm_user_id s) d = Some s"
      using fs(1,2) by (simp add: get_membership_iff [OF assms(1)])
    moreover have "promotes c u d (cm_user_id s)" using sole s by (simp add: promotes_def)
    ultimately have "cm_user_id s \<in> channel_admins c ?d"
      using fs(3) by (simp add: channel_admins_def spec)
    with True show ?thesis by (auto simp: governed_def)
  next
    case False
    with \<open>channel_admins c d \<noteq> {}\<close> obtain a where "a \<in> channel_admins c d" "a \<noteq> u" by blast
    then have "a \<in> channel_admins c ?d"
      by (auto simp: channel_admins_def spec)
    with True show ?thesis by (auto simp: governed_def)
  qed
qed

lemma lock_empty_iff: "members_ok d \<Longrightarrow> lock_channel_admin_ids c d = [] \<longleftrightarrow> channel_admins c d = {}"
  by (simp add: set_empty [symmetric] set_lock_channel_admin_ids del: set_empty)

lemma leave_channel_cases:
  assumes "leave_channel id c u d = (out, d')"
  obtains "out = LEAVE_NOT_MEMBER" "d' = d" "get_channel c d = None \<or> get_membership c u d = None"
  | m where "out = LEFT" "get_membership c u d = Some m" "d' = depart m d"
proof (cases "get_channel c d = None \<or> get_membership c u d = None")
  case True
  then show ?thesis
    using assms that(1) by (auto simp: leave_channel_def split: option.splits)
next
  case False
  then obtain m where "get_membership c u d = Some m" by blast
  moreover from this have "cm_user_id m = u" "cm_channel_id m = c" by (auto dest: get_membershipD)
  ultimately show ?thesis
    using False assms that(2) [of m] by (auto simp: leave_channel_def Let_def split: option.splits)
qed

lemma remove_channel_member_cases:
  assumes "members_ok d" "remove_channel_member c caller t d = (out, d')"
  obtains "out \<noteq> REMOVED" "d' = d"
  | m where "out = REMOVED" "caller \<in> channel_admins c d" "get_membership c t d = Some m"
      "d' = depart m d"
proof (cases "out = REMOVED")
  case False
  then show ?thesis
    using assms(2) that(1)
    by (auto simp: remove_channel_member_def Let_def split: option.splits if_splits)
next
  case True
  with assms(2) obtain m where m: "get_membership c t d = Some m"
    by (auto simp: remove_channel_member_def Let_def split: option.splits if_splits)
  then have "cm_user_id m = t" "cm_channel_id m = c" by (auto dest: get_membershipD)
  then show ?thesis
    using True m assms(2) that(2) [of m] set_lock_channel_admin_ids [OF assms(1)]
    by (auto simp: remove_channel_member_def Let_def split: option.splits if_splits)
qed

lemma join_public_channel_cases:
  assumes "join_public_channel id now c u d = Inr (r, d')"
  obtains "j_outcome r \<noteq> JOINED" "d' = d"
  | m ch where "j_outcome r = JOINED" "get_channel c d = Some ch" "\<not> c_is_private ch"
      "m = \<lparr>cm_channel_id = c, cm_user_id = u, cm_role = MEMBER, cm_joined_at = now\<rparr>"
      "get_membership c u d = None" "insert_member m d = Inr d'" "j_membership r = Some m"
proof (cases "j_outcome r = JOINED")
  case False
  then show ?thesis
    using assms that(1)
    by (auto simp: join_public_channel_def Let_def split: option.splits if_splits sum.splits)
next
  case True
  then show ?thesis
    using assms that(2)
    by (auto simp: join_public_channel_def Let_def split: option.splits if_splits sum.splits)
qed

lemma add_channel_member_cases:
  assumes "members_ok d" "add_channel_member id now c caller t role d = Inr (r, d')"
  obtains "ad_outcome r \<noteq> ADDED" "d' = d"
  | m where "ad_outcome r = ADDED" "caller \<in> channel_admins c d"
      "m = \<lparr>cm_channel_id = c, cm_user_id = t, cm_role = role, cm_joined_at = now\<rparr>"
      "get_membership c t d = None" "insert_member m d = Inr d'" "ad_membership r = Some m"
proof (cases "ad_outcome r = ADDED")
  case False
  then show ?thesis
    using assms(2) that(1)
    by (auto simp: add_channel_member_def Let_def split: option.splits if_splits sum.splits)
next
  case True
  then show ?thesis
    using assms(2) that(2) set_lock_channel_admin_ids [OF assms(1)]
    by (auto simp: add_channel_member_def add_refused_def add_existing_def Let_def
        split: option.splits if_splits sum.splits)
qed

lemma change_member_role_cases:
  assumes "members_ok d" "change_member_role c caller t role d = ((out, r), d')"
  obtains "out \<noteq> UPDATED" "d' = d"
  | m where "out = UPDATED" "caller \<in> channel_admins c d" "get_membership c t d = Some m"
      "cm_role m \<noteq> role" "d' = set_role role m d" "r = Some (m\<lparr>cm_role := role\<rparr>)"
proof (cases "out = UPDATED")
  case False
  then show ?thesis
    using assms(2) that(1)
    by (auto simp: change_member_role_def Let_def split: option.splits if_splits)
next
  case True
  then show ?thesis
    using assms(2) that(2) set_lock_channel_admin_ids [OF assms(1)]
    by (auto simp: change_member_role_def Let_def split: option.splits if_splits)
qed

lemma create_channel_cases:
  assumes "create_channel cid now name priv creator d = Inr (ch, d')"
  obtains m d1 where "get_channel cid d = None" "insert_channel ch d = Inr d1"
    "c_id ch = cid" "d1 = d\<lparr>tb_channels := tb_channels d @ [ch]\<rparr>"
    "m = \<lparr>cm_channel_id = cid, cm_user_id = creator, cm_role = ADMIN, cm_joined_at = now\<rparr>"
    "insert_member m d1 = Inr d'"
proof -
  let ?ch = "\<lparr>c_id = cid, c_name = name, c_is_private = priv, c_created_by = creator, c_created_at = now\<rparr>"
  from assms obtain d1 where d1: "insert_channel ?ch d = Inr d1" "ch = ?ch"
    "insert_member \<lparr>cm_channel_id = cid, cm_user_id = creator, cm_role = ADMIN, cm_joined_at = now\<rparr> d1 = Inr d'"
    by (auto simp: create_channel_def Let_def)
  moreover from d1(1) have "get_channel cid d = None" "d1 = d\<lparr>tb_channels := tb_channels d @ [?ch]\<rparr>"
    by (auto simp: insert_channel_def get_channel_def db_get_None split: if_splits)
  ultimately show thesis using that by simp
qed

subsection \<open>The membership operations as a transition system\<close>

text \<open>One serialised operation.  The flag is false of the two operations that may leave members
  without an admin: joining a channel that has none, and demoting the last one.\<close>

inductive membership_step :: "bool \<Rightarrow> database \<Rightarrow> database \<Rightarrow> bool" where
  step_create: "create_channel cid now name priv creator d = Inr (ch, d') \<Longrightarrow>
    membership_step True d d'"
| step_join: "join_public_channel id now c u d = Inr (jr, d') \<Longrightarrow>
    membership_step (channel_admins c d \<noteq> {}) d d'"
| step_leave: "leave_channel id c u d = (lo, d') \<Longrightarrow> membership_step True d d'"
| step_add: "add_channel_member id now c caller t role d = Inr (ar, d') \<Longrightarrow>
    membership_step True d d'"
| step_remove: "remove_channel_member c caller t d = (ro, d') \<Longrightarrow> membership_step True d d'"
| step_role: "change_member_role c caller t role d = (cr, d') \<Longrightarrow>
    membership_step (role = ADMIN \<or> channel_admins c d \<noteq> {t}) d d'"

inductive_cases membership_stepE: "membership_step k d d'"

inductive membership_run :: "bool \<Rightarrow> database \<Rightarrow> database \<Rightarrow> bool" where
  run_refl: "membership_run True d d"
| run_step: "membership_run k d e \<Longrightarrow> membership_step l e f \<Longrightarrow> membership_run (k \<and> l) d f"

definition membership_inv :: "database \<Rightarrow> bool" where
  "membership_inv d \<longleftrightarrow> members_ok d \<and> member_refs_ok d"

lemma get_channel_append:
  "get_channel c (d\<lparr>tb_channels := tb_channels d @ [ch]\<rparr>) =
     (case get_channel c d of Some x \<Rightarrow> Some x | None \<Rightarrow> if c_id ch = c then Some ch else None)"
  by (simp add: get_channel_def db_get_append)

lemma no_members_without_channel:
  assumes "membership_inv d" "get_channel c d = None"
  shows "get_membership c u d = None"
  using assms by (cases "get_membership c u d")
    (auto simp: membership_inv_def member_refs_ok_def dest!: get_membershipD)

lemma member_refs_ok_iff:
  assumes "members_ok d"
  shows "member_refs_ok d \<longleftrightarrow>
    (\<forall>c u m. get_membership c u d = Some m \<longrightarrow> get_channel c d \<noteq> None \<and> get_user u d \<noteq> None)"
  unfolding member_refs_ok_def by (auto simp: get_membership_iff [OF assms])

lemma inv_insert:
  assumes "membership_inv d" "insert_member m d = Inr d'"
  shows "membership_inv d'"
proof -
  have ok: "members_ok d" "members_ok d'"
    using assms members_ok_insert by (auto simp: membership_inv_def)
  have eq: "d' = d\<lparr>tb_members := tb_members d @ [m]\<rparr>"
    by (rule insert_member_frame [OF assms(2)])
  have "get_channel (cm_channel_id m) d \<noteq> None" "get_user (cm_user_id m) d \<noteq> None"
    using assms(2) by (auto simp: insert_member_def get_channel_def get_user_def db_get_None
        intro: rev_image_eqI split: if_splits)
  then show ?thesis
    using assms(1) ok by (auto simp: membership_inv_def member_refs_ok_def eq get_channel_def get_user_def)
qed

lemma inv_submap:
  assumes "membership_inv d" "members_ok d'" "same_but_members d d'"
    and "\<And>c u. get_membership c u d = None \<Longrightarrow> get_membership c u d' = None"
  shows "membership_inv d'"
proof -
  have "members_ok d" using assms(1) by (simp add: membership_inv_def)
  then have "\<forall>c u m. get_membership c u d = Some m \<longrightarrow> get_channel c d \<noteq> None \<and> get_user u d \<noteq> None"
    using assms(1) unfolding membership_inv_def by (intro member_refs_ok_iff [THEN iffD1]) auto
  then have refs: "get_membership c u d = Some m \<Longrightarrow> get_channel c d \<noteq> None \<and> get_user u d \<noteq> None"
    for c u m by blast
  show ?thesis
    unfolding membership_inv_def member_refs_ok_iff [OF assms(2)]
      same_but_members_get [OF assms(3)]
    using assms(2,4) refs by (metis not_Some_eq)
qed

lemma inv_depart:
  assumes "membership_inv d" "get_membership c u d = Some m"
  shows "membership_inv (depart m d)"
proof -
  have ok: "members_ok d" using assms(1) by (simp add: membership_inv_def)
  note spec = depart_spec [OF ok assms(2)]
  show ?thesis by (rule inv_submap [OF assms(1) spec(2,3)]) (auto simp: spec(1))
qed

lemma inv_set_role: "membership_inv d \<Longrightarrow> membership_inv (set_role r m d)"
  by (rule inv_submap) (auto simp: membership_inv_def get_membership_set_role)

lemma governed_insert:
  assumes "insert_member m d = Inr d'" "governed b d"
    and "b = cm_channel_id m \<Longrightarrow> cm_role m = ADMIN \<or> channel_admins b d \<noteq> {} "
    and "get_membership (cm_channel_id m) (cm_user_id m) d = None"
  shows "governed b d'"
proof (cases "b = cm_channel_id m")
  case False
  then have "get_membership b v d' = get_membership b v d" for v
    by (simp add: get_membership_insert [OF assms(1)] cm_key_def)
  with assms(2) show ?thesis by (simp add: governed_def channel_members_def channel_admins_def)
next
  case True
  have m: "get_membership b (cm_user_id m) d' = Some m"
    using True by (simp add: get_membership_insert [OF assms(1)] cm_key_def)
  have "channel_admins b d' \<noteq> {}"
  proof (cases "cm_role m = ADMIN")
    case True
    with m show ?thesis by (auto simp: channel_admins_def)
  next
    case False
    with assms(3) True obtain a where a: "a \<in> channel_admins b d" by blast
    then have "a \<in> channel_admins b d'"
      using True assms(4)
      by (auto simp: channel_admins_def get_membership_insert [OF assms(1)] cm_key_def)
    then show ?thesis by blast
  qed
  then show ?thesis by (simp add: governed_def)
qed

lemma step_create_invs:
  assumes "membership_inv d" "create_channel cid now name priv creator d = Inr (ch, d')"
  shows "membership_inv d'" "governed b d \<Longrightarrow> governed b d'"
    "get_channel b d \<noteq> None \<Longrightarrow> channel_admins b d' = channel_admins b d \<and> get_channel b d' \<noteq> None"
proof -
  from create_channel_cases [OF assms(2)] obtain m d1 where *:
    "get_channel cid d = None" "c_id ch = cid" "d1 = d\<lparr>tb_channels := tb_channels d @ [ch]\<rparr>"
    "m = \<lparr>cm_channel_id = cid, cm_user_id = creator, cm_role = ADMIN, cm_joined_at = now\<rparr>"
    "insert_member m d1 = Inr d'" by metis
  have mem: "get_membership c u d1 = get_membership c u d" for c u
    by (simp add: *(3) get_membership_def get_member_def)
  have "members_ok d1" using assms(1) by (simp add: *(3) membership_inv_def members_ok_def)
  moreover have "member_refs_ok d1"
    using assms(1)
    by (auto simp: membership_inv_def member_refs_ok_def *(3) get_channel_append get_user_def
        split: option.splits)
  ultimately have inv1: "membership_inv d1" by (simp add: membership_inv_def)
  then show "membership_inv d'" by (rule inv_insert [OF _ *(5)])
  have none: "get_membership cid u d = None" for u
    using assms(1) *(1) by (rule no_members_without_channel)
  show "governed b d'" if "governed b d"
  proof (rule governed_insert [OF *(5)])
    show "governed b d1" using that by (simp add: governed_def channel_members_def channel_admins_def mem)
  qed (auto simp: *(4) mem none)
  show "channel_admins b d' = channel_admins b d \<and> get_channel b d' \<noteq> None" if "get_channel b d \<noteq> None"
  proof -
    have "b \<noteq> cid" using that *(1) by auto
    then have "get_membership b u d' = get_membership b u d" for u
      by (simp add: get_membership_insert [OF *(5)] *(4) cm_key_def mem)
    moreover have "get_channel b d' = get_channel b d1"
      using same_but_members_insert [OF *(5)] by (rule same_but_members_get)
    ultimately show ?thesis
      using that by (auto simp: channel_admins_def *(3) get_channel_append)
  qed
qed

lemma membership_step_inv:
  assumes "membership_step k d d'" "membership_inv d"
  shows "membership_inv d'"
  using assms
proof cases
  case (step_create cid now name priv creator ch)
  then show ?thesis using step_create_invs(1) assms(2) by blast
next
  case (step_join now c u jr)
  from step_join(2) show ?thesis
    by (rule join_public_channel_cases) (use assms(2) inv_insert in auto)
next
  case (step_leave c u lo)
  from step_leave(2) show ?thesis
    by (rule leave_channel_cases) (use assms(2) inv_depart in auto)
next
  case (step_add now c caller t role ar)
  have ok: "members_ok d" using assms(2) by (simp add: membership_inv_def)
  from ok step_add(2) show ?thesis
    by (rule add_channel_member_cases) (use assms(2) inv_insert in auto)
next
  case (step_remove c caller t ro)
  have ok: "members_ok d" using assms(2) by (simp add: membership_inv_def)
  from ok step_remove(2) show ?thesis
    by (rule remove_channel_member_cases) (use assms(2) inv_depart in auto)
next
  case (step_role c caller t role cr)
  have ok: "members_ok d" using assms(2) by (simp add: membership_inv_def)
  obtain out r where cr: "cr = (out, r)" by force
  from ok step_role(2) [unfolded cr] show ?thesis
    by (rule change_member_role_cases) (use assms(2) inv_set_role in auto)
qed

lemma governed_set_role:
  assumes "get_membership c t d = Some m" "governed b d"
    and "role = ADMIN \<or> channel_admins c d \<noteq> {t}"
  shows "governed b (set_role role m d)"
proof -
  have m: "cm_key m = (c, t)" using get_membershipD [OF assms(1)] by (simp add: cm_key_def)
  let ?d = "set_role role m d"
  have get: "get_membership x v ?d =
    (if (x, v) = (c, t) then Some (m\<lparr>cm_role := role\<rparr>) else get_membership x v d)" for x v
    using assms(1) by (auto simp: get_membership_set_role m)
  have mem: "channel_members b ?d = channel_members b d"
    using assms(1) by (auto simp: channel_members_def get)
  show ?thesis
  proof (cases "channel_admins b d = {}")
    case True
    with assms(2) mem show ?thesis by (simp add: governed_def)
  next
    case False
    have "channel_admins b ?d \<noteq> {}"
    proof (cases "b = c")
      case bc: True
      show ?thesis
      proof (cases "role = ADMIN")
        case True
        have "map_option cm_role (get_membership b t ?d) = Some role" using bc by (simp add: get)
        with True have "t \<in> channel_admins b ?d" by (simp add: channel_admins_def)
        then show ?thesis by blast
      next
        case role: False
        with assms(3) False bc obtain a where "a \<in> channel_admins c d" "a \<noteq> t" by blast
        then have "a \<in> channel_admins b ?d" using bc by (auto simp: channel_admins_def get)
        then show ?thesis by blast
      qed
    next
      case False
      then have "channel_admins b ?d = channel_admins b d" by (simp add: channel_admins_def get)
      with \<open>channel_admins b d \<noteq> {}\<close> show ?thesis by simp
    qed
    then show ?thesis by (simp add: governed_def)
  qed
qed

lemma membership_step_governed:
  assumes "membership_step True d d'" "membership_inv d" "governed b d"
  shows "governed b d'"
proof -
  have ok: "members_ok d" using assms(2) by (simp add: membership_inv_def)
  from assms(1) show ?thesis
  proof cases
    case (step_create cid now name priv creator ch)
    then show ?thesis using step_create_invs(2) assms(2,3) by blast
  next
    case (step_join now c u jr)
    from step_join(2) show ?thesis
    proof (rule join_public_channel_cases)
      fix m ch
      assume "m = \<lparr>cm_channel_id = c, cm_user_id = u, cm_role = MEMBER, cm_joined_at = now\<rparr>"
        "get_membership c u d = None" "insert_member m d = Inr d'"
      then show ?thesis using step_join(1) by (intro governed_insert [OF _ assms(3)]) auto
    qed (use assms(3) in simp)
  next
    case (step_leave c u lo)
    from step_leave(1) show ?thesis
      by (rule leave_channel_cases) (use assms(3) depart_governed [OF ok] in auto)
  next
    case (step_add now c caller t role ar)
    from ok step_add(1) show ?thesis
    proof (rule add_channel_member_cases)
      fix m
      assume "m = \<lparr>cm_channel_id = c, cm_user_id = t, cm_role = role, cm_joined_at = now\<rparr>"
        "get_membership c t d = None" "insert_member m d = Inr d'" "caller \<in> channel_admins c d"
      then show ?thesis by (intro governed_insert [OF _ assms(3)]) auto
    qed (use assms(3) in simp)
  next
    case (step_remove c caller t ro)
    from ok step_remove(1) show ?thesis
      by (rule remove_channel_member_cases) (use assms(3) depart_governed [OF ok] in auto)
  next
    case (step_role c caller t role cr)
    obtain out r where cr: "cr = (out, r)" by force
    from ok step_role(2) [unfolded cr] show ?thesis
    proof (rule change_member_role_cases)
      fix m
      assume "get_membership c t d = Some m" "d' = set_role role m d"
      then show ?thesis using governed_set_role [OF _ assms(3)] step_role(1) by blast
    qed (use assms(3) in simp)
  qed
qed

lemma membership_step_no_admin:
  assumes "membership_step k d d'" "membership_inv d" "get_channel c d \<noteq> None" "channel_admins c d = {}"
  shows "channel_admins c d' = {} \<and> get_channel c d' \<noteq> None"
proof -
  have ok: "members_ok d" using assms(2) by (simp add: membership_inv_def)
  have none: "get_membership c v d = Some m \<Longrightarrow> cm_role m \<noteq> ADMIN" for v m
    using assms(4) by (auto simp: channel_admins_def)
  have keep: ?thesis if "same_but_members d d'"
    "\<And>v m. get_membership c v d' = Some m \<Longrightarrow> cm_role m \<noteq> ADMIN"
    using that assms(3) by (auto simp: channel_admins_def same_but_members_get)
  have ins: ?thesis if "insert_member m d = Inr d'" "cm_role m = ADMIN \<Longrightarrow> cm_channel_id m \<noteq> c" for m
  proof (rule keep)
    show "same_but_members d d'" by (rule same_but_members_insert [OF that(1)])
    show "cm_role n \<noteq> ADMIN" if "get_membership c v d' = Some n" for v n
      using that none \<open>cm_role m = ADMIN \<Longrightarrow> cm_channel_id m \<noteq> c\<close>
      by (auto simp: get_membership_insert [OF \<open>insert_member m d = Inr d'\<close>] cm_key_def
          split: if_splits)
  qed
  have dep: ?thesis if "get_membership b u d = Some m" "d' = depart m d" for b u m
  proof (rule keep)
    note spec = depart_spec [OF ok that(1), folded that(2)]
    show "same_but_members d d'" by (rule spec(3))
    have "\<not> promotes c u d v" for v using assms(4) by (simp add: promotes_def)
    then show "cm_role n \<noteq> ADMIN" if "get_membership c v d' = Some n" for v n
      using that none spec(1) [of c v] by (auto split: if_splits)
  qed
  from assms(1) show ?thesis
  proof cases
    case (step_create cid now name priv creator ch)
    then show ?thesis using step_create_invs(3) assms(2,3,4) by blast
  next
    case (step_join now b u jr)
    from step_join(2) show ?thesis
    proof (rule join_public_channel_cases)
      fix m ch
      assume "m = \<lparr>cm_channel_id = b, cm_user_id = u, cm_role = MEMBER, cm_joined_at = now\<rparr>"
        "insert_member m d = Inr d'"
      then show ?thesis by (intro ins) auto
    qed (use assms(3,4) in simp)
  next
    case (step_leave b u lo)
    from step_leave(2) show ?thesis
      by (rule leave_channel_cases) (use assms(3,4) dep in auto)
  next
    case (step_add now b caller t role ar)
    from ok step_add(2) show ?thesis
    proof (rule add_channel_member_cases)
      fix m
      assume "m = \<lparr>cm_channel_id = b, cm_user_id = t, cm_role = role, cm_joined_at = now\<rparr>"
        "insert_member m d = Inr d'" "caller \<in> channel_admins b d"
      then show ?thesis using assms(4) by (intro ins) auto
    qed (use assms(3,4) in simp)
  next
    case (step_remove b caller t ro)
    from ok step_remove(2) show ?thesis
      by (rule remove_channel_member_cases) (use assms(3,4) dep in auto)
  next
    case (step_role b caller t role cr)
    obtain out r where cr: "cr = (out, r)" by force
    from ok step_role(2) [unfolded cr] show ?thesis
    proof (rule change_member_role_cases)
      fix m
      assume *: "caller \<in> channel_admins b d" "d' = set_role role m d" "get_membership b t d = Some m"
      then have "cm_channel_id m \<noteq> c" using assms(4) by (auto dest: get_membershipD)
      then show ?thesis
        using *(2) none by (intro keep) (auto simp: get_membership_set_role_other)
    qed (use assms(3,4) in simp)
  qed
qed

subsection \<open>A small database for the examples\<close>

definition demo_user :: "uuid \<Rightarrow> string \<Rightarrow> user" where
  "demo_user k name =
     \<lparr>u_id = k, u_username = py name, u_email = py (name @ ''@x.org''), u_hashed_password = [],
      u_first_name = py name, u_last_name = py name, u_avatar_url = None, u_is_active = True,
      u_is_system_admin = False, u_must_change_password = False, u_email_verified = True,
      u_last_seen = None, u_created_at = 0\<rparr>"

definition demo_channel :: "uuid \<Rightarrow> string \<Rightarrow> bool \<Rightarrow> channel" where
  "demo_channel k name priv =
     \<lparr>c_id = k, c_name = py name, c_is_private = priv, c_created_by = 1, c_created_at = int (unat k)\<rparr>"

definition demo_member :: "uuid \<Rightarrow> uuid \<Rightarrow> channel_member_role \<Rightarrow> int \<Rightarrow> channel_member" where
  "demo_member c u r t =
     \<lparr>cm_channel_id = c, cm_user_id = u, cm_role = r, cm_joined_at = t\<rparr>"

definition empty_db :: database where
  "empty_db = \<lparr>tb_users = [], tb_channels = [], tb_members = [], tb_messages = [],
     tb_attachments = [], tb_invites = [], tb_reset_tokens = [], tb_sessions = []\<rparr>"

text \<open>User 1 administers the public channel 10 with members 2 and 3; channel 11 is private
  and user 1 is alone in it.\<close>

definition demo_db :: database where
  "demo_db = empty_db\<lparr>
     tb_users := [demo_user 1 ''ann'', demo_user 2 ''bob'', demo_user 3 ''cyd''],
     tb_channels := [demo_channel 10 ''general'' False, demo_channel 11 ''ops'' True],
     tb_members := [demo_member 10 1 ADMIN 5, demo_member 10 3 MEMBER 7, demo_member 10 2 MEMBER 6,
                    demo_member 11 1 ADMIN 5]\<rparr>"

lemmas demo_defs = demo_db_def empty_db_def demo_user_def demo_channel_def demo_member_def

lemma demo_get_membership:
  "get_membership c u demo_db =
     (if (c, u) = (10, 1) then Some (demo_member 10 1 ADMIN 5)
      else if (c, u) = (10, 3) then Some (demo_member 10 3 MEMBER 7)
      else if (c, u) = (10, 2) then Some (demo_member 10 2 MEMBER 6)
      else if (c, u) = (11, 1) then Some (demo_member 11 1 ADMIN 5) else None)"
  by (simp add: get_membership_def get_member_def db_get_def demo_defs cm_key_def)

lemma demo_inv: "membership_inv demo_db"
  by (simp add: membership_inv_def members_ok_def member_refs_ok_def demo_defs cm_key_def
      get_channel_def get_user_def db_get_def)

lemma demo_members:
  "tb_members demo_db = [demo_member 10 1 ADMIN 5, demo_member 10 3 MEMBER 7,
     demo_member 10 2 MEMBER 6, demo_member 11 1 ADMIN 5]"
  by (simp add: demo_db_def empty_db_def)

lemma demo_member_sel [simp]:
  "cm_channel_id (demo_member c u r t) = c" "cm_user_id (demo_member c u r t) = u"
  "cm_role (demo_member c u r t) = r" "cm_joined_at (demo_member c u r t) = t"
  "cm_key (demo_member c u r t) = (c, u)"
  "demo_member c u r t\<lparr>cm_role := r'\<rparr> = demo_member c u r' t"
  by (simp_all add: demo_member_def cm_key_def)

lemma demo_governed: "governed b demo_db"
proof (cases "b = 10 \<or> b = 11")
  case True
  then have "1 \<in> channel_admins b demo_db"
    by (elim disjE) (simp_all add: channel_admins_def demo_get_membership)
  then show ?thesis by (auto simp: governed_def)
next
  case False
  then have "get_membership b u demo_db = None" for u
    by (simp add: demo_get_membership)
  then show ?thesis by (simp add: governed_def channel_members_def)
qed

lemma demo_get_channel:
  "get_channel 10 demo_db = Some (demo_channel 10 ''general'' False)"
  "get_channel 11 demo_db = Some (demo_channel 11 ''ops'' True)"
  by (simp_all add: get_channel_def db_get_def demo_db_def demo_channel_def)

lemma demo_succession:
  "run_sole_admin_succession 1 (Some 10) demo_db =
     ([10], demo_db\<lparr>tb_members := [demo_member 10 1 ADMIN 5, demo_member 10 3 MEMBER 7,
        demo_member 10 2 ADMIN 6, demo_member 11 1 ADMIN 5]\<rparr>)"
proof -
  have "lock_channel_admin_ids 10 demo_db = [1]"
    by (simp add: lock_channel_admin_ids_def demo_members)
  moreover have "find_successor 10 1 demo_db = Some (demo_member 10 2 MEMBER 6)"
    by (simp add: find_successor_def demo_members)
  ultimately show ?thesis
    by (simp add: run_sole_admin_succession_def demo_members set_role_def update_members_def
        db_update_def)
qed

lemma demo_succession_all:
  "run_sole_admin_succession 1 None demo_db =
     ([10], demo_db\<lparr>tb_members := [demo_member 10 1 ADMIN 5, demo_member 10 3 MEMBER 7,
        demo_member 10 2 ADMIN 6, demo_member 11 1 ADMIN 5]\<rparr>)"
proof -
  let ?d = "demo_db\<lparr>tb_members := [demo_member 10 1 ADMIN 5, demo_member 10 3 MEMBER 7,
        demo_member 10 2 ADMIN 6, demo_member 11 1 ADMIN 5]\<rparr>"
  have "lock_channel_admin_ids 10 demo_db = [1]" "lock_channel_admin_ids 11 ?d = [1]"
    by (simp_all add: lock_channel_admin_ids_def demo_members)
  moreover have "find_successor 10 1 demo_db = Some (demo_member 10 2 MEMBER 6)"
    "find_successor 11 1 ?d = None"
    by (simp_all add: find_successor_def demo_members)
  ultimately show ?thesis
    by (simp add: run_sole_admin_succession_def demo_members set_role_def update_members_def
        db_update_def)
qed

lemma demo_leave:
  "leave_channel id 10 1 demo_db =
     (LEFT, demo_db\<lparr>tb_members := [demo_member 10 3 MEMBER 7, demo_member 10 2 ADMIN 6,
                                   demo_member 11 1 ADMIN 5]\<rparr>)"
  by (simp add: leave_channel_def demo_get_channel demo_get_membership demo_succession
      delete_membership_def delete_members_def db_delete_def)

subsection \<open>Properties\<close>

text \<open>
  C4. No channel loses its governance: along any sequence of channel creations, joins,
  leaves, additions, removals and role changes, as long as nobody joins a channel without
  admins and no role change demotes a channel's last admin, every channel that has members
  has an admin, and the primary and foreign keys of the membership table hold.
\<close>

theorem channels_keep_an_admin:
  assumes "membership_run True d d'" "membership_inv d" "\<forall>b. governed b d"
  shows "membership_inv d' \<and> (\<forall>b. governed b d')"
proof -
  have "k \<Longrightarrow> membership_inv d' \<and> (\<forall>b. governed b d')" if "membership_run k d d'" for k
    using that assms(2,3)
    by (induction rule: membership_run.induct)
       (auto dest: membership_step_inv membership_step_governed)
  with assms(1) show ?thesis by blast
qed

lemma channels_keep_an_admin_witness:
  "membership_inv (snd (leave_channel id 10 1 demo_db)) \<and>
   (\<forall>b. governed b (snd (leave_channel id 10 1 demo_db)))"
proof (rule channels_keep_an_admin)
  show "membership_run True demo_db (snd (leave_channel id 10 1 demo_db))"
    using run_step [OF run_refl step_leave [OF demo_leave]] by (simp add: demo_leave)
qed (simp_all add: demo_inv demo_governed)

text \<open>
  A channel without admins stays without admins: no creation, join, leave, addition,
  removal or role change ever gives it one, whoever calls it.  (A public channel whose last
  member left is in this state, and joining it makes plain members only.)
\<close>

theorem zero_admin_is_terminal:
  assumes "membership_run k d d'" "membership_inv d" "get_channel c d \<noteq> None"
    and "channel_admins c d = {}"
  shows "channel_admins c d' = {} \<and> get_channel c d' \<noteq> None"
proof -
  from assms have "membership_inv d' \<and> channel_admins c d' = {} \<and> get_channel c d' \<noteq> None"
    by (induction rule: membership_run.induct)
       (blast dest: membership_step_inv membership_step_no_admin)+
  then show ?thesis by blast
qed

definition demo_empty_channel :: database where
  "demo_empty_channel = demo_db\<lparr>tb_members := [demo_member 11 1 ADMIN 5]\<rparr>"

lemma zero_admin_is_terminal_witness:
  "let d' = demo_empty_channel\<lparr>tb_members := tb_members demo_empty_channel @ [demo_member 10 2 MEMBER 9]\<rparr>
   in channel_admins 10 d' = {} \<and> get_channel 10 d' \<noteq> None"
proof -
  let ?d' = "demo_empty_channel\<lparr>tb_members := tb_members demo_empty_channel @ [demo_member 10 2 MEMBER 9]\<rparr>"
  have "join_public_channel id 9 10 2 demo_empty_channel =
      Inr (\<lparr>j_outcome = JOINED, j_membership = Some (demo_member 10 2 MEMBER 9),
            j_channel = Some (demo_channel 10 ''general'' False), j_member_count = Some 1\<rparr>, ?d')"
    by (simp add: join_public_channel_def get_channel_def get_membership_def get_member_def
        db_get_def demo_empty_channel_def demo_defs cm_key_def insert_member_def
        count_channel_members_def Let_def)
  then have "membership_run (True \<and> channel_admins 10 demo_empty_channel \<noteq> {}) demo_empty_channel ?d'"
    by (intro run_step [OF run_refl step_join])
  moreover have "membership_inv demo_empty_channel"
    by (simp add: membership_inv_def members_ok_def member_refs_ok_def demo_empty_channel_def
        demo_defs cm_key_def get_channel_def get_user_def db_get_def)
  moreover have "get_channel 10 demo_empty_channel \<noteq> None"
    by (simp add: demo_empty_channel_def demo_defs get_channel_def db_get_def)
  moreover have "channel_admins 10 demo_empty_channel = {}"
    by (auto simp: channel_admins_def get_membership_def get_member_def db_get_def
        demo_empty_channel_def demo_defs cm_key_def split: if_splits)
  ultimately show ?thesis unfolding Let_def by (rule zero_admin_is_terminal)
qed

text \<open>
  C21. Leaving a channel as the only request in flight: the caller's membership is deleted; if
  the caller was the channel's only admin, exactly one remaining member, one with the
  earliest \<open>joined_at\<close>, becomes admin; every other membership of every channel and every
  other table is unchanged.
\<close>

theorem leave_channel_effect:
  assumes "members_ok d" "get_channel c d \<noteq> None" "get_membership c u d \<noteq> None"
    and "leave_channel id c u d = (out, d')"
  shows "out = LEFT \<and> same_but_members d d' \<and> members_ok d' \<and>
    (\<forall>b v. get_membership b v d' =
       (if b = c \<and> v = u then None
        else if b = c \<and> promotes c u d v
        then map_option (\<lambda>m. m\<lparr>cm_role := ADMIN\<rparr>) (get_membership c v d)
        else get_membership b v d)) \<and>
    (channel_admins c d = {u} \<and> channel_members c d \<noteq> {u} \<longrightarrow>
      (\<exists>v m. promotes c u d v \<and> v \<noteq> u \<and> get_membership c v d = Some m \<and>
        (\<forall>w n. get_membership c w d = Some n \<and> w \<noteq> u \<longrightarrow> cm_joined_at m \<le> cm_joined_at n)))"
    (is "?A \<and> ?B \<and> ?C \<and> ?D \<and> ?E")
proof -
  have "?A \<and> ?B \<and> ?C \<and> ?D"
    using assms(4)
  proof (rule leave_channel_cases)
    fix m assume "out = LEFT" "get_membership c u d = Some m" "d' = depart m d"
    then show ?thesis using depart_spec [OF assms(1), of c u m] by simp
  qed (use assms(2,3) in auto)
  moreover have ?E
  proof
    assume *: "channel_admins c d = {u} \<and> channel_members c d \<noteq> {u}"
    then have "u \<in> channel_members c d" by (auto simp: channel_admins_def channel_members_def)
    with * obtain w n where "get_membership c w d = Some n" "w \<noteq> u"
      by (auto simp: channel_members_def)
    then have "find_successor c u d \<noteq> None"
      by (auto simp: find_successor_None dest: get_membershipD)
    then obtain s where s: "find_successor c u d = Some s" by blast
    note fs = find_successor_Some [OF s]
    have "promotes c u d (cm_user_id s)" using * s by (simp add: promotes_def)
    moreover have "get_membership c (cm_user_id s) d = Some s"
      using fs(1,2) by (simp add: get_membership_iff [OF assms(1)])
    moreover have "cm_joined_at s \<le> cm_joined_at n" if "get_membership c w d = Some n" "w \<noteq> u" for w n
      using that fs(4) by (auto dest: get_membershipD)
    ultimately show "\<exists>v m. promotes c u d v \<and> v \<noteq> u \<and> get_membership c v d = Some m \<and>
        (\<forall>w n. get_membership c w d = Some n \<and> w \<noteq> u \<longrightarrow> cm_joined_at m \<le> cm_joined_at n)"
      using fs(3) by blast
  qed
  ultimately show ?thesis by blast
qed

lemma leave_channel_effect_witness:
  "get_membership 10 1 (snd (leave_channel id 10 1 demo_db)) = None \<and>
   fst (leave_channel id 10 1 demo_db) = LEFT"
proof -
  have "members_ok demo_db" using demo_inv by (simp add: membership_inv_def)
  moreover have "get_channel 10 demo_db \<noteq> None"
    by (simp add: demo_defs get_channel_def db_get_def)
  moreover have "get_membership 10 1 demo_db \<noteq> None" by (simp add: demo_get_membership)
  ultimately show ?thesis
    using leave_channel_effect [of demo_db 10 1, OF _ _ _ prod.collapse [symmetric]] by auto
qed

text \<open>
  Succession over all channels (deactivation): exactly the channels whose only admin is
  the departing user and that have another member are promoted, each by one membership, one
  with the earliest \<open>joined_at\<close>; no row is added or deleted and no other role changes, so
  afterwards every such channel has an admin besides the departing user.
\<close>

theorem succession_covers_all_channels:
  assumes "members_ok d" "run_sole_admin_succession u None d = (promoted, d')"
  shows "set promoted = {c. channel_admins c d = {u} \<and> channel_members c d \<noteq> {u}}
    \<and> (\<forall>c v. get_membership c v d' =
         (if promotes c u d v then map_option (\<lambda>m. m\<lparr>cm_role := ADMIN\<rparr>) (get_membership c v d)
          else get_membership c v d))
    \<and> (\<forall>c\<in>set promoted. \<exists>v. v \<noteq> u \<and> v \<in> channel_admins c d')"
proof -
  note spec = run_sole_admin_succession_spec [OF assms(1), where u = u and scope = None,
      unfolded assms(2) fst_conv snd_conv]
  have scope: "succession_scope u None d c" if "promotes c u d v" for c v
    using that by (simp add: succession_scope_def promotes_def)
  have dom: "(\<exists>v. promotes c u d v) \<longleftrightarrow> channel_admins c d = {u} \<and> channel_members c d \<noteq> {u}" for c
  proof (cases "channel_admins c d = {u}")
    case True
    then have u: "u \<in> channel_members c d" by (auto simp: channel_admins_def channel_members_def)
    have "(\<exists>v. promotes c u d v) \<longleftrightarrow> find_successor c u d \<noteq> None"
      using True by (cases "find_successor c u d") (auto simp: promotes_def)
    also have "\<dots> \<longleftrightarrow> (\<exists>w. w \<in> channel_members c d \<and> w \<noteq> u)"
      by (auto simp: find_successor_None channel_members_def get_membership_iff [OF assms(1)])
    finally show ?thesis using True u by blast
  qed (simp add: promotes_def)
  have get: "get_membership c v d' =
      (if promotes c u d v then map_option (\<lambda>m. m\<lparr>cm_role := ADMIN\<rparr>) (get_membership c v d)
       else get_membership c v d)" for c v
    using spec(1) [of c v] scope by auto
  have "\<exists>v. v \<noteq> u \<and> v \<in> channel_admins c d'" if "c \<in> set promoted" for c
  proof -
    from that obtain v where v: "promotes c u d v" unfolding spec(4) by blast
    then obtain s where s: "find_successor c u d = Some s" "v = cm_user_id s"
      by (auto simp: promotes_def)
    then have "get_membership c v d = Some s" "v \<noteq> u"
      using find_successor_Some [OF s(1)] by (auto simp: get_membership_iff [OF assms(1)])
    then show ?thesis using v by (auto simp: channel_admins_def get)
  qed
  moreover have "set promoted = {c. channel_admins c d = {u} \<and> channel_members c d \<noteq> {u}}"
    unfolding spec(4) using dom scope by blast
  ultimately show ?thesis using get by blast
qed

lemma succession_covers_all_channels_witness:
  "{c. channel_admins c demo_db = {1} \<and> channel_members c demo_db \<noteq> {1}} = {10} \<and>
   (\<exists>v. v \<noteq> 1 \<and> v \<in> channel_admins 10 (snd (run_sole_admin_succession 1 None demo_db)))"
proof -
  have "members_ok demo_db" using demo_inv by (simp add: membership_inv_def)
  from succession_covers_all_channels [OF this demo_succession_all]
  show ?thesis by (simp add: demo_succession_all)
qed

text \<open>
  A caller who is not an admin of the channel learns nothing about the target: adding,
  re-roling and removing answer the same for every target and every role, and change nothing.
\<close>

theorem refusals_hide_the_target:
  assumes "members_ok d" "caller \<notin> channel_admins c d"
  shows "add_channel_member others now c caller t role d =
      add_channel_member others now c caller t' role' d
    \<and> change_member_role c caller t role d = change_member_role c caller t' role' d
    \<and> remove_channel_member c caller t d = remove_channel_member c caller t' d
    \<and> (\<exists>r. add_channel_member others now c caller t role d = Inr (r, d))
    \<and> snd (change_member_role c caller t role d) = d \<and> snd (remove_channel_member c caller t d) = d"
  using assms(2) set_lock_channel_admin_ids [OF assms(1), of c]
  by (auto simp: add_channel_member_def change_member_role_def remove_channel_member_def Let_def
      split: option.splits)

lemma refusals_hide_the_target_witness:
  "remove_channel_member 10 2 3 demo_db = remove_channel_member 10 2 77 demo_db"
proof -
  have "members_ok demo_db" using demo_inv by (simp add: membership_inv_def)
  moreover have "2 \<notin> channel_admins 10 demo_db"
    by (simp add: channel_admins_def demo_get_membership demo_member_def)
  ultimately show ?thesis using refusals_hide_the_target [of demo_db 2 10] by blast
qed

text \<open>
  Joining under interference: whatever concurrent transactions commit between the
  membership check and the insert, as long as the channel and the user still exist and keys
  stay unique, the join returns an answer (no error escapes), never creates a second
  membership, and reports \<open>JOINED\<close> only when it created the caller's membership as plain
  member of a public channel, counting it; every other answer writes nothing.
\<close>

theorem join_survives_races:
  assumes "members_ok (others d)" "get_channel c (others d) \<noteq> None" "get_user u (others d) \<noteq> None"
  shows "case join_public_channel others now c u d of
      Inl e \<Rightarrow> False
    | Inr (r, d') \<Rightarrow>
        (j_outcome r = JOINED \<longleftrightarrow> get_channel c d \<noteq> None \<and> get_membership c u d = None \<and>
           \<not> c_is_private (the (get_channel c d)) \<and> get_membership c u (others d) = None) \<and>
        (j_outcome r = JOINED \<longrightarrow> members_ok d' \<and>
           d' = (others d)\<lparr>tb_members := tb_members (others d) @ [the (j_membership r)]\<rparr> \<and>
           map_option cm_role (get_membership c u d') = Some MEMBER \<and>
           j_membership r = get_membership c u d' \<and>
           j_member_count r = Some (count_channel_members c (others d) + 1)) \<and>
        (j_outcome r \<noteq> JOINED \<longrightarrow> d' = d \<or> d' = others d) \<and>
        (j_outcome r = JOIN_ALREADY_MEMBER \<longrightarrow>
           j_membership r \<noteq> None \<and> j_membership r \<in> {get_membership c u d, get_membership c u (others d)})"
proof -
  let ?m = "\<lparr>cm_channel_id = c, cm_user_id = u, cm_role = MEMBER, cm_joined_at = now\<rparr>"
  have ins: "insert_member ?m (others d) =
      (if get_membership c u (others d) = None
       then Inr ((others d)\<lparr>tb_members := tb_members (others d) @ [?m]\<rparr>)
       else Inl (UniqueViolation ''pk_channel_members''))"
    using assms(2,3)
    by (auto simp: insert_member_def get_membership_def get_member_def get_channel_def get_user_def
        cm_key_def db_get_None image_iff) metis+
  show ?thesis
  proof (cases "get_channel c d")
    case None
    then show ?thesis by (simp add: join_public_channel_def)
  next
    case ch: (Some ch)
    show ?thesis
    proof (cases "get_membership c u d = None \<and> \<not> c_is_private ch")
      case False
      then show ?thesis using ch by (auto simp: join_public_channel_def split: option.split)
    next
      case True
      show ?thesis
      proof (cases "get_membership c u (others d)")
        case None
        let ?d = "(others d)\<lparr>tb_members := tb_members (others d) @ [?m]\<rparr>"
        have i: "insert_member ?m (others d) = Inr ?d" using ins None by simp
        have "members_ok ?d" using members_ok_insert [OF i assms(1)] .
        moreover have "get_membership c u ?d = Some ?m"
          by (simp add: get_membership_insert [OF i] cm_key_def)
        ultimately show ?thesis using True ch None i
          by (simp add: join_public_channel_def Let_def count_channel_members_def)
      next
        case (Some e)
        then show ?thesis using True ch ins by (simp add: join_public_channel_def Let_def)
      qed
    qed
  qed
qed

lemma join_survives_races_witness:
  "case join_public_channel (\<lambda>d. demo_db) 9 10 3 (demo_db\<lparr>tb_members := []\<rparr>) of
     Inl e \<Rightarrow> False | Inr (r, d') \<Rightarrow> j_outcome r \<noteq> JOINED"
proof -
  have "members_ok demo_db" using demo_inv by (simp add: membership_inv_def)
  moreover have "get_channel 10 demo_db \<noteq> None" by (simp add: demo_get_channel)
  moreover have "get_user 3 demo_db \<noteq> None" by (simp add: get_user_def demo_defs db_get_def)
  ultimately show ?thesis
    using join_survives_races [of "\<lambda>d. demo_db" "demo_db\<lparr>tb_members := []\<rparr>" 10 3 9]
    by (auto simp: demo_get_membership split: sum.splits)
qed

definition admin_leaves_meanwhile :: "database \<Rightarrow> database" where
  "admin_leaves_meanwhile d = snd (leave_channel id 10 1 d)"

text \<open>
  C28. The race the row lock does not cover: user 2 asks to leave while still a plain member;
  before its delete, the only admin (user 1) leaves and user 2 is promoted.  User 2's request
  then deletes its own, now admin, row without succession, and user 3 is left in a channel
  without admins, although either order of the two requests alone keeps one.
\<close>

theorem leave_race_loses_the_admin:
  "let d' = snd (leave_channel admin_leaves_meanwhile 10 2 demo_db)
   in channel_members 10 d' = {3} \<and> channel_admins 10 d' = {}
    \<and> governed 10 (snd (leave_channel id 10 2 (admin_leaves_meanwhile demo_db)))
    \<and> governed 10 (admin_leaves_meanwhile (snd (leave_channel id 10 2 demo_db)))"
proof -
  let ?mid = "admin_leaves_meanwhile demo_db"
  let ?d' = "snd (leave_channel admin_leaves_meanwhile 10 2 demo_db)"
  have mid: "?mid = demo_db\<lparr>tb_members := [demo_member 10 3 MEMBER 7, demo_member 10 2 ADMIN 6,
      demo_member 11 1 ADMIN 5]\<rparr>"
    by (simp add: admin_leaves_meanwhile_def demo_leave)
  have d': "?d' = demo_db\<lparr>tb_members := [demo_member 10 3 MEMBER 7, demo_member 11 1 ADMIN 5]\<rparr>"
    by (simp add: leave_channel_def demo_get_channel demo_get_membership mid
        delete_membership_def delete_members_def db_delete_def)
  then have "get_membership 10 v ?d' = (if v = 3 then Some (demo_member 10 3 MEMBER 7) else None)" for v
    by (simp add: get_membership_def get_member_def db_get_def)
  then have A: "channel_members 10 ?d' = {3}" "channel_admins 10 ?d' = {}"
    by (simp_all add: channel_members_def channel_admins_def)
  have all: "\<forall>b. governed b demo_db" by (simp add: demo_governed)
  have "membership_inv ?mid \<and> (\<forall>b. governed b ?mid)"
    using membership_step_inv [OF step_leave [OF demo_leave] demo_inv]
      membership_step_governed [OF step_leave [OF demo_leave] demo_inv] all
    by (simp add: mid)
  then have B: "governed 10 (snd (leave_channel id 10 2 ?mid))"
    using membership_step_governed [OF step_leave [OF prod.collapse [symmetric]]] by blast
  let ?e = "snd (leave_channel id 10 2 demo_db)"
  have "membership_inv ?e" "governed 10 ?e"
    using membership_step_inv [OF step_leave [OF prod.collapse [symmetric]] demo_inv]
      membership_step_governed [OF step_leave [OF prod.collapse [symmetric]] demo_inv] all by blast+
  then have C: "governed 10 (admin_leaves_meanwhile ?e)"
    unfolding admin_leaves_meanwhile_def
    using membership_step_governed [OF step_leave [OF prod.collapse [symmetric]]] by blast
  show ?thesis unfolding Let_def using A B C by blast
qed

subsection \<open>Listings\<close>

definition channels_ok :: "database \<Rightarrow> bool" where
  "channels_ok d \<longleftrightarrow> distinct (map c_id (tb_channels d)) \<and>
     (\<forall>c\<in>set (tb_channels d). valid_datetime (c_created_at c))"

lemma my_channel_row_keys:
  assumes "members_ok d" "channels_ok d"
  shows "distinct (map view_key (my_channel_rows u d))"
proof -
  have "distinct (map (ck_id \<circ> view_key) (my_channel_rows u d))"
    unfolding my_channel_rows_def
  proof (rule distinct_join [where h = c_id], goal_cases)
    case 1
    have "length (filter (\<lambda>m. cm_channel_id m = c_id c \<and> cm_user_id m = u) (tb_members d)) \<le> 1"
      for c :: channel
      by (rule filter_by_key_le_1 [where pk = cm_key and k = "(c_id c, u)"])
         (use assms(1) in \<open>auto simp: members_ok_def cm_key_def\<close>)
    then show ?case by (simp add: view_key_def)
  next
    case 2
    show ?case using assms(2) by (simp add: channels_ok_def)
  qed
  then show ?thesis by (metis distinct_map map_map)
qed

text \<open>The page query of one caller is an instance of the keyset contract.\<close>

interpretation my_channels: keyset_source
  "\<lambda>d limit c. list_my_channels u limit c d" "my_channel_rows u" view_key
  "\<lambda>d. members_ok d \<and> channels_ok d" for u
proof
  show "distinct (map view_key (my_channel_rows u d))" if "members_ok d \<and> channels_ok d" for d u
    using that my_channel_row_keys by blast
  show "valid_datetime (ck_created_at (view_key r))"
    if "members_ok d \<and> channels_ok d" "r \<in> set (my_channel_rows u d)" for d r u
    using that by (auto simp: my_channel_rows_def view_key_def channels_ok_def)
qed (simp add: list_my_channels_def keyset_page_def)

lemma coalesce_member_count:
  "coalesce_count (member_count_subquery d) c = count_channel_members c d"
proof (cases "c \<in> cm_channel_id ` set (tb_members d)")
  case True
  then show ?thesis
    by (auto simp: coalesce_count_def member_count_subquery_def map_of_map_restrict restrict_map_def
        split: option.splits)
next
  case False
  then have "filter (\<lambda>m. cm_channel_id m = c) (tb_members d) = []"
    by (auto simp: filter_empty_conv)
  with False show ?thesis
    by (auto simp: coalesce_count_def member_count_subquery_def map_of_map_restrict restrict_map_def
        count_channel_members_def split: option.splits)
qed

text \<open>
  Walking \<open>GET /v1/channels\<close> page by page with the returned cursors yields, newest
  first and without repetition, every channel the caller is a member of, each with the
  caller's own role and the true member count, and no other channel.
\<close>

theorem my_channels_walk:
  assumes "members_ok d" "channels_ok d" "1 \<le> limit" "length (my_channel_rows u d) < fuel"
  shows "\<exists>views. walk_pages (\<lambda>c. list_my_channels u limit c d) fuel None = Some views
    \<and> newest_first view_key views
    \<and> (\<forall>v. v \<in> set views \<longleftrightarrow>
        (\<exists>ch m. ch \<in> set (tb_channels d) \<and> get_membership (c_id ch) u d = Some m \<and>
          v = \<lparr>v_channel = ch, v_member_count = count_channel_members (c_id ch) d,
               v_my_role = Some (cm_role m)\<rparr>))"
proof -
  from my_channels.walk_visits_once [OF _ assms(3,4)] assms(1,2)
  obtain rows where rows: "walk_pages (\<lambda>c. list_my_channels u limit c d) fuel None = Some rows"
    "mset rows = mset (my_channel_rows u d)" "newest_first view_key rows" by blast
  have "set rows = set (my_channel_rows u d)" using rows(2) by (metis set_mset_mset)
  also have "\<dots> = {v. \<exists>ch m. ch \<in> set (tb_channels d) \<and> get_membership (c_id ch) u d = Some m \<and>
          v = \<lparr>v_channel = ch, v_member_count = count_channel_members (c_id ch) d,
               v_my_role = Some (cm_role m)\<rparr>}"
    by (auto simp: my_channel_rows_def get_membership_iff [OF assms(1)] coalesce_member_count)
  finally show ?thesis using rows by auto
qed

lemma my_channels_walk_witness:
  "\<exists>views. walk_pages (\<lambda>c. list_my_channels 1 1 c demo_db) 3 None = Some views
     \<and> newest_first view_key views"
proof -
  have "members_ok demo_db" using demo_inv by (simp add: membership_inv_def)
  moreover have "channels_ok demo_db"
    by (simp add: channels_ok_def demo_db_def demo_channel_def valid_datetime_def datetime_min_def
        datetime_max_def)
  moreover have "length (my_channel_rows 1 demo_db) < 3"
    by (simp add: my_channel_rows_def demo_members) (simp add: demo_db_def demo_channel_def)
  ultimately show ?thesis using my_channels_walk [of demo_db 1 1 3] by fastforce
qed

definition browsable :: "uuid \<Rightarrow> database \<Rightarrow> channel list" where
  "browsable u d = sort_key (\<lambda>c. (c_created_at c, c_id c))
    (filter (\<lambda>c. \<not> c_is_private c \<and> get_membership (c_id c) u d = None) (tb_channels d))"

text \<open>
  Browsing public channels page by page (offsets 0, limit, 2 limit, ...) concatenates to
  the whole list, oldest first, of the public channels the caller has not joined; the total of
  every page is its length, and the counts are the true member counts.
\<close>

theorem public_channel_pages:
  "concat (map (\<lambda>n. pc_rows (list_public_channels u (int limit) (int (n * limit)) d)) [0..<pages])
      = map (\<lambda>c. (c, count_channel_members (c_id c) d)) (take (pages * limit) (browsable u d))
    \<and> pc_total (list_public_channels u l off d) = int (length (browsable u d))"
proof -
  have "public_filter u d = (\<lambda>c. \<not> c_is_private c \<and> get_membership (c_id c) u d = None)"
    by (auto simp: public_filter_def fun_eq_iff get_membership_None image_iff)
  then have page: "pc_rows (list_public_channels u (int limit) (int (n * limit)) d) =
      map (\<lambda>c. (c, count_channel_members (c_id c) d)) (take limit (drop (n * limit) (browsable u d)))"
    and total: "pc_total (list_public_channels u l off d) = int (length (browsable u d))" for n
    by (simp_all add: list_public_channels_def Let_def browsable_def sql_limit_def sql_offset_def
        coalesce_member_count nat_mult_distrib)
  have chunk: "take (Suc n * limit) xs = take (n * limit) xs @ take limit (drop (n * limit) xs)"
    for n and xs :: "channel list"
    by (simp add: take_add add.commute [of limit])
  show ?thesis
    unfolding page total
    by (induction pages) (simp_all add: chunk del: mult_Suc)
qed

end
