(* ===== verification/Values.thy ===== *)
theory Values
  imports Schema
begin

text \<open>
  Text conversions of the Python standard library the request layer uses, and the wire
  values: \<open>int(text)\<close>, \<open>uuid.UUID(text)\<close>, \<open>datetime.isoformat()\<close> of UTC times, JSON
  documents and the outcome of a request handler.
\<close>

subsection \<open>\<open>int(text, base)\<close>\<close>

text \<open>The code points of the decimal digits zero of Unicode 15; each starts a run of ten.\<close>

definition decimal_zeros :: "nat list" where
  "decimal_zeros = [48, 1632, 1776, 1984, 2406, 2534, 2662, 2790, 2918, 3046, 3174, 3302, 3430,
     3558, 3664, 3792, 3872, 4160, 4240, 6112, 6160, 6470, 6608, 6784, 6800, 6992, 7088, 7232,
     7248, 42528, 43216, 43264, 43472, 43504, 43600, 44016, 65296, 66720, 68912, 69734, 69872,
     69942, 70096, 70384, 70736, 70864, 71248, 71360, 71472, 71904, 72016, 72784, 73040, 73120,
     73552, 92768, 92864, 93008, 120782, 120792, 120802, 120812, 120822, 123200, 123632, 124144,
     125264, 130032]"

definition py_decimal :: "nat \<Rightarrow> nat option" where
  "py_decimal c = map_option (\<lambda>z. c - z) (find (\<lambda>z. z \<le> c \<and> c \<le> z + 9) decimal_zeros)"

definition digit_value :: "nat \<Rightarrow> nat \<Rightarrow> nat option" where
  "digit_value b c =
     (case (if 97 \<le> c \<and> c \<le> 122 then Some (c - 87)
            else if 65 \<le> c \<and> c \<le> 90 then Some (c - 55) else py_decimal c) of
        None \<Rightarrow> None | Some v \<Rightarrow> if v < b then Some v else None)"

text \<open>Digits after the first one; single underscores may separate digits.\<close>

fun scan_digits :: "nat \<Rightarrow> nat \<Rightarrow> pystr \<Rightarrow> nat option" where
  "scan_digits b acc [] = Some acc"
| "scan_digits b acc [c] =
     (case digit_value b c of None \<Rightarrow> None | Some v \<Rightarrow> Some (acc * b + v))"
| "scan_digits b acc (c # d # ds) =
     (if c = 95
      then (case digit_value b d of None \<Rightarrow> None | Some v \<Rightarrow> scan_digits b (acc * b + v) ds)
      else (case digit_value b c of None \<Rightarrow> None | Some v \<Rightarrow> scan_digits b (acc * b + v) (d # ds)))"

fun scan_nat :: "nat \<Rightarrow> pystr \<Rightarrow> nat option" where
  "scan_nat b [] = None"
| "scan_nat b (c # cs) =
     (case digit_value b c of None \<Rightarrow> None | Some v \<Rightarrow> scan_digits b v cs)"

definition py_int_space :: "nat \<Rightarrow> bool" where
  "py_int_space c \<longleftrightarrow> py_isspace c \<and> \<not> (28 \<le> c \<and> c \<le> 31)"

text \<open>A \<open>0x\<close> prefix is accepted in base 16, then an underscore; a decimal text of more than
  4300 digits is rejected.\<close>

definition strip_prefix16 :: "nat \<Rightarrow> pystr \<Rightarrow> pystr" where
  "strip_prefix16 b s =
     (if b = 16 \<and> 2 \<le> length s \<and> s ! 0 = 48 \<and> (s ! 1 = 120 \<or> s ! 1 = 88)
      then (if 3 \<le> length s \<and> s ! 2 = 95 then drop 3 s else drop 2 s) else s)"

definition scan_unsigned :: "nat \<Rightarrow> pystr \<Rightarrow> int option" where
  "scan_unsigned b s =
     (if b = 10 \<and> 4300 < length (filter (\<lambda>c. c \<noteq> 95) s) then None
      else map_option int (scan_nat b (strip_prefix16 b s)))"

definition py_int :: "nat \<Rightarrow> pystr \<Rightarrow> int option" where
  "py_int b s =
     (case strip_by py_int_space s of
        [] \<Rightarrow> None
      | c # cs \<Rightarrow>
          if c = 45 then map_option uminus (scan_unsigned b cs)
          else if c = 43 then scan_unsigned b cs
          else scan_unsigned b (c # cs))"

subsection \<open>\<open>uuid.UUID(text)\<close>\<close>

text \<open>\<open>str.replace(pat, "")\<close>; the counter is how many code points of a match remain.\<close>

fun py_remove :: "pystr \<Rightarrow> nat \<Rightarrow> pystr \<Rightarrow> pystr" where
  "py_remove pat k [] = []"
| "py_remove pat (Suc k) (c # cs) = py_remove pat k cs"
| "py_remove pat 0 (c # cs) =
     (if take (length pat) (c # cs) = pat then py_remove pat (length pat - 1) cs
      else c # py_remove pat 0 cs)"

definition parse_uuid :: "pystr \<Rightarrow> uuid option" where
  "parse_uuid raw =
     (let hex = py_remove (py ''-'') 0
                  (strip_by (\<lambda>c. c = 123 \<or> c = 125)
                    (py_remove (py ''uuid:'') 0 (py_remove (py ''urn:'') 0 raw)))
      in if length hex \<noteq> 32 then None
         else case py_int 16 hex of
                None \<Rightarrow> None
              | Some v \<Rightarrow> if 0 \<le> v then Some (word_of_int v) else None)"

lemma py_remove_absent:
  "pat \<noteq> [] \<Longrightarrow> hd pat \<notin> set s \<Longrightarrow> py_remove pat 0 s = s"
proof (induction s)
  case (Cons c s)
  then have "take (length pat) (c # s) \<noteq> pat" by (cases pat) auto
  with Cons show ?case by simp
qed simp

lemma py_remove_single: "py_remove [p] 0 s = filter (\<lambda>c. c \<noteq> p) s"
  by (induction s) auto

lemma strip_by_none:
  assumes "\<forall>x\<in>set s. \<not> p x"
  shows "strip_by p s = s"
proof -
  have "dropWhile p t = t" if "set t \<subseteq> set s" for t
    using assms that by (cases t) auto
  then show ?thesis by (simp add: strip_by_def)
qed

lemma digit_value_hex:
  assumes "d < 16"
  shows "digit_value 16 (of_char (hex_digit d)) = Some d"
proof (cases "d < 10")
  case True
  then have "py_decimal (48 + d) = Some d" by (simp add: py_decimal_def decimal_zeros_def)
  with True show ?thesis by (simp add: digit_value_def of_char_hex_digit)
next
  case False
  with assms show ?thesis by (simp add: digit_value_def of_char_hex_digit)
qed

lemma hex_digit_chars:
  assumes "c \<in> set (py (uuid_hex u))"
  shows "48 \<le> c \<and> c \<le> 57 \<or> 97 \<le> c \<and> c \<le> 102"
proof -
  from assms obtain d where "d \<in> set (digits_be 16 32 (unat u))" "c = of_char (hex_digit d)"
    by (auto simp: uuid_hex_def)
  then show ?thesis using hex_digits_less [of d 32 "unat u"] by (auto simp: of_char_hex_digit)
qed

lemma hex_char_code:
  "x \<in> set (uuid_hex u) \<Longrightarrow>
     48 \<le> (of_char x :: nat) \<and> (of_char x :: nat) \<le> 57 \<or> 97 \<le> (of_char x :: nat) \<and> (of_char x :: nat) \<le> 102"
  by (rule hex_digit_chars [of _ u]) simp

lemma scan_digits_hex:
  assumes "\<forall>d\<in>set ds. d < 16"
  shows "scan_digits 16 acc (map (\<lambda>d. of_char (hex_digit d)) ds) =
    Some (foldl (\<lambda>a d. a * 16 + d) acc ds)"
  using assms
proof (induction ds arbitrary: acc)
  case (Cons d ds)
  have ne: "of_char (hex_digit d) \<noteq> (95 :: nat)"
    using Cons.prems by (simp add: of_char_hex_digit)
  show ?case
  proof (cases ds)
    case Nil
    with Cons.prems show ?thesis by (simp add: digit_value_hex)
  next
    case (Cons e es)
    then show ?thesis using Cons.IH Cons.prems ne by (simp add: digit_value_hex)
  qed
qed simp

lemma filter_insert_at: "\<not> P c \<Longrightarrow> filter P (insert_at n c xs) = filter P xs"
  by (simp add: insert_at_def) (metis append_take_drop_id filter_append)

lemma py_insert_at: "py (insert_at n c xs) = insert_at n (of_char c) (py xs)"
  by (simp add: insert_at_def take_map drop_map)

lemma filter_hyphen_uuid_str: "filter (\<lambda>c. c \<noteq> 45) (py (uuid_str u)) = py (uuid_hex u)"
proof -
  have "filter (\<lambda>c. c \<noteq> 45) (py (uuid_str u)) = filter (\<lambda>c. c \<noteq> 45) (py (uuid_hex u))"
    by (simp add: uuid_str_insert_at py_insert_at filter_insert_at)
  also have "\<dots> = py (uuid_hex u)"
    by (rule filter_True) (auto dest!: hex_char_code)
  finally show ?thesis .
qed

lemma uuid_str_chars:
  assumes "c \<in> set (py (uuid_str u))"
  shows "48 \<le> c \<and> c \<le> 57 \<or> 97 \<le> c \<and> c \<le> 102 \<or> c = 45"
proof (cases "c = 45")
  case False
  with assms have "c \<in> set (filter (\<lambda>c. c \<noteq> 45) (py (uuid_str u)))" by simp
  then show ?thesis unfolding filter_hyphen_uuid_str by (auto dest!: hex_char_code)
qed simp

lemma uuid_char_code:
  "x \<in> set (uuid_str u) \<Longrightarrow>
     48 \<le> (of_char x :: nat) \<and> (of_char x :: nat) \<le> 57 \<or>
     97 \<le> (of_char x :: nat) \<and> (of_char x :: nat) \<le> 102 \<or> of_char x = (45 :: nat)"
  by (rule uuid_str_chars [of _ u]) simp

lemma py_int_uuid_hex: "py_int 16 (py (uuid_hex u)) = Some (uint u)"
proof -
  let ?s = "py (uuid_hex u)"
  have chars: "\<And>c. c \<in> set ?s \<Longrightarrow> 48 \<le> c \<and> c \<le> 57 \<or> 97 \<le> c \<and> c \<le> 102"
    by (rule hex_digit_chars)
  have len: "length ?s = 32" by simp
  have "strip_by py_int_space ?s = ?s"
    by (rule strip_by_none) (auto simp: py_int_space_def py_isspace_def dest!: hex_char_code)
  moreover obtain c cs where s: "?s = c # cs" using len by (cases ?s) auto
  moreover have "c \<noteq> 45" "c \<noteq> 43" using chars [of c] s by auto
  ultimately have "py_int 16 ?s = scan_unsigned 16 ?s" by (simp add: py_int_def)
  moreover have "?s ! 1 \<in> set ?s" by (rule nth_mem) simp
  then have "?s ! 1 \<noteq> 120 \<and> ?s ! 1 \<noteq> 88" using chars [of "?s ! 1"] by auto
  then have "strip_prefix16 16 ?s = ?s" by (simp only: strip_prefix16_def) simp
  ultimately have "py_int 16 ?s = map_option int (scan_nat 16 ?s)" by (simp add: scan_unsigned_def)
  moreover have "scan_nat 16 ?s = Some (of_digits 16 (digits_be 16 32 (unat u)))"
  proof -
    obtain d ds where ds: "digits_be 16 32 (unat u) = d # ds"
      by (metis length_digits_be list.exhaust list.size(3) zero_neq_numeral)
    then have lt: "d < 16" "\<forall>e\<in>set ds. e < 16"
      using hex_digits_less [of _ 32 "unat u"] by auto
    have "?s = of_char (hex_digit d) # map (\<lambda>d. of_char (hex_digit d)) ds"
      by (simp add: uuid_hex_def ds)
    then show ?thesis
      using lt by (simp add: digit_value_hex scan_digits_hex of_digits_def ds)
  qed
  moreover have "of_digits 16 (digits_be 16 32 (unat u)) = unat u"
    using uuid_unat_less [of u] by (simp only: of_digits_digits mod_less)
  ultimately show ?thesis by simp
qed

text \<open>
  UUIDs survive the text form in which they are stored in Redis and travel on the wire:
  parsing \<open>str(u)\<close> gives \<open>u\<close> back.
\<close>

theorem parse_uuid_str: "parse_uuid (py (uuid_str u)) = Some u"
proof -
  let ?s = "py (uuid_str u)"
  have no: "117 \<notin> set ?s" using uuid_str_chars [of 117 u] by auto
  have rm: "py_remove (py pat) 0 ?s = ?s" if "pat \<noteq> []" "hd pat = CHR ''u''" for pat
    using that no by (intro py_remove_absent) (auto simp: hd_map)
  have "strip_by (\<lambda>c. c = 123 \<or> c = 125) ?s = ?s"
    by (rule strip_by_none) (auto dest!: uuid_char_code)
  then have "py_remove (py ''-'') 0 (strip_by (\<lambda>c. c = 123 \<or> c = 125)
      (py_remove (py ''uuid:'') 0 (py_remove (py ''urn:'') 0 ?s))) = py (uuid_hex u)"
    using rm [of "''urn:''"] rm [of "''uuid:''"]
    by (simp add: py_remove_single filter_hyphen_uuid_str)
  then show ?thesis
    unfolding parse_uuid_def Let_def by (simp add: py_int_uuid_hex)
qed

subsection \<open>\<open>datetime.isoformat()\<close>\<close>

text \<open>The proleptic Gregorian calendar as in Python's \<open>_ord2ymd\<close>; day 1 is 0001-01-01.\<close>

definition leap_year :: "int \<Rightarrow> bool" where
  "leap_year y \<longleftrightarrow> y mod 4 = 0 \<and> (y mod 100 \<noteq> 0 \<or> y mod 400 = 0)"

definition month_lengths :: "int \<Rightarrow> int list" where
  "month_lengths y =
     [31, if leap_year y then 29 else 28, 31, 30, 31, 30, 31, 31, 30, 31, 30, 31]"

fun find_month :: "int \<Rightarrow> int \<Rightarrow> int list \<Rightarrow> int \<times> int" where
  "find_month m n [] = (m, n + 1)"
| "find_month m n (l # ls) = (if n < l then (m, n + 1) else find_month (m + 1) (n - l) ls)"

definition ord2ymd :: "int \<Rightarrow> int \<times> int \<times> int" where
  "ord2ymd ordinal =
     (let n = ordinal - 1; n400 = n div 146097; n = n mod 146097;
          n100 = n div 36524; n = n mod 36524;
          n4 = n div 1461; n = n mod 1461;
          n1 = n div 365; n = n mod 365;
          year = n400 * 400 + 1 + n100 * 100 + n4 * 4 + n1
      in if n1 = 4 \<or> n100 = 4 then (year - 1, 12, 31)
         else (case find_month 1 n (month_lengths year) of (m, d) \<Rightarrow> (year, m, d)))"

definition padded :: "nat \<Rightarrow> int \<Rightarrow> pystr" where
  "padded k v = map (\<lambda>d. 48 + d) (digits_be 10 k (nat v))"

definition isoformat :: "datetime \<Rightarrow> pystr" where
  "isoformat t =
     (let day = t div seconds 86400; us = t mod seconds 86400; secs = us div 1000000; frac = us mod 1000000
      in case ord2ymd (day + 719163) of (y, m, d) \<Rightarrow>
         padded 4 y @ py ''-'' @ padded 2 m @ py ''-'' @ padded 2 d @ py ''T'' @
         padded 2 (secs div 3600) @ py '':'' @ padded 2 (secs div 60 mod 60) @ py '':'' @
         padded 2 (secs mod 60) @
         (if frac = 0 then [] else py ''.'' @ padded 6 frac) @ py ''+00:00'')"

subsection \<open>JSON and handler outcomes\<close>

datatype json =
    JNull
  | JBool bool
  | JInt int
  | JStr pystr
  | JList "json list"
  | JObj "(string \<times> json) list"

fun jget :: "string \<Rightarrow> json \<Rightarrow> json option" where
  "jget k (JObj kvs) = map_of kvs k"
| "jget k _ = None"

definition jopt :: "('a \<Rightarrow> json) \<Rightarrow> 'a option \<Rightarrow> json" where
  "jopt f v = (case v of None \<Rightarrow> JNull | Some x \<Rightarrow> f x)"

definition juuid :: "uuid \<Rightarrow> json" where
  "juuid u = JStr (py (uuid_str u))"

text \<open>What a route returns: a response, a problem document, or an exception that becomes
  a 500.\<close>

datatype 'b http =
    Response int 'b
  | Problem int string
  | Unhandled integrity_error

text \<open>Messages handed to Redis pub/sub, oldest first: topic and envelope.  \<open>redis_fail_open\<close>
  drops the message when Redis does not answer.\<close>

type_synonym publication = "string \<times> json"

definition redis_fail_open :: "bool \<Rightarrow> 'a \<Rightarrow> 'a \<Rightarrow> 'a" where
  "redis_fail_open redis_up result dflt = (if redis_up then result else dflt)"

datatype 'a redis_result = RedisUnavailable | RedisOk 'a

definition redis_fail_closed :: "bool \<Rightarrow> 'a \<Rightarrow> 'a redis_result" where
  "redis_fail_closed redis_up result = (if redis_up then RedisOk result else RedisUnavailable)"

text \<open>A call to Redis is answered, never arrives, or is executed while its answer is lost; the
  caller cannot tell the last two apart.\<close>

datatype redis_call = Answered | Unreached | Reply_Lost

definition redis_state :: "redis_call \<Rightarrow> 's \<Rightarrow> 's \<Rightarrow> 's" where
  "redis_state call before after = (if call = Unreached then before else after)"

end
