(* ===== verification/Channel_Api.thy ===== *)
theory Channel_Api
  imports Channels Values
begin

text \<open>
  The channel routes (\<^verbatim>\<open>app/api/channels.py\<close>), their response schemas
  (\<^verbatim>\<open>app/schemas/channels.py\<close>) and the membership events (\<^verbatim>\<open>app/services/channel_events.py\<close>).
  A route returns its response, the committed database and what it published; raising before
  \<open>commit\<close> leaves the database it started from.  Request bodies arrive already parsed
  (\<open>parse_body\<close> is Pydantic's).
\<close>

subsection \<open>Membership events\<close>

definition channel_conversation :: "uuid \<Rightarrow> json" where
  "channel_conversation channel_id =
     JObj [(''kind'', JStr (py ''channel'')), (''channel_id'', juuid channel_id)]"

definition channel_summary :: "channel \<Rightarrow> int \<Rightarrow> json" where
  "channel_summary channel member_count =
     JObj [(''id'', juuid (c_id channel)), (''name'', JStr (c_name channel)),
           (''is_private'', JBool (c_is_private channel)),
           (''created_by'', juuid (c_created_by channel)),
           (''created_at'', JStr (isoformat (c_created_at channel))),
           (''member_count'', JInt member_count)]"

definition build_member_added_event ::
  "channel \<Rightarrow> uuid \<Rightarrow> channel_member_role \<Rightarrow> datetime \<Rightarrow> int \<Rightarrow> json" where
  "build_member_added_event channel user_id role joined_at member_count =
     JObj [(''type'', JStr (py ''channel.member_added'')),
           (''conversation'', channel_conversation (c_id channel)),
           (''data'', JObj [(''channel'', channel_summary channel member_count),
                          (''user_id'', juuid user_id), (''role'', JStr (py (role_value role))),
                          (''joined_at'', JStr (isoformat joined_at))])]"

definition build_member_removed_event :: "uuid \<Rightarrow> uuid \<Rightarrow> json" where
  "build_member_removed_event channel_id user_id =
     JObj [(''type'', JStr (py ''channel.member_removed'')),
           (''conversation'', channel_conversation channel_id),
           (''data'', JObj [(''channel_id'', juuid channel_id), (''user_id'', juuid user_id)])]"

definition publish_channel_event :: "bool \<Rightarrow> json \<Rightarrow> string \<Rightarrow> publication list" where
  "publish_channel_event redis_up event topic = redis_fail_open redis_up [(topic, event)] []"

definition publish_member_added ::
  "bool \<Rightarrow> channel \<Rightarrow> uuid \<Rightarrow> channel_member_role \<Rightarrow> datetime \<Rightarrow> int \<Rightarrow> publication list" where
  "publish_member_added redis_up channel user_id role joined_at member_count =
     publish_channel_event redis_up
       (build_member_added_event channel user_id role joined_at member_count) (user_topic user_id)"

definition publish_member_removed :: "bool \<Rightarrow> uuid \<Rightarrow> uuid \<Rightarrow> publication list" where
  "publish_member_removed redis_up channel_id user_id =
     publish_channel_event redis_up (build_member_removed_event channel_id user_id)
       (user_topic user_id)"

lemmas [op_defs] = publish_member_added_def publish_member_removed_def publish_channel_event_def
  redis_fail_open_def

subsection \<open>Parameters\<close>

definition parse_pagination ::
  "pystr option \<Rightarrow> pystr option \<Rightarrow> int \<Rightarrow> int \<Rightarrow> (int \<times> string) + int \<times> int" where
  "parse_pagination limit_raw offset_raw default_limit max_limit =
     and_then
       (case limit_raw of
          None \<Rightarrow> Inr default_limit
        | Some raw \<Rightarrow>
            (case py_int 10 raw of
               None \<Rightarrow> Inl (400, ''limit must be a positive integer no greater than 50.'')
             | Some l \<Rightarrow>
                 if l < 1 then Inl (400, ''limit must be a positive integer no greater than 50.'')
                 else Inr (min l max_limit)))
       (\<lambda>limit. and_then
         (case offset_raw of
            None \<Rightarrow> Inr 0
          | Some raw \<Rightarrow>
              (case py_int 10 raw of
                 None \<Rightarrow> Inl (400, ''offset must be a non-negative integer.'')
               | Some off \<Rightarrow>
                   if off < 0 then Inl (400, ''offset must be a non-negative integer.'')
                   else Inr off))
         (\<lambda>off. Inr (limit, off)))"

definition parse_my_channels_limit :: "pystr option \<Rightarrow> pagination_error + int" where
  "parse_my_channels_limit raw =
     (case raw of
        None \<Rightarrow> resolve_limit None
      | Some text \<Rightarrow>
          (case py_int 10 text of
             None \<Rightarrow> Inl (PaginationError ''limit'' ''limit must be a positive integer'')
           | Some v \<Rightarrow> resolve_limit (Some v)))"

definition parse_role :: "pystr \<Rightarrow> (int \<times> string) + channel_member_role" where
  "parse_role raw =
     (if raw = py (role_value MEMBER) then Inr MEMBER
      else if raw = py (role_value ADMIN) then Inr ADMIN
      else Inl (422, ''role must be 'member' or 'admin'.''))"

subsection \<open>Response bodies\<close>

record channel_create_response =
  cr_id :: uuid
  cr_name :: pystr
  cr_is_private :: bool
  cr_created_by :: uuid
  cr_created_at :: datetime
  cr_member_count :: int

record channel_detail_response = channel_create_response +
  cr_my_role :: "string option"

definition create_response :: "channel \<Rightarrow> int \<Rightarrow> channel_create_response" where
  "create_response c n =
     \<lparr>cr_id = c_id c, cr_name = c_name c, cr_is_private = c_is_private c,
      cr_created_by = c_created_by c, cr_created_at = c_created_at c, cr_member_count = n\<rparr>"

definition detail_response ::
  "channel \<Rightarrow> int \<Rightarrow> channel_member_role option \<Rightarrow> channel_detail_response" where
  "detail_response c n role =
     \<lparr>cr_id = c_id c, cr_name = c_name c, cr_is_private = c_is_private c,
      cr_created_by = c_created_by c, cr_created_at = c_created_at c, cr_member_count = n,
      cr_my_role = map_option role_value role\<rparr>"

text \<open>An entry of \<open>GET /v1/channels\<close>, whose role is required.\<close>

record my_channel_list_item =
  ml_id :: uuid
  ml_name :: pystr
  ml_is_private :: bool
  ml_created_by :: uuid
  ml_created_at :: datetime
  ml_member_count :: int
  ml_my_role :: string

definition my_list_item :: "channel \<Rightarrow> int \<Rightarrow> channel_member_role \<Rightarrow> my_channel_list_item" where
  "my_list_item c n role =
     \<lparr>ml_id = c_id c, ml_name = c_name c, ml_is_private = c_is_private c, ml_created_by = c_created_by c,
      ml_created_at = c_created_at c, ml_member_count = n, ml_my_role = role_value role\<rparr>"

record membership_response =
  mr_channel_id :: uuid
  mr_user_id :: uuid
  mr_role :: string
  mr_joined_at :: datetime

definition from_membership :: "channel_member \<Rightarrow> membership_response" where
  "from_membership m =
     \<lparr>mr_channel_id = cm_channel_id m, mr_user_id = cm_user_id m, mr_role = role_value (cm_role m),
      mr_joined_at = cm_joined_at m\<rparr>"

record member_list_item =
  li_user_id :: uuid
  li_username :: pystr
  li_first_name :: pystr
  li_last_name :: pystr
  li_avatar_url :: "pystr option"
  li_role :: string
  li_joined_at :: datetime

definition from_row :: "user \<times> channel_member \<Rightarrow> member_list_item" where
  "from_row row = (case row of (u, m) \<Rightarrow>
     \<lparr>li_user_id = u_id u, li_username = u_username u, li_first_name = u_first_name u,
      li_last_name = u_last_name u, li_avatar_url = u_avatar_url u,
      li_role = role_value (cm_role m), li_joined_at = cm_joined_at m\<rparr>)"

record public_channel_item =
  pi_id :: uuid
  pi_name :: pystr
  pi_is_private :: bool
  pi_member_count :: int

subsection \<open>Routes\<close>

type_synonym 'b routed = "'b http \<times> database \<times> publication list"

abbreviation refuse :: "int \<Rightarrow> string \<Rightarrow> database \<Rightarrow> 'b routed" where
  "refuse status detail d \<equiv> (Problem status detail, d, [])"

definition create_channel_route ::
  "uuid \<Rightarrow> datetime \<Rightarrow> pystr \<Rightarrow> bool \<Rightarrow> uuid \<Rightarrow> database \<Rightarrow> channel_create_response routed" where
  "create_channel_route new_id now name is_private current d =
     (if \<not> is_valid_channel_name name
      then refuse 422 ''Channel name must be 1-80 characters of letters, digits, spaces, - or _.'' d
      else case create_channel new_id now name is_private current d of
             Inl e \<Rightarrow>
               if is_unique_violation e
               then refuse 409 ''A channel with this name already exists.'' d
               else (Unhandled e, d, [])
           | Inr (channel, d') \<Rightarrow> (Response 201 (create_response channel 1), d', []))"

datatype my_list_error = My_List_Pagination pagination_error | Role_Missing

definition require_my_role :: "channel_member_role option \<Rightarrow> my_list_error + channel_member_role" where
  "require_my_role my_role = (case my_role of None \<Rightarrow> Inl Role_Missing | Some role \<Rightarrow> Inr role)"

fun my_list_items :: "channel_view list \<Rightarrow> my_list_error + my_channel_list_item list" where
  "my_list_items [] = Inr []"
| "my_list_items (v # vs) =
     and_then (require_my_role (v_my_role v)) (\<lambda>role.
     and_then (my_list_items vs) (\<lambda>rest. Inr (my_list_item (v_channel v) (v_member_count v) role # rest)))"

definition list_my_channels_route ::
  "pystr option \<Rightarrow> pystr option \<Rightarrow> uuid \<Rightarrow> database \<Rightarrow> my_list_error + my_channel_list_item page" where
  "list_my_channels_route limit cursor current d =
     and_then (map_sum My_List_Pagination id
        (and_then (parse_my_channels_limit limit) (\<lambda>l.
         and_then (case cursor of
                     None \<Rightarrow> Inr None
                   | Some token \<Rightarrow> if token = [] then Inr None
                                   else and_then (decode_cursor token) (\<lambda>k. Inr (Some k)))
           (\<lambda>key. Inr (list_my_channels current l key d)))))
       (\<lambda>page. and_then (my_list_items (items page)) (\<lambda>rows.
          Inr \<lparr>items = rows, next_cursor = next_cursor page\<rparr>))"

lemma my_list_items_ok:
  "\<forall>v\<in>set vs. v_my_role v \<noteq> None \<Longrightarrow> my_list_items vs \<noteq> Inl e"
  by (induction vs) (auto simp: and_then_eq_Inl require_my_role_def)

text \<open>The check on the role never fires: every row comes from a membership of the caller.\<close>

lemma my_role_always_there: "list_my_channels_route limit cursor current d \<noteq> Inl Role_Missing"
proof -
  have "\<forall>v\<in>set (items (list_my_channels current l key d)). v_my_role v \<noteq> None" for l key
    using my_channels.page_items_visible [of current l key d] by (auto simp: my_channel_rows_def)
  then have rows: "my_list_items (items (list_my_channels current l key d)) \<noteq> Inl Role_Missing" for l key
    by (rule my_list_items_ok)
  have run: "and_then (map_sum My_List_Pagination id r) g \<noteq> Inl Role_Missing"
    if "\<And>page. r = Inr page \<Longrightarrow> g page \<noteq> Inl Role_Missing" for r :: "pagination_error + channel_view page" and g
    using that by (cases r) auto
  show ?thesis
    unfolding list_my_channels_route_def by (rule run) (auto simp: and_then_eq_Inl rows)
qed

definition list_public_channels_route ::
  "pystr option \<Rightarrow> pystr option \<Rightarrow> uuid \<Rightarrow> database \<Rightarrow>
   (public_channel_item list \<times> int \<times> int \<times> int) http" where
  "list_public_channels_route limit offset current d =
     (case parse_pagination limit offset 50 50 of
        Inl (status, detail) \<Rightarrow> Problem status detail
      | Inr (l, off) \<Rightarrow>
          (let page = list_public_channels current l off d
           in Response 200
             (map (\<lambda>(c, n). \<lparr>pi_id = c_id c, pi_name = c_name c, pi_is_private = False,
                             pi_member_count = n\<rparr>) (pc_rows page),
              pc_total page, l, off)))"

definition get_channel_route :: "uuid \<Rightarrow> uuid \<Rightarrow> database \<Rightarrow> channel_detail_response http" where
  "get_channel_route channel_id current d =
     (case get_channel_view channel_id current d of
        None \<Rightarrow> Problem 404 ''No such channel.''
      | Some view \<Rightarrow>
          Response 200 (detail_response (v_channel view) (v_member_count view) (v_my_role view)))"

definition join_channel_route ::
  "bool \<Rightarrow> (database \<Rightarrow> database) \<Rightarrow> datetime \<Rightarrow> uuid \<Rightarrow> uuid \<Rightarrow> database \<Rightarrow>
   membership_response routed" where
  "join_channel_route redis_up others now channel_id current d =
     (case join_public_channel others now channel_id current d of
        Inl e \<Rightarrow> (Unhandled e, others d, [])
      | Inr (result, d') \<Rightarrow>
          if j_outcome result = JOIN_NOT_FOUND then refuse 404 ''No such channel.'' d
          else if j_outcome result = JOIN_PRIVATE
          then refuse 403 ''This channel is private; direct join is not allowed.'' d
          else
            (let m = the (j_membership result)
             in (Response 200 (from_membership m), d',
                 if j_outcome result = JOINED
                 then publish_member_added redis_up (the (j_channel result)) current
                        (cm_role m) (cm_joined_at m) (the (j_member_count result))
                 else [])))"

definition leave_channel_route ::
  "bool \<Rightarrow> (database \<Rightarrow> database) \<Rightarrow> uuid \<Rightarrow> uuid \<Rightarrow> database \<Rightarrow> unit routed" where
  "leave_channel_route redis_up others channel_id current d =
     (case leave_channel others channel_id current d of
        (LEAVE_NOT_MEMBER, d') \<Rightarrow> (Response 204 (), d', [])
      | (LEFT, d') \<Rightarrow>
          (Response 204 (), d', publish_member_removed redis_up channel_id current))"

definition list_channel_members_route ::
  "pystr option \<Rightarrow> pystr option \<Rightarrow> uuid \<Rightarrow> uuid \<Rightarrow> database \<Rightarrow> (member_list_item list \<times> int) http" where
  "list_channel_members_route limit offset channel_id current d =
     (case parse_pagination limit offset 50 50 of
        Inl (status, detail) \<Rightarrow> Problem status detail
      | Inr (l, off) \<Rightarrow>
         (case get_channel channel_id d of
            None \<Rightarrow> Problem 404 ''No such channel.''
          | Some channel \<Rightarrow>
             (case get_membership channel_id current d of
                None \<Rightarrow>
                  if c_is_private channel then Problem 404 ''No such channel.''
                  else Problem 403 ''Not a member of this channel.''
              | Some membership \<Rightarrow>
                  (let page = list_channel_members channel_id l off d
                   in Response 200 (map from_row (mp_rows page), mp_total page)))))"

definition add_channel_member_route ::
  "bool \<Rightarrow> (database \<Rightarrow> database) \<Rightarrow> datetime \<Rightarrow> uuid \<Rightarrow> uuid \<Rightarrow> pystr \<Rightarrow> uuid \<Rightarrow> database \<Rightarrow>
   membership_response routed" where
  "add_channel_member_route redis_up others now channel_id user_id raw_role current d =
     (case parse_role raw_role of
        Inl (status, detail) \<Rightarrow> refuse status detail d
      | Inr role \<Rightarrow>
         (case add_channel_member others now channel_id current user_id role d of
            Inl e \<Rightarrow> (Unhandled e, others d, [])
          | Inr (result, d') \<Rightarrow>
              if ad_outcome result \<in> {ADD_CHANNEL_NOT_FOUND, ADD_TARGET_USER_NOT_FOUND}
              then refuse 404 ''No such channel or target user.'' d
              else if ad_outcome result = ADD_CALLER_NOT_ADMIN
              then refuse 403 ''This action requires being an admin of this channel.'' d
              else if ad_outcome result = ADD_ZERO_ADMIN
              then refuse 409
                ''This channel currently has no admins; membership mutation is blocked.'' d
              else
                (let m = the (ad_membership result)
                 in (Response 200 (from_membership m), d',
                     if ad_outcome result = ADDED
                     then publish_member_added redis_up (the (ad_channel result)) user_id
                            (cm_role m) (cm_joined_at m) (the (ad_member_count result))
                     else []))))"

definition update_channel_member_role_route ::
  "uuid \<Rightarrow> uuid \<Rightarrow> pystr \<Rightarrow> uuid \<Rightarrow> database \<Rightarrow> membership_response routed" where
  "update_channel_member_role_route channel_id user_id raw_role current d =
     (case parse_role raw_role of
        Inl (status, detail) \<Rightarrow> refuse status detail d
      | Inr role \<Rightarrow>
         (case change_member_role channel_id current user_id role d of
            ((outcome, membership), d') \<Rightarrow>
              if outcome \<in> {CHANGE_CHANNEL_NOT_FOUND, CHANGE_TARGET_NOT_MEMBER}
              then refuse 404 ''No such channel or member.'' d
              else if outcome = CHANGE_CALLER_NOT_ADMIN
              then refuse 403 ''This action requires being an admin of this channel.'' d
              else if outcome = CHANGE_ZERO_ADMIN
              then refuse 409
                ''This channel currently has no admins; membership mutation is blocked.'' d
              else (Response 200 (from_membership (the membership)), d', [])))"

definition remove_channel_member_route ::
  "bool \<Rightarrow> uuid \<Rightarrow> uuid \<Rightarrow> uuid \<Rightarrow> database \<Rightarrow> unit routed" where
  "remove_channel_member_route redis_up channel_id user_id current d =
     (case remove_channel_member channel_id current user_id d of
        (outcome, d') \<Rightarrow>
          if outcome \<in> {REMOVE_CHANNEL_NOT_FOUND, REMOVE_TARGET_USER_NOT_FOUND}
          then refuse 404 ''No such channel or target user.'' d
          else if outcome = REMOVE_CALLER_NOT_ADMIN
          then refuse 403 ''This action requires being an admin of this channel.'' d
          else if outcome = REMOVE_ZERO_ADMIN
          then refuse 409
            ''This channel currently has no admins; membership mutation is blocked.'' d
          else (Response 204 (), d',
                if outcome = REMOVED then publish_member_removed redis_up channel_id user_id
                else []))"

subsection \<open>Properties\<close>

text \<open>What the live clients of user \<open>t\<close> are told about a change of \<open>t\<close>'s membership of \<open>c\<close>
  between two committed databases.\<close>

definition membership_announcement ::
  "bool \<Rightarrow> uuid \<Rightarrow> uuid \<Rightarrow> database \<Rightarrow> database \<Rightarrow> publication list" where
  "membership_announcement redis_up c t d d' =
     (if \<not> redis_up then []
      else case (get_membership c t d, get_membership c t d') of
        (None, Some m) \<Rightarrow>
          [(user_topic t, build_member_added_event (the (get_channel c d)) t (cm_role m)
             (cm_joined_at m) (count_channel_members c d'))]
      | (Some m, None) \<Rightarrow> [(user_topic t, build_member_removed_event c t)]
      | _ \<Rightarrow> [])"

lemma announcement_unchanged [simp]: "membership_announcement redis_up c t d d = []"
  by (simp add: membership_announcement_def split: option.splits)

lemma depart_gone:
  assumes "members_ok d" "get_membership c u d = Some m"
  shows "get_membership c u (depart m d) = None"
  by (simp add: depart_spec(1) [OF assms])

text \<open>A row inserted after the commits \<open>others\<close> is announced from there.\<close>

lemma inserted_announcement:
  assumes "insert_member m (others d) = Inr e" "cm_key m = (c, t)" "get_channel c (others d) = get_channel c d"
    "get_channel c d = Some ch"
  shows "publish_member_added redis_up ch t (cm_role m) (cm_joined_at m) (count_channel_members c e) =
    membership_announcement redis_up c t (others d) e"
proof -
  have "get_membership c t (others d) = None"
    using assms(1,2) by (auto simp: insert_member_def get_membership_None cm_key_def split: if_splits)
  moreover have "get_membership c t e = Some m" using assms(2) by (simp add: get_membership_insert [OF assms(1)])
  ultimately show ?thesis using assms(3,4) by (simp add: membership_announcement_def op_defs)
qed

lemma join_route_announces:
  assumes "get_channel c (others d) = get_channel c d" "join_channel_route redis_up others now c u d = (r, d', p)"
  shows "p = [] \<and> d' = d \<or> p = membership_announcement redis_up c u (others d) d'"
proof (cases "join_public_channel others now c u d")
  case (Inl e)
  with assms(2) show ?thesis by (simp add: join_channel_route_def)
next
  case (Inr x)
  obtain jr e where x: "x = (jr, e)" by force
  show ?thesis
  proof (cases "j_outcome jr = JOINED")
    case False
    with Inr x have "e = d \<or> e = others d"
      by (auto simp: join_public_channel_def Let_def split: option.splits if_splits sum.splits)
    with assms(2) False Inr x show ?thesis by (auto simp: join_channel_route_def Let_def split: if_splits)
  next
    case True
    let ?m = "\<lparr>cm_channel_id = c, cm_user_id = u, cm_role = MEMBER, cm_joined_at = now\<rparr>"
    from True Inr x obtain ch where ch: "get_channel c d = Some ch" "j_channel jr = Some ch" "j_membership jr = Some ?m"
      "insert_member ?m (others d) = Inr e" "j_member_count jr = Some (count_channel_members c e)"
      by (auto simp: join_public_channel_def Let_def split: option.splits if_splits sum.splits)
    have "publish_member_added redis_up ch u MEMBER now (count_channel_members c e) =
        membership_announcement redis_up c u (others d) e"
      using inserted_announcement [where m = ?m and others = others, OF ch(4) _ assms(1) ch(1), of u] by (simp add: cm_key_def)
    then show ?thesis using assms(2) Inr x True ch by (auto simp: join_channel_route_def)
  qed
qed

text \<open>A leave deletes what it finds; if another commit has deleted the membership since it was
  read, the removal is announced all the same.\<close>

lemma leave_route_announces:
  assumes "members_ok (others d)" "leave_channel_route redis_up others c u d = (r, d', p)"
  shows "p = [] \<and> d' = d \<or> get_membership c u d \<noteq> None \<and> get_membership c u d' = None \<and>
    (p = membership_announcement redis_up c u (others d) d' \<or>
     get_membership c u (others d) = None \<and> p = publish_member_removed redis_up c u)"
proof -
  obtain out e where l: "leave_channel others c u d = (out, e)" by force
  show ?thesis
  proof (cases out)
    case LEAVE_NOT_MEMBER
    with l assms(2) show ?thesis
      by (auto simp: leave_channel_route_def leave_channel_def Let_def split: option.splits)
  next
    case LEFT
    with l obtain m where m: "get_membership c u d = Some m"
      "e = delete_membership m (if cm_role m = ADMIN then snd (run_sole_admin_succession u (Some c) (others d)) else others d)"
      by (auto simp: leave_channel_def Let_def split: option.splits)
    have key: "cm_key m = (c, u)" using get_membershipD [OF m(1)] by (simp add: cm_key_def)
    have "get_membership c u e = None"
      unfolding m(2) using run_sole_admin_succession_spec(2) [OF assms(1)] by (simp add: get_membership_delete assms(1) key)
    with LEFT l assms(2) m(1) show ?thesis
      by (cases "get_membership c u (others d)")
        (auto simp: leave_channel_route_def membership_announcement_def op_defs)
  qed
qed

lemma remove_route_announces:
  assumes "members_ok d" "remove_channel_member_route redis_up c t u d = (r, d', p)"
  shows "p = membership_announcement redis_up c t d d'"
proof -
  obtain out e where l: "remove_channel_member c u t d = (out, e)" by force
  from assms(1) l show ?thesis
  proof (rule remove_channel_member_cases)
    fix m assume "out = REMOVED" "get_membership c t d = Some m" "e = depart m d"
    then show ?thesis
      using assms(2) l depart_gone [OF assms(1), of c t m]
      by (auto simp: remove_channel_member_route_def membership_announcement_def op_defs)
  qed (use assms(2) l in \<open>auto simp: remove_channel_member_route_def split: if_splits\<close>)
qed

lemma add_route_announces:
  assumes "get_channel c (others d) = get_channel c d"
    "add_channel_member_route redis_up others now c t raw u d = (r, d', p)"
  shows "p = [] \<and> d' = d \<or> p = membership_announcement redis_up c t (others d) d'"
proof (cases "parse_role raw")
  case (Inl err)
  with assms(2) show ?thesis by (cases err) (simp add: add_channel_member_route_def)
next
  case role: (Inr role)
  show ?thesis
  proof (cases "add_channel_member others now c u t role d")
    case (Inl e)
    with assms(2) role show ?thesis by (simp add: add_channel_member_route_def)
  next
    case (Inr x)
    obtain ar e where x: "x = (ar, e)" by force
    note add_defs = add_channel_member_def add_refused_def add_existing_def Let_def
    show ?thesis
    proof (cases "ad_outcome ar = ADDED")
      case False
      with Inr x have "e = d \<or> e = others d"
        by (auto simp: add_defs split: option.splits if_splits sum.splits)
      with assms(2) role False Inr x show ?thesis
        by (auto simp: add_channel_member_route_def Let_def split: if_splits)
    next
      case True
      let ?m = "\<lparr>cm_channel_id = c, cm_user_id = t, cm_role = role, cm_joined_at = now\<rparr>"
      from True Inr x obtain ch where ch: "get_channel c d = Some ch" "ad_channel ar = Some ch"
        "ad_membership ar = Some ?m" "insert_member ?m (others d) = Inr e"
        "ad_member_count ar = Some (count_channel_members c e)"
        by (auto simp: add_defs split: option.splits if_splits sum.splits)
      have "publish_member_added redis_up ch t role now (count_channel_members c e) =
          membership_announcement redis_up c t (others d) e"
        using inserted_announcement [where m = ?m and others = others, OF ch(4) _ assms(1) ch(1), of t] by (simp add: cm_key_def)
      then show ?thesis using assms(2) role Inr x True ch by (auto simp: add_channel_member_route_def)
    qed
  qed
qed

text \<open>
  C27. Live membership events match the commits, whatever else short of the channel itself commits
  while a join, a leave or an addition runs (\<open>others\<close>): each publishes to the affected user's own topic exactly
  what its own change did to that user's membership since those commits: created with the role, the
  time and the new member count, or deleted; nothing on a refusal, a replay, an error or a
  role change.  One exception: a leave whose membership another commit has deleted since it was
  read announces that removal again.  A removal by an admin is stated with nothing committing inside
  it.  With Redis down the event is lost and the change stays.
\<close>

theorem announcements_match_commits:
  assumes "members_ok d" "members_ok (others d)" "get_channel c (others d) = get_channel c d"
  shows "(case join_channel_route redis_up others now c u d of (r, d', p) \<Rightarrow>
            p = [] \<and> d' = d \<or> p = membership_announcement redis_up c u (others d) d')
    \<and> (case leave_channel_route redis_up others c u d of (r, d', p) \<Rightarrow>
            p = [] \<and> d' = d \<or> get_membership c u d \<noteq> None \<and> get_membership c u d' = None \<and>
              (p = membership_announcement redis_up c u (others d) d' \<or>
               get_membership c u (others d) = None \<and> p = publish_member_removed redis_up c u))
    \<and> (case add_channel_member_route redis_up others now c t raw u d of (r, d', p) \<Rightarrow>
            p = [] \<and> d' = d \<or> p = membership_announcement redis_up c t (others d) d')
    \<and> (case remove_channel_member_route redis_up c t u d of (r, d', p) \<Rightarrow>
            p = membership_announcement redis_up c t d d')
    \<and> (case update_channel_member_role_route c t raw u d of (r, d', p) \<Rightarrow> p = [])"
proof (intro conjI)
  show "case update_channel_member_role_route c t raw u d of (r, d', p) \<Rightarrow> p = []"
    by (simp add: update_channel_member_role_route_def split: sum.split prod.split)
  show "case join_channel_route redis_up others now c u d of (r, d', p) \<Rightarrow>
      p = [] \<and> d' = d \<or> p = membership_announcement redis_up c u (others d) d'"
    using join_route_announces [where others = others, OF assms(3)] by (simp split: prod.split)
  show "case leave_channel_route redis_up others c u d of (r, d', p) \<Rightarrow>
      p = [] \<and> d' = d \<or> get_membership c u d \<noteq> None \<and> get_membership c u d' = None \<and>
        (p = membership_announcement redis_up c u (others d) d' \<or>
         get_membership c u (others d) = None \<and> p = publish_member_removed redis_up c u)"
    using leave_route_announces [where others = others, OF assms(2)] by (simp split: prod.split)
  show "case add_channel_member_route redis_up others now c t raw u d of (r, d', p) \<Rightarrow>
      p = [] \<and> d' = d \<or> p = membership_announcement redis_up c t (others d) d'"
    using add_route_announces [where others = others, OF assms(3)] by (simp split: prod.split)
  show "case remove_channel_member_route redis_up c t u d of (r, d', p) \<Rightarrow> p = membership_announcement redis_up c t d d'"
    using remove_route_announces [OF assms(1)] by (simp split: prod.split)
qed

text \<open>Two leaves of one member: the second, whose read came before the first one's commit, announces
  the removal again.\<close>

lemma announcements_match_commits_witness:
  "case leave_channel_route True (delete_membership (demo_member 10 1 ADMIN 1)) 10 1 demo_db of
     (r, d', p) \<Rightarrow> get_membership 10 1 d' = None \<and> p = publish_member_removed True 10 1"
proof -
  let ?o = "delete_membership (demo_member 10 1 ADMIN 1)"
  obtain r d' p where run: "leave_channel_route True ?o 10 1 demo_db = (r, d', p)" by (metis prod_cases3)
  have ok: "members_ok demo_db" using demo_inv by (simp add: membership_inv_def)
  then have "members_ok (?o demo_db)" by simp
  moreover have "get_channel 10 (?o demo_db) = get_channel 10 demo_db"
    by (simp add: get_channel_def delete_membership_def delete_members_def)
  ultimately have "p = [] \<and> d' = demo_db \<or> get_membership 10 1 d' = None \<and>
      (p = membership_announcement True 10 1 (?o demo_db) d' \<or> p = publish_member_removed True 10 1)"
    using announcements_match_commits [where others = ?o, OF ok, where c = 10 and u = 1 and redis_up = True] run
    by (auto split: prod.splits)
  moreover have "get_channel 10 demo_db \<noteq> None" "get_membership 10 1 demo_db \<noteq> None"
    by (simp_all add: demo_get_channel demo_get_membership)
  then have "p = publish_member_removed True 10 1"
    using run by (auto simp: leave_channel_route_def leave_channel_def Let_def split: option.splits)
  ultimately show ?thesis using run by (auto simp: op_defs)
qed

text \<open>
  Reading hides a private channel: for a caller who is not a member, the detail, the
  member list and the effect of leaving are the same as for a channel that does not exist.
  Joining, adding, changing and removing members are not: they answer 403 or 409 for the
  hidden channel and 404 for a missing one, so they reveal that it exists.
\<close>

theorem private_channel_visibility:
  assumes "members_ok d" "get_channel c d = Some ch" "c_is_private ch" "get_membership c u d = None"
    and "get_channel c' d = None"
  shows "get_channel_route c u d = get_channel_route c' u d
    \<and> list_channel_members_route limit off c u d = list_channel_members_route limit off c' u d
    \<and> leave_channel_route redis_up id c u d = leave_channel_route redis_up id c' u d
    \<and> fst (join_channel_route redis_up id now c u d)
        = Problem 403 ''This channel is private; direct join is not allowed.''
    \<and> fst (join_channel_route redis_up id now c' u d) = Problem 404 ''No such channel.''
    \<and> fst (remove_channel_member_route redis_up c t u d) \<in>
        {Problem 403 ''This action requires being an admin of this channel.'',
         Problem 409 ''This channel currently has no admins; membership mutation is blocked.''}
    \<and> fst (remove_channel_member_route redis_up c' t u d) =
        Problem 404 ''No such channel or target user.''"
proof -
  have "u \<notin> set (lock_channel_admin_ids c d)"
    using assms(4) by (simp add: set_lock_channel_admin_ids [OF assms(1)] channel_admins_def)
  then show ?thesis
    using assms(2-5)
    by (simp add: get_channel_route_def get_channel_view_def get_membership_def
        list_channel_members_route_def leave_channel_route_def leave_channel_def
        join_channel_route_def join_public_channel_def remove_channel_member_route_def
        remove_channel_member_def Let_def split: sum.split prod.split)
qed

lemma private_channel_visibility_witness:
  "get_channel_route 11 2 demo_db = get_channel_route 77 2 demo_db
   \<and> fst (join_channel_route True id 0 11 2 demo_db) \<noteq> fst (join_channel_route True id 0 77 2 demo_db)"
proof -
  have "members_ok demo_db" using demo_inv by (simp add: membership_inv_def)
  moreover have "get_channel 77 demo_db = None"
    by (simp add: get_channel_def db_get_def demo_db_def demo_channel_def)
  moreover have "get_membership 11 2 demo_db = None" by (simp add: demo_get_membership)
  moreover have "c_is_private (demo_channel 11 ''ops'' True)" by (simp add: demo_channel_def)
  ultimately show ?thesis
    using private_channel_visibility [OF _ demo_get_channel(2), where u = 2 and c' = 77 and redis_up = True and now = 0] by auto
qed

text \<open>
  Creating a channel: a name of 1 to 80 letters, digits, spaces, hyphens and underscores
  that no channel has (ignoring case) is answered 201 and makes the caller the only member, as
  admin; a taken name is 409; every other name is 422 and changes nothing, except one: a valid
  name followed by a newline passes the route's check, is refused by the database's, and the
  error escapes.
\<close>

theorem create_channel_route_cases:
  assumes "membership_inv d" "get_channel k d = None" "get_user u d \<noteq> None"
  shows "case create_channel_route k now name priv u d of (r, d', p) \<Rightarrow> p = [] \<and>
    (if ck_channels_name name then
       if \<exists>c\<in>set (tb_channels d). ascii_lower (c_name c) = ascii_lower name
       then r = Problem 409 ''A channel with this name already exists.'' \<and> d' = d
       else (\<exists>body. r = Response 201 body) \<and> channel_members k d' = {u} \<and> channel_admins k d' = {u}
            \<and> (\<forall>c v. c \<noteq> k \<longrightarrow> get_membership c v d' = get_membership c v d)
     else if \<exists>n. name = n @ [10] \<and> ck_channels_name n
     then r = Unhandled (CheckViolation ''ck_channels_name'') \<and> d' = d
     else r = Problem 422 ''Channel name must be 1-80 characters of letters, digits, spaces, - or _.''
          \<and> d' = d)"
proof -
  let ?ch = "\<lparr>c_id = k, c_name = name, c_is_private = priv, c_created_by = u, c_created_at = now\<rparr>"
  let ?m = "\<lparr>cm_channel_id = k, cm_user_id = u, cm_role = ADMIN, cm_joined_at = now\<rparr>"
  let ?d1 = "d\<lparr>tb_channels := tb_channels d @ [?ch]\<rparr>"
  have newline: "(name \<noteq> [] \<and> List.last name = 10 \<and> ck_channels_name (butlast name)) \<longleftrightarrow>
      (\<exists>n. name = n @ [10] \<and> ck_channels_name n)"
    by (metis append_butlast_last_id butlast_snoc last_snoc snoc_eq_iff_butlast)
  have fresh: "k \<notin> c_id ` set (tb_channels d)" "u \<in> u_id ` set (tb_users d)"
    using assms(2,3) by (simp_all add: get_channel_def get_user_def db_get_None)
  have none: "get_membership k v d = None" for v
    by (rule no_members_without_channel [OF assms(1,2)])
  consider (ok) "ck_channels_name name"
      "\<not> (\<exists>c\<in>set (tb_channels d). ascii_lower (c_name c) = ascii_lower name)"
    | (dup) "ck_channels_name name"
      "\<exists>c\<in>set (tb_channels d). ascii_lower (c_name c) = ascii_lower name"
    | (nl) "\<not> ck_channels_name name" "is_valid_channel_name name"
    | (bad) "\<not> is_valid_channel_name name"
    by (auto simp: is_valid_channel_name_def)
  then show ?thesis
  proof cases
    case ok
    have ins: "insert_channel ?ch d = Inr ?d1"
      using ok fresh by (auto simp: insert_channel_def)
    have mem1: "get_membership c v ?d1 = get_membership c v d" for c v
      by (simp add: get_membership_def get_member_def)
    have "insert_member ?m ?d1 = Inr (?d1\<lparr>tb_members := tb_members d @ [?m]\<rparr>)"
      using none [of u] fresh(2)
      by (auto simp: insert_member_def get_membership_None cm_key_def)
    note m = get_membership_insert [OF this]
    have "create_channel k now name priv u d = Inr (?ch, ?d1\<lparr>tb_members := tb_members d @ [?m]\<rparr>)"
      using ins \<open>insert_member ?m ?d1 = _\<close> by (simp add: create_channel_def Let_def)
    then show ?thesis
      using ok by (simp add: create_channel_route_def is_valid_channel_name_def channel_members_def
          channel_admins_def m cm_key_def mem1 none)
  next
    case dup
    have "create_channel k now name priv u d = Inl (UniqueViolation ''uq_channels_name_lower'')"
      using dup fresh by (auto simp: create_channel_def insert_channel_def Let_def)
    with dup show ?thesis by (simp add: create_channel_route_def is_valid_channel_name_def)
  next
    case nl
    have "create_channel k now name priv u d = Inl (CheckViolation ''ck_channels_name'')"
      using nl by (simp add: create_channel_def insert_channel_def Let_def)
    with nl show ?thesis
      using newline by (simp add: create_channel_route_def is_valid_channel_name_def)
  next
    case bad
    then show ?thesis
      using newline by (simp add: create_channel_route_def is_valid_channel_name_def)
  qed
qed

lemma create_channel_route_cases_witness:
  "fst (create_channel_route 12 9 (py ''news'' @ [10]) False 1 demo_db) =
     Unhandled (CheckViolation ''ck_channels_name'')"
proof -
  have "get_channel 12 demo_db = None"
    by (simp add: get_channel_def db_get_def demo_db_def demo_channel_def)
  moreover have "get_user 1 demo_db \<noteq> None" by (simp add: get_user_def demo_defs db_get_def)
  moreover have "\<not> ck_channels_name (py ''news'' @ [10])" "ck_channels_name (py ''news'')"
    by (simp_all add: ck_channels_name_def channel_name_char_def)
  ultimately show ?thesis
    using create_channel_route_cases [OF demo_inv, where k = 12 and u = 1 and now = 9 and name = "py ''news'' @ [10]" and priv = False]
    by (auto split: prod.splits)
qed

end
