(* ===== verification/Messages.thy ===== *)
theory Messages
  imports Channel_Api
begin

text \<open>
  Messages (\<^verbatim>\<open>app/services/messages.py\<close>) and their events
  (\<^verbatim>\<open>app/services/message_events.py\<close>): sending with an idempotency key, media binding,
  editing, deleting and the two histories.  The state is the committed database, the
  idempotency claims in Redis, each with the time of Redis's clock it expires at, and the log of
  publications.  \<open>env r k\<close> is what concurrent requests do while the resolve loop of round \<open>r\<close>
  sleeps with \<open>k\<close> attempts left; \<open>rd\<close> says of each command a send gives to Redis, and of its
  commit, whether it was answered, never arrived, or was executed with its answer lost.
\<close>

subsection \<open>State, errors and constants\<close>

record world =
  w_db :: database
  w_claims :: "pystr \<rightharpoonup> pystr \<times> int"
  w_clock :: int
  w_published :: "publication list"

datatype message_error =
    ChannelNotFoundError
  | NotChannelMemberError
  | InvalidContentError
  | InvalidMediaError
  | MessageNotFoundError
  | NotMessageAuthorError
  | MessageAlreadyDeletedError
  | RecipientNotFoundError
  | SelfDMError
  | IdempotencyResolutionTimeoutError
  | MessageIntegrityError integrity_error
  | MessageRedisError
  | MessageDatabaseError

text \<open>The commands of one send that can fail on their own: reading the claim in round \<open>r\<close> with
  \<open>k\<close> attempts left, setting it in round \<open>r\<close>, deleting it, and the commit.\<close>

datatype send_call = Read_Claim nat nat | Set_Claim nat | Delete_Claim | Commit_Row

definition CONTENT_MAX_LENGTH :: nat where "CONTENT_MAX_LENGTH = 4000"
definition RESOLVE_MAX_ATTEMPTS :: nat where "RESOLVE_MAX_ATTEMPTS = 8"
definition CLAIM_MAX_ROUNDS :: nat where "CLAIM_MAX_ROUNDS = 3"
definition IDEMPOTENCY_TTL_SECONDS :: int where "IDEMPOTENCY_TTL_SECONDS = 24 * 60 * 60"

definition is_valid_content :: "pystr \<Rightarrow> bool" where
  "is_valid_content content \<longleftrightarrow> length content \<le> CONTENT_MAX_LENGTH \<and> py_strip content \<noteq> []"

subsection \<open>Events\<close>

definition conversation_for :: "message \<Rightarrow> json" where
  "conversation_for message =
     (case m_channel_id message of
        Some c \<Rightarrow> JObj [(''kind'', JStr (py ''channel'')), (''channel_id'', juuid c)]
      | None \<Rightarrow> JObj [(''kind'', JStr (py ''dm'')), (''user_id'', juuid (the (m_recipient_id message)))])"

definition topic_for :: "message \<Rightarrow> string" where
  "topic_for message =
     (case m_channel_id message of
        Some c \<Rightarrow> channel_topic c
      | None \<Rightarrow> dm_topic (m_sender_id message) (the (m_recipient_id message)))"

definition media_payload :: "attachment list \<Rightarrow> json" where
  "media_payload media =
     JList (map (\<lambda>a. JObj [(''media_id'', juuid (a_id a)), (''kind'', JStr (py (kind_value (a_kind a)))),
                         (''filename'', JStr (a_filename a)), (''size'', JInt (a_byte_size a))]) media)"

definition full_data :: "message \<Rightarrow> attachment list \<Rightarrow> json" where
  "full_data message media =
     JObj [(''id'', juuid (m_id message)), (''channel_id'', jopt juuid (m_channel_id message)),
           (''recipient_id'', jopt juuid (m_recipient_id message)),
           (''sender_id'', juuid (m_sender_id message)), (''content'', JStr (m_content message)),
           (''media'', media_payload media),
           (''created_at'', JStr (isoformat (m_created_at message))),
           (''edited_at'', jopt (JStr \<circ> isoformat) (m_edited_at message)),
           (''deleted_at'', jopt (JStr \<circ> isoformat) (m_deleted_at message))]"

definition build_created_event :: "message \<Rightarrow> attachment list \<Rightarrow> json" where
  "build_created_event message media =
     JObj [(''type'', JStr (py ''message.created'')), (''conversation'', conversation_for message),
           (''data'', full_data message media)]"

definition build_edited_event :: "message \<Rightarrow> attachment list \<Rightarrow> json" where
  "build_edited_event message media =
     JObj [(''type'', JStr (py ''message.edited'')), (''conversation'', conversation_for message),
           (''data'', full_data message media)]"

definition build_deleted_event :: "message \<Rightarrow> json" where
  "build_deleted_event message =
     JObj [(''type'', JStr (py ''message.deleted'')), (''conversation'', conversation_for message),
           (''data'', JObj [(''id'', juuid (m_id message)), (''conversation'', conversation_for message),
                          (''deleted_at'', jopt (JStr \<circ> isoformat) (m_deleted_at message))])]"

definition publish_message_event :: "bool \<Rightarrow> json \<Rightarrow> string \<Rightarrow> world \<Rightarrow> world" where
  "publish_message_event publish_ok event topic w =
     w\<lparr>w_published := w_published w @ redis_fail_open publish_ok [(topic, event)] []\<rparr>"

definition publish_message_created :: "bool \<Rightarrow> message \<Rightarrow> attachment list \<Rightarrow> world \<Rightarrow> world" where
  "publish_message_created publish_ok message media =
     publish_message_event publish_ok (build_created_event message media) (topic_for message)"

definition publish_message_edited :: "bool \<Rightarrow> message \<Rightarrow> attachment list \<Rightarrow> world \<Rightarrow> world" where
  "publish_message_edited publish_ok message media =
     publish_message_event publish_ok (build_edited_event message media) (topic_for message)"

definition publish_message_deleted :: "bool \<Rightarrow> message \<Rightarrow> world \<Rightarrow> world" where
  "publish_message_deleted publish_ok message =
     publish_message_event publish_ok (build_deleted_event message) (topic_for message)"

subsection \<open>Idempotency claims\<close>

definition load_claimed_message_id :: "uuid \<Rightarrow> pystr \<Rightarrow> world \<Rightarrow> uuid option" where
  "load_claimed_message_id sender_id key w =
     map_option (the \<circ> parse_uuid \<circ> fst) (w_claims w (idempotency_redis_key sender_id key))"

text \<open>\<open>SET key id NX EX ttl\<close>: whether this call won the key.\<close>

definition claim_idempotency_key :: "uuid \<Rightarrow> pystr \<Rightarrow> uuid \<Rightarrow> world \<Rightarrow> bool \<times> world" where
  "claim_idempotency_key sender_id key message_id w =
     (let k = idempotency_redis_key sender_id key in
      case w_claims w k of
        Some v \<Rightarrow> (False, w)
      | None \<Rightarrow>
          (True, w\<lparr>w_claims := (w_claims w)(k \<mapsto> (py (uuid_str message_id), w_clock w + IDEMPOTENCY_TTL_SECONDS))\<rparr>))"

definition release_idempotency_key :: "uuid \<Rightarrow> pystr \<Rightarrow> world \<Rightarrow> world" where
  "release_idempotency_key sender_id key w =
     w\<lparr>w_claims := (w_claims w)(idempotency_redis_key sender_id key := None)\<rparr>"

text \<open>Redis's clock advances: the keys whose time has come are gone.\<close>

definition claims_at :: "int \<Rightarrow> (pystr \<rightharpoonup> pystr \<times> int) \<Rightarrow> (pystr \<rightharpoonup> pystr \<times> int)" where
  "claims_at t claims =
     (\<lambda>k. case claims k of None \<Rightarrow> None | Some (v, expires) \<Rightarrow> if expires \<le> t then None else Some (v, expires))"

definition pass_time :: "nat \<Rightarrow> world \<Rightarrow> world" where
  "pass_time n w =
     (let t = w_clock w + int n in w\<lparr>w_clock := t, w_claims := claims_at t (w_claims w)\<rparr>)"

subsection \<open>Media\<close>

definition by_upload :: "attachment \<Rightarrow> datetime \<times> uuid" where
  "by_upload a = (a_created_at a, a_id a)"

definition get_message_media :: "uuid \<Rightarrow> database \<Rightarrow> attachment list" where
  "get_message_media message_id d =
     sort_key by_upload (filter (\<lambda>a. a_message_id a = Some message_id) (tb_attachments d))"

definition load_message_with_media :: "uuid \<Rightarrow> database \<Rightarrow> (message \<times> attachment list) option" where
  "load_message_with_media message_id d =
     map_option (\<lambda>m. (m, get_message_media message_id d)) (get_message message_id d)"

definition group_attachment ::
  "attachment \<Rightarrow> (uuid \<rightharpoonup> attachment list) \<Rightarrow> (uuid \<rightharpoonup> attachment list)" where
  "group_attachment a grouped =
     (case a_message_id a of
        None \<Rightarrow> grouped
      | Some m \<Rightarrow> grouped(m := map_option (\<lambda>xs. xs @ [a]) (grouped m)))"

definition get_media_for_messages :: "uuid list \<Rightarrow> database \<Rightarrow> (uuid \<rightharpoonup> attachment list)" where
  "get_media_for_messages message_ids d =
     (if message_ids = [] then Map.empty
      else fold group_attachment
             (sort_key by_upload
               (filter (\<lambda>a. \<exists>m\<in>set message_ids. a_message_id a = Some m) (tb_attachments d)))
             (\<lambda>m. if m \<in> set message_ids then Some [] else None))"

fun usable_media ::
  "(uuid \<Rightarrow> attachment option) \<Rightarrow> uuid \<Rightarrow> uuid list \<Rightarrow> message_error + attachment list" where
  "usable_media found sender_id [] = Inr []"
| "usable_media found sender_id (media_id # ids) =
     (case found media_id of
        None \<Rightarrow> Inl InvalidMediaError
      | Some a \<Rightarrow>
          if a_uploader_id a \<noteq> sender_id \<or> a_message_id a \<noteq> None then Inl InvalidMediaError
          else and_then (usable_media found sender_id ids) (\<lambda>rest. Inr (a # rest)))"

definition validate_and_load_media ::
  "uuid list \<Rightarrow> uuid \<Rightarrow> database \<Rightarrow> message_error + attachment list" where
  "validate_and_load_media media_ids sender_id d =
     (if media_ids = [] then Inr []
      else usable_media
             (\<lambda>k. db_get a_id k (filter (\<lambda>a. a_id a \<in> set media_ids) (tb_attachments d)))
             sender_id media_ids)"

definition bindable :: "uuid list \<Rightarrow> uuid \<Rightarrow> attachment \<Rightarrow> bool" where
  "bindable media_ids sender_id a \<longleftrightarrow>
     a_id a \<in> set media_ids \<and> a_uploader_id a = sender_id \<and> a_message_id a = None"

definition bind_media_atomically ::
  "uuid \<Rightarrow> uuid list \<Rightarrow> uuid \<Rightarrow> database \<Rightarrow> message_error + attachment list \<times> database" where
  "bind_media_atomically message_id media_ids sender_id d =
     (if media_ids = [] then Inr ([], d)
      else if length (filter (bindable media_ids sender_id) (tb_attachments d)) \<noteq> length media_ids
      then Inl InvalidMediaError
      else (let d' = update_attachments (bindable media_ids sender_id)
                       (\<lambda>a. a\<lparr>a_message_id := Some message_id\<rparr>) d
            in Inr (get_message_media message_id d', d')))"

subsection \<open>Resolving a claim\<close>

datatype resolution = Resolved message "attachment list" | Absent | TimedOut | Unreadable

fun resolve_loop ::
  "(nat \<Rightarrow> world \<Rightarrow> world) \<Rightarrow> (nat \<Rightarrow> redis_call) \<Rightarrow> uuid \<Rightarrow> pystr \<Rightarrow> nat \<Rightarrow> world \<Rightarrow> resolution \<times> world" where
  "resolve_loop env rd sender_id key 0 w = (TimedOut, w)"
| "resolve_loop env rd sender_id key (Suc k) w =
     (let w = env k w in
      if rd (Suc k) \<noteq> Answered then (Unreadable, w)
      else case load_claimed_message_id sender_id key w of
        None \<Rightarrow> (Absent, w)
      | Some claimed_id \<Rightarrow>
          if 0 < k then resolve_loop env rd sender_id key k w
          else case load_message_with_media claimed_id (w_db w) of
                 Some (m, media) \<Rightarrow> (Resolved m media, w)
               | None \<Rightarrow> (TimedOut, w))"

definition resolve_existing_claim ::
  "(nat \<Rightarrow> world \<Rightarrow> world) \<Rightarrow> (nat \<Rightarrow> redis_call) \<Rightarrow> uuid \<Rightarrow> pystr \<Rightarrow> world \<Rightarrow> resolution \<times> world" where
  "resolve_existing_claim env rd sender_id key w =
     (if rd RESOLVE_MAX_ATTEMPTS \<noteq> Answered then (Unreadable, w)
      else case load_claimed_message_id sender_id key w of
        None \<Rightarrow> (Absent, w)
      | Some claimed_id \<Rightarrow>
          (case load_message_with_media claimed_id (w_db w) of
             Some (m, media) \<Rightarrow> (Resolved m media, w)
           | None \<Rightarrow> resolve_loop env rd sender_id key (RESOLVE_MAX_ATTEMPTS - 1) w))"

subsection \<open>Sending\<close>

definition ensure_channel_and_membership ::
  "uuid \<Rightarrow> uuid \<Rightarrow> database \<Rightarrow> message_error + unit" where
  "ensure_channel_and_membership channel_id user_id d =
     and_then (check (get_channel channel_id d \<noteq> None) ChannelNotFoundError) (\<lambda>_.
     check (get_membership channel_id user_id d \<noteq> None) NotChannelMemberError)"

record send_result =
  sr_message :: message
  sr_media :: "attachment list"
  sr_created :: bool

text \<open>The winner's transaction: insert, bind, commit.  Any error rolls back and releases the key
  (a commit that raises may have been executed); an error of the release replaces it.\<close>

definition release_after ::
  "redis_call \<Rightarrow> message_error \<Rightarrow> uuid \<Rightarrow> pystr \<Rightarrow> world \<Rightarrow> (message_error + send_result) \<times> world" where
  "release_after call e sender_id key w =
     (Inl (if call = Answered then e else MessageRedisError),
      redis_state call w (release_idempotency_key sender_id key w))"

definition persist_claimed ::
  "(send_call \<Rightarrow> redis_call) \<Rightarrow> bool \<Rightarrow> uuid \<Rightarrow> pystr \<Rightarrow> uuid list \<Rightarrow> message \<Rightarrow> world \<Rightarrow>
   (message_error + send_result) \<times> world" where
  "persist_claimed rd publish_ok sender_id key media_ids message w =
     (case insert_message message (w_db w) of
        Inl e \<Rightarrow> release_after (rd Delete_Claim) (MessageIntegrityError e) sender_id key w
      | Inr d1 \<Rightarrow>
          (case bind_media_atomically (m_id message) media_ids sender_id d1 of
             Inl e \<Rightarrow> release_after (rd Delete_Claim) e sender_id key w
           | Inr (media, d2) \<Rightarrow>
               if rd Commit_Row = Answered
               then (Inr \<lparr>sr_message = message, sr_media = media, sr_created = True\<rparr>,
                     publish_message_created publish_ok message media (w\<lparr>w_db := d2\<rparr>))
               else release_after (rd Delete_Claim) MessageDatabaseError sender_id key
                      (redis_state (rd Commit_Row) w (w\<lparr>w_db := d2\<rparr>))))"

fun claim_rounds ::
  "(nat \<Rightarrow> nat \<Rightarrow> world \<Rightarrow> world) \<Rightarrow> (send_call \<Rightarrow> redis_call) \<Rightarrow> bool \<Rightarrow> uuid \<Rightarrow> pystr \<Rightarrow> uuid list \<Rightarrow>
   message \<Rightarrow> nat \<Rightarrow> world \<Rightarrow> (message_error + send_result) \<times> world" where
  "claim_rounds env rd publish_ok sender_id key media_ids message 0 w =
     (Inl IdempotencyResolutionTimeoutError, w)"
| "claim_rounds env rd publish_ok sender_id key media_ids message (Suc r) w =
     (case claim_idempotency_key sender_id key (m_id message) w of
        (won, w1) \<Rightarrow>
          if rd (Set_Claim r) \<noteq> Answered then (Inl MessageRedisError, redis_state (rd (Set_Claim r)) w w1)
          else if won then persist_claimed rd publish_ok sender_id key media_ids message w1
          else (case resolve_existing_claim (env r) (\<lambda>k. rd (Read_Claim r k)) sender_id key w1 of
             (Resolved m media, w2) \<Rightarrow>
               (Inr \<lparr>sr_message = m, sr_media = media, sr_created = False\<rparr>, w2)
           | (Absent, w2) \<Rightarrow> claim_rounds env rd publish_ok sender_id key media_ids message r w2
           | (TimedOut, w2) \<Rightarrow> (Inl IdempotencyResolutionTimeoutError, w2)
           | (Unreadable, w2) \<Rightarrow> (Inl MessageRedisError, w2)))"

definition claim_and_persist_message ::
  "(nat \<Rightarrow> nat \<Rightarrow> world \<Rightarrow> world) \<Rightarrow> (send_call \<Rightarrow> redis_call) \<Rightarrow> bool \<Rightarrow> uuid \<Rightarrow> uuid \<Rightarrow> pystr \<Rightarrow> uuid list \<Rightarrow>
   (uuid \<Rightarrow> message) \<Rightarrow> world \<Rightarrow> (message_error + send_result) \<times> world" where
  "claim_and_persist_message env rd publish_ok new_id sender_id key media_ids build_message w =
     claim_rounds env rd publish_ok sender_id key media_ids (build_message new_id) CLAIM_MAX_ROUNDS w"

text \<open>Both sends: replay first, then the gates of the conversation, content and media.\<close>

definition send_after_replay ::
  "(nat \<Rightarrow> nat \<Rightarrow> world \<Rightarrow> world) \<Rightarrow> (send_call \<Rightarrow> redis_call) \<Rightarrow> bool \<Rightarrow> uuid \<Rightarrow> uuid \<Rightarrow> pystr \<Rightarrow> uuid list \<Rightarrow>
   pystr \<Rightarrow> (database \<Rightarrow> message_error + unit) \<Rightarrow> (uuid \<Rightarrow> message) \<Rightarrow> world \<Rightarrow>
   (message_error + send_result) \<times> world" where
  "send_after_replay env rd publish_ok new_id sender_id key media_ids content gate build_message w =
     (case resolve_existing_claim (env CLAIM_MAX_ROUNDS) (\<lambda>k. rd (Read_Claim CLAIM_MAX_ROUNDS k)) sender_id key w of
             (Resolved m media, w1) \<Rightarrow>
               (Inr \<lparr>sr_message = m, sr_media = media, sr_created = False\<rparr>, w1)
           | (TimedOut, w1) \<Rightarrow> (Inl IdempotencyResolutionTimeoutError, w1)
           | (Unreadable, w1) \<Rightarrow> (Inl MessageRedisError, w1)
           | (Absent, w1) \<Rightarrow>
               (case and_then (gate (w_db w1)) (\<lambda>_.
                     and_then (check (is_valid_content content) InvalidContentError) (\<lambda>_.
                     validate_and_load_media media_ids sender_id (w_db w1))) of
                  Inl e \<Rightarrow> (Inl e, w1)
                | Inr _ \<Rightarrow> claim_and_persist_message env rd publish_ok new_id sender_id key media_ids
                             build_message w1))"

definition send_channel_message ::
  "(nat \<Rightarrow> nat \<Rightarrow> world \<Rightarrow> world) \<Rightarrow> (send_call \<Rightarrow> redis_call) \<Rightarrow> bool \<Rightarrow> uuid \<Rightarrow> datetime \<Rightarrow> uuid \<Rightarrow> uuid \<Rightarrow>
   pystr \<Rightarrow> uuid list \<Rightarrow> pystr \<Rightarrow> world \<Rightarrow> (message_error + send_result) \<times> world" where
  "send_channel_message env rd publish_ok new_id now channel_id sender_id content media_ids key w =
     send_after_replay env rd publish_ok new_id sender_id key media_ids content
       (ensure_channel_and_membership channel_id sender_id)
       (\<lambda>mid. \<lparr>m_id = mid, m_channel_id = Some channel_id, m_recipient_id = None,
              m_sender_id = sender_id, m_content = content, m_created_at = now,
              m_edited_at = None, m_deleted_at = None\<rparr>) w"

definition reject_self_dm :: "uuid \<Rightarrow> uuid \<Rightarrow> message_error + unit" where
  "reject_self_dm recipient_id sender_id = check (recipient_id \<noteq> sender_id) SelfDMError"

definition ensure_active_recipient_exists :: "uuid \<Rightarrow> database \<Rightarrow> message_error + unit" where
  "ensure_active_recipient_exists recipient_id d =
     (case get_user recipient_id d of
        None \<Rightarrow> Inl RecipientNotFoundError
      | Some u \<Rightarrow> if u_is_active u then Inr () else Inl RecipientNotFoundError)"

definition ensure_dm_history_participant_exists :: "uuid \<Rightarrow> database \<Rightarrow> message_error + unit" where
  "ensure_dm_history_participant_exists other_user_id d =
     check (get_user other_user_id d \<noteq> None) RecipientNotFoundError"

definition send_dm_message ::
  "(nat \<Rightarrow> nat \<Rightarrow> world \<Rightarrow> world) \<Rightarrow> (send_call \<Rightarrow> redis_call) \<Rightarrow> bool \<Rightarrow> uuid \<Rightarrow> datetime \<Rightarrow> uuid \<Rightarrow> uuid \<Rightarrow> pystr \<Rightarrow>
   uuid list \<Rightarrow> pystr \<Rightarrow> world \<Rightarrow> (message_error + send_result) \<times> world" where
  "send_dm_message env rd publish_ok new_id now recipient_id sender_id content media_ids key w =
     send_after_replay env rd publish_ok new_id sender_id key media_ids content
       (\<lambda>d. and_then (reject_self_dm recipient_id sender_id) (\<lambda>_.
            ensure_active_recipient_exists recipient_id d))
       (\<lambda>mid. \<lparr>m_id = mid, m_channel_id = None, m_recipient_id = Some recipient_id,
              m_sender_id = sender_id, m_content = content, m_created_at = now,
              m_edited_at = None, m_deleted_at = None\<rparr>) w"

subsection \<open>Histories\<close>

definition ensure_dm_history_access :: "uuid \<Rightarrow> uuid \<Rightarrow> database \<Rightarrow> message_error + unit" where
  "ensure_dm_history_access other_user_id caller_id d =
     and_then (reject_self_dm other_user_id caller_id) (\<lambda>_.
     ensure_dm_history_participant_exists other_user_id d)"

definition message_key :: "message \<Rightarrow> cursor_key" where
  "message_key m = \<lparr>ck_created_at = m_created_at m, ck_id = m_id m\<rparr>"

definition dm_rows :: "uuid \<Rightarrow> uuid \<Rightarrow> database \<Rightarrow> message list" where
  "dm_rows caller_id other_user_id d =
     (case dm_pair caller_id other_user_id of (least_id, greatest_id) \<Rightarrow>
       filter (\<lambda>m. case m_recipient_id m of
                    None \<Rightarrow> False
                  | Some r \<Rightarrow> m_deleted_at m = None \<and> min (m_sender_id m) r = least_id \<and>
                              max (m_sender_id m) r = greatest_id)
         (tb_messages d))"

definition get_dm_message_history ::
  "uuid \<Rightarrow> uuid \<Rightarrow> int \<Rightarrow> cursor_key option \<Rightarrow> database \<Rightarrow> message page" where
  "get_dm_message_history caller_id other_user_id limit cursor d =
     paginate_rows (sql_limit (limit + 1)
       (apply_keyset message_key cursor (dm_rows caller_id other_user_id d))) limit message_key"

definition channel_rows :: "uuid \<Rightarrow> database \<Rightarrow> message list" where
  "channel_rows channel_id d =
     filter (\<lambda>m. m_channel_id m = Some channel_id \<and> m_deleted_at m = None) (tb_messages d)"

definition get_channel_message_history ::
  "uuid \<Rightarrow> int \<Rightarrow> cursor_key option \<Rightarrow> database \<Rightarrow> message page" where
  "get_channel_message_history channel_id limit cursor d =
     paginate_rows (sql_limit (limit + 1)
       (apply_keyset message_key cursor (channel_rows channel_id d))) limit message_key"

subsection \<open>Editing and deleting\<close>

definition ensure_caller_can_see_message :: "message \<Rightarrow> uuid \<Rightarrow> database \<Rightarrow> message_error + unit" where
  "ensure_caller_can_see_message message caller_id d =
     (case m_channel_id message of
        None \<Rightarrow> Inr ()
      | Some c \<Rightarrow> check (get_membership c caller_id d \<noteq> None) MessageNotFoundError)"

definition load_own_message :: "uuid \<Rightarrow> uuid \<Rightarrow> database \<Rightarrow> message_error + message" where
  "load_own_message message_id caller_id d =
     (case get_message message_id d of
        None \<Rightarrow> Inl MessageNotFoundError
      | Some message \<Rightarrow>
          and_then (ensure_caller_can_see_message message caller_id d) (\<lambda>_.
          and_then (check (m_sender_id message = caller_id) NotMessageAuthorError) (\<lambda>_.
          Inr message)))"

definition edit_message ::
  "bool \<Rightarrow> datetime \<Rightarrow> uuid \<Rightarrow> uuid \<Rightarrow> pystr \<Rightarrow> world \<Rightarrow> (message_error + message) \<times> world" where
  "edit_message publish_ok now message_id caller_id content w =
     (case and_then (load_own_message message_id caller_id (w_db w)) (\<lambda>message.
           and_then (check (m_deleted_at message = None) MessageAlreadyDeletedError) (\<lambda>_.
           and_then (check (is_valid_content content) InvalidContentError) (\<lambda>_.
           Inr message))) of
        Inl e \<Rightarrow> (Inl e, w)
      | Inr message \<Rightarrow>
          if content = m_content message then (Inr message, w)
          else
            (let edit = (\<lambda>m. m\<lparr>m_content := content, m_edited_at := Some now\<rparr>);
                 d' = update_messages (\<lambda>m. m_id m = message_id) edit (w_db w)
             in (Inr (edit message),
                 publish_message_edited publish_ok (edit message) (get_message_media message_id d')
                   (w\<lparr>w_db := d'\<rparr>))))"

definition delete_message ::
  "bool \<Rightarrow> datetime \<Rightarrow> uuid \<Rightarrow> uuid \<Rightarrow> world \<Rightarrow> (message_error + message) \<times> world" where
  "delete_message publish_ok now message_id caller_id w =
     (case load_own_message message_id caller_id (w_db w) of
        Inl e \<Rightarrow> (Inl e, w)
      | Inr message \<Rightarrow>
          if m_deleted_at message \<noteq> None then (Inr message, w)
          else
            (let mark = (\<lambda>m. m\<lparr>m_deleted_at := Some now\<rparr>);
                 d' = update_messages (\<lambda>m. m_id m = message_id) mark (w_db w)
             in (Inr (mark message),
                 publish_message_deleted publish_ok (mark message) (w\<lparr>w_db := d'\<rparr>))))"

subsection \<open>Content and media\<close>

lemma py_isspace_space: "py_isspace 32"
  by (simp add: py_isspace_def)

lemma valid_content_db: "is_valid_content content \<Longrightarrow> ck_messages_content content"
  using py_isspace_space
  unfolding is_valid_content_def ck_messages_content_def CONTENT_MAX_LENGTH_def py_strip_def btrim_def
    strip_by_Nil_iff by metis

text \<open>The batch query of a history page gives every message its own media list.\<close>

lemma group_attachments:
  "fold group_attachment as g m =
     map_option (\<lambda>xs. xs @ filter (\<lambda>a. a_message_id a = Some m) as) (g m)"
proof (induction "as" arbitrary: g)
  case Nil
  then show ?case by (simp add: option.map_ident)
next
  case (Cons a as)
  then show ?case
    by (cases "g m") (auto simp: group_attachment_def split: option.splits)
qed

lemma filter_sort_key: "filter P (sort_key f xs) = sort_key f (filter P xs)"
  by (simp add: filter_sort)

lemma bind_media_cases:
  assumes "bind_media_atomically mid ids s d = Inr (media, d')"
  shows "d' = (if ids = [] then d else update_attachments (bindable ids s) (\<lambda>a. a\<lparr>a_message_id := Some mid\<rparr>) d)"
    "media = (if ids = [] then [] else get_message_media mid d')"
    "ids \<noteq> [] \<Longrightarrow> length (filter (bindable ids s) (tb_attachments d)) = length ids"
  using assms by (auto simp: bind_media_atomically_def Let_def split: if_splits)

text \<open>A successful bind took every requested id, and no id twice.\<close>

lemma bind_media_all:
  assumes "bind_media_atomically mid ids s d = Inr (media, d')" "distinct (map a_id (tb_attachments d))"
  shows "distinct ids \<and> (\<forall>k\<in>set ids. \<exists>a\<in>set (tb_attachments d). a_id a = k \<and> bindable ids s a)"
proof (cases "ids = []")
  case False
  let ?b = "filter (bindable ids s) (tb_attachments d)"
  have len: "length ?b = length ids" using bind_media_cases(3) [OF assms(1) False] .
  have sub: "a_id ` set ?b \<subseteq> set ids" by (auto simp: bindable_def)
  have "distinct (map a_id ?b)" using assms(2) by (rule distinct_map_filter)
  then have card: "card (a_id ` set ?b) = length ids"
    using len distinct_card by fastforce
  then have "length ids \<le> card (set ids)" using card_mono [OF _ sub] by simp
  then have "card (set ids) = length ids" using card_length [of ids] by linarith
  then have "distinct ids" by (rule card_distinct)
  moreover have "a_id ` set ?b = set ids"
    using card_subset_eq [OF _ sub] card \<open>card (set ids) = length ids\<close> by simp
  moreover have "\<exists>a\<in>set (tb_attachments d). a_id a = k \<and> bindable ids s a" if "k \<in> a_id ` set ?b" for k
    using that by auto
  ultimately show ?thesis by blast
qed simp

lemma batch_media:
  assumes "k \<in> set ids"
  shows "get_media_for_messages ids d k = Some (get_message_media k d)"
proof -
  have "filter (\<lambda>a. a_message_id a = Some k)
      (filter (\<lambda>a. \<exists>i\<in>set ids. a_message_id a = Some i) (tb_attachments d)) =
      filter (\<lambda>a. a_message_id a = Some k) (tb_attachments d)"
    unfolding filter_filter by (rule filter_cong) (use assms in auto)
  moreover have "ids \<noteq> []" using assms by auto
  ultimately show ?thesis
    using assms by (simp add: get_media_for_messages_def group_attachments filter_sort_key get_message_media_def)
qed

subsection \<open>Sending when nothing is claimed\<close>

text \<open>The state with the claim of \<open>m\<close> made.\<close>

definition claimed :: "uuid \<Rightarrow> pystr \<Rightarrow> uuid \<Rightarrow> world \<Rightarrow> world" where
  "claimed s key m w =
     w\<lparr>w_claims := (w_claims w)(idempotency_redis_key s key \<mapsto> (py (uuid_str m), w_clock w + IDEMPOTENCY_TTL_SECONDS))\<rparr>"

lemma claimed_simps [simp]:
  "w_db (claimed s key m w) = w_db w" "w_published (claimed s key m w) = w_published w"
  "w_clock (claimed s key m w) = w_clock w"
  "w_claims (claimed s key m w) =
     (w_claims w)(idempotency_redis_key s key \<mapsto> (py (uuid_str m), w_clock w + IDEMPOTENCY_TTL_SECONDS))"
  by (simp_all add: claimed_def)

lemma release_claimed:
  "w_claims w (idempotency_redis_key s key) = None \<Longrightarrow> release_idempotency_key s key (claimed s key m w) = w"
  by (simp add: release_idempotency_key_def claimed_def fun_upd_idem)

lemma fresh_claim:
  "w_claims w (idempotency_redis_key s key) = None \<Longrightarrow> load_claimed_message_id s key w = None"
  by (simp add: load_claimed_message_id_def)

definition first_read :: send_call where "first_read = Read_Claim CLAIM_MAX_ROUNDS RESOLVE_MAX_ATTEMPTS"
definition first_claim :: send_call where "first_claim = Set_Claim (CLAIM_MAX_ROUNDS - 1)"

lemma send_fresh:
  assumes "w_claims w (idempotency_redis_key s key) = None" "m_id (build new) = new"
  shows "send_after_replay env rd up new s key ids content gate build w =
    (if rd first_read \<noteq> Answered then (Inl MessageRedisError, w)
     else case and_then (gate (w_db w)) (\<lambda>_.
          and_then (check (is_valid_content content) InvalidContentError) (\<lambda>_.
          validate_and_load_media ids s (w_db w))) of
       Inl e \<Rightarrow> (Inl e, w)
     | Inr _ \<Rightarrow>
         if rd first_claim \<noteq> Answered
         then (Inl MessageRedisError, redis_state (rd first_claim) w (claimed s key new w))
         else persist_claimed rd up s key ids (build new) (claimed s key new w))"
proof -
  have claim: "claim_and_persist_message env rd up new s key ids build w =
      (if rd first_claim \<noteq> Answered
       then (Inl MessageRedisError, redis_state (rd first_claim) w (claimed s key new w))
       else persist_claimed rd up s key ids (build new) (claimed s key new w))"
    using assms by (simp add: claim_and_persist_message_def first_claim_def CLAIM_MAX_ROUNDS_def eval_nat_numeral
        claim_idempotency_key_def claimed_def Let_def)
  have res: "resolve_existing_claim (env CLAIM_MAX_ROUNDS) (\<lambda>k. rd (Read_Claim CLAIM_MAX_ROUNDS k)) s key w =
      (if rd first_read \<noteq> Answered then Unreadable else Absent, w)"
    using assms(1) by (simp add: resolve_existing_claim_def first_read_def fresh_claim)
  show ?thesis
    unfolding send_after_replay_def res
    by (cases "rd first_read = Answered") (simp_all only: claim prod.case resolution.case if_True if_False simp_thms)
qed

lemma redis_state_cases:
  obtains "redis_state call x y = x" "call = Unreached" | "redis_state call x y = y" "call \<noteq> Unreached"
  by (cases "call = Unreached") (simp_all add: redis_state_def)

lemma redis_state_reached [simp]: "call \<noteq> Unreached \<Longrightarrow> redis_state call x y = y"
  by (simp add: redis_state_def)

text \<open>How the winner's transaction ends: rolled back, committed without an answer, or committed.\<close>

lemma persist_claimed_cases:
  assumes "persist_claimed rd up s key ids m w = (r, w')"
  obtains e where "r = Inl e" "w' = redis_state (rd Delete_Claim) w (release_idempotency_key s key w)"
  | e d1 media d2 v where "r = Inl e" "rd Commit_Row = Reply_Lost" "insert_message m (w_db w) = Inr d1"
      "bind_media_atomically (m_id m) ids s d1 = Inr (media, d2)" "v = w\<lparr>w_db := d2\<rparr>"
      "w' = redis_state (rd Delete_Claim) v (release_idempotency_key s key v)"
  | d1 media d2 where "r = Inr \<lparr>sr_message = m, sr_media = media, sr_created = True\<rparr>"
      "rd Commit_Row = Answered" "insert_message m (w_db w) = Inr d1"
      "bind_media_atomically (m_id m) ids s d1 = Inr (media, d2)"
      "w' = publish_message_created up m media (w\<lparr>w_db := d2\<rparr>)"
proof (cases "insert_message m (w_db w)")
  case (Inl e)
  with assms show ?thesis by (intro that(1)) (auto simp: persist_claimed_def release_after_def)
next
  case ins: (Inr d1)
  show ?thesis
  proof (cases "bind_media_atomically (m_id m) ids s d1")
    case (Inl e)
    with assms ins show ?thesis by (intro that(1)) (auto simp: persist_claimed_def release_after_def)
  next
    case (Inr b)
    then obtain media d2 where bind: "bind_media_atomically (m_id m) ids s d1 = Inr (media, d2)" by (cases b) simp
    show ?thesis
    proof (cases "rd Commit_Row")
      case Answered
      with assms ins bind show ?thesis by (intro that(3) [OF _ Answered ins bind]) (auto simp: persist_claimed_def)
    next
      case Unreached
      with assms ins bind show ?thesis
        by (intro that(1)) (auto simp: persist_claimed_def release_after_def redis_state_def)
    next
      case Reply_Lost
      with assms ins bind show ?thesis
        by (intro that(2) [OF _ Reply_Lost ins bind refl]) (auto simp: persist_claimed_def release_after_def)
    qed
  qed
qed

lemma insert_message_frame:
  "insert_message m d = Inr d' \<Longrightarrow> d' = d\<lparr>tb_messages := tb_messages d @ [m]\<rparr>"
  by (simp add: insert_message_def split: if_splits)

text \<open>Attachments refer to messages that exist.\<close>

definition attachments_ok :: "database \<Rightarrow> bool" where
  "attachments_ok d \<longleftrightarrow> distinct (map a_id (tb_attachments d)) \<and>
     (\<forall>a\<in>set (tb_attachments d). \<forall>m. a_message_id a = Some m \<longrightarrow> get_message m d \<noteq> None)"

definition sends :: "uuid \<Rightarrow> uuid list \<Rightarrow> message \<Rightarrow> database \<Rightarrow> attachment list \<Rightarrow> database \<Rightarrow> bool" where
  "sends s ids m d media d' \<longleftrightarrow>
     insert_message m d = Inr (d\<lparr>tb_messages := tb_messages d @ [m]\<rparr>) \<and> distinct ids \<and>
     d' = d\<lparr>tb_messages := tb_messages d @ [m],
            tb_attachments := db_update (bindable ids s) (\<lambda>a. a\<lparr>a_message_id := Some (m_id m)\<rparr>)
              (tb_attachments d)\<rparr> \<and>
     media = get_message_media (m_id m) d' \<and> a_id ` set media = set ids"

lemma bindable_nil [simp]: "bindable [] s = (\<lambda>a. False)"
  by (simp add: bindable_def fun_eq_iff)

lemma db_update_never [simp]: "db_update (\<lambda>r. False) f rows = rows"
  by (simp add: db_update_def)

lemma persist_success:
  assumes "insert_message m d = Inr d1" "bind_media_atomically (m_id m) ids s d1 = Inr (media, d2)"
    and "attachments_ok d"
  shows "sends s ids m d media d2"
proof -
  have d1: "d1 = d\<lparr>tb_messages := tb_messages d @ [m]\<rparr>" by (rule insert_message_frame [OF assms(1)])
  let ?upd = "\<lambda>a. a\<lparr>a_message_id := Some (m_id m)\<rparr>"
  have d2: "d2 = d\<lparr>tb_messages := tb_messages d @ [m],
      tb_attachments := db_update (bindable ids s) ?upd (tb_attachments d)\<rparr>"
    using bind_media_cases(1) [OF assms(2)] by (cases "ids = []") (auto simp: d1 table_defs)
  have fresh: "get_message (m_id m) d = None"
    using assms(1) by (auto simp: insert_message_def get_message_def db_get_None split: if_splits)
  then have unbound: "a_message_id a \<noteq> Some (m_id m)" if "a \<in> set (tb_attachments d)" for a
    using that assms(3) by (auto simp: attachments_ok_def)
  have set: "set (get_message_media (m_id m) d2) =
      ?upd ` {a \<in> set (tb_attachments d). bindable ids s a}"
    using unbound by (auto simp: get_message_media_def d2 split: if_splits)
  have media: "media = get_message_media (m_id m) d2"
  proof (cases "ids = []")
    case True
    have "set (get_message_media (m_id m) d2) = {}" unfolding set using True by simp
    with True show ?thesis using bind_media_cases(2) [OF assms(2)] by simp
  next
    case False
    then show ?thesis using bind_media_cases(2) [OF assms(2)] by simp
  qed
  have all: "distinct ids \<and> (\<forall>k\<in>set ids. \<exists>a\<in>set (tb_attachments d). a_id a = k \<and> bindable ids s a)"
    using bind_media_all [OF assms(2)] assms(3) by (simp add: d1 attachments_ok_def)
  have "a_id ` set media = a_id ` {a \<in> set (tb_attachments d). bindable ids s a}"
    unfolding media set by (simp add: image_image)
  also have "\<dots> = set ids" using all by (auto simp: bindable_def)
  finally show ?thesis using assms(1) d1 d2 media all by (simp add: sends_def)
qed

text \<open>A send whose key is unclaimed does nothing, leaves a claim behind, commits unnoticed, or commits.\<close>

lemma send_fresh_cases:
  assumes "w_claims w (idempotency_redis_key s key) = None" "m_id (build new) = new"
    and "attachments_ok (w_db w)"
    and "send_after_replay env rd up new s key ids content gate build w = (r, w')"
  obtains e where "r = Inl e" "w' = w"
  | e where "r = Inl e" "w' = claimed s key new w" "rd first_claim = Reply_Lost \<or> rd Delete_Claim = Unreached"
  | e media d' where "r = Inl e" "rd Commit_Row = Reply_Lost" "gate (w_db w) = Inr ()" "is_valid_content content"
      "sends s ids (build new) (w_db w) media d'"
      "w' = w\<lparr>w_db := d'\<rparr> \<or> w' = (claimed s key new w)\<lparr>w_db := d'\<rparr> \<and> rd Delete_Claim = Unreached"
  | media d' where "r = Inr \<lparr>sr_message = build new, sr_media = media, sr_created = True\<rparr>" "rd Commit_Row = Answered"
      "gate (w_db w) = Inr ()" "is_valid_content content" "sends s ids (build new) (w_db w) media d'"
      "w' = (claimed s key new w)\<lparr>w_db := d',
             w_published := w_published w @
               (if up then [(topic_for (build new), build_created_event (build new) media)] else [])\<rparr>"
proof -
  let ?g = "and_then (gate (w_db w)) (\<lambda>_.
          and_then (check (is_valid_content content) InvalidContentError) (\<lambda>_.
          validate_and_load_media ids s (w_db w)))"
  let ?w = "claimed s key new w"
  note send = assms(4) [unfolded send_fresh [where build = build, OF assms(1,2)]]
  note released = release_claimed [OF assms(1)]
  show ?thesis
  proof (cases "rd first_read = Answered \<and> (\<exists>x. ?g = Inr x)")
    case False
    then have "w' = w \<and> (\<exists>e. r = Inl e)" using send by (auto split: sum.splits if_splits)
    then show ?thesis using that(1) by blast
  next
    case True
    then obtain x where g: "?g = Inr x" and read: "rd first_read = Answered" by blast
    from g have gates: "gate (w_db w) = Inr ()" "is_valid_content content" by auto
    show ?thesis
    proof (cases "rd first_claim = Answered")
      case False
      with send g read have r: "r = Inl MessageRedisError" "w' = redis_state (rd first_claim) w ?w" by simp_all
      show ?thesis
      proof (cases "rd first_claim")
        case Unreached
        then show ?thesis using that(1) r by (simp add: redis_state_def)
      next
        case Reply_Lost
        then show ?thesis using that(2) r by simp
      qed (use False in simp)
    next
      case True
      then have p: "persist_claimed rd up s key ids (build new) ?w = (r, w')" using send g read by simp
      from p show ?thesis
      proof (cases rule: persist_claimed_cases)
        case (1 e)
        then show ?thesis using that(1,2) released by (cases "rd Delete_Claim = Unreached") (simp_all add: redis_state_def)
      next
        case (2 e d1 media d2 v)
        have "sends s ids (build new) (w_db w) media d2"
          by (rule persist_success [OF _ 2(4) assms(3)]) (use 2(3) in simp)
        moreover have "release_idempotency_key s key v = (release_idempotency_key s key ?w)\<lparr>w_db := d2\<rparr>"
          by (simp add: 2(5) release_idempotency_key_def)
        ultimately show ?thesis
          using that(3) [OF 2(1,2) gates] 2(5,6) released
          by (cases "rd Delete_Claim = Unreached") (simp_all add: redis_state_def)
      next
        case (3 d1 media d2)
        have "sends s ids (build new) (w_db w) media d2"
          by (rule persist_success [OF _ 3(4) assms(3)]) (use 3(3) in simp)
        with 3 gates show ?thesis
          by (intro that(4)) (simp_all add: publish_message_created_def publish_message_event_def redis_fail_open_def)
      qed
    qed
  qed
qed

subsection \<open>Properties of sending\<close>

definition channel_message :: "uuid \<Rightarrow> datetime \<Rightarrow> uuid \<Rightarrow> uuid \<Rightarrow> pystr \<Rightarrow> message" where
  "channel_message new now c s content =
     \<lparr>m_id = new, m_channel_id = Some c, m_recipient_id = None, m_sender_id = s, m_content = content,
      m_created_at = now, m_edited_at = None, m_deleted_at = None\<rparr>"

definition dm_message :: "uuid \<Rightarrow> datetime \<Rightarrow> uuid \<Rightarrow> uuid \<Rightarrow> pystr \<Rightarrow> message" where
  "dm_message new now r s content =
     \<lparr>m_id = new, m_channel_id = None, m_recipient_id = Some r, m_sender_id = s, m_content = content,
      m_created_at = now, m_edited_at = None, m_deleted_at = None\<rparr>"

text \<open>One committed send: the new row, its media, its claim and its event.\<close>

definition committed_send ::
  "bool \<Rightarrow> uuid \<Rightarrow> pystr \<Rightarrow> uuid list \<Rightarrow> string \<Rightarrow> message \<Rightarrow> world \<Rightarrow> send_result \<Rightarrow> world \<Rightarrow> bool" where
  "committed_send up s key ids topic m w res w' \<longleftrightarrow>
     sr_created res \<and> sr_message res = m \<and>
     sends s ids m (w_db w) (sr_media res) (w_db w') \<and>
     w_clock w' = w_clock w \<and> w_claims w' = w_claims (claimed s key (m_id m) w) \<and>
     w_published w' = w_published w @
       (if up then [(topic, build_created_event m (sr_media res))] else [])"

text \<open>What a failed send may leave: nothing of its event; a row only if the answer to the commit
  was lost; a claim only if the answer to \<open>SET\<close> was lost or the release did not arrive.\<close>

definition failed_send ::
  "(send_call \<Rightarrow> redis_call) \<Rightarrow> uuid \<Rightarrow> pystr \<Rightarrow> uuid list \<Rightarrow> bool \<Rightarrow> message \<Rightarrow> world \<Rightarrow> world \<Rightarrow> bool" where
  "failed_send rd s key ids allowed m w w' \<longleftrightarrow>
     w_published w' = w_published w \<and> w_clock w' = w_clock w \<and>
     (w_db w' = w_db w \<or>
      rd Commit_Row = Reply_Lost \<and> allowed \<and> (\<exists>media. sends s ids m (w_db w) media (w_db w'))) \<and>
     (w_claims w' = w_claims w \<or>
      (rd first_claim = Reply_Lost \<or> rd Delete_Claim = Unreached) \<and> w_claims w' = w_claims (claimed s key (m_id m) w)) \<and>
     ((\<forall>call. rd call = Answered) \<longrightarrow> w' = w)"

text \<open>
  C1. A channel send whose key is unclaimed, with no other request at work: it succeeds only if
  the sender is a member of an existing channel and the content is valid; then one
  transaction inserted exactly the new row and bound exactly the requested attachments, all
  distinct, to it, the key is claimed by the new id for 24 hours, and the event with the row and
  its media goes to the channel's topic, at most once and only after the commit.  If it fails,
  there is no event, and if every command was answered nothing has changed; a row is left only
  by a commit whose answer was lost, a claim only by a \<open>SET\<close> whose answer was lost or by a
  release that did not arrive.
\<close>

theorem send_channel_message_outcome:
  assumes "w_claims w (idempotency_redis_key s key) = None" "attachments_ok (w_db w)"
  shows "case send_channel_message env rd up new now c s content ids key w of (r, w') \<Rightarrow>
    (let m = channel_message new now c s content;
         allowed = (get_channel c (w_db w) \<noteq> None \<and> get_membership c s (w_db w) \<noteq> None \<and> is_valid_content content)
     in case r of
          Inl e \<Rightarrow> failed_send rd s key ids allowed m w w'
        | Inr res \<Rightarrow> allowed \<and> committed_send up s key ids (channel_topic c) m w res w')"
proof -
  obtain r w' where send: "send_channel_message env rd up new now c s content ids key w = (r, w')"
    by force
  note send' = send [unfolded send_channel_message_def]
  show ?thesis
    by (rule send_fresh_cases [OF assms(1) _ assms(2) send'])
       (use send in \<open>auto simp: committed_send_def failed_send_def channel_message_def topic_for_def
          ensure_channel_and_membership_def Let_def\<close>)
qed

text \<open>
  A direct message whose key is unclaimed: the same, with another, existing and active user as
  the recipient and the pair's canonical topic.
\<close>

theorem send_dm_message_outcome:
  assumes "w_claims w (idempotency_redis_key s key) = None" "attachments_ok (w_db w)"
  shows "case send_dm_message env rd up new now t s content ids key w of (r, w') \<Rightarrow>
    (let m = dm_message new now t s content;
         allowed = (t \<noteq> s \<and> (\<exists>u. get_user t (w_db w) = Some u \<and> u_is_active u) \<and> is_valid_content content)
     in case r of
          Inl e \<Rightarrow> failed_send rd s key ids allowed m w w'
        | Inr res \<Rightarrow> allowed \<and> committed_send up s key ids (dm_topic s t) m w res w')"
proof -
  obtain r w' where send: "send_dm_message env rd up new now t s content ids key w = (r, w')"
    by force
  note send' = send [unfolded send_dm_message_def]
  show ?thesis
    by (rule send_fresh_cases [OF assms(1) _ assms(2) send'])
       (use send in \<open>auto simp: committed_send_def failed_send_def dm_message_def topic_for_def reject_self_dm_def
          ensure_active_recipient_exists_def Let_def split: option.splits if_splits\<close>)
qed

lemma sends_stored: "sends s ids m d media d' \<Longrightarrow> get_message (m_id m) d' = Some m"
proof -
  let ?d1 = "d\<lparr>tb_messages := tb_messages d @ [m]\<rparr>"
  assume *: "sends s ids m d media d'"
  then have "insert_message m d = Inr ?d1" "tb_messages d' = tb_messages ?d1" by (simp_all add: sends_def)
  then show ?thesis using message_row.get_ins [of m d ?d1 "m_id m"] by (simp add: get_message_def)
qed

text \<open>A claim of a stored message is resolved to it, whatever else fails.\<close>

lemma claim_resolved:
  assumes "w_claims w (idempotency_redis_key s key) = Some (py (uuid_str k), t)" "get_message k (w_db w) = Some m"
    and "rd RESOLVE_MAX_ATTEMPTS = Answered"
  shows "resolve_existing_claim env rd s key w = (Resolved m (get_message_media k (w_db w)), w)"
  using assms by (simp add: resolve_existing_claim_def load_claimed_message_id_def load_message_with_media_def parse_uuid_str)

lemma replay_of_claim:
  assumes "w_claims w (idempotency_redis_key s key) = Some (py (uuid_str k), t)" "get_message k (w_db w) = Some m"
    and "rd first_read = Answered"
  shows "send_after_replay env rd up new s key ids content gate build w =
    (Inr \<lparr>sr_message = m, sr_media = get_message_media k (w_db w), sr_created = False\<rparr>, w)"
  using assms by (simp add: send_after_replay_def claim_resolved first_read_def)

text \<open>A commit whose answer is lost leaves the row and releases the key, so that the retry the
  client is told to make inserts a second row.\<close>

lemma lost_commit_answer_frees_key:
  assumes "send_after_replay env rd up new s key ids content gate build w = (r, w')" "m_id (build new) = new"
    "w_claims w (idempotency_redis_key s key) = None" "attachments_ok (w_db w)" "w_db w' \<noteq> w_db w"
    "rd Commit_Row = Reply_Lost" "rd Delete_Claim = Answered"
  shows "get_message new (w_db w') = Some (build new) \<and> w_claims w' (idempotency_redis_key s key) = None
    \<and> (\<exists>e. r = Inl e)"
  using send_fresh_cases [where build = build, OF assms(3,2,4,1)]
proof cases
  case (3 e media d')
  then show ?thesis using sends_stored [OF 3(5)] assms(2,3,7) by auto
qed (use assms in auto)

subsection \<open>What no message operation ever does\<close>

definition messages_inv :: "database \<Rightarrow> bool" where
  "messages_inv d \<longleftrightarrow>
     distinct (map m_id (tb_messages d)) \<and>
     (\<forall>m\<in>set (tb_messages d). ck_messages_target_xor m \<and> ck_messages_content (m_content m)) \<and>
     attachments_ok d \<and>
     (\<forall>a\<in>set (tb_attachments d). \<forall>m\<in>set (tb_messages d).
        a_message_id a = Some (m_id m) \<longrightarrow> a_uploader_id a = m_sender_id m)"

definition message_evolves :: "message \<Rightarrow> message \<Rightarrow> bool" where
  "message_evolves m m' \<longleftrightarrow>
     m' = m\<lparr>m_content := m_content m', m_edited_at := m_edited_at m', m_deleted_at := m_deleted_at m'\<rparr> \<and>
     (m_deleted_at m \<noteq> None \<longrightarrow> m' = m)"

definition attachment_evolves :: "attachment \<Rightarrow> attachment \<Rightarrow> bool" where
  "attachment_evolves a a' \<longleftrightarrow>
     a' = a\<lparr>a_message_id := a_message_id a'\<rparr> \<and> (a_message_id a \<noteq> None \<longrightarrow> a' = a)"

definition evolves :: "database \<Rightarrow> database \<Rightarrow> bool" where
  "evolves d d' \<longleftrightarrow>
     (\<forall>k m. get_message k d = Some m \<longrightarrow> (\<exists>m'. get_message k d' = Some m' \<and> message_evolves m m')) \<and>
     (\<forall>k a. get_attachment k d = Some a \<longrightarrow>
        (\<exists>a'. get_attachment k d' = Some a' \<and> attachment_evolves a a')) \<and>
     tb_users d' = tb_users d \<and> tb_channels d' = tb_channels d \<and> tb_members d' = tb_members d"

lemma message_evolves_refl [simp]: "message_evolves m m"
  by (simp add: message_evolves_def)

lemma message_evolves_trans:
  "message_evolves a b \<Longrightarrow> message_evolves b c \<Longrightarrow> message_evolves a c"
  by (cases a; cases b; cases c) (auto simp: message_evolves_def)

lemma attachment_evolves_refl [simp]: "attachment_evolves a a"
  by (simp add: attachment_evolves_def)

lemma attachment_evolves_trans:
  "attachment_evolves a b \<Longrightarrow> attachment_evolves b c \<Longrightarrow> attachment_evolves a c"
  by (cases a; cases b; cases c) (auto simp: attachment_evolves_def)

lemma evolves_refl [simp]: "evolves d d"
  by (auto simp: evolves_def)

lemma evolves_trans:
  assumes "evolves a b" "evolves b c"
  shows "evolves a c"
proof -
  have "\<exists>m'. get_message k c = Some m' \<and> message_evolves m m'" if "get_message k a = Some m" for k m
    using assms that message_evolves_trans unfolding evolves_def by meson
  moreover have "\<exists>x'. get_attachment k c = Some x' \<and> attachment_evolves x x'"
    if "get_attachment k a = Some x" for k x
    using assms that attachment_evolves_trans unfolding evolves_def by meson
  ultimately show ?thesis using assms by (simp add: evolves_def)
qed

lemma resolve_loop_quiet:
  assumes "load_claimed_message_id s key w \<noteq> None"
  shows "snd (resolve_loop (\<lambda>k. id) rd s key n w) = w \<and> fst (resolve_loop (\<lambda>k. id) rd s key n w) \<noteq> Absent"
  using assms by (induction n) (auto split: option.splits)

lemma resolve_quiet:
  "resolve_existing_claim (\<lambda>k. id) rd s key w = (res, w') \<Longrightarrow>
     w' = w \<and> (res = Absent \<longrightarrow> w_claims w (idempotency_redis_key s key) = None)"
  using resolve_loop_quiet [of s key w rd "RESOLVE_MAX_ATTEMPTS - 1"]
  by (auto simp: resolve_existing_claim_def load_claimed_message_id_def split: option.splits if_splits)

text \<open>Without concurrent requests a send whose key is claimed changes nothing.\<close>

lemma send_claimed_quiet:
  assumes "send_after_replay (\<lambda>r k. id) rd up new s key ids content gate build w = (r, w')"
    and "w_claims w (idempotency_redis_key s key) \<noteq> None"
  shows "w' = w"
proof -
  let ?rd = "\<lambda>k. rd (Read_Claim CLAIM_MAX_ROUNDS k)"
  obtain res v where res: "resolve_existing_claim (\<lambda>k. id) ?rd s key w = (res, v)" by force
  then have "v = w" "res \<noteq> Absent" using resolve_quiet [OF res] assms(2) by auto
  with res assms(1) show ?thesis by (cases res) (simp_all add: send_after_replay_def)
qed

text \<open>A send either leaves the database as it was or commits its row.\<close>

lemma send_quiet_cases:
  assumes "attachments_ok (w_db w)" "m_id (build new) = new"
    and "send_after_replay (\<lambda>r k. id) rd up new s key ids content gate build w = (r, w')"
  obtains "w_db w' = w_db w"
  | media d' where "w_db w' = d'" "is_valid_content content" "sends s ids (build new) (w_db w) media d'"
proof (cases "w_claims w (idempotency_redis_key s key)")
  case (Some v)
  then show ?thesis using that(1) send_claimed_quiet [OF assms(3)] by simp
next
  case None
  from send_fresh_cases [where build = build, OF None assms(2,1,3)] show ?thesis
  proof cases
    case (3 e media d')
    then show ?thesis using that(2) [of d' media] by auto
  next
    case (4 media d')
    then show ?thesis using that(2) [of d' media] by simp
  qed (use that(1) in auto)
qed

text \<open>No send touches the claim of another, or a claim whose message is stored.\<close>

lemma send_keeps_claim:
  assumes "send_after_replay (\<lambda>r k. id) rd up new s key ids content gate build w = (r, w')"
    and "attachments_ok (w_db w)" "m_id (build new) = new"
  shows "w_clock w' = w_clock w \<and> (w_claims w k = Some v \<longrightarrow> w_claims w' k = Some v)"
proof (cases "w_claims w (idempotency_redis_key s key)")
  case (Some x)
  then show ?thesis using send_claimed_quiet [OF assms(1)] by simp
next
  case None
  from send_fresh_cases [where build = build, OF None assms(3,2,1)] show ?thesis
    by cases (auto simp: None)
qed

lemma send_keeps_media:
  assumes "sends s ids m d media d'" "get_message k d \<noteq> None"
  shows "get_message_media k d' = get_message_media k d"
proof -
  have "insert_message m d = Inr (d\<lparr>tb_messages := tb_messages d @ [m]\<rparr>)" using assms(1) by (simp add: sends_def)
  then have "m_id m \<notin> m_id ` set (tb_messages d)" by (auto simp: insert_message_def split: if_splits)
  then have "get_message (m_id m) d = None" by (simp add: get_message_def db_get_None)
  then have "k \<noteq> m_id m" using assms(2) by auto
  then have "filter (\<lambda>a. a_message_id a = Some k)
      (db_update (bindable ids s) (\<lambda>a. a\<lparr>a_message_id := Some (m_id m)\<rparr>) as) = filter (\<lambda>a. a_message_id a = Some k) as"
    for as :: "attachment list"
    by (induction "as") (auto simp: db_update_def bindable_def)
  then show ?thesis using assms(1) by (simp add: sends_def get_message_media_def)
qed

lemma get_attachment_update:
  "(\<And>a. a_id (f a) = a_id a) \<Longrightarrow> tb_attachments d' = db_update c f (tb_attachments d) \<Longrightarrow>
   get_attachment k d' = map_option (\<lambda>a. if c a then f a else a) (get_attachment k d)"
  by (simp add: get_attachment_def db_get_update)

lemma sends_evolves:
  assumes "sends s ids m d media d'" "messages_inv d" "m_sender_id m = s"
    "ck_messages_target_xor m" "ck_messages_content (m_content m)"
  shows "messages_inv d' \<and> evolves d d'"
proof
  let ?upd = "\<lambda>a. a\<lparr>a_message_id := Some (m_id m)\<rparr>"
  have ins: "insert_message m d = Inr (d\<lparr>tb_messages := tb_messages d @ [m]\<rparr>)"
    and d': "d' = d\<lparr>tb_messages := tb_messages d @ [m],
      tb_attachments := db_update (bindable ids s) ?upd (tb_attachments d)\<rparr>"
    using assms(1) by (simp_all add: sends_def)
  have new: "m_id m \<notin> m_id ` set (tb_messages d)"
    using ins by (auto simp: insert_message_def split: if_splits)
  have gm: "get_message k d' = (if k = m_id m then Some m else get_message k d)" for k
    using message_row.get_ins [OF ins, of k] by (simp add: d' get_message_def)
  have ga: "get_attachment k d' =
      map_option (\<lambda>a. if bindable ids s a then ?upd a else a) (get_attachment k d)" for k
    by (rule get_attachment_update) (simp_all add: d')
  have none: "get_message (m_id m) d = None" using new by (simp add: get_message_def db_get_None)
  show "evolves d d'"
    unfolding evolves_def gm ga
    using none by (auto simp: d' attachment_evolves_def bindable_def)
  have old: "a_message_id a \<noteq> Some (m_id m)" if "a \<in> set (tb_attachments d)" for a
    using that assms(2) none by (auto simp: messages_inv_def attachments_ok_def)
  have att: "attachments_ok d'"
    using assms(2) by (auto simp: messages_inv_def attachments_ok_def gm) (auto simp: d')
  show "messages_inv d'"
    using assms(2-5) new old att by (auto simp: messages_inv_def d' bindable_def split: if_splits)
qed

lemma load_own_message_Inr:
  "load_own_message mid u d = Inr m \<longleftrightarrow>
     get_message mid d = Some m \<and> m_sender_id m = u \<and>
     (\<forall>c. m_channel_id m = Some c \<longrightarrow> get_membership c u d \<noteq> None)"
  by (auto simp: load_own_message_def ensure_caller_can_see_message_def split: option.splits)

lemma edit_message_cases:
  assumes "edit_message up now mid u content w = (r, w')"
  obtains e where "r = Inl e" "w' = w"
  | m where "load_own_message mid u (w_db w) = Inr m" "m_deleted_at m = None" "is_valid_content content"
      "content = m_content m" "r = Inr m" "w' = w"
  | m m' d' where "load_own_message mid u (w_db w) = Inr m" "m_deleted_at m = None"
      "is_valid_content content" "content \<noteq> m_content m"
      "m' = m\<lparr>m_content := content, m_edited_at := Some now\<rparr>" "r = Inr m'"
      "d' = update_messages (\<lambda>m. m_id m = mid)
         (\<lambda>m. m\<lparr>m_content := content, m_edited_at := Some now\<rparr>) (w_db w)"
      "w' = publish_message_edited up m' (get_message_media mid d') (w\<lparr>w_db := d'\<rparr>)"
proof -
  let ?g = "and_then (load_own_message mid u (w_db w)) (\<lambda>message.
           and_then (check (m_deleted_at message = None) MessageAlreadyDeletedError) (\<lambda>_.
           and_then (check (is_valid_content content) InvalidContentError) (\<lambda>_.
           Inr message)))"
  show ?thesis
  proof (cases ?g)
    case (Inl e)
    then have "r = Inl e" "w' = w" using assms unfolding edit_message_def by simp_all
    then show ?thesis by (rule that(1))
  next
    case (Inr m)
    then have m: "load_own_message mid u (w_db w) = Inr m" "m_deleted_at m = None"
      "is_valid_content content" by auto
    show ?thesis
    proof (cases "content = m_content m")
      case True
      then have "r = Inr m" "w' = w" using assms m by (simp_all add: edit_message_def)
      then show ?thesis by (rule that(2) [OF m True])
    next
      case False
      show ?thesis
        by (rule that(3) [OF m False refl _ refl])
           (use assms m False in \<open>simp_all add: edit_message_def Let_def\<close>)
    qed
  qed
qed

lemma delete_message_cases:
  assumes "delete_message up now mid u w = (r, w')"
  obtains e where "r = Inl e" "w' = w"
  | m where "load_own_message mid u (w_db w) = Inr m" "m_deleted_at m \<noteq> None" "r = Inr m" "w' = w"
  | m m' d' where "load_own_message mid u (w_db w) = Inr m" "m_deleted_at m = None"
      "m' = m\<lparr>m_deleted_at := Some now\<rparr>" "r = Inr m'"
      "d' = update_messages (\<lambda>m. m_id m = mid) (\<lambda>m. m\<lparr>m_deleted_at := Some now\<rparr>) (w_db w)"
      "w' = publish_message_deleted up m' (w\<lparr>w_db := d'\<rparr>)"
proof (cases "load_own_message mid u (w_db w)")
  case (Inl e)
  then have "r = Inl e" "w' = w" using assms unfolding delete_message_def by simp_all
  then show ?thesis by (rule that(1))
next
  case (Inr m)
  show ?thesis
  proof (cases "m_deleted_at m = None")
    case False
    then have "r = Inr m" "w' = w" using assms Inr unfolding delete_message_def by simp_all
    then show ?thesis by (rule that(2) [OF Inr False])
  next
    case True
    show ?thesis
      by (rule that(3) [OF Inr True refl _ refl])
         (use assms Inr True in \<open>simp_all add: delete_message_def Let_def\<close>)
  qed
qed

lemma target_xor_update [simp]:
  "ck_messages_target_xor (m\<lparr>m_content := c, m_edited_at := e, m_deleted_at := x\<rparr>) \<longleftrightarrow>
   ck_messages_target_xor m"
  by (simp add: ck_messages_target_xor_def split: option.split)

lemma update_own_evolves:
  assumes "messages_inv d" "get_message mid d = Some m" "m_deleted_at m = None"
    and "f = (\<lambda>m. m\<lparr>m_content := c m, m_edited_at := e m, m_deleted_at := x m\<rparr>)"
    and "ck_messages_content (c m)"
  shows "messages_inv (update_messages (\<lambda>m. m_id m = mid) f d)
    \<and> evolves d (update_messages (\<lambda>m. m_id m = mid) f d)"
proof
  let ?d = "update_messages (\<lambda>m. m_id m = mid) f d"
  have fid: "\<And>r. m_id (f r) = m_id r" by (simp add: assms(4))
  have gm: "get_message k ?d = map_option (\<lambda>r. if m_id r = mid then f r else r) (get_message k d)" for k
    by (rule message_row.get_upd [OF fid])
  have only: "r = m" if "r \<in> set (tb_messages d)" "m_id r = mid" for r
    using message_row.get_mem [of d r] that assms(1,2) by (simp add: messages_inv_def)
  have m: "m \<in> set (tb_messages d)" "m_id m = mid"
    using message_row.get_pk [OF assms(2)] by simp_all
  have att: "get_attachment k ?d = get_attachment k d" for k
    by (simp add: get_attachment_def update_messages_def)
  have "message_evolves r (if m_id r = mid then f r else r)" if "get_message k d = Some r" for k r
  proof (cases "m_id r = mid")
    case True
    then have "r = m" using only message_row.get_pk [OF that] by blast
    then show ?thesis using assms(3) by (simp add: message_evolves_def assms(4))
  qed simp
  then show "evolves d ?d"
    by (simp add: evolves_def gm att) (simp add: update_messages_def)
  have "distinct (map m_id (tb_messages ?d))"
    using assms(1) by (simp add: messages_inv_def update_messages_def fid)
  moreover have "ck_messages_target_xor r \<and> ck_messages_content (m_content r)"
    if "r \<in> set (tb_messages ?d)" for r
  proof -
    from that obtain r0 where r0: "r0 \<in> set (tb_messages d)" "r = (if m_id r0 = mid then f r0 else r0)"
      by (auto simp: update_messages_def)
    then have ok: "ck_messages_target_xor r0" "ck_messages_content (m_content r0)"
      using assms(1) by (simp_all add: messages_inv_def)
    show ?thesis
    proof (cases "m_id r0 = mid")
      case True
      then have "r0 = m" using only r0(1) by blast
      with True r0(2) ok assms(5) show ?thesis
        by (simp add: assms(4))
    qed (use r0 ok in simp)
  qed
  moreover have "attachments_ok ?d"
    using assms(1) by (auto simp: messages_inv_def attachments_ok_def gm) (auto simp: update_messages_def)
  moreover have "a_uploader_id a = m_sender_id r"
    if "a \<in> set (tb_attachments ?d)" "r \<in> set (tb_messages ?d)" "a_message_id a = Some (m_id r)" for a r
    using that assms(1) by (auto simp: messages_inv_def update_messages_def assms(4) split: if_splits)
  ultimately show "messages_inv ?d" by (simp add: messages_inv_def)
qed

lemma edit_evolves:
  assumes "edit_message up now mid u content w = (r, w')" "messages_inv (w_db w)"
  shows "messages_inv (w_db w') \<and> evolves (w_db w) (w_db w')"
  using assms(1)
proof (cases rule: edit_message_cases)
  case (3 m m' d')
  then have "get_message mid (w_db w) = Some m" by (simp add: load_own_message_Inr)
  from update_own_evolves [OF assms(2) this 3(2),
      where c = "\<lambda>_. content" and e = "\<lambda>_. Some now" and x = m_deleted_at]
  show ?thesis using 3 valid_content_db
    by (simp add: publish_message_edited_def publish_message_event_def)
qed (use assms(2) in simp_all)

lemma delete_evolves:
  assumes "delete_message up now mid u w = (r, w')" "messages_inv (w_db w)"
  shows "messages_inv (w_db w') \<and> evolves (w_db w) (w_db w')"
  using assms(1)
proof (cases rule: delete_message_cases)
  case (3 m m' d')
  then have get: "get_message mid (w_db w) = Some m" by (simp add: load_own_message_Inr)
  then have "ck_messages_content (m_content m)"
    using assms(2) message_row.get_pk [OF get] by (simp add: messages_inv_def)
  with update_own_evolves [OF assms(2) get 3(2),
      where c = m_content and e = m_edited_at and x = "\<lambda>_. Some now"]
  show ?thesis using 3 by (simp add: publish_message_deleted_def publish_message_event_def)
qed (use assms(2) in simp_all)

inductive message_step :: "world \<Rightarrow> world \<Rightarrow> bool" where
  step_send_channel:
    "send_channel_message (\<lambda>r k. id) rd up new now c s content ids key w = (r, w') \<Longrightarrow>
     message_step w w'"
| step_send_dm:
    "send_dm_message (\<lambda>r k. id) rd up new now t s content ids key w = (r, w') \<Longrightarrow>
     message_step w w'"
| step_edit: "edit_message up now mid u content w = (r, w') \<Longrightarrow> message_step w w'"
| step_delete: "delete_message up now mid u w = (r, w') \<Longrightarrow> message_step w w'"

lemma send_evolves:
  assumes "send_after_replay (\<lambda>r k. id) rd up new s key ids content gate build w = (r, w')"
    and "messages_inv (w_db w)" "m_id (build new) = new" "m_sender_id (build new) = s"
    and "m_content (build new) = content"
  shows "messages_inv (w_db w') \<and> evolves (w_db w) (w_db w')"
proof -
  have "attachments_ok (w_db w)" using assms(2) by (simp add: messages_inv_def)
  from this assms(3,1) show ?thesis
  proof (rule send_quiet_cases)
    fix media d'
    assume *: "w_db w' = d'" "is_valid_content content" "sends s ids (build new) (w_db w) media d'"
    then have "ck_messages_target_xor (build new)"
      by (auto simp: sends_def insert_message_def split: if_splits)
    with * show ?thesis using sends_evolves [OF *(3) assms(2,4)] valid_content_db assms(5) by simp
  qed (use assms(2) in simp)
qed

lemma message_step_evolves:
  assumes "message_step w w'" "messages_inv (w_db w)"
  shows "messages_inv (w_db w') \<and> evolves (w_db w) (w_db w')"
  using assms(1)
proof cases
  case (step_send_channel rd up new now c s content ids key r)
  then show ?thesis
    unfolding send_channel_message_def by (rule send_evolves) (use assms(2) in simp_all)
next
  case (step_send_dm rd up new now t s content ids key r)
  then show ?thesis
    unfolding send_dm_message_def by (rule send_evolves) (use assms(2) in simp_all)
next
  case (step_edit up now mid u content r)
  then show ?thesis using edit_evolves assms(2) by blast
next
  case (step_delete up now mid u r)
  then show ?thesis using delete_evolves assms(2) by blast
qed

text \<open>
  C5. Along any sequence of sends, edits and deletes: no message or attachment disappears; a
  message keeps its id, author, conversation and creation time, and nothing of it changes once
  it is deleted; an attachment bound to a message stays bound to it for ever; every stored
  message has one target and valid content, and every bound attachment was uploaded by the
  author of its message.
\<close>

theorem messages_only_evolve:
  assumes "message_step\<^sup>*\<^sup>* w w'" "messages_inv (w_db w)"
  shows "messages_inv (w_db w') \<and> evolves (w_db w) (w_db w')"
  using assms
proof (induction rule: rtranclp_induct)
  case (step y z)
  then show ?case using message_step_evolves evolves_trans by blast
qed simp

subsection \<open>Retrying\<close>

text \<open>Requests, one after the other, and the passing of time.\<close>

inductive world_step :: "world \<Rightarrow> world \<Rightarrow> bool" where
  step_message: "message_step w w' \<Longrightarrow> world_step w w'"
| step_time: "world_step w (pass_time n w)"

lemma send_keeps_stored:
  assumes "send_after_replay (\<lambda>r k. id) rd up new s key ids content gate build w = (r, w')"
    and "messages_inv (w_db w)" "m_id (build new) = new"
  shows "w_clock w' = w_clock w \<and> (w_claims w k = Some v \<longrightarrow> w_claims w' k = Some v)
    \<and> (get_message i (w_db w) \<noteq> None \<longrightarrow> get_message_media i (w_db w') = get_message_media i (w_db w))"
proof -
  have att: "attachments_ok (w_db w)" using assms(2) by (simp add: messages_inv_def)
  have "get_message i (w_db w) \<noteq> None \<longrightarrow> get_message_media i (w_db w') = get_message_media i (w_db w)"
    using send_quiet_cases [where build = build, OF att assms(3,1)]
    by cases (use send_keeps_media in auto)
  then show ?thesis using send_keeps_claim [OF assms(1) att assms(3)] by blast
qed

lemma message_step_keeps:
  assumes "message_step w w'" "messages_inv (w_db w)"
  shows "w_clock w' = w_clock w \<and> (w_claims w k = Some v \<longrightarrow> w_claims w' k = Some v)
    \<and> (get_message i (w_db w) \<noteq> None \<longrightarrow> get_message_media i (w_db w') = get_message_media i (w_db w))"
  using assms(1)
proof cases
  case (step_send_channel rd up new now c s content ids key r)
  then show ?thesis
    unfolding send_channel_message_def by (rule send_keeps_stored) (use assms in simp_all)
next
  case (step_send_dm rd up new now t s content ids key r)
  then show ?thesis
    unfolding send_dm_message_def by (rule send_keeps_stored) (use assms in simp_all)
next
  case (step_edit up now mid u content r)
  then show ?thesis
    by (cases rule: edit_message_cases)
       (auto simp: publish_message_edited_def publish_message_event_def get_message_media_def update_messages_def)
next
  case (step_delete up now mid u r)
  then show ?thesis
    by (cases rule: delete_message_cases)
       (auto simp: publish_message_deleted_def publish_message_event_def get_message_media_def update_messages_def)
qed

text \<open>What a claim of a stored message keeps until its time has come.\<close>

definition claim_kept :: "pystr \<Rightarrow> int \<Rightarrow> message \<Rightarrow> attachment list \<Rightarrow> world \<Rightarrow> bool" where
  "claim_kept k expires m media w \<longleftrightarrow>
     messages_inv (w_db w) \<and> (w_clock w < expires \<longrightarrow> w_claims w k = Some (py (uuid_str (m_id m)), expires)) \<and>
     get_message_media (m_id m) (w_db w) = media \<and>
     (\<exists>m'. get_message (m_id m) (w_db w) = Some m' \<and> message_evolves m m')"

lemma claim_kept_step:
  assumes "world_step w w'" "claim_kept k expires m media w"
  shows "claim_kept k expires m media w'"
  using assms(1)
proof cases
  case step_message
  obtain m1 where m1: "get_message (m_id m) (w_db w) = Some m1" "message_evolves m m1"
    and inv: "messages_inv (w_db w)" using assms(2) by (auto simp: claim_kept_def)
  have "messages_inv (w_db w')" and ev: "evolves (w_db w) (w_db w')"
    using message_step_evolves [OF step_message inv] by simp_all
  moreover obtain m2 where "get_message (m_id m) (w_db w') = Some m2" "message_evolves m1 m2"
    using ev m1(1) unfolding evolves_def by meson
  ultimately show ?thesis
    using assms(2) message_step_keeps [OF step_message inv] m1 message_evolves_trans [OF m1(2)]
    by (auto simp: claim_kept_def)
next
  case (step_time n)
  with assms(2) show ?thesis by (auto simp: claim_kept_def pass_time_def claims_at_def Let_def)
qed

lemma committed_claim_kept:
  assumes "committed_send up s key ids topic m w res w'" "messages_inv (w_db w')"
  shows "claim_kept (idempotency_redis_key s key) (w_clock w + IDEMPOTENCY_TTL_SECONDS) m (sr_media res) w'"
proof -
  have "sends s ids m (w_db w) (sr_media res) (w_db w')" using assms(1) by (simp add: committed_send_def)
  with sends_stored [OF this] show ?thesis
    using assms by (simp add: claim_kept_def committed_send_def sends_def)
qed

text \<open>
  C19. Retrying is safe for 24 hours: after a committed send, whatever sends, edits and deletes of anyone
  follow one after the other, a send by the same user with the same idempotency key less than 24
  hours (of Redis's clock) after the claim, to any conversation, with any content and media,
  returns the original message with its media as they then are (edited or deleted since,
  perhaps), marked as not created, and changes nothing: no row, no claim, no event.  Redis
  keeps the key until it expires; its first answer to the retry arrives.
\<close>

theorem send_replay_returns_original:
  assumes "committed_send up s key ids topic m w res w'" "messages_inv (w_db w')"
    and "world_step\<^sup>*\<^sup>* w' v" "w_clock v < w_clock w + IDEMPOTENCY_TTL_SECONDS" "rd first_read = Answered"
  shows "\<exists>m'. get_message (m_id m) (w_db v) = Some m' \<and> message_evolves m m'
    \<and> send_channel_message env rd up' new' now' c s content ids' key v =
        (Inr \<lparr>sr_message = m', sr_media = sr_media res, sr_created = False\<rparr>, v)
    \<and> send_dm_message env rd up' new' now' t s content ids' key v =
        (Inr \<lparr>sr_message = m', sr_media = sr_media res, sr_created = False\<rparr>, v)"
proof -
  have "claim_kept (idempotency_redis_key s key) (w_clock w + IDEMPOTENCY_TTL_SECONDS) m (sr_media res) v"
    using assms(3) committed_claim_kept [OF assms(1,2)]
    by (induction rule: rtranclp_induct) (blast intro: claim_kept_step)+
  then obtain m' where m': "get_message (m_id m) (w_db v) = Some m'" "message_evolves m m'"
    and "w_claims v (idempotency_redis_key s key) = Some (py (uuid_str (m_id m)), w_clock w + IDEMPOTENCY_TTL_SECONDS)"
    and "get_message_media (m_id m) (w_db v) = sr_media res"
    using assms(4) by (auto simp: claim_kept_def)
  then show ?thesis
    using replay_of_claim [where rd = rd, OF _ m'(1) assms(5)]
    by (simp add: send_channel_message_def send_dm_message_def)
qed

text \<open>After 24 hours the key is free again.\<close>

lemma claim_expires:
  "committed_send up s key ids topic m w res w' \<Longrightarrow> IDEMPOTENCY_TTL_SECONDS \<le> int n \<Longrightarrow>
   w_claims (pass_time n w') (idempotency_redis_key s key) = None"
  by (simp add: committed_send_def pass_time_def claims_at_def Let_def)

subsection \<open>Histories\<close>

definition messages_ok :: "database \<Rightarrow> bool" where
  "messages_ok d \<longleftrightarrow> distinct (map m_id (tb_messages d)) \<and>
     (\<forall>m\<in>set (tb_messages d). valid_datetime (m_created_at m))"

lemma distinct_message_keys:
  assumes "messages_ok d"
  shows "distinct (map message_key (filter P (tb_messages d)))"
proof -
  have "distinct (map (ck_id \<circ> message_key) (filter P (tb_messages d)))"
    using assms by (simp add: messages_ok_def message_key_def comp_def distinct_map_filter)
  then show ?thesis by (metis distinct_map map_map)
qed

interpretation channel_history: keyset_source
  "\<lambda>d limit c. get_channel_message_history channel_id limit c d" "channel_rows channel_id"
  message_key messages_ok for channel_id
proof
  show "messages_ok d \<Longrightarrow> distinct (map message_key (channel_rows channel_id d))" for d channel_id
    unfolding channel_rows_def by (rule distinct_message_keys)
  show "valid_datetime (ck_created_at (message_key r))"
    if "messages_ok d" "r \<in> set (channel_rows channel_id d)" for d r channel_id
    using that by (auto simp: channel_rows_def message_key_def messages_ok_def)
qed (simp add: get_channel_message_history_def keyset_page_def)

interpretation dm_history: keyset_source
  "\<lambda>d limit c. get_dm_message_history caller other limit c d" "dm_rows caller other"
  message_key messages_ok for caller other
proof
  show "messages_ok d \<Longrightarrow> distinct (map message_key (dm_rows caller other d))" for d caller other
    unfolding dm_rows_def case_prod_beta by (rule distinct_message_keys)
  show "valid_datetime (ck_created_at (message_key r))"
    if "messages_ok d" "r \<in> set (dm_rows caller other d)" for d r caller other
    using that by (auto simp: dm_rows_def message_key_def messages_ok_def)
qed (simp add: get_dm_message_history_def keyset_page_def)

lemma dm_rows_iff:
  "m \<in> set (dm_rows a b d) \<longleftrightarrow>
     m \<in> set (tb_messages d) \<and> m_deleted_at m = None \<and>
     (\<exists>r. m_recipient_id m = Some r \<and> {m_sender_id m, r} = {a, b})"
proof -
  have pair: "min s r = fst p \<and> max s r = snd p \<longleftrightarrow> dm_pair s r = p" for s r p
    by (cases p) (auto simp: dm_pair_def min_def max_def)
  show ?thesis
    by (simp add: dm_rows_def case_prod_beta pair dm_pair_eq_iff split: option.split)
qed

text \<open>
  C14. Walking a channel's history with the returned cursors yields exactly the channel's
  messages that are not deleted, newest first, each once; and the batch query attaches to each
  exactly its own media, in upload order.
\<close>

theorem channel_history_walk:
  assumes "messages_ok d" "1 \<le> limit" "length (tb_messages d) < fuel"
  shows "\<exists>ms. walk_pages (\<lambda>k. get_channel_message_history c limit k d) fuel None = Some ms
    \<and> newest_first message_key ms
    \<and> (\<forall>m. m \<in> set ms \<longleftrightarrow>
        m \<in> set (tb_messages d) \<and> m_channel_id m = Some c \<and> m_deleted_at m = None)
    \<and> (\<forall>m\<in>set ms. get_media_for_messages (map m_id ms) d (m_id m) =
        Some (get_message_media (m_id m) d))"
proof -
  have "length (channel_rows c d) < fuel"
    using assms(3) le_less_trans [OF length_filter_le] by (simp add: channel_rows_def)
  from channel_history.walk_visits_once [OF assms(1,2) this] obtain ms where ms:
    "walk_pages (\<lambda>k. get_channel_message_history c limit k d) fuel None = Some ms"
    "mset ms = mset (channel_rows c d)" "newest_first message_key ms" by blast
  have set: "set ms = set (channel_rows c d)" using ms(2) by (metis set_mset_mset)
  have "get_media_for_messages (map m_id ms) d (m_id m) = Some (get_message_media (m_id m) d)"
    if "m \<in> set ms" for m
    by (rule batch_media) (use that in simp)
  with ms set show ?thesis by (auto simp: channel_rows_def)
qed

text \<open>
  Walking a direct conversation's history yields exactly the messages between the two
  users that are not deleted, newest first, each once, and both participants get the same pages.
\<close>

theorem dm_history_walk:
  assumes "messages_ok d" "1 \<le> limit" "length (tb_messages d) < fuel"
  shows "\<exists>ms. walk_pages (\<lambda>k. get_dm_message_history a b limit k d) fuel None = Some ms
    \<and> newest_first message_key ms
    \<and> (\<forall>m. m \<in> set ms \<longleftrightarrow> m \<in> set (tb_messages d) \<and> m_deleted_at m = None \<and>
        (m_sender_id m = a \<and> m_recipient_id m = Some b \<or> m_sender_id m = b \<and> m_recipient_id m = Some a))
    \<and> (\<forall>l k. get_dm_message_history b a l k d = get_dm_message_history a b l k d)"
proof -
  have "length (dm_rows a b d) < fuel"
    using assms(3) le_less_trans [OF length_filter_le] by (simp add: dm_rows_def case_prod_beta)
  from dm_history.walk_visits_once [OF assms(1,2) this] obtain ms where ms:
    "walk_pages (\<lambda>k. get_dm_message_history a b limit k d) fuel None = Some ms"
    "mset ms = mset (dm_rows a b d)" "newest_first message_key ms" by blast
  have "set ms = set (dm_rows a b d)" using ms(2) by (metis set_mset_mset)
  moreover have "get_dm_message_history b a l k d = get_dm_message_history a b l k d" for l k
    by (simp add: get_dm_message_history_def dm_rows_def dm_pair_commute [of b a])
  ultimately show ?thesis using ms by (auto simp: dm_rows_iff doubleton_eq_iff)
qed

subsection \<open>Editing and deleting\<close>

text \<open>
  A successful delete is the author's, leaves the row in place marked as deleted, touches
  no other row and is announced once; afterwards the message is in no history, deleting it
  again succeeds without another event or change, and editing it is refused for ever.
\<close>

theorem delete_message_is_final:
  assumes "delete_message up now mid u w = (Inr m', w')" "messages_inv (w_db w)"
  shows "m_sender_id m' = u \<and> m_deleted_at m' \<noteq> None
    \<and> (\<forall>k. get_message k (w_db w') = (if k = mid then Some m' else get_message k (w_db w)))
    \<and> w_published w' = w_published w @
        (if up \<and> get_message mid (w_db w) \<noteq> Some m' then [(topic_for m', build_deleted_event m')] else [])
    \<and> m' \<notin> set (channel_rows c (w_db w')) \<and> m' \<notin> set (dm_rows a b (w_db w'))
    \<and> delete_message up2 now2 mid u w' = (Inr m', w')
    \<and> edit_message up2 now2 mid u content w' = (Inl MessageAlreadyDeletedError, w')"
  using assms(1)
proof (cases rule: delete_message_cases)
  case (1 e)
  then show ?thesis by simp
next
  case (2 m)
  then have load: "load_own_message mid u (w_db w) = Inr m'" "w' = w" "m_deleted_at m' \<noteq> None" by simp_all
  then have "m_sender_id m' = u" "get_message mid (w_db w) = Some m'" by (simp_all add: load_own_message_Inr)
  moreover have "delete_message up2 now2 mid u w' = (Inr m', w')"
    "edit_message up2 now2 mid u content w' = (Inl MessageAlreadyDeletedError, w')"
    using load by (auto simp: delete_message_def edit_message_def)
  ultimately show ?thesis using load by (auto simp: channel_rows_def dm_rows_iff)
next
  case (3 m n d')
  let ?mark = "\<lambda>m. m\<lparr>m_deleted_at := Some now\<rparr>"
  have m': "m' = ?mark m" using 3 by simp
  have w': "w_db w' = d'" "w_published w' = w_published w @
      (if up then [(topic_for m', build_deleted_event m')] else [])"
    using 3 by (simp_all add: publish_message_deleted_def publish_message_event_def redis_fail_open_def)
  have get: "get_message mid (w_db w) = Some m" "m_sender_id m = u" "m_id m = mid"
    "\<forall>c. m_channel_id m = Some c \<longrightarrow> get_membership c u (w_db w) \<noteq> None"
    using 3(1) message_row.get_pk [of mid "w_db w" m] by (auto simp: load_own_message_Inr)
  have gm: "get_message k d' = map_option (\<lambda>r. if m_id r = mid then ?mark r else r) (get_message k (w_db w))" for k
    unfolding 3(5) by (rule message_row.get_upd) simp
  have after: "get_message k d' = (if k = mid then Some m' else get_message k (w_db w))" for k
  proof (cases "k = mid")
    case False
    then show ?thesis
      by (cases "get_message k (w_db w)") (auto simp: gm dest: message_row.get_pk)
  qed (simp add: gm get m')
  have mem: "get_membership c v d' = get_membership c v (w_db w)" for c v
    by (simp add: 3(5) update_messages_def get_membership_def get_member_def)
  have load: "load_own_message mid u d' = Inr m'"
    using get after mem by (simp add: load_own_message_Inr m')
  have "m' \<noteq> m" using 3(2) m' by (metis message.select_convs(8) message.surjective message.update_convs(8) option.distinct(1))
  moreover have "delete_message up2 now2 mid u w' = (Inr m', w')"
    "edit_message up2 now2 mid u content w' = (Inl MessageAlreadyDeletedError, w')"
    using load w'(1) m' by (simp_all add: delete_message_def edit_message_def)
  ultimately show ?thesis
    using w' get m' after by (auto simp: channel_rows_def dm_rows_iff)
qed

text \<open>
  An edit is the author's own and changes the text of one message that is not deleted: the
  new content is valid, the row keeps everything else but \<open>edited_at\<close>, no other row changes, and
  the event (with the row and its media) goes out exactly if the text differs; editing to the
  same text again changes nothing.
\<close>

theorem edit_message_effect:
  assumes "edit_message up now mid u content w = (Inr m', w')"
  shows "m_sender_id m' = u \<and> m_content m' = content \<and> m_deleted_at m' = None \<and> is_valid_content content
    \<and> (\<exists>m. get_message mid (w_db w) = Some m \<and> m_edited_at m' = (if content = m_content m then m_edited_at m else Some now)
        \<and> m' = m\<lparr>m_content := content, m_edited_at := m_edited_at m'\<rparr>
        \<and> w_published w' = w_published w @
            (if up \<and> content \<noteq> m_content m
             then [(topic_for m', build_edited_event m' (get_message_media mid (w_db w')))] else []))
    \<and> (\<forall>k. get_message k (w_db w') = (if k = mid then Some m' else get_message k (w_db w)))
    \<and> tb_attachments (w_db w') = tb_attachments (w_db w) \<and> w_claims w' = w_claims w
    \<and> edit_message up2 now2 mid u content w' = (Inr m', w')"
  using assms
proof (cases rule: edit_message_cases)
  case (1 e)
  then show ?thesis by simp
next
  case (2 m)
  then have "get_message mid (w_db w) = Some m'" "m_sender_id m' = u" "w' = w" "m' = m"
    by (simp_all add: load_own_message_Inr)
  moreover have "edit_message up2 now2 mid u content w' = (Inr m', w')"
    using 2 by (simp add: edit_message_def)
  ultimately show ?thesis using 2 by auto
next
  case (3 m n d')
  let ?edit = "\<lambda>m. m\<lparr>m_content := content, m_edited_at := Some now\<rparr>"
  have m': "m' = ?edit m" using 3 by simp
  have w': "w_db w' = d'" "w_claims w' = w_claims w" "w_published w' = w_published w @
      (if up then [(topic_for m', build_edited_event m' (get_message_media mid d'))] else [])"
    using 3 by (simp_all add: publish_message_edited_def publish_message_event_def redis_fail_open_def)
  have get: "get_message mid (w_db w) = Some m" "m_sender_id m = u" "m_id m = mid"
    "\<forall>c. m_channel_id m = Some c \<longrightarrow> get_membership c u (w_db w) \<noteq> None"
    using 3(1) message_row.get_pk [of mid "w_db w" m] by (auto simp: load_own_message_Inr)
  have gm: "get_message k d' = map_option (\<lambda>r. if m_id r = mid then ?edit r else r) (get_message k (w_db w))" for k
    unfolding 3(7) by (rule message_row.get_upd) simp
  have after: "get_message k d' = (if k = mid then Some m' else get_message k (w_db w))" for k
  proof (cases "k = mid")
    case False
    then show ?thesis
      by (cases "get_message k (w_db w)") (auto simp: gm dest: message_row.get_pk)
  qed (simp add: gm get m')
  have mem: "get_membership c v d' = get_membership c v (w_db w)" "tb_attachments d' = tb_attachments (w_db w)"
    for c v by (simp_all add: 3(7) update_messages_def get_membership_def get_member_def)
  have "load_own_message mid u d' = Inr m'" using get after mem by (simp add: load_own_message_Inr m')
  then have "edit_message up2 now2 mid u content w' = (Inr m', w')"
    using w'(1) m' 3(2,3) by (simp add: edit_message_def)
  then show ?thesis using w' get m' after mem 3 by auto
qed

text \<open>
  Editing or deleting answers \<open>MessageNotFoundError\<close> alike for a missing message and for a
  message of a channel the caller is not in, but a direct message discloses itself: a user who
  is neither its author nor its recipient gets \<open>NotMessageAuthorError\<close>, not \<open>MessageNotFoundError\<close>.
\<close>

theorem message_visibility_gate:
  assumes "get_message mid (w_db w) = Some m" "m_sender_id m \<noteq> u" "get_message mid' (w_db w) = None"
  shows "edit_message up now mid' u content w = (Inl MessageNotFoundError, w)
    \<and> delete_message up now mid' u w = (Inl MessageNotFoundError, w)
    \<and> (case m_channel_id m of
         Some c \<Rightarrow>
           (let e = if get_membership c u (w_db w) = None then MessageNotFoundError else NotMessageAuthorError
            in edit_message up now mid u content w = (Inl e, w) \<and> delete_message up now mid u w = (Inl e, w))
       | None \<Rightarrow> edit_message up now mid u content w = (Inl NotMessageAuthorError, w)
                \<and> delete_message up now mid u w = (Inl NotMessageAuthorError, w))"
  using assms
  by (auto simp: edit_message_def delete_message_def load_own_message_def
      ensure_caller_can_see_message_def split: option.splits)

text \<open>
  The content check is never weaker than the database constraint, but weaker than its
  description: a text of zero-width spaces only (U+200B) is accepted, as is every text with one
  code point that \<open>str.isspace\<close> rejects and at most 4000 code points.
\<close>

theorem content_check_strength:
  "(is_valid_content content \<longrightarrow> ck_messages_content content)
   \<and> (is_valid_content content \<longleftrightarrow> length content \<le> 4000 \<and> (\<exists>c\<in>set content. \<not> py_isspace c))
   \<and> is_valid_content [8203]"
  using valid_content_db
  by (auto simp: is_valid_content_def py_strip_def CONTENT_MAX_LENGTH_def py_isspace_def)

lemma content_check_strength_witness: "ck_messages_content [8203]"
  using content_check_strength by blast

subsection \<open>Witnesses\<close>

definition demo_world :: world where
  "demo_world = \<lparr>w_db = demo_db, w_claims = Map.empty, w_clock = 0, w_published = []\<rparr>"

text \<open>User 1 wrote message 20 to channel 10; user 2 wrote message 21 to user 3.\<close>

definition demo_message :: message where
  "demo_message = channel_message 20 7 10 1 (py ''hello'')"

definition demo_dm :: message where
  "demo_dm = dm_message 21 8 3 2 (py ''psst'')"

definition demo_chat :: world where
  "demo_chat = demo_world\<lparr>w_db := demo_db\<lparr>tb_messages := [demo_message, demo_dm]\<rparr>\<rparr>"

lemmas demo_message_defs = demo_message_def demo_dm_def channel_message_def dm_message_def

lemma demo_world_simps [simp]:
  "w_db demo_world = demo_db" "w_claims demo_world = Map.empty" "w_clock demo_world = 0" "attachments_ok demo_db"
  "tb_messages demo_db = []" "tb_attachments demo_db = []"
  by (simp_all add: demo_world_def attachments_ok_def demo_db_def empty_db_def)

lemma demo_chat_simps [simp]:
  "w_db demo_chat = demo_db\<lparr>tb_messages := [demo_message, demo_dm]\<rparr>"
  "get_message 20 (demo_db\<lparr>tb_messages := [demo_message, demo_dm]\<rparr>) = Some demo_message"
  "get_message 21 (demo_db\<lparr>tb_messages := [demo_message, demo_dm]\<rparr>) = Some demo_dm"
  "get_message 99 (demo_db\<lparr>tb_messages := [demo_message, demo_dm]\<rparr>) = None"
  by (simp_all add: demo_chat_def get_message_def db_get_def demo_message_defs)

lemma demo_chat_membership [simp]:
  "get_membership c u (demo_db\<lparr>tb_messages := ms\<rparr>) = get_membership c u demo_db"
  by (simp add: get_membership_def get_member_def)

lemma valid_demo_content: "is_valid_content (py ''hello'')" "is_valid_content (py ''hi'')"
  by (simp_all add: is_valid_content_def CONTENT_MAX_LENGTH_def py_strip_def py_isspace_def)

lemma demo_chat_inv: "messages_inv (w_db demo_chat)"
  by (simp add: messages_inv_def attachments_ok_def demo_message_defs ck_messages_target_xor_def
      ck_messages_content_def btrim_def)

lemma demo_chat_ok: "messages_ok (w_db demo_chat)"
  by (simp add: messages_ok_def demo_message_defs valid_datetime_def datetime_min_def datetime_max_def)

lemma send_channel_message_outcome_witness:
  "case send_channel_message (\<lambda>r k. id) (\<lambda>call. Answered) True 20 7 10 1 (py ''hello'') [] (py ''k'') demo_world of
     (r, w') \<Rightarrow> (\<exists>e. r = Inl e) \<and> w' = demo_world \<or> (\<exists>res. r = Inr res \<and> get_membership 10 1 demo_db \<noteq> None \<and>
       committed_send True 1 (py ''k'') [] (channel_topic 10) (channel_message 20 7 10 1 (py ''hello'')) demo_world res w')"
  using send_channel_message_outcome [where w = demo_world and env = "\<lambda>r k. id" and rd = "\<lambda>call. Answered"
      and up = True and new = 20 and now = 7 and c = 10 and s = 1 and content = "py ''hello''" and ids = "[]" and key = "py ''k''"]
  by (auto simp: Let_def failed_send_def split: prod.splits sum.splits)

lemma send_dm_message_outcome_witness:
  "case send_dm_message (\<lambda>r k. id) (\<lambda>call. Answered) True 21 8 3 2 (py ''hi'') [] (py ''k'') demo_world of
     (r, w') \<Rightarrow> (\<exists>e. r = Inl e) \<and> w' = demo_world \<or> (\<exists>res. r = Inr res \<and>
       committed_send True 2 (py ''k'') [] (dm_topic 2 3) (dm_message 21 8 3 2 (py ''hi'')) demo_world res w')"
  using send_dm_message_outcome [where w = demo_world and env = "\<lambda>r k. id" and rd = "\<lambda>call. Answered"
      and up = True and new = 21 and now = 8 and t = 3 and s = 2 and content = "py ''hi''" and ids = "[]" and key = "py ''k''"]
  by (auto simp: Let_def failed_send_def split: prod.splits sum.splits)

definition demo_sent :: world where
  "demo_sent = demo_world\<lparr>w_db := demo_db\<lparr>tb_messages := [demo_message]\<rparr>,
     w_claims := [idempotency_redis_key 1 (py ''k'') \<mapsto> (py (uuid_str 20), IDEMPOTENCY_TTL_SECONDS)],
     w_published := [(channel_topic 10, build_created_event demo_message [])]\<rparr>"

definition demo_result :: send_result where
  "demo_result = \<lparr>sr_message = demo_message, sr_media = [], sr_created = True\<rparr>"

lemma demo_committed:
  "committed_send True 1 (py ''k'') [] (channel_topic 10) demo_message demo_world demo_result demo_sent"
proof -
  have "insert_message demo_message demo_db = Inr (demo_db\<lparr>tb_messages := [demo_message]\<rparr>)"
    by (simp add: insert_message_def demo_message_defs ck_messages_target_xor_def
        ck_messages_content_def btrim_def) (simp add: demo_defs)
  moreover have "get_message_media 20 (demo_db\<lparr>tb_messages := [demo_message]\<rparr>) = []"
    by (simp add: get_message_media_def)
  moreover have "m_id demo_message = 20" by (simp add: demo_message_defs)
  moreover have "demo_db\<lparr>tb_attachments := []\<rparr> = demo_db" by (simp add: demo_db_def empty_db_def)
  ultimately show ?thesis
    by (simp add: committed_send_def sends_def demo_sent_def demo_result_def db_update_def claimed_def)
       (simp add: demo_db_def empty_db_def demo_world_def)
qed

text \<open>Ten hours later, the message having been deleted.\<close>

lemma send_replay_returns_original_witness:
  "\<exists>m'. message_evolves demo_message m' \<and>
     send_dm_message (\<lambda>r k. id) (\<lambda>call. Answered) True 22 9 3 1 (py ''other'') [5] (py ''k'')
       (pass_time 36000 (snd (delete_message True 9 20 1 demo_sent))) =
     (Inr \<lparr>sr_message = m', sr_media = [], sr_created = False\<rparr>,
      pass_time 36000 (snd (delete_message True 9 20 1 demo_sent)))"
proof -
  let ?v = "snd (delete_message True 9 20 1 demo_sent)"
  have inv: "messages_inv (w_db demo_sent)"
    by (simp add: messages_inv_def attachments_ok_def demo_sent_def demo_message_defs ck_messages_target_xor_def
        ck_messages_content_def btrim_def)
  have step: "message_step demo_sent ?v" by (rule step_delete [OF prod.collapse [symmetric]])
  have "world_step\<^sup>*\<^sup>* demo_sent ?v" using step_message [OF step] by (rule r_into_rtranclp [of world_step])
  then have run: "world_step\<^sup>*\<^sup>* demo_sent (pass_time 36000 ?v)"
    by (rule rtranclp.rtrancl_into_rtrancl) (rule step_time)
  have "w_clock ?v = 0" using message_step_keeps [OF step inv] by (simp add: demo_sent_def)
  then have "w_clock (pass_time 36000 ?v) < w_clock demo_world + IDEMPOTENCY_TTL_SECONDS"
    by (simp add: pass_time_def IDEMPOTENCY_TTL_SECONDS_def Let_def)
  from send_replay_returns_original [OF demo_committed inv run this, where rd = "\<lambda>call. Answered" and
      env = "\<lambda>r k. id" and up' = True and new' = 22 and now' = 9 and t = 3 and content = "py ''other''" and ids' = "[5]"]
  obtain m' where "message_evolves demo_message m'"
    "send_dm_message (\<lambda>r k. id) (\<lambda>call. Answered) True 22 9 3 1 (py ''other'') [5] (py ''k'') (pass_time 36000 ?v) =
       (Inr \<lparr>sr_message = m', sr_media = sr_media demo_result, sr_created = False\<rparr>, pass_time 36000 ?v)"
    by blast
  then show ?thesis by (auto simp: demo_result_def)
qed

lemma messages_only_evolve_witness:
  "messages_inv (w_db (snd (delete_message True 9 20 1 demo_chat)))
   \<and> evolves (w_db demo_chat) (w_db (snd (delete_message True 9 20 1 demo_chat)))"
proof (rule messages_only_evolve [OF _ demo_chat_inv])
  have "message_step demo_chat (snd (delete_message True 9 20 1 demo_chat))"
    by (rule step_delete [OF prod.collapse [symmetric]])
  then show "message_step\<^sup>*\<^sup>* demo_chat (snd (delete_message True 9 20 1 demo_chat))" by blast
qed

lemma channel_history_walk_witness:
  "\<exists>ms. walk_pages (\<lambda>k. get_channel_message_history 10 1 k (w_db demo_chat)) 3 None = Some ms
     \<and> (\<forall>m. m \<in> set ms \<longleftrightarrow>
        m \<in> set (tb_messages (w_db demo_chat)) \<and> m_channel_id m = Some 10 \<and> m_deleted_at m = None)"
  using channel_history_walk [OF demo_chat_ok, of 1 3 10] by auto

lemma dm_history_walk_witness:
  "\<exists>ms. walk_pages (\<lambda>k. get_dm_message_history 2 3 1 k (w_db demo_chat)) 3 None = Some ms
     \<and> newest_first message_key ms"
  using dm_history_walk [OF demo_chat_ok, of 1 3 2 3] by auto

lemma demo_delete:
  "fst (delete_message True 9 20 1 demo_chat) = Inr (demo_message\<lparr>m_deleted_at := Some 9\<rparr>)"
proof -
  have "load_own_message 20 1 (w_db demo_chat) = Inr demo_message"
    by (simp add: load_own_message_Inr demo_get_membership) (simp add: demo_message_defs)
  moreover have "m_deleted_at demo_message = None" by (simp add: demo_message_defs)
  ultimately show ?thesis by (simp add: delete_message_def Let_def)
qed

lemma delete_message_is_final_witness:
  "edit_message True 10 20 1 (py ''x'') (snd (delete_message True 9 20 1 demo_chat)) =
     (Inl MessageAlreadyDeletedError, snd (delete_message True 9 20 1 demo_chat))"
proof -
  have "delete_message True 9 20 1 demo_chat =
      (Inr (demo_message\<lparr>m_deleted_at := Some 9\<rparr>), snd (delete_message True 9 20 1 demo_chat))"
    using demo_delete by (metis prod.collapse)
  from delete_message_is_final [OF this demo_chat_inv] show ?thesis by blast
qed

lemma edit_message_effect_witness:
  "\<exists>w'. edit_message True 9 20 1 (py ''hi'') demo_chat =
     (Inr (demo_message\<lparr>m_content := py ''hi'', m_edited_at := Some 9\<rparr>), w')
   \<and> edit_message True 10 20 1 (py ''hi'') w' =
     (Inr (demo_message\<lparr>m_content := py ''hi'', m_edited_at := Some 9\<rparr>), w')"
proof -
  have "load_own_message 20 1 (w_db demo_chat) = Inr demo_message"
    by (simp add: load_own_message_Inr demo_get_membership) (simp add: demo_message_defs)
  moreover have "m_deleted_at demo_message = None" "py ''hi'' \<noteq> m_content demo_message"
    by (simp_all add: demo_message_defs)
  ultimately obtain w' where e: "edit_message True 9 20 1 (py ''hi'') demo_chat =
      (Inr (demo_message\<lparr>m_content := py ''hi'', m_edited_at := Some 9\<rparr>), w')"
    using valid_demo_content(2) by (simp add: edit_message_def Let_def)
  from edit_message_effect [OF e] have "edit_message True 10 20 1 (py ''hi'') w' =
     (Inr (demo_message\<lparr>m_content := py ''hi'', m_edited_at := Some 9\<rparr>), w')" by blast
  with e show ?thesis by blast
qed

lemma message_visibility_gate_witness:
  "edit_message True 9 99 1 (py ''x'') demo_chat = (Inl MessageNotFoundError, demo_chat)
   \<and> edit_message True 9 21 1 (py ''x'') demo_chat = (Inl NotMessageAuthorError, demo_chat)"
proof -
  have "m_sender_id demo_dm \<noteq> 1" "m_channel_id demo_dm = None" by (simp_all add: demo_message_defs)
  then show ?thesis
    using message_visibility_gate [of 21 demo_chat demo_dm 1 99 True 9 "py ''x''"] by simp
qed

end
