(* ===== verification/Message_Api.thy ===== *)
theory Message_Api
  imports Messages
begin

text \<open>
  The message routes (\<^verbatim>\<open>app/api/messages.py\<close>) and the message schema
  (\<^verbatim>\<open>app/schemas/messages.py\<close>): header and query parsing, the gates and the mapping of the
  service's errors to statuses.  The rate-limit dependency has already run.
\<close>

record media_descriptor =
  md_media_id :: uuid
  md_kind :: string
  md_filename :: pystr
  md_size :: int

definition from_attachment :: "attachment \<Rightarrow> media_descriptor" where
  "from_attachment a =
     \<lparr>md_media_id = a_id a, md_kind = kind_value (a_kind a), md_filename = a_filename a,
      md_size = a_byte_size a\<rparr>"

record message_object =
  mo_id :: uuid
  mo_channel_id :: "uuid option"
  mo_recipient_id :: "uuid option"
  mo_sender_id :: uuid
  mo_content :: pystr
  mo_media :: "media_descriptor list"
  mo_created_at :: datetime
  mo_edited_at :: "datetime option"
  mo_deleted_at :: "datetime option"

definition from_message :: "message \<Rightarrow> attachment list \<Rightarrow> message_object" where
  "from_message m media =
     \<lparr>mo_id = m_id m, mo_channel_id = m_channel_id m, mo_recipient_id = m_recipient_id m,
      mo_sender_id = m_sender_id m, mo_content = m_content m,
      mo_media = map from_attachment media, mo_created_at = m_created_at m,
      mo_edited_at = m_edited_at m, mo_deleted_at = m_deleted_at m\<rparr>"

text \<open>A route answers with a status and a body, a problem, or lets an exception escape.\<close>

datatype 'b message_response =
    MsgResponse int 'b
  | MsgProblem int string
  | MsgUnhandled message_error

definition parse_idempotency_key :: "pystr option \<Rightarrow> (int \<times> string) + pystr" where
  "parse_idempotency_key raw =
     (case raw of
        None \<Rightarrow> Inl (400, ''Idempotency-Key header must be a valid UUID.'')
      | Some text \<Rightarrow>
          (case parse_uuid text of
             None \<Rightarrow> Inl (400, ''Idempotency-Key header must be a valid UUID.'')
           | Some u \<Rightarrow> Inr (py (uuid_str u))))"

definition parse_limit :: "pystr option \<Rightarrow> (int \<times> string) + int" where
  "parse_limit raw =
     (case raw of
        None \<Rightarrow> (case resolve_limit None of Inl (PaginationError f d) \<Rightarrow> Inl (400, d) | Inr l \<Rightarrow> Inr l)
      | Some text \<Rightarrow>
          (case py_int 10 text of
             None \<Rightarrow> Inl (400, ''limit must be a positive integer.'')
           | Some v \<Rightarrow>
               (case resolve_limit (Some v) of
                  Inl (PaginationError f d) \<Rightarrow> Inl (400, d)
                | Inr l \<Rightarrow> Inr l)))"

definition parse_cursor :: "pystr option \<Rightarrow> (int \<times> string) + cursor_key option" where
  "parse_cursor raw =
     (case raw of
        None \<Rightarrow> Inr None
      | Some token \<Rightarrow>
          (case decode_cursor token of
             Inl (PaginationError f d) \<Rightarrow> Inl (400, d)
           | Inr k \<Rightarrow> Inr (Some k)))"

text \<open>The \<open>503\<close> carries \<open>Retry-After: 1\<close>.\<close>

fun channel_send_problem :: "message_error \<Rightarrow> 'b message_response" where
  "channel_send_problem ChannelNotFoundError = MsgProblem 404 ''No such channel.''"
| "channel_send_problem NotChannelMemberError =
     MsgProblem 403 ''You are not a member of this channel.''"
| "channel_send_problem InvalidContentError =
     MsgProblem 422 ''content must be 1-4000 non-whitespace characters.''"
| "channel_send_problem InvalidMediaError =
     MsgProblem 422 ''One or more media_ids are unusable by this sender.''"
| "channel_send_problem IdempotencyResolutionTimeoutError =
     MsgProblem 503 ''Could not confirm this send in time; retry with the same Idempotency-Key.''"
| "channel_send_problem e = MsgUnhandled e"

fun dm_send_problem :: "message_error \<Rightarrow> 'b message_response" where
  "dm_send_problem SelfDMError = MsgProblem 422 ''You cannot send a DM to yourself.''"
| "dm_send_problem RecipientNotFoundError =
     MsgProblem 404 ''Recipient does not exist or is inactive.''"
| "dm_send_problem InvalidContentError =
     MsgProblem 422 ''content must be 1-4000 non-whitespace characters.''"
| "dm_send_problem InvalidMediaError =
     MsgProblem 422 ''One or more media_ids are unusable by this sender.''"
| "dm_send_problem IdempotencyResolutionTimeoutError =
     MsgProblem 503 ''Could not confirm this send in time; retry with the same Idempotency-Key.''"
| "dm_send_problem e = MsgUnhandled e"

fun edit_problem :: "message_error \<Rightarrow> 'b message_response" where
  "edit_problem MessageNotFoundError = MsgProblem 404 ''No such message.''"
| "edit_problem NotMessageAuthorError =
     MsgProblem 403 ''Only the message's author may perform this action.''"
| "edit_problem MessageAlreadyDeletedError =
     MsgProblem 409 ''This message has already been deleted.''"
| "edit_problem InvalidContentError =
     MsgProblem 422 ''content must be 1-4000 non-whitespace characters.''"
| "edit_problem e = MsgUnhandled e"

fun delete_problem :: "message_error \<Rightarrow> 'b message_response" where
  "delete_problem MessageNotFoundError = MsgProblem 404 ''No such message.''"
| "delete_problem NotMessageAuthorError =
     MsgProblem 403 ''Only the message's author may perform this action.''"
| "delete_problem e = MsgUnhandled e"

definition send_response :: "send_result \<Rightarrow> message_object message_response" where
  "send_response result =
     MsgResponse (if sr_created result then 201 else 200)
       (from_message (sr_message result) (sr_media result))"

definition send_channel_message_route ::
  "(nat \<Rightarrow> nat \<Rightarrow> world \<Rightarrow> world) \<Rightarrow> (send_call \<Rightarrow> redis_call) \<Rightarrow> bool \<Rightarrow> uuid \<Rightarrow> datetime \<Rightarrow> uuid \<Rightarrow> pystr \<Rightarrow>
   uuid list \<Rightarrow> uuid \<Rightarrow> pystr option \<Rightarrow> world \<Rightarrow> message_object message_response \<times> world" where
  "send_channel_message_route env rd publish_ok new_id now channel_id content media_ids
     current idempotency_key w =
     (case parse_idempotency_key idempotency_key of
        Inl (status, detail) \<Rightarrow> (MsgProblem status detail, w)
      | Inr key \<Rightarrow>
          (case send_channel_message env rd publish_ok new_id now channel_id current content
                  media_ids key w of
             (Inl e, w') \<Rightarrow> (channel_send_problem e, w')
           | (Inr result, w') \<Rightarrow> (send_response result, w')))"

definition send_dm_message_route ::
  "(nat \<Rightarrow> nat \<Rightarrow> world \<Rightarrow> world) \<Rightarrow> (send_call \<Rightarrow> redis_call) \<Rightarrow> bool \<Rightarrow> uuid \<Rightarrow> datetime \<Rightarrow> uuid \<Rightarrow> pystr \<Rightarrow>
   uuid list \<Rightarrow> uuid \<Rightarrow> pystr option \<Rightarrow> world \<Rightarrow> message_object message_response \<times> world" where
  "send_dm_message_route env rd publish_ok new_id now user_id content media_ids current
     idempotency_key w =
     (case parse_idempotency_key idempotency_key of
        Inl (status, detail) \<Rightarrow> (MsgProblem status detail, w)
      | Inr key \<Rightarrow>
          (case send_dm_message env rd publish_ok new_id now user_id current content
                  media_ids key w of
             (Inl e, w') \<Rightarrow> (dm_send_problem e, w')
           | (Inr result, w') \<Rightarrow> (send_response result, w')))"

definition history_body ::
  "message page \<Rightarrow> database \<Rightarrow> message_object page" where
  "history_body page d =
     (let media = get_media_for_messages (map m_id (items page)) d
      in \<lparr>items = map (\<lambda>m. from_message m (case media (m_id m) of None \<Rightarrow> [] | Some xs \<Rightarrow> xs))
            (items page),
          next_cursor = next_cursor page\<rparr>)"

definition get_channel_message_history_route ::
  "uuid \<Rightarrow> pystr option \<Rightarrow> pystr option \<Rightarrow> uuid \<Rightarrow> database \<Rightarrow> message_object page message_response" where
  "get_channel_message_history_route channel_id limit cursor current d =
     (case and_then (parse_limit limit) (\<lambda>l. and_then (parse_cursor cursor) (\<lambda>k. Inr (l, k))) of
        Inl (status, detail) \<Rightarrow> MsgProblem status detail
      | Inr (l, k) \<Rightarrow>
          (case ensure_channel_and_membership channel_id current d of
             Inl e \<Rightarrow> channel_send_problem e
           | Inr _ \<Rightarrow>
               MsgResponse 200 (history_body (get_channel_message_history channel_id l k d) d)))"

definition get_dm_message_history_route ::
  "uuid \<Rightarrow> pystr option \<Rightarrow> pystr option \<Rightarrow> uuid \<Rightarrow> database \<Rightarrow> message_object page message_response" where
  "get_dm_message_history_route user_id limit cursor current d =
     (case and_then (parse_limit limit) (\<lambda>l. and_then (parse_cursor cursor) (\<lambda>k. Inr (l, k))) of
        Inl (status, detail) \<Rightarrow> MsgProblem status detail
      | Inr (l, k) \<Rightarrow>
          (case ensure_dm_history_access user_id current d of
             Inl SelfDMError \<Rightarrow>
               MsgProblem 422 ''user_id must not be your own id; there is no self-conversation.''
           | Inl RecipientNotFoundError \<Rightarrow> MsgProblem 404 ''No such user.''
           | Inl e \<Rightarrow> MsgUnhandled e
           | Inr _ \<Rightarrow>
               MsgResponse 200 (history_body (get_dm_message_history current user_id l k d) d)))"

definition edit_message_route ::
  "bool \<Rightarrow> datetime \<Rightarrow> uuid \<Rightarrow> pystr \<Rightarrow> uuid \<Rightarrow> world \<Rightarrow> message_object message_response \<times> world" where
  "edit_message_route publish_ok now message_id content current w =
     (case edit_message publish_ok now message_id current content w of
        (Inl e, w') \<Rightarrow> (edit_problem e, w')
      | (Inr m, w') \<Rightarrow> (MsgResponse 200 (from_message m (get_message_media message_id (w_db w'))), w'))"

definition delete_message_route ::
  "bool \<Rightarrow> datetime \<Rightarrow> uuid \<Rightarrow> uuid \<Rightarrow> world \<Rightarrow> unit message_response \<times> world" where
  "delete_message_route publish_ok now message_id current w =
     (case delete_message publish_ok now message_id current w of
        (Inl e, w') \<Rightarrow> (delete_problem e, w')
      | (Inr m, w') \<Rightarrow> (MsgResponse 204 (), w'))"

subsection \<open>Properties\<close>

text \<open>Which exceptions can leave a quiet send: only those of the constraints and of Redis.\<close>

lemma parse_limit_bounds: "parse_limit raw = Inr l \<Longrightarrow> 1 \<le> l \<and> l \<le> 100"
  by (auto simp: parse_limit_def resolve_limit_def DEFAULT_LIMIT_def MAX_LIMIT_def
      split: option.splits if_splits pagination_error.splits sum.splits)

lemma channel_send_problem_no_response [simp]: "channel_send_problem e \<noteq> MsgResponse s p"
  by (cases e) simp_all

lemma channel_history_route_page:
  assumes "get_channel_message_history_route c limit cursor u d = MsgResponse status page"
  obtains l k where "parse_limit limit = Inr l" "status = 200" "get_membership c u d \<noteq> None"
    "page = history_body (get_channel_message_history c l k d) d"
  using assms
  by (auto simp: get_channel_message_history_route_def ensure_channel_and_membership_def
      split: sum.splits prod.splits)

lemma dm_history_route_page:
  assumes "get_dm_message_history_route t limit cursor u d = MsgResponse status page"
  obtains l k where "parse_limit limit = Inr l" "status = 200" "t \<noteq> u" "get_user t d \<noteq> None"
    "page = history_body (get_dm_message_history u t l k d) d"
  using assms
  by (auto simp: get_dm_message_history_route_def ensure_dm_history_access_def reject_self_dm_def
      ensure_dm_history_participant_exists_def split: sum.splits prod.splits message_error.splits)

lemma length_history_body: "length (items (history_body p d)) = length (items p)"
  by (simp add: history_body_def Let_def)

lemma history_body_items:
  assumes "b \<in> set (items (history_body p d))"
  shows "\<exists>m\<in>set (items p). b = from_message m (get_message_media (m_id m) d)"
proof -
  from assms obtain m where m: "m \<in> set (items p)" "b = from_message m
      (case get_media_for_messages (map m_id (items p)) d (m_id m) of None \<Rightarrow> [] | Some xs \<Rightarrow> xs)"
    by (auto simp: history_body_def Let_def)
  then show ?thesis using batch_media [of "m_id m" "map m_id (items p)" d] by auto
qed

text \<open>
  Every spelling of one UUID names one claim: two \<open>Idempotency-Key\<close> headers that parse to
  the same UUID (upper case, braces, a \<open>urn:uuid:\<close> prefix, missing hyphens) are the same key, so
  after a committed send either spelling is answered 200 with the original message and changes
  nothing.
\<close>

theorem key_spelling_is_irrelevant:
  assumes "parse_uuid raw = Some k" "parse_uuid raw' = Some k"
    and "committed_send up s (py (uuid_str k)) ids topic m w res w'" "rd first_read = Answered"
  shows "send_channel_message_route env rd up' new now c content ids' s (Some raw') w' =
      (MsgResponse 200 (from_message m (sr_media res)), w')
    \<and> send_dm_message_route env rd up' new now t content ids' s (Some raw) w' =
      (MsgResponse 200 (from_message m (sr_media res)), w')"
proof -
  have "get_message (m_id m) (w_db w') = Some m" "get_message_media (m_id m) (w_db w') = sr_media res"
    "w_claims w' (idempotency_redis_key s (py (uuid_str k))) =
      Some (py (uuid_str (m_id m)), w_clock w + IDEMPOTENCY_TTL_SECONDS)"
    using assms(3) sends_stored by (auto simp: committed_send_def sends_def)
  then show ?thesis
    using assms(1,2,4) replay_of_claim [where rd = rd and w = w']
    by (simp add: send_channel_message_route_def send_dm_message_route_def parse_idempotency_key_def
        send_channel_message_def send_dm_message_def send_response_def)
qed

text \<open>
  A history route never shows what the caller may not read: it answers with a page only to
  a member of the channel (or to a participant of the conversation), the page has between 0 and
  100 messages, none deleted, all of that conversation, and each comes with exactly its own
  media.
\<close>

theorem history_routes_are_scoped:
  "(case get_channel_message_history_route c limit cursor u d of
      MsgResponse status page \<Rightarrow>
        status = 200 \<and> get_membership c u d \<noteq> None \<and> length (items page) \<le> 100 \<and>
        (\<forall>b\<in>set (items page). \<exists>m\<in>set (tb_messages d).
           m_channel_id m = Some c \<and> m_deleted_at m = None \<and>
           b = from_message m (get_message_media (m_id m) d))
    | _ \<Rightarrow> True)
   \<and> (case get_dm_message_history_route t limit cursor u d of
      MsgResponse status page \<Rightarrow>
        status = 200 \<and> t \<noteq> u \<and> get_user t d \<noteq> None \<and> length (items page) \<le> 100 \<and>
        (\<forall>b\<in>set (items page). \<exists>m\<in>set (tb_messages d).
           m_deleted_at m = None \<and>
           (m_sender_id m = u \<and> m_recipient_id m = Some t \<or> m_sender_id m = t \<and> m_recipient_id m = Some u) \<and>
           b = from_message m (get_message_media (m_id m) d))
    | _ \<Rightarrow> True)"
proof -
  have A: "case get_channel_message_history_route c limit cursor u d of
      MsgResponse status page \<Rightarrow>
        status = 200 \<and> get_membership c u d \<noteq> None \<and> length (items page) \<le> 100 \<and>
        (\<forall>b\<in>set (items page). \<exists>m\<in>set (tb_messages d).
           m_channel_id m = Some c \<and> m_deleted_at m = None \<and>
           b = from_message m (get_message_media (m_id m) d))
    | _ \<Rightarrow> True"
  proof (cases "get_channel_message_history_route c limit cursor u d")
    case (MsgResponse status page)
    then obtain l k where r: "parse_limit limit = Inr l" "status = 200" "get_membership c u d \<noteq> None"
      "page = history_body (get_channel_message_history c l k d) d"
      by (rule channel_history_route_page)
    have "items page = items (history_body (get_channel_message_history c l k d) d)" using r(4) by simp
    moreover have "length (items (history_body (get_channel_message_history c l k d) d)) \<le> 100"
    proof -
      have "int (length (items (get_channel_message_history c l k d))) \<le> l"
        by (rule channel_history.page_bound) (use parse_limit_bounds [OF r(1)] in simp)
      then show ?thesis using parse_limit_bounds [OF r(1)] by (simp add: length_history_body)
    qed
    moreover have "\<exists>m\<in>set (tb_messages d). m_channel_id m = Some c \<and> m_deleted_at m = None \<and>
           b = from_message m (get_message_media (m_id m) d)"
      if "b \<in> set (items (history_body (get_channel_message_history c l k d) d))" for b
    proof -
      from history_body_items [OF that] obtain m where
        m: "m \<in> set (items (get_channel_message_history c l k d))"
        "b = from_message m (get_message_media (m_id m) d)" by blast
      then have "m \<in> set (channel_rows c d)" using channel_history.page_items_visible by blast
      with m(2) show ?thesis by (auto simp: channel_rows_def)
    qed
    ultimately show ?thesis using MsgResponse r(2,3) by simp
  qed simp_all
  have B: "case get_dm_message_history_route t limit cursor u d of
      MsgResponse status page \<Rightarrow>
        status = 200 \<and> t \<noteq> u \<and> get_user t d \<noteq> None \<and> length (items page) \<le> 100 \<and>
        (\<forall>b\<in>set (items page). \<exists>m\<in>set (tb_messages d).
           m_deleted_at m = None \<and>
           (m_sender_id m = u \<and> m_recipient_id m = Some t \<or> m_sender_id m = t \<and> m_recipient_id m = Some u) \<and>
           b = from_message m (get_message_media (m_id m) d))
    | _ \<Rightarrow> True"
  proof (cases "get_dm_message_history_route t limit cursor u d")
    case (MsgResponse status page)
    then obtain l k where r: "parse_limit limit = Inr l" "status = 200" "t \<noteq> u" "get_user t d \<noteq> None"
      "page = history_body (get_dm_message_history u t l k d) d"
      by (rule dm_history_route_page)
    have "items page = items (history_body (get_dm_message_history u t l k d) d)" using r(5) by simp
    moreover have "length (items (history_body (get_dm_message_history u t l k d) d)) \<le> 100"
    proof -
      have "int (length (items (get_dm_message_history u t l k d))) \<le> l"
        by (rule dm_history.page_bound) (use parse_limit_bounds [OF r(1)] in simp)
      then show ?thesis using parse_limit_bounds [OF r(1)] by (simp add: length_history_body)
    qed
    moreover have "\<exists>m\<in>set (tb_messages d). m_deleted_at m = None \<and>
           (m_sender_id m = u \<and> m_recipient_id m = Some t \<or> m_sender_id m = t \<and> m_recipient_id m = Some u) \<and>
           b = from_message m (get_message_media (m_id m) d)"
      if "b \<in> set (items (history_body (get_dm_message_history u t l k d) d))" for b
    proof -
      from history_body_items [OF that] obtain m where
        m: "m \<in> set (items (get_dm_message_history u t l k d))"
        "b = from_message m (get_message_media (m_id m) d)" by blast
      then have "m \<in> set (dm_rows u t d)" using dm_history.page_items_visible by blast
      with m(2) show ?thesis by (auto simp: dm_rows_iff doubleton_eq_iff)
    qed
    ultimately show ?thesis using MsgResponse r(2-4) by simp
  qed simp_all
  from A B show ?thesis by blast
qed

lemma key_spelling_is_irrelevant_witness:
  "fst (send_channel_message_route (\<lambda>r k. id) (\<lambda>call. Answered) True 30 9 10 (py ''x'') [] 1
     (Some (py (uuid_str 77))) (demo_sent\<lparr>w_claims :=
        [idempotency_redis_key 1 (py (uuid_str 77)) \<mapsto> (py (uuid_str 20), IDEMPOTENCY_TTL_SECONDS)]\<rparr>)) =
   MsgResponse 200 (from_message demo_message [])"
proof -
  have "committed_send True 1 (py (uuid_str 77)) [] (channel_topic 10) demo_message demo_world demo_result
      (demo_sent\<lparr>w_claims :=
        [idempotency_redis_key 1 (py (uuid_str 77)) \<mapsto> (py (uuid_str 20), IDEMPOTENCY_TTL_SECONDS)]\<rparr>)"
    using demo_committed by (simp add: committed_send_def demo_message_defs)
  from key_spelling_is_irrelevant [OF parse_uuid_str parse_uuid_str this, where rd = "\<lambda>call. Answered"] show ?thesis
    by (simp add: demo_result_def)
qed

lemma history_routes_are_scoped_witness:
  "case get_channel_message_history_route 10 None None 1 (w_db demo_chat) of
     MsgResponse status page \<Rightarrow> length (items page) \<le> 100 | _ \<Rightarrow> True"
  using history_routes_are_scoped [where c = 10 and limit = None and cursor = None and u = 1 and d = "w_db demo_chat"]
  by (auto split: message_response.splits)

end
