(* ===== verification/Idempotency_Race.thy ===== *)
theory Idempotency_Race
  imports Messages
begin

text \<open>
  Concurrent sends that share one sender and one idempotency key, interleaved at the
  granularity of single Redis commands and database transactions
  (\<^verbatim>\<open>_resolve_existing_claim\<close> and \<^verbatim>\<open>_claim_and_persist_message\<close> of
  \<^verbatim>\<open>app/services/messages.py\<close>).  The shared state is the claim and the set of committed rows
  written under the key; process \<open>i\<close> would write the row \<open>nid i\<close>.
\<close>

subsection \<open>The step relation\<close>

text \<open>\<open>Resolving r k\<close>: about to read the claim, with \<open>r\<close> claim rounds and \<open>k\<close> reads left (the
  first read and the last one look for the row); \<open>Loading\<close>: about to look for the row of the
  claim just read; \<open>Claiming r\<close>: about to try \<open>SET NX\<close>; \<open>Won\<close>: inside the transaction;
  \<open>Releasing\<close>: rolled back, about to delete the key.\<close>

datatype send_pc =
    Resolving nat nat
  | Loading nat nat uuid
  | Claiming nat
  | Won
  | Releasing
  | Returned uuid bool
  | Failed

record race =
  r_claim :: "uuid option"
  r_rows :: "uuid set"
  r_pc :: "nat \<Rightarrow> send_pc"

abbreviation at_pc :: "race \<Rightarrow> nat \<Rightarrow> send_pc \<Rightarrow> race" where
  "at_pc s i p \<equiv> s\<lparr>r_pc := (r_pc s)(i := p)\<rparr>"

inductive race_step :: "(nat \<Rightarrow> uuid) \<Rightarrow> nat \<Rightarrow> race \<Rightarrow> race \<Rightarrow> bool" for nid i where
  resolve_absent:
    "r_pc s i = Resolving r (Suc k) \<Longrightarrow> r_claim s = None \<Longrightarrow>
     race_step nid i s (at_pc s i (Claiming r))"
| resolve_load:
    "r_pc s i = Resolving r k \<Longrightarrow> k = RESOLVE_MAX_ATTEMPTS \<or> k = 1 \<Longrightarrow> r_claim s = Some m \<Longrightarrow>
     race_step nid i s (at_pc s i (Loading r k m))"
| resolve_skip:
    "r_pc s i = Resolving r (Suc k) \<Longrightarrow> 0 < k \<Longrightarrow> Suc k < RESOLVE_MAX_ATTEMPTS \<Longrightarrow> r_claim s = Some m \<Longrightarrow>
     race_step nid i s (at_pc s i (Resolving r k))"
| load_found:
    "r_pc s i = Loading r k m \<Longrightarrow> m \<in> r_rows s \<Longrightarrow> race_step nid i s (at_pc s i (Returned m False))"
| load_retry:
    "r_pc s i = Loading r (Suc k) m \<Longrightarrow> m \<notin> r_rows s \<Longrightarrow> 0 < k \<Longrightarrow>
     race_step nid i s (at_pc s i (Resolving r k))"
| load_timeout:
    "r_pc s i = Loading r 1 m \<Longrightarrow> m \<notin> r_rows s \<Longrightarrow> race_step nid i s (at_pc s i Failed)"
| gate_refuses: "r_pc s i = Claiming r \<Longrightarrow> race_step nid i s (at_pc s i Failed)"
| claim_wins:
    "r_pc s i = Claiming (Suc r) \<Longrightarrow> r_claim s = None \<Longrightarrow>
     race_step nid i s (at_pc (s\<lparr>r_claim := Some (nid i)\<rparr>) i Won)"
| claim_loses:
    "r_pc s i = Claiming (Suc r) \<Longrightarrow> r_claim s = Some m \<Longrightarrow>
     race_step nid i s (at_pc s i (Resolving r RESOLVE_MAX_ATTEMPTS))"
| commits:
    "r_pc s i = Won \<Longrightarrow>
     race_step nid i s (at_pc (s\<lparr>r_rows := insert (nid i) (r_rows s)\<rparr>) i (Returned (nid i) True))"
| rolls_back: "r_pc s i = Won \<Longrightarrow> race_step nid i s (at_pc s i Releasing)"
| crashes: "r_pc s i = Won \<Longrightarrow> race_step nid i s (at_pc s i Failed)"
| read_fails: "r_pc s i = Resolving r k \<Longrightarrow> race_step nid i s (at_pc s i Failed)"
| claim_unanswered:
    "r_pc s i = Claiming (Suc r) \<Longrightarrow> r_claim s = None \<Longrightarrow>
     race_step nid i s (at_pc (s\<lparr>r_claim := Some (nid i)\<rparr>) i Failed)"
| release_fails: "r_pc s i = Releasing \<Longrightarrow> race_step nid i s (at_pc s i Failed)"
| releases:
    "r_pc s i = Releasing \<Longrightarrow> race_step nid i s (at_pc (s\<lparr>r_claim := None\<rparr>) i Failed)"

inductive_cases race_stepE: "race_step nid i s s'"

text \<open>Any command may fail (\<open>read_fails\<close>, \<open>gate_refuses\<close> for a \<open>SET\<close> that does not arrive,
  \<open>claim_unanswered\<close>, \<open>release_fails\<close>); a commit is answered or not executed.\<close>

text \<open>The key leaves Redis: its 24 hours are over, or Redis loses it.\<close>

inductive race_evict :: "race \<Rightarrow> race \<Rightarrow> bool" where
  evict: "race_evict s (s\<lparr>r_claim := None\<rparr>)"

text \<open>\<open>n\<close> requests run; the others never start.\<close>

definition race_next :: "(nat \<Rightarrow> uuid) \<Rightarrow> nat \<Rightarrow> race \<Rightarrow> race \<Rightarrow> bool" where
  "race_next nid n s s' \<longleftrightarrow> (\<exists>i<n. race_step nid i s s')"

lemma race_nextI: "race_step nid i s s' \<Longrightarrow> i < n \<Longrightarrow> race_next nid n s s'"
  by (auto simp: race_next_def)

definition race_next_evicting :: "(nat \<Rightarrow> uuid) \<Rightarrow> nat \<Rightarrow> race \<Rightarrow> race \<Rightarrow> bool" where
  "race_next_evicting nid n s s' \<longleftrightarrow> race_next nid n s s' \<or> race_evict s s'"

definition race_init :: race where
  "race_init = \<lparr>r_claim = None, r_rows = {},
     r_pc = \<lambda>i. Resolving CLAIM_MAX_ROUNDS RESOLVE_MAX_ATTEMPTS\<rparr>"

subsection \<open>At most one row\<close>

definition race_inv :: "(nat \<Rightarrow> uuid) \<Rightarrow> nat \<Rightarrow> race \<Rightarrow> bool" where
  "race_inv nid n s \<longleftrightarrow>
     (\<forall>m\<in>r_rows s. r_claim s = Some m) \<and>
     (\<forall>i. r_pc s i \<in> {Won, Releasing} \<longrightarrow> i < n \<and> r_claim s = Some (nid i) \<and> nid i \<notin> r_rows s) \<and>
     (\<forall>i m b. r_pc s i = Returned m b \<longrightarrow> i < n \<and> m \<in> r_rows s \<and> (b \<longrightarrow> m = nid i))"

lemma race_inv_init: "race_inv nid n race_init"
  by (simp add: race_inv_def race_init_def)

lemma race_inv_idle:
  assumes "race_inv nid n s" "i < n" "p \<notin> {Won, Releasing}"
    "\<forall>m b. p = Returned m b \<longrightarrow> m \<in> r_rows s \<and> \<not> b"
  shows "race_inv nid n (at_pc s i p)"
  using assms by (auto simp: race_inv_def)

lemma race_inv_others:
  assumes "race_inv nid n s" "inj_on nid {..<n}" "r_pc s i \<in> {Won, Releasing}" "j \<noteq> i"
  shows "r_pc s j \<notin> {Won, Releasing}"
proof
  assume j: "r_pc s j \<in> {Won, Releasing}"
  have "i < n \<and> r_claim s = Some (nid i)" "j < n \<and> r_claim s = Some (nid j)"
    using assms(1,3) j unfolding race_inv_def by blast+
  with assms(2,4) show False by (auto dest: inj_onD)
qed

lemma race_step_inv:
  assumes "race_step nid i s s'" "i < n" "race_inv nid n s" "inj_on nid {..<n}"
  shows "race_inv nid n s'"
  using assms(1)
proof cases
  case (claim_wins r)
  then have "r_rows s = {}" using assms(3) by (auto simp: race_inv_def)
  moreover have "r_pc s j \<notin> {Won, Releasing}" for j
    using assms(3) claim_wins(3) by (auto simp: race_inv_def)
  ultimately show ?thesis using assms(2,3) claim_wins(1) by (auto simp: race_inv_def)
next
  case (claim_unanswered r)
  then have "r_rows s = {}" using assms(3) by (auto simp: race_inv_def)
  moreover have "r_pc s j \<notin> {Won, Releasing}" for j
    using assms(3) claim_unanswered(3) by (auto simp: race_inv_def)
  ultimately show ?thesis using assms(2,3) claim_unanswered(1) by (auto simp: race_inv_def)
next
  case commits
  then have own: "r_claim s = Some (nid i)" "nid i \<notin> r_rows s" using assms(3) by (auto simp: race_inv_def)
  have "r_pc s j \<notin> {Won, Releasing}" if "j \<noteq> i" for j
    using race_inv_others [OF assms(3,4) _ that] commits(2) by simp
  then show ?thesis using assms(2,3) commits(1) own by (auto simp: race_inv_def)
next
  case rolls_back
  then have own: "r_claim s = Some (nid i)" "nid i \<notin> r_rows s" using assms(3) by (auto simp: race_inv_def)
  have "r_pc s j \<notin> {Won, Releasing}" if "j \<noteq> i" for j
    using race_inv_others [OF assms(3,4) _ that] rolls_back(2) by simp
  then show ?thesis using assms(2,3) rolls_back(1) own by (auto simp: race_inv_def)
next
  case releases
  then have own: "r_claim s = Some (nid i)" "nid i \<notin> r_rows s" using assms(3) by (auto simp: race_inv_def)
  then have "r_rows s = {}" using assms(3) by (auto simp: race_inv_def)
  moreover have "r_pc s j \<notin> {Won, Releasing}" if "j \<noteq> i" for j
    using race_inv_others [OF assms(3,4) _ that] releases(2) by simp
  ultimately show ?thesis using assms(2,3) releases(1) by (auto simp: race_inv_def)
qed (use race_inv_idle [OF assms(3,2)] in auto)

lemma race_run_inv:
  assumes "(race_next nid n)\<^sup>*\<^sup>* race_init s" "inj_on nid {..<n}"
  shows "race_inv nid n s"
  using assms
proof (induction rule: rtranclp_induct)
  case (step y z)
  then show ?case using race_step_inv unfolding race_next_def by blast
qed (simp add: race_inv_init)

text \<open>
  C2. However many sends with one idempotency key run at once, in whatever order their Redis
  commands and transactions interleave, with refusals, rollbacks, crashes and Redis commands that
  fail or lose their answer, as long as Redis does not lose the key and no commit is executed
  without an answer: at most one row is ever committed, at most one request is told
  it created it, and every request that succeeds returns that same committed row.
\<close>

theorem one_row_per_key:
  assumes "(race_next nid n)\<^sup>*\<^sup>* race_init s" "inj_on nid {..<n}"
  shows "(\<exists>m. r_rows s \<subseteq> {m})
    \<and> (\<forall>i j m k b c. r_pc s i = Returned m b \<and> r_pc s j = Returned k c \<longrightarrow> m = k \<and> m \<in> r_rows s)
    \<and> (\<forall>i j m k. r_pc s i = Returned m True \<and> r_pc s j = Returned k True \<longrightarrow> i = j)"
proof -
  have inv: "race_inv nid n s" by (rule race_run_inv [OF assms])
  have claim: "r_claim s = Some m" if "m \<in> r_rows s" for m
    using inv that by (simp add: race_inv_def)
  have rows: "m = k" if "m \<in> r_rows s" "k \<in> r_rows s" for m k
    using claim [OF that(1)] claim [OF that(2)] by simp
  have ret: "i < n \<and> m \<in> r_rows s \<and> (b \<longrightarrow> m = nid i)" if "r_pc s i = Returned m b" for i m b
    using inv that unfolding race_inv_def by blast
  show ?thesis
  proof (intro conjI allI impI)
    show "\<exists>m. r_rows s \<subseteq> {m}"
    proof (cases "r_claim s")
      case None
      then have "r_rows s = {}" using claim by fastforce
      then show ?thesis by simp
    next
      case (Some m)
      then have "r_rows s \<subseteq> {m}" using claim by fastforce
      then show ?thesis by blast
    qed
  next
    fix i j m k b c assume *: "r_pc s i = Returned m b \<and> r_pc s j = Returned k c"
    then have "m \<in> r_rows s" "k \<in> r_rows s" using ret [of i m b] ret [of j k c] by simp_all
    then show "m = k" "m \<in> r_rows s" using rows by simp_all
  next
    fix i j m k assume *: "r_pc s i = Returned m True \<and> r_pc s j = Returned k True"
    then have "m \<in> r_rows s" "k \<in> r_rows s" "m = nid i" "k = nid j" "i < n" "j < n"
      using ret [of i m True] ret [of j k True] by blast+
    moreover from this have "nid i = nid j" using rows by simp
    ultimately show "i = j" using assms(2) by (auto dest: inj_onD)
  qed
qed

text \<open>Two requests: the first wins and commits; the second reads the claim and returns its row.\<close>

definition demo_nid :: "nat \<Rightarrow> uuid" where
  "demo_nid i = (if i = 0 then 1 else 2)"

definition race_committed :: race where
  "race_committed = at_pc (race_init\<lparr>r_claim := Some 1, r_rows := {1}\<rparr>) 0 (Returned 1 True)"

definition race_both :: race where
  "race_both = at_pc race_committed 1 (Returned 1 False)"

lemma inj_demo_nid: "inj_on demo_nid {..<2}"
proof (rule inj_onI)
  fix x y :: nat
  assume "x \<in> {..<2}" "y \<in> {..<2}" "demo_nid x = demo_nid y"
  then show "x = y" by (cases "x = 0"; cases "y = 0") (auto simp: demo_nid_def)
qed

lemma demo_first_commits: "(race_next demo_nid 2)\<^sup>*\<^sup>* race_init race_committed"
proof -
  let ?s1 = "at_pc race_init 0 (Claiming 3)"
  let ?s2 = "at_pc (?s1\<lparr>r_claim := Some (demo_nid 0)\<rparr>) 0 Won"
  let ?s3 = "at_pc (?s2\<lparr>r_rows := insert (demo_nid 0) (r_rows ?s2)\<rparr>) 0 (Returned (demo_nid 0) True)"
  have 1: "race_step demo_nid 0 race_init ?s1"
    by (rule resolve_absent [where k = 7]) (simp_all add: race_init_def CLAIM_MAX_ROUNDS_def RESOLVE_MAX_ATTEMPTS_def)
  have 2: "race_step demo_nid 0 ?s1 ?s2"
    by (rule claim_wins [where r = 2]) (simp_all add: race_init_def)
  have 3: "race_step demo_nid 0 ?s2 ?s3" by (rule commits) simp
  have 4: "?s3 = race_committed" by (simp add: race_committed_def race_init_def demo_nid_def)
  let ?R = "race_next demo_nid 2"
  have "?R race_init ?s1" "?R ?s1 ?s2" "?R ?s2 ?s3"
    using race_nextI [OF 1, of 2] race_nextI [OF 2, of 2] race_nextI [OF 3, of 2] by simp_all
  then have "?R\<^sup>*\<^sup>* race_init ?s3"
    by (intro rtranclp.rtrancl_into_rtrancl [of ?R race_init ?s2 ?s3]
        rtranclp.rtrancl_into_rtrancl [of ?R race_init ?s1 ?s2] r_into_rtranclp [of ?R race_init ?s1])
  then show ?thesis unfolding 4 .
qed

lemma one_row_per_key_witness:
  "(race_next demo_nid 2)\<^sup>*\<^sup>* race_init race_committed \<and> (\<exists>m. r_rows race_committed \<subseteq> {m})"
  using demo_first_commits one_row_per_key [OF demo_first_commits inj_demo_nid] by blast

subsection \<open>No request waits for ever\<close>

fun pc_work :: "send_pc \<Rightarrow> nat" where
  "pc_work (Resolving r k) = 20 * r + 2 * k + 4"
| "pc_work (Loading r k m) = 20 * r + 2 * k + 3"
| "pc_work (Claiming r) = 20 * r + 3"
| "pc_work Won = 2"
| "pc_work Releasing = 1"
| "pc_work (Returned m b) = 0"
| "pc_work Failed = 0"

lemma race_step_work:
  assumes "race_step nid i s s'"
  shows "pc_work (r_pc s' i) < pc_work (r_pc s i)" "j \<noteq> i \<Longrightarrow> r_pc s' j = r_pc s j"
  using assms by (cases; simp add: RESOLVE_MAX_ATTEMPTS_def)+

text \<open>A request is in a sane state when its counters are those a run can reach.\<close>

fun pc_sane :: "send_pc \<Rightarrow> bool" where
  "pc_sane (Resolving r k) \<longleftrightarrow> 1 \<le> k \<and> k \<le> RESOLVE_MAX_ATTEMPTS"
| "pc_sane (Loading r k m) \<longleftrightarrow> k = RESOLVE_MAX_ATTEMPTS \<or> k = 1"
| "pc_sane _ \<longleftrightarrow> True"

lemma race_step_sane:
  assumes "race_step nid i s s'" "\<forall>j. pc_sane (r_pc s j)"
  shows "\<forall>j. pc_sane (r_pc s' j)"
proof
  fix j
  have i: "pc_sane (r_pc s i)" using assms(2) by blast
  show "pc_sane (r_pc s' j)"
  proof (cases "j = i")
    case True
    show ?thesis unfolding True using assms(1) i by cases (auto simp: RESOLVE_MAX_ATTEMPTS_def)
  next
    case False
    then show ?thesis using race_step_work(2) [OF assms(1)] assms(2) by simp
  qed
qed

lemma race_step_enabled:
  assumes "pc_sane (r_pc s i)" "pc_work (r_pc s i) \<noteq> 0"
  shows "\<exists>s'. race_step nid i s s'"
proof (cases "r_pc s i")
  case (Resolving r k)
  then obtain k' where k: "k = Suc k'" using assms(1) by (cases k) auto
  show ?thesis
  proof (cases "r_claim s")
    case None
    then show ?thesis using Resolving k resolve_absent by blast
  next
    case (Some m)
    show ?thesis
    proof (cases "k = RESOLVE_MAX_ATTEMPTS \<or> k = 1")
      case True
      then show ?thesis using resolve_load [OF Resolving _ Some] by blast
    next
      case False
      then show ?thesis using resolve_skip [OF Resolving [unfolded k] _ _ Some] assms(1) Resolving k
        by (auto simp: RESOLVE_MAX_ATTEMPTS_def)
    qed
  qed
next
  case (Loading r k m)
  show ?thesis
  proof (cases "m \<in> r_rows s")
    case True
    then show ?thesis using load_found [OF Loading] by blast
  next
    case False
    then show ?thesis
      using assms(1) Loading load_retry [of s i r 7 m] load_timeout [of s i r m]
      by (auto simp: RESOLVE_MAX_ATTEMPTS_def)
  qed
next
  case (Claiming r)
  then show ?thesis using gate_refuses by blast
next
  case Won
  then show ?thesis using commits by blast
next
  case Releasing
  then show ?thesis using releases by blast
qed (use assms(2) in auto)

text \<open>
  C20. No request hangs: whatever the others do, a request that has not answered can always
  take a step, each of its own steps consumes part of a fixed budget of 80, no step of another
  request gives any back, so after at most 80 of its own steps it has answered or failed.
\<close>

theorem every_send_answers:
  assumes "(race_next nid n)\<^sup>*\<^sup>* race_init s"
  shows "pc_work (r_pc s i) \<le> 80
    \<and> (pc_work (r_pc s i) = 0 \<longleftrightarrow> (\<exists>m b. r_pc s i = Returned m b) \<or> r_pc s i = Failed)
    \<and> (pc_work (r_pc s i) \<noteq> 0 \<longrightarrow> (\<exists>s'. race_step nid i s s'))
    \<and> (\<forall>s'. race_step nid i s s' \<longrightarrow> pc_work (r_pc s' i) < pc_work (r_pc s i))
    \<and> (\<forall>j s'. j \<noteq> i \<and> race_step nid j s s' \<longrightarrow> r_pc s' i = r_pc s i)"
proof -
  have "pc_work (r_pc s i) \<le> 80 \<and> (\<forall>j. pc_sane (r_pc s j))"
    using assms
  proof (induction rule: rtranclp_induct)
    case base
    then show ?case by (simp add: race_init_def CLAIM_MAX_ROUNDS_def RESOLVE_MAX_ATTEMPTS_def)
  next
    case (step y z)
    then obtain j where j: "race_step nid j y z" by (auto simp: race_next_def)
    have "pc_work (r_pc z i) \<le> pc_work (r_pc y i)"
      using race_step_work [OF j] by (cases "i = j") (auto intro: less_imp_le)
    then show ?case using step.IH race_step_sane [OF j] by auto
  qed
  moreover have "pc_work (r_pc s i) = 0 \<longleftrightarrow> (\<exists>m b. r_pc s i = Returned m b) \<or> r_pc s i = Failed"
    by (cases "r_pc s i") auto
  moreover have "\<exists>s'. race_step nid i s s'" if "pc_work (r_pc s i) \<noteq> 0"
    using calculation(1) race_step_enabled that by blast
  moreover have "pc_work (r_pc s' i) < pc_work (r_pc s i)" if "race_step nid i s s'" for s'
    using race_step_work(1) [OF that] .
  moreover have "r_pc s' i = r_pc s i" if "j \<noteq> i" "race_step nid j s s'" for j s'
    using race_step_work(2) [OF that(2)] that(1) by simp
  ultimately show ?thesis by blast
qed

lemma every_send_answers_witness:
  "pc_work (r_pc race_committed 1) \<le> 80 \<and> (\<exists>s'. race_step demo_nid 1 race_committed s')"
proof -
  have "pc_work (r_pc race_committed 1) \<noteq> 0" by (simp add: race_committed_def race_init_def)
  then show ?thesis using every_send_answers [OF demo_first_commits, of 1] by blast
qed

subsection \<open>Losing the key\<close>

text \<open>
  The guarantee rests on Redis keeping the key: if it is lost after the first request has
  committed, a second request with the same key commits a second row.
\<close>

theorem lost_key_duplicates:
  "\<exists>s. (race_next_evicting demo_nid 2)\<^sup>*\<^sup>* race_init s \<and> r_rows s = {1, 2}
     \<and> r_pc s 0 = Returned 1 True \<and> r_pc s 1 = Returned 2 True"
proof -
  let ?s0 = "race_committed\<lparr>r_claim := None\<rparr>"
  let ?s1 = "at_pc ?s0 1 (Claiming 3)"
  let ?s2 = "at_pc (?s1\<lparr>r_claim := Some (demo_nid 1)\<rparr>) 1 Won"
  let ?s3 = "at_pc (?s2\<lparr>r_rows := insert (demo_nid 1) (r_rows ?s2)\<rparr>) 1 (Returned (demo_nid 1) True)"
  let ?R = "race_next_evicting demo_nid 2"
  have step: "?R s s'" if "race_step demo_nid 1 s s'" for s s'
    using race_nextI [OF that, of 2] by (simp add: race_next_evicting_def)
  have 1: "race_step demo_nid 1 ?s0 ?s1"
    by (rule resolve_absent [where k = 7])
       (simp_all add: race_committed_def race_init_def CLAIM_MAX_ROUNDS_def RESOLVE_MAX_ATTEMPTS_def)
  have 2: "race_step demo_nid 1 ?s1 ?s2"
    by (rule claim_wins [where r = 2]) (simp_all add: race_committed_def race_init_def)
  have 3: "race_step demo_nid 1 ?s2 ?s3" by (rule commits) simp
  have "?R\<^sup>*\<^sup>* race_init race_committed"
    using demo_first_commits by (rule rtranclp_mono [THEN predicate2D, rotated]) (auto simp: race_next_evicting_def)
  then have "?R\<^sup>*\<^sup>* race_init ?s0"
    by (rule rtranclp.rtrancl_into_rtrancl) (simp add: race_next_evicting_def evict)
  then have "?R\<^sup>*\<^sup>* race_init ?s1" by (rule rtranclp.rtrancl_into_rtrancl [of ?R race_init ?s0 ?s1, OF _ step [OF 1]])
  then have "?R\<^sup>*\<^sup>* race_init ?s2" by (rule rtranclp.rtrancl_into_rtrancl [of ?R race_init ?s1 ?s2, OF _ step [OF 2]])
  then have "?R\<^sup>*\<^sup>* race_init ?s3" by (rule rtranclp.rtrancl_into_rtrancl [of ?R race_init ?s2 ?s3, OF _ step [OF 3]])
  moreover have "r_rows ?s3 = {1, 2}" "r_pc ?s3 0 = Returned 1 True" "r_pc ?s3 1 = Returned 2 True"
    by (auto simp: race_committed_def race_init_def demo_nid_def)
  ultimately show ?thesis by blast
qed

end
