(* ===== verification/Rate_Limit.thy ===== *)
theory Rate_Limit
  imports Values Complex_Main
begin

text \<open>
  Rate limiting: the Redis token bucket (\<^verbatim>\<open>core/rate_limit.py\<close>) with its four scopes and
  failure modes, the route dependencies (\<^verbatim>\<open>core/rate_limit_deps.py\<close>), and the sliding
  window over the frames of one WebSocket (\<^verbatim>\<open>ws/rate_limit.py\<close>).

  Times and token counts are rationals.  The script stores both numbers as Lua text; the
  parameter \<open>stored\<close> is what reading that text back yields, since Lua prints a limited
  number of digits.  The locale \<open>metered\<close> is the
  potential argument behind the bound on admitted requests.
\<close>

subsection \<open>The token bucket\<close>

type_synonym bucket = "rat \<times> rat"

type_synonym buckets = "pystr \<Rightarrow> bucket option"

definition refill :: "int \<Rightarrow> rat \<Rightarrow> rat \<Rightarrow> bucket option \<Rightarrow> rat" where
  "refill capacity refill_rate now b =
     (let (tokens, ts) = (case b of None \<Rightarrow> (of_int capacity, now) | Some p \<Rightarrow> p);
          elapsed = (if now - ts < 0 then 0 else now - ts)
      in min (of_int capacity) (tokens + elapsed * refill_rate))"

text \<open>The answer, the hash that \<open>HSET\<close> writes and the seconds \<open>EXPIRE\<close> gives the key.\<close>

definition token_bucket_script ::
  "(rat \<Rightarrow> rat) \<Rightarrow> int \<Rightarrow> rat \<Rightarrow> rat \<Rightarrow> int \<Rightarrow> int \<Rightarrow> bucket option \<Rightarrow> (int \<times> int) \<times> bucket \<times> int" where
  "token_bucket_script stored capacity refill_rate now requested ttl b =
     (let tokens = refill capacity refill_rate now b in
      if of_int requested \<le> tokens
      then ((1, 0), (stored (tokens - of_int requested), stored now), ttl)
      else ((0, if 0 < refill_rate then \<lceil>(of_int requested - tokens) / refill_rate\<rceil> else - 1),
            (stored tokens, stored now), ttl))"

record rate_limit_policy =
  rp_capacity :: int
  rp_refill_rate_per_second :: rat
  rp_ttl_seconds :: int

fun policies :: "rate_limit_scope \<Rightarrow> rate_limit_policy" where
  "policies MESSAGE_SEND =
     \<lparr>rp_capacity = 20, rp_refill_rate_per_second = 10 / 10, rp_ttl_seconds = 60\<rparr>"
| "policies AUTH =
     \<lparr>rp_capacity = 5, rp_refill_rate_per_second = 5 / 300, rp_ttl_seconds = 600\<rparr>"
| "policies MEDIA_UPLOAD =
     \<lparr>rp_capacity = 20, rp_refill_rate_per_second = 20 / 60, rp_ttl_seconds = 120\<rparr>"
| "policies GENERAL_READ =
     \<lparr>rp_capacity = 60, rp_refill_rate_per_second = 60 / 60, rp_ttl_seconds = 120\<rparr>"

record rate_limit_decision =
  allowed :: bool
  retry_after_seconds :: int

datatype rate_limit_error =
    RateLimitExceededError int
  | RateLimitUnavailableError

definition rate_limit_exceeded :: "int \<Rightarrow> rate_limit_error" where
  "rate_limit_exceeded retry_after = RateLimitExceededError (max 1 retry_after)"

text \<open>The stores below keep no lifetimes: that a bucket may expire after its \<open>ttl\<close> is the
  theorem \<open>idle_expiry_is_invisible\<close>.\<close>

definition consume ::
  "(rat \<Rightarrow> rat) \<Rightarrow> pystr \<Rightarrow> rate_limit_policy \<Rightarrow> rat \<Rightarrow> int \<Rightarrow> buckets \<Rightarrow> rate_limit_decision \<times> buckets" where
  "consume stored key p now requested bs =
     (case token_bucket_script stored (rp_capacity p) (rp_refill_rate_per_second p) now requested (rp_ttl_seconds p) (bs key) of
        ((allowed_raw, retry_after_raw), b, ttl) \<Rightarrow>
          (\<lparr>allowed = (allowed_raw \<noteq> 0), retry_after_seconds = max 0 retry_after_raw\<rparr>,
           bs(key \<mapsto> b)))"

definition check_rate_limit ::
  "(rat \<Rightarrow> rat) \<Rightarrow> rate_limit_scope \<Rightarrow> pystr \<Rightarrow> rat \<Rightarrow> buckets \<Rightarrow> rate_limit_decision \<times> buckets" where
  "check_rate_limit stored scope subject now bs =
     consume stored (rate_limit_bucket_key scope subject) (policies scope) now 1 bs"

definition enforce_rate_limit ::
  "(rat \<Rightarrow> rat) \<Rightarrow> redis_call \<Rightarrow> rate_limit_scope \<Rightarrow> pystr \<Rightarrow> bool \<Rightarrow> rat \<Rightarrow> buckets \<Rightarrow>
   (rate_limit_error + rate_limit_decision) \<times> buckets" where
  "enforce_rate_limit stored call scope subject fail_closed now bs =
     (case check_rate_limit stored scope subject now bs of (decision, bs') \<Rightarrow>
       (if fail_closed
        then (case redis_fail_closed (call = Answered) decision of
                RedisUnavailable \<Rightarrow> Inl RateLimitUnavailableError
              | RedisOk dec \<Rightarrow> Inr dec)
        else Inr (redis_fail_open (call = Answered) decision
                    \<lparr>allowed = True, retry_after_seconds = 0\<rparr>),
        redis_state call bs bs'))"

definition auth_rate_limit_subject :: "(pystr \<Rightarrow> pystr) \<Rightarrow> pystr \<Rightarrow> pystr \<Rightarrow> pystr" where
  "auth_rate_limit_subject hash_rate_limit_identifier client_ip identifier =
     client_ip @ py '':'' @ hash_rate_limit_identifier identifier"

subsection \<open>Route dependencies\<close>

definition reject_over_limit ::
  "(rate_limit_error + rate_limit_decision) \<times> buckets \<Rightarrow> (rate_limit_error + unit) \<times> buckets" where
  "reject_over_limit r =
     (case r of (verdict, bs) \<Rightarrow>
        (and_then verdict (\<lambda>decision.
           check (allowed decision) (rate_limit_exceeded (retry_after_seconds decision))), bs))"

definition enforce_message_send_rate_limit ::
  "(rat \<Rightarrow> rat) \<Rightarrow> redis_call \<Rightarrow> rat \<Rightarrow> uuid \<Rightarrow> buckets \<Rightarrow> (rate_limit_error + unit) \<times> buckets" where
  "enforce_message_send_rate_limit stored call now user_id bs =
     reject_over_limit
       (enforce_rate_limit stored call MESSAGE_SEND (py (uuid_str user_id)) True now bs)"

definition enforce_media_upload_rate_limit ::
  "(rat \<Rightarrow> rat) \<Rightarrow> redis_call \<Rightarrow> rat \<Rightarrow> uuid \<Rightarrow> buckets \<Rightarrow> (rate_limit_error + unit) \<times> buckets" where
  "enforce_media_upload_rate_limit stored call now user_id bs =
     reject_over_limit
       (enforce_rate_limit stored call MEDIA_UPLOAD (py (uuid_str user_id)) False now bs)"

definition enforce_general_read_rate_limit ::
  "(rat \<Rightarrow> rat) \<Rightarrow> redis_call \<Rightarrow> rat \<Rightarrow> uuid \<Rightarrow> buckets \<Rightarrow> (rate_limit_error + unit) \<times> buckets" where
  "enforce_general_read_rate_limit stored call now user_id bs =
     reject_over_limit
       (enforce_rate_limit stored call GENERAL_READ (py (uuid_str user_id)) False now bs)"

definition enforce_auth_rate_limit ::
  "(rat \<Rightarrow> rat) \<Rightarrow> (pystr \<Rightarrow> pystr) \<Rightarrow> redis_call \<Rightarrow> rat \<Rightarrow> pystr option \<Rightarrow> pystr \<Rightarrow> buckets \<Rightarrow>
   (rate_limit_error + unit) \<times> buckets" where
  "enforce_auth_rate_limit stored hash call now extracted_ip identifier bs =
     (let client_ip = (case extracted_ip of None \<Rightarrow> py ''unknown'' | Some ip \<Rightarrow> ip)
      in reject_over_limit
           (enforce_rate_limit stored call AUTH (auth_rate_limit_subject hash client_ip identifier)
              True now bs))"

subsection \<open>Frames of one WebSocket\<close>

record frame_rate_limiter =
  fl_max_frames :: int
  fl_window_seconds :: rat
  fl_timestamps :: "rat list"

definition record_and_check :: "rat \<Rightarrow> frame_rate_limiter \<Rightarrow> bool \<times> frame_rate_limiter" where
  "record_and_check now l =
     (let cutoff = now - fl_window_seconds l;
          timestamps = dropWhile (\<lambda>t. t < cutoff) (fl_timestamps l @ [now])
      in (int (length timestamps) > fl_max_frames l, l\<lparr>fl_timestamps := timestamps\<rparr>))"


subsection \<open>Metered resources\<close>

text \<open>A resource whose level pays for every grant: the grants of a run are at most the level
  it starts with and what flows in on the way.\<close>

fun grants :: "('e \<Rightarrow> 's \<Rightarrow> bool \<times> 's) \<Rightarrow> 'e list \<Rightarrow> 's \<Rightarrow> nat" where
  "grants step [] s = 0"
| "grants step (e # es) s =
     (case step e s of (granted, s') \<Rightarrow> (if granted then 1 else 0) + grants step es s')"

fun inflow :: "('e \<Rightarrow> 's \<Rightarrow> bool \<times> 's) \<Rightarrow> ('e \<Rightarrow> 's \<Rightarrow> rat) \<Rightarrow> 'e list \<Rightarrow> 's \<Rightarrow> rat" where
  "inflow step gain [] s = 0"
| "inflow step gain (e # es) s = gain e s + inflow step gain es (snd (step e s))"

locale metered =
  fixes step :: "'e \<Rightarrow> 's \<Rightarrow> bool \<times> 's"
    and valid :: "'e \<Rightarrow> bool"
    and inv :: "'s \<Rightarrow> bool"
    and level :: "'s \<Rightarrow> rat"
    and gain :: "'e \<Rightarrow> 's \<Rightarrow> rat"
  assumes inv_step: "inv s \<Longrightarrow> valid e \<Longrightarrow> inv (snd (step e s))"
    and level_nonneg: "inv s \<Longrightarrow> 0 \<le> level s"
    and level_pays: "inv s \<Longrightarrow> valid e \<Longrightarrow>
      level (snd (step e s)) + (if fst (step e s) then 1 else 0) \<le> level s + gain e s"
begin

lemma grants_le: "inv s \<Longrightarrow> \<forall>e\<in>set es. valid e \<Longrightarrow> of_nat (grants step es s) \<le> level s + inflow step gain es s"
proof (induction es arbitrary: s)
  case Nil
  then show ?case by (simp add: level_nonneg)
next
  case (Cons e es)
  have "of_nat (grants step es (snd (step e s))) \<le> level (snd (step e s)) + inflow step gain es (snd (step e s))"
    using Cons by (simp add: inv_step)
  moreover have "level (snd (step e s)) + (if fst (step e s) then 1 else 0) \<le> level s + gain e s"
    using Cons.prems by (simp add: level_pays)
  ultimately show ?case by (simp add: case_prod_beta split: if_splits)
qed

end

subsection \<open>The level of a bucket\<close>

lemma policies_pos [simp]:
  "0 < rp_refill_rate_per_second (policies s)" "1 \<le> rp_capacity (policies s)"
  by (cases s; simp)+

text \<open>The time to live is longer than the time to fill an empty bucket.\<close>

lemma policies_ttl:
  "of_int (rp_capacity (policies s)) \<le> of_int (rp_ttl_seconds (policies s)) * rp_refill_rate_per_second (policies s)"
  by (cases s) simp_all

definition bucket_ok :: "bucket option \<Rightarrow> bool" where
  "bucket_ok b \<longleftrightarrow> (case b of None \<Rightarrow> True | Some p \<Rightarrow> 0 \<le> fst p)"

lemma refill_le: "refill c r now b \<le> of_int c"
  by (simp add: refill_def case_prod_beta)

lemma refill_nonneg: "bucket_ok b \<Longrightarrow> 0 < r \<Longrightarrow> 1 \<le> c \<Longrightarrow> 0 \<le> refill c r now b"
  by (auto simp: refill_def bucket_ok_def split: option.splits)

lemma refill_None: "refill c r now None = of_int c"
  by (simp add: refill_def)

lemma refill_Some: "refill c r now (Some (tokens, ts)) = min (of_int c) (tokens + max 0 (now - ts) * r)"
  by (simp add: refill_def max_def)

text \<open>Between two instants a bucket gains at most the rate times the advance of the clock.\<close>

lemma refill_advance:
  assumes "0 < r"
  shows "refill c r now b \<le> refill c r before b + r * max 0 (now - before)"
proof (cases b)
  case None
  with assms show ?thesis by (simp add: refill_None)
next
  case (Some p)
  obtain tokens ts where p: "p = (tokens, ts)" by force
  let ?up = "\<lambda>t::rat. max 0 (t - ts)"
  have "?up now \<le> ?up before + max 0 (now - before)" by (simp add: max_def)
  then have "?up now * r \<le> (?up before + max 0 (now - before)) * r"
    using assms by (intro mult_right_mono) auto
  then have up: "?up now * r \<le> ?up before * r + r * max 0 (now - before)"
    by (simp add: algebra_simps)
  have pos: "0 \<le> r * max 0 (now - before)" using assms by simp
  have "min (of_int c) (tokens + x) \<le> min (of_int c) (tokens + y) + z"
    if "x \<le> y + z" "0 \<le> z" for x y z :: rat
    using that by (simp add: min_def)
  from this [OF up pos] show ?thesis by (simp add: Some p refill_Some)
qed

subsection \<open>Admissions on one key\<close>

text \<open>Reading a stored number back is off by at most \<open>\<epsilon>\<close>, below the year 2286.\<close>

definition precise :: "rat \<Rightarrow> (rat \<Rightarrow> rat) \<Rightarrow> bool" where
  "precise \<epsilon> stored \<longleftrightarrow> (\<forall>x. 0 \<le> x \<and> x \<le> 10 ^ 10 \<longrightarrow> 0 \<le> stored x \<and> \<bar>stored x - x\<bar> \<le> \<epsilon>)"

type_synonym limiter_event = "redis_call \<times> rate_limit_scope \<times> pystr \<times> rat"

definition event_key :: "limiter_event \<Rightarrow> pystr" where
  "event_key e = (case e of (call, scope, subject, now) \<Rightarrow> rate_limit_bucket_key scope subject)"

definition event_time :: "limiter_event \<Rightarrow> rat" where
  "event_time e = (case e of (call, scope, subject, now) \<Rightarrow> now)"

definition passes :: "rate_limit_error + rate_limit_decision \<Rightarrow> bool" where
  "passes verdict = (case verdict of Inl e \<Rightarrow> False | Inr d \<Rightarrow> allowed d)"

text \<open>One request of a fail-closed scope against all buckets; the clock of the last request is
  carried along.\<close>

definition limiter_step ::
  "(rat \<Rightarrow> rat) \<Rightarrow> pystr \<Rightarrow> limiter_event \<Rightarrow> buckets \<times> rat \<Rightarrow> bool \<times> buckets \<times> rat" where
  "limiter_step stored key e s =
     (case e of (call, scope, subject, now) \<Rightarrow>
      case enforce_rate_limit stored call scope subject True now (fst s) of (verdict, bs) \<Rightarrow>
        (event_key e = key \<and> passes verdict, bs, now))"

abbreviation admitted :: "(rat \<Rightarrow> rat) \<Rightarrow> pystr \<Rightarrow> limiter_event list \<Rightarrow> buckets \<Rightarrow> rat \<Rightarrow> nat" where
  "admitted stored key es bs clock \<equiv> grants (limiter_step stored key) es (bs, clock)"

text \<open>The total forward movement of the callers' clocks.\<close>

fun advance :: "rat \<Rightarrow> rat list \<Rightarrow> rat" where
  "advance clock [] = 0"
| "advance clock (t # ts) = max 0 (t - clock) + advance t ts"

lemma advance_sorted: "sorted (clock # ts) \<Longrightarrow> advance clock ts = List.last (clock # ts) - clock"
  by (induction ts arbitrary: clock) (auto simp: max_def)

definition step_gain :: "rat \<Rightarrow> rat \<Rightarrow> pystr \<Rightarrow> limiter_event \<Rightarrow> buckets \<times> rat \<Rightarrow> rat" where
  "step_gain r \<epsilon> key e s =
     r * max 0 (event_time e - snd s) + (if event_key e = key then \<epsilon> * (1 + r) else 0)"

lemma limiter_step_clock: "snd (snd (limiter_step stored key e s)) = event_time e"
  by (cases e) (simp add: limiter_step_def event_time_def split: prod.split)

lemma inflow_limiter:
  "inflow (limiter_step stored key) (step_gain r \<epsilon> key) es (bs, clock) =
     r * advance clock (map event_time es) +
     \<epsilon> * (1 + r) * of_nat (length (filter (\<lambda>e. event_key e = key) es))"
proof (induction es arbitrary: bs clock)
  case (Cons e es)
  let ?bs = "fst (snd (limiter_step stored key e (bs, clock)))"
  have "snd (limiter_step stored key e (bs, clock)) = (?bs, event_time e)"
    by (simp add: prod_eq_iff limiter_step_clock)
  then show ?case using Cons.IH [of ?bs "event_time e"]
    by (simp add: step_gain_def algebra_simps)
qed simp

lemma policies_capacity_le: "rp_capacity (policies s) \<le> 60"
  by (cases s) simp_all

text \<open>What the script leaves on its key, and what it answers.\<close>

lemma consume_eq:
  assumes "T = refill (rp_capacity p) (rp_refill_rate_per_second p) now (bs key)"
    and "0 < rp_refill_rate_per_second p"
  shows "consume stored key p now 1 bs =
    (\<lparr>allowed = (1 \<le> T),
      retry_after_seconds = (if 1 \<le> T then 0 else \<lceil>(1 - T) / rp_refill_rate_per_second p\<rceil>)\<rparr>,
     bs(key \<mapsto> (stored (if 1 \<le> T then T - 1 else T), stored now)))"
proof -
  have "0 \<le> \<lceil>(1 - T) / rp_refill_rate_per_second p\<rceil>" if "\<not> 1 \<le> T"
  proof -
    have "0 < (1 - T) / rp_refill_rate_per_second p" using that assms(2) by simp
    then show ?thesis by linarith
  qed
  then show ?thesis
    unfolding consume_def token_bucket_script_def Let_def assms(1) [symmetric] using assms(2)
    by simp
qed

lemma limiter_step_cases:
  fixes scope subject
  defines "key \<equiv> rate_limit_bucket_key scope subject"
    and "c \<equiv> rp_capacity (policies scope)" and "r \<equiv> rp_refill_rate_per_second (policies scope)"
  obtains
    (untouched) "fst (snd (limiter_step stored key e s)) key = fst s key"
      "\<not> fst (limiter_step stored key e s)"
  | (consumed) T where "T = refill c r (event_time e) (fst s key)" "event_key e = key"
      "fst (snd (limiter_step stored key e s)) key =
         Some (stored (if 1 \<le> T then T - 1 else T), stored (event_time e))"
      "fst (limiter_step stored key e s) \<longrightarrow> 1 \<le> T"
proof -
  obtain call scope' subject' now where e: "e = (call, scope', subject', now)" by (cases e)
  show ?thesis
  proof (cases "call = Unreached \<or> event_key e \<noteq> key")
    case True
    then show ?thesis
      by (intro untouched) (auto simp: e limiter_step_def enforce_rate_limit_def check_rate_limit_def
          consume_def redis_state_def redis_fail_closed_def passes_def event_key_def
          split: prod.splits)
  next
    case False
    then have same: "scope' = scope" "subject' = subject"
      by (simp_all add: e event_key_def key_def rate_limit_bucket_key_inj)
    show ?thesis
    proof (rule consumed [OF refl])
      show "event_key e = key" using False by simp
    qed (use False in \<open>auto simp: e same limiter_step_def enforce_rate_limit_def check_rate_limit_def
        consume_eq [OF refl] redis_state_def redis_fail_closed_def passes_def event_time_def
        c_def r_def key_def [symmetric]\<close>)
  qed
qed

definition limiter_ok :: "rat \<Rightarrow> (rat \<Rightarrow> rat) \<Rightarrow> pystr \<Rightarrow> buckets \<times> rat \<Rightarrow> bool" where
  "limiter_ok \<epsilon> stored key s \<longleftrightarrow> precise \<epsilon> stored \<and> 0 \<le> \<epsilon> \<and> bucket_ok (fst s key)"

definition event_ok :: "limiter_event \<Rightarrow> bool" where
  "event_ok e \<longleftrightarrow> 0 \<le> event_time e \<and> event_time e \<le> 10 ^ 10"

lemma refill_bounds:
  assumes "bucket_ok b"
  shows "0 \<le> refill (rp_capacity (policies s)) (rp_refill_rate_per_second (policies s)) now b"
    "refill (rp_capacity (policies s)) (rp_refill_rate_per_second (policies s)) now b \<le> 60"
proof -
  show "0 \<le> refill (rp_capacity (policies s)) (rp_refill_rate_per_second (policies s)) now b"
    using assms by (intro refill_nonneg) auto
  have "of_int (rp_capacity (policies s)) \<le> (60 :: rat)"
    using policies_capacity_le by (metis of_int_le_iff of_int_numeral)
  then show "refill (rp_capacity (policies s)) (rp_refill_rate_per_second (policies s)) now b \<le> 60"
    using refill_le order_trans by blast
qed

lemma limiter_keeps_ok:
  assumes "limiter_ok \<epsilon> stored (rate_limit_bucket_key scope subject) s" "event_ok e"
  shows "limiter_ok \<epsilon> stored (rate_limit_bucket_key scope subject)
    (snd (limiter_step stored (rate_limit_bucket_key scope subject) e s))"
  using assms
proof (cases rule: limiter_step_cases [where stored = stored and e = e and s = s
      and scope = scope and subject = subject])
  case (consumed T)
  have "bucket_ok (fst s (rate_limit_bucket_key scope subject))"
    using assms(1) by (simp add: limiter_ok_def)
  then have "0 \<le> T" "T \<le> 60" using refill_bounds consumed(1) by auto
  then have "0 \<le> stored (if 1 \<le> T then T - 1 else T)"
    using assms(1) by (auto simp: limiter_ok_def precise_def)
  then show ?thesis using assms(1) consumed(3) by (simp add: limiter_ok_def bucket_ok_def)
qed (simp add: limiter_ok_def)

lemma limiter_pays:
  fixes scope subject
  defines "key \<equiv> rate_limit_bucket_key scope subject"
    and "c \<equiv> rp_capacity (policies scope)" and "r \<equiv> rp_refill_rate_per_second (policies scope)"
  assumes ok: "limiter_ok \<epsilon> stored key s" and e: "event_ok e"
  shows "refill c r (event_time e) (fst (snd (limiter_step stored key e s)) key) +
      (if fst (limiter_step stored key e s) then 1 else 0)
    \<le> refill c r (snd s) (fst s key) + step_gain r \<epsilon> key e s"
proof -
  have r: "0 < r" by (simp add: r_def)
  let ?now = "event_time e" and ?b = "fst s key"
  note adv = refill_advance [OF r, of c ?now ?b "snd s"]
  have \<epsilon>: "0 \<le> \<epsilon> * (1 + r)" using ok r by (simp add: limiter_ok_def)
  show ?thesis
  proof (cases rule: limiter_step_cases [where stored = stored and e = e and s = s
      and scope = scope and subject = subject, folded key_def c_def r_def, case_names untouched consumed])
    case untouched
    then show ?thesis using adv \<epsilon> by (simp add: step_gain_def)
  next
    case (consumed T)
    let ?left = "if 1 \<le> T then T - 1 else T" and ?g = "if fst (limiter_step stored key e s) then 1 else 0 :: rat"
    have "bucket_ok ?b" using ok by (simp add: limiter_ok_def)
    then have "0 \<le> T" "T \<le> 60" using refill_bounds consumed(1) by (auto simp: c_def r_def)
    then have "0 \<le> ?left" "?left \<le> 10 ^ 10" by auto
    then have left: "stored ?left \<le> ?left + \<epsilon>" and now: "\<bar>stored ?now - ?now\<bar> \<le> \<epsilon>"
      using ok e by (auto simp: limiter_ok_def precise_def event_ok_def abs_diff_le_iff)
    have "max 0 (?now - stored ?now) \<le> \<epsilon>" using now ok by (auto simp: limiter_ok_def)
    then have "max 0 (?now - stored ?now) * r \<le> \<epsilon> * r" using r by (intro mult_right_mono) auto
    then have "refill c r ?now (Some (stored ?left, stored ?now)) \<le> ?left + \<epsilon> * (1 + r)"
      using left by (simp add: refill_Some algebra_simps)
    moreover have "?left + ?g \<le> T" using consumed(4) by auto
    ultimately show ?thesis
      using adv consumed(2) consumed(1) by (simp add: consumed(3) step_gain_def)
  qed
qed

interpretation bucket: metered
  "limiter_step stored (rate_limit_bucket_key scope subject)" event_ok
  "limiter_ok \<epsilon> stored (rate_limit_bucket_key scope subject)"
  "\<lambda>s. refill (rp_capacity (policies scope)) (rp_refill_rate_per_second (policies scope)) (snd s)
     (fst s (rate_limit_bucket_key scope subject))"
  "step_gain (rp_refill_rate_per_second (policies scope)) \<epsilon> (rate_limit_bucket_key scope subject)"
  for stored \<epsilon> scope subject
proof unfold_locales
  fix s e
  assume ok: "limiter_ok \<epsilon> stored (rate_limit_bucket_key scope subject) s"
  then show "0 \<le> refill (rp_capacity (policies scope)) (rp_refill_rate_per_second (policies scope))
      (snd s) (fst s (rate_limit_bucket_key scope subject))"
    by (simp add: limiter_ok_def refill_bounds)
  assume e: "event_ok e"
  show "limiter_ok \<epsilon> stored (rate_limit_bucket_key scope subject)
      (snd (limiter_step stored (rate_limit_bucket_key scope subject) e s))"
    by (rule limiter_keeps_ok [OF ok e])
  show "refill (rp_capacity (policies scope)) (rp_refill_rate_per_second (policies scope))
        (snd (snd (limiter_step stored (rate_limit_bucket_key scope subject) e s)))
        (fst (snd (limiter_step stored (rate_limit_bucket_key scope subject) e s))
          (rate_limit_bucket_key scope subject)) +
      (if fst (limiter_step stored (rate_limit_bucket_key scope subject) e s) then 1 else 0)
    \<le> refill (rp_capacity (policies scope)) (rp_refill_rate_per_second (policies scope)) (snd s)
        (fst s (rate_limit_bucket_key scope subject)) +
      step_gain (rp_refill_rate_per_second (policies scope)) \<epsilon> (rate_limit_bucket_key scope subject) e s"
    using limiter_pays [OF ok e] by (simp add: limiter_step_clock)
qed

subsection \<open>Properties\<close>

text \<open>
  C13. The token bucket meters: over any sequence of requests to any keys of fail-closed
  scopes, in any order of the callers' clocks and with any Redis failures, the requests
  admitted on one key are at most its capacity plus the refill rate times the forward movement
  of the clocks, up to the rounding of the stored numbers.
\<close>

theorem token_bucket_bound:
  assumes "precise \<epsilon> stored" "0 \<le> \<epsilon>" "bucket_ok (bs (rate_limit_bucket_key scope subject))"
    and "\<forall>e\<in>set es. event_ok e"
  shows "of_nat (admitted stored (rate_limit_bucket_key scope subject) es bs clock)
    \<le> of_int (rp_capacity (policies scope)) +
      rp_refill_rate_per_second (policies scope) * advance clock (map event_time es) +
      \<epsilon> * (1 + rp_refill_rate_per_second (policies scope)) *
        of_nat (length (filter (\<lambda>e. event_key e = rate_limit_bucket_key scope subject) es))"
proof -
  let ?key = "rate_limit_bucket_key scope subject" and ?r = "rp_refill_rate_per_second (policies scope)"
  have "of_nat (admitted stored ?key es bs clock) \<le>
      refill (rp_capacity (policies scope)) ?r clock (bs ?key) +
      inflow (limiter_step stored ?key) (step_gain ?r \<epsilon> ?key) es (bs, clock)"
    using bucket.grants_le [of \<epsilon> stored scope subject "(bs, clock)" es] assms
    by (simp add: limiter_ok_def)
  also have "\<dots> \<le> of_int (rp_capacity (policies scope)) +
      inflow (limiter_step stored ?key) (step_gain ?r \<epsilon> ?key) es (bs, clock)"
    using refill_le by simp
  finally show ?thesis by (simp add: inflow_limiter add.assoc)
qed

definition four_decimals :: "rat \<Rightarrow> rat" where
  "four_decimals x = of_int \<lfloor>x * 10000\<rfloor> / 10000"

lemma precise_four_decimals: "precise (1 / 10000) four_decimals"
proof -
  have "0 \<le> four_decimals x \<and> \<bar>four_decimals x - x\<bar> \<le> 1 / 10000" if "0 \<le> x" for x
  proof -
    have "of_int \<lfloor>x * 10000\<rfloor> \<le> x * 10000" "x * 10000 < of_int \<lfloor>x * 10000\<rfloor> + 1" by linarith+
    then have "\<bar>of_int \<lfloor>x * 10000\<rfloor> - x * 10000\<bar> \<le> 1" by linarith
    then show ?thesis using that by (simp add: four_decimals_def abs_le_iff field_simps)
  qed
  then show ?thesis by (simp add: precise_def)
qed

text \<open>Seven logins for one identifier at one instant: five are admitted.\<close>

lemma token_bucket_bound_witness:
  "admitted four_decimals (rate_limit_bucket_key AUTH (py ''a''))
     (replicate 7 (Answered, AUTH, py ''a'', 1000)) Map.empty 1000 \<le> 5"
proof -
  have rep: "replicate 7 x = [x, x, x, x, x, x, x]" for x :: limiter_event
    by (simp add: numeral_eq_Suc)
  have "of_nat (admitted four_decimals (rate_limit_bucket_key AUTH (py ''a''))
      (replicate 7 (Answered, AUTH, py ''a'', 1000)) Map.empty 1000) < (6 :: rat)"
    using token_bucket_bound [OF precise_four_decimals, where bs = Map.empty and scope = AUTH
        and subject = "py ''a''" and es = "replicate 7 (Answered, AUTH, py ''a'', 1000)"
        and clock = 1000]
    by (simp add: bucket_ok_def event_ok_def event_time_def event_key_def rep)
  then show ?thesis by simp
qed

text \<open>
  The advice of a refusal is exact: a request refused with \<open>Retry-After\<close> r is admitted r
  seconds later if no other request used the bucket, and every retry more than a second
  earlier is refused; r is at least 1.
\<close>

theorem retry_after_is_exact:
  assumes "check_rate_limit (\<lambda>x. x) scope subject now bs = (dec, bs')" "\<not> allowed dec"
  shows "1 \<le> retry_after_seconds dec
    \<and> allowed (fst (check_rate_limit (\<lambda>x. x) scope subject (now + of_int (retry_after_seconds dec)) bs'))
    \<and> (\<forall>t. t \<le> now + of_int (retry_after_seconds dec) - 1 \<longrightarrow>
         \<not> allowed (fst (check_rate_limit (\<lambda>x. x) scope subject t bs')))"
proof -
  let ?key = "rate_limit_bucket_key scope subject" and ?c = "rp_capacity (policies scope)"
    and ?r = "rp_refill_rate_per_second (policies scope)"
  let ?T = "refill ?c ?r now (bs ?key)" and ?n = "retry_after_seconds dec"
  have r: "0 < ?r" and c: "(1 :: rat) \<le> of_int ?c" by simp_all
  from assms have T: "?T < 1" and n: "?n = \<lceil>(1 - ?T) / ?r\<rceil>" and b: "bs' ?key = Some (?T, now)"
    by (auto simp: check_rate_limit_def consume_eq [OF refl])
  have later: "allowed (fst (check_rate_limit (\<lambda>x. x) scope subject t bs')) \<longleftrightarrow>
      1 \<le> ?T + max 0 (t - now) * ?r" for t
    using c by (simp add: check_rate_limit_def consume_eq [OF refl] b refill_Some)
  have "0 < (1 - ?T) / ?r" using T r by simp
  then have n1: "1 \<le> ?n" unfolding n by linarith
  have "(1 - ?T) / ?r \<le> of_int ?n" unfolding n by linarith
  then have "1 - ?T \<le> of_int ?n * ?r" using r by (simp add: pos_divide_le_eq)
  moreover have "max 0 (of_int ?n) = (of_int ?n :: rat)" using n1 by simp
  ultimately have admit: "1 \<le> ?T + max 0 (now + of_int ?n - now) * ?r" by simp
  have "\<not> 1 \<le> ?T + max 0 (t - now) * ?r" if t: "t \<le> now + of_int ?n - 1" for t
  proof -
    have "of_int ?n - 1 < (1 - ?T) / ?r" unfolding n by linarith
    moreover have "max 0 (t - now) \<le> of_int ?n - 1" using t n1 by simp
    ultimately have "max 0 (t - now) < (1 - ?T) / ?r" by linarith
    then have "max 0 (t - now) * ?r < 1 - ?T" using r by (simp only: pos_less_divide_eq)
    then have "?T + max 0 (t - now) * ?r < 1" by (simp only: less_diff_eq add.commute)
    then show ?thesis by (simp only: not_le)
  qed
  with n1 admit show ?thesis by (simp add: later)
qed

lemma retry_after_is_exact_witness:
  "let bs = [rate_limit_bucket_key AUTH [] \<mapsto> (1 / 2, 1000)]
   in allowed (fst (check_rate_limit (\<lambda>x. x) AUTH [] 1030
        (snd (check_rate_limit (\<lambda>x. x) AUTH [] 1000 bs))))"
proof -
  let ?bs = "[rate_limit_bucket_key AUTH [] \<mapsto> (1 / 2, 1000 :: rat)]"
  have d: "fst (check_rate_limit (\<lambda>x. x) AUTH [] 1000 ?bs) = \<lparr>allowed = False, retry_after_seconds = 30\<rparr>"
    by (simp add: check_rate_limit_def consume_eq [OF refl] refill_Some)
  show ?thesis
    using retry_after_is_exact [OF prod.collapse [symmetric], of AUTH "[]" 1000 ?bs] d by simp
qed

text \<open>
  Letting an idle bucket expire changes nothing: a request that comes at least the time to
  live after the bucket was last written gets the same answer, and leaves the same bucket,
  whether the key is still there or already gone.
\<close>

theorem idle_expiry_is_invisible:
  assumes "bs (rate_limit_bucket_key scope subject) = Some (tokens, ts)" "0 \<le> tokens"
    and "of_int (rp_ttl_seconds (policies scope)) \<le> now - ts"
  shows "check_rate_limit stored scope subject now (bs(rate_limit_bucket_key scope subject := None)) =
    check_rate_limit stored scope subject now bs"
proof -
  let ?c = "rp_capacity (policies scope)" and ?r = "rp_refill_rate_per_second (policies scope)"
  have "of_int ?c \<le> of_int (rp_ttl_seconds (policies scope)) * ?r" by (rule policies_ttl)
  also have "\<dots> \<le> max 0 (now - ts) * ?r" 
    using assms(3) less_imp_le [OF policies_pos(1)] by (intro mult_right_mono) auto
  finally have "refill ?c ?r now (Some (tokens, ts)) = of_int ?c"
    using assms(2) by (simp add: refill_Some)
  then show ?thesis
    using assms(1) by (simp add: check_rate_limit_def consume_eq [OF refl] refill_None)
qed

lemma idle_expiry_is_invisible_witness:
  "check_rate_limit four_decimals AUTH [] 2000 Map.empty =
   check_rate_limit four_decimals AUTH [] 2000 [rate_limit_bucket_key AUTH [] \<mapsto> (0, 1000)]"
  using idle_expiry_is_invisible [of "[rate_limit_bucket_key AUTH [] \<mapsto> (0, 1000)]" AUTH "[]" 0 1000 2000]
  by simp

fun frames_seen :: "rat list \<Rightarrow> frame_rate_limiter \<Rightarrow> frame_rate_limiter" where
  "frames_seen [] l = l"
| "frames_seen (t # ts) l = frames_seen ts (snd (record_and_check t l))"

lemma dropWhile_sorted:
  fixes xs :: "'a::linorder list"
  shows "sorted xs \<Longrightarrow> dropWhile (\<lambda>t. t < c) xs = filter (\<lambda>t. c \<le> t) xs"
proof (induction xs)
  case (Cons x xs)
  show ?case
  proof (cases "x < c")
    case False
    with Cons.prems have "filter (\<lambda>t. c \<le> t) xs = xs" by (intro filter_True) auto
    with False show ?thesis by simp
  qed (use Cons in simp)
qed simp

lemma record_keeps [simp]:
  "fl_max_frames (snd (record_and_check t l)) = fl_max_frames l"
  "fl_window_seconds (snd (record_and_check t l)) = fl_window_seconds l"
  by (simp_all add: record_and_check_def Let_def)

lemma frames_seen_keeps [simp]:
  "fl_max_frames (frames_seen ts l) = fl_max_frames l"
  "fl_window_seconds (frames_seen ts l) = fl_window_seconds l"
  by (induction ts arbitrary: l) simp_all

lemma frames_seen_snoc: "frames_seen (ts @ [t]) l = snd (record_and_check t (frames_seen ts l))"
  by (induction ts arbitrary: l) simp_all

lemma sorted_snocD: "sorted (xs @ [x]) \<Longrightarrow> sorted xs \<and> (\<forall>y\<in>set xs. y \<le> x)"
  by (auto simp: sorted_append)

text \<open>Frames dropped once never come back into the window.\<close>

lemma record_step:
  assumes "sorted (ts @ [now])" "c \<le> now - fl_window_seconds l"
    "fl_timestamps l = filter (\<lambda>t. c \<le> t) ts"
  shows "fl_timestamps (snd (record_and_check now l)) =
    filter (\<lambda>t. now - fl_window_seconds l \<le> t) (ts @ [now])"
proof -
  have "sorted (filter (\<lambda>t. c \<le> t) ts @ [now])"
    using sorted_snocD [OF assms(1)] by (auto simp: sorted_append sorted_wrt_filter)
  then have "fl_timestamps (snd (record_and_check now l)) =
      filter (\<lambda>t. now - fl_window_seconds l \<le> t) (filter (\<lambda>t. c \<le> t) ts @ [now])"
    by (simp add: record_and_check_def Let_def assms(3) dropWhile_sorted)
  also have "\<dots> = filter (\<lambda>t. now - fl_window_seconds l \<le> t) (ts @ [now])"
    using assms(2) by (auto intro!: filter_cong)
  finally show ?thesis .
qed

lemma frames_seen_window:
  assumes "sorted (ts @ [now])" "0 \<le> fl_window_seconds l" "fl_timestamps l = []"
  shows "\<exists>c. c \<le> now - fl_window_seconds l \<and> fl_timestamps (frames_seen ts l) = filter (\<lambda>t. c \<le> t) ts"
  using assms(1)
proof (induction ts arbitrary: now rule: rev_induct)
  case Nil
  then show ?case using assms(3) by auto
next
  case (snoc t ts)
  then have ts: "sorted (ts @ [t])" "t \<le> now" using sorted_snocD by fastforce+
  from snoc.IH [OF ts(1)] obtain c where "c \<le> t - fl_window_seconds l"
    "fl_timestamps (frames_seen ts l) = filter (\<lambda>t. c \<le> t) ts" by blast
  from record_step [OF ts(1) _ this(2)] this(1)
  have "fl_timestamps (frames_seen (ts @ [t]) l) = filter (\<lambda>x. t - fl_window_seconds l \<le> x) (ts @ [t])"
    by (simp add: frames_seen_snoc)
  with ts(2) show ?case by (intro exI [of _ "t - fl_window_seconds l"]) simp
qed

text \<open>
  The frame limiter is a true sliding window: after any frames at non-decreasing times, a
  frame is over the limit exactly when more than \<open>max_frames\<close> frames, itself included, fall
  within the last \<open>window_seconds\<close>.
\<close>

theorem frame_limiter_is_sliding_window:
  assumes "sorted (ts @ [now])" "0 \<le> fl_window_seconds l" "fl_timestamps l = []"
  shows "fst (record_and_check now (frames_seen ts l)) \<longleftrightarrow>
    fl_max_frames l < int (length (filter (\<lambda>t. now - fl_window_seconds l \<le> t) (ts @ [now])))"
proof -
  from frames_seen_window [OF assms] obtain c where
    "c \<le> now - fl_window_seconds l" "fl_timestamps (frames_seen ts l) = filter (\<lambda>t. c \<le> t) ts"
    by blast
  with record_step [OF assms(1), of c "frames_seen ts l"]
  have "fl_timestamps (snd (record_and_check now (frames_seen ts l))) =
      filter (\<lambda>t. now - fl_window_seconds l \<le> t) (ts @ [now])" by simp
  moreover have "fst (record_and_check now (frames_seen ts l)) \<longleftrightarrow>
      fl_max_frames l < int (length (fl_timestamps (snd (record_and_check now (frames_seen ts l)))))"
    by (simp add: record_and_check_def Let_def)
  ultimately show ?thesis by simp
qed

lemma frame_limiter_is_sliding_window_witness:
  "let l = \<lparr>fl_max_frames = 2, fl_window_seconds = 10, fl_timestamps = []\<rparr>
   in fst (record_and_check 12 (frames_seen [1, 5] l)) = False \<and>
      fst (record_and_check 12 (frames_seen [2, 5] l)) = True"
  using frame_limiter_is_sliding_window [of "[1, 5]" 12 "\<lparr>fl_max_frames = 2, fl_window_seconds = 10, fl_timestamps = []\<rparr>"]
    frame_limiter_is_sliding_window [of "[2, 5]" 12 "\<lparr>fl_max_frames = 2, fl_window_seconds = 10, fl_timestamps = []\<rparr>"]
  by simp

end
