(* ===== verification/Sessions.thy ===== *)
theory Sessions
  imports Rate_Limit "HOL-Library.Sublist"
begin

text \<open>
  Sessions and the authentication gate: the session store (\<^verbatim>\<open>services/sessions.py\<close>), the
  Redis cache of revocation verdicts over it (\<^verbatim>\<open>services/session_revocation.py\<close>), access
  tokens (\<^verbatim>\<open>core/jwt.py\<close>) and \<open>require_auth\<close> / \<open>require_system_admin\<close>
  (\<^verbatim>\<open>core/deps.py\<close>).  Raw tokens, the token hash and the JWT library are parameters; a
  request reads the clock once.  \<open>others\<close> is what concurrent requests commit between the
  database read and the cache write of one verdict.
\<close>

record account =
  ac_db :: database
  ac_cache :: "string \<Rightarrow> string option"
  ac_buckets :: buckets

subsection \<open>The session store\<close>

record created_session =
  cs_session :: session
  cs_raw_refresh_token :: pystr

abbreviation days :: "int \<Rightarrow> int" where
  "days n \<equiv> seconds (86400 * n)"

definition create_session ::
  "(pystr \<Rightarrow> pystr) \<Rightarrow> uuid \<Rightarrow> pystr \<Rightarrow> datetime \<Rightarrow> int \<Rightarrow> uuid \<Rightarrow> pystr option \<Rightarrow> pystr option \<Rightarrow>
   database \<Rightarrow> integrity_error + created_session \<times> database" where
  "create_session hash new_id raw_token now session_ttl_days user_id user_agent ip_address d =
     (let s = \<lparr>s_id = new_id, s_user_id = user_id, s_refresh_token_hash = hash raw_token,
               s_user_agent = user_agent, s_ip_address = ip_address, s_issued_at = now,
               s_last_used_at = None, s_expires_at = now + days session_ttl_days,
               s_revoked_at = None\<rparr>
      in and_then (insert_session s d) (\<lambda>d'.
           Inr (\<lparr>cs_session = s, cs_raw_refresh_token = raw_token\<rparr>, d')))"

definition list_active_sessions_for_user :: "uuid \<Rightarrow> database \<Rightarrow> session list" where
  "list_active_sessions_for_user user_id d =
     sort_key (\<lambda>s. - s_issued_at s)
       (filter (\<lambda>s. s_user_id s = user_id \<and> s_revoked_at s = None) (tb_sessions d))"

definition extend_session_expiry :: "int \<Rightarrow> datetime \<Rightarrow> session \<Rightarrow> session" where
  "extend_session_expiry session_ttl_days now s =
     s\<lparr>s_last_used_at := Some now, s_expires_at := now + days session_ttl_days\<rparr>"

definition set_revoked :: "datetime \<Rightarrow> uuid list \<Rightarrow> database \<Rightarrow> database" where
  "set_revoked now ids =
     update_sessions (\<lambda>s. s_id s \<in> set ids) (\<lambda>s. s\<lparr>s_revoked_at := Some now\<rparr>)"

definition revoke_sessions_for_user ::
  "uuid \<Rightarrow> uuid option \<Rightarrow> datetime \<Rightarrow> database \<Rightarrow> uuid list \<times> database" where
  "revoke_sessions_for_user user_id except_session_id now d =
     (let revoked_ids = filter (\<lambda>k. except_session_id \<noteq> Some k)
            (map s_id (list_active_sessions_for_user user_id d))
      in (revoked_ids, set_revoked now revoked_ids d))"

datatype revoke_outcome = SESSION_REVOKED | SESSION_NOT_FOUND | SESSION_FORBIDDEN

definition revoke_session ::
  "uuid \<Rightarrow> uuid \<Rightarrow> datetime \<Rightarrow> database \<Rightarrow> revoke_outcome \<times> database" where
  "revoke_session session_id user_id now d =
     (case get_session session_id d of
        None \<Rightarrow> (SESSION_NOT_FOUND, d)
      | Some s \<Rightarrow>
          if s_user_id s \<noteq> user_id then (SESSION_FORBIDDEN, d)
          else (SESSION_REVOKED, if s_revoked_at s = None then set_revoked now [session_id] d else d))"

subsection \<open>Revocation verdicts\<close>

definition read_session_active_from_db :: "datetime \<Rightarrow> uuid \<Rightarrow> database \<Rightarrow> bool" where
  "read_session_active_from_db now session_id d =
     (case get_session session_id d of
        None \<Rightarrow> False
      | Some s \<Rightarrow> s_revoked_at s = None \<and> s_expires_at s > now)"

definition write_cache :: "redis_call \<Rightarrow> uuid \<Rightarrow> bool \<Rightarrow> account \<Rightarrow> account" where
  "write_cache call session_id active w =
     w\<lparr>ac_cache := redis_state call (ac_cache w)
        ((ac_cache w)(session_revocation_key session_id \<mapsto> if active then ''active'' else ''revoked''))\<rparr>"

definition is_session_active ::
  "redis_call \<Rightarrow> redis_call \<Rightarrow> (account \<Rightarrow> account) \<Rightarrow> datetime \<Rightarrow> uuid \<Rightarrow> account \<Rightarrow> bool \<times> account" where
  "is_session_active read_call write_call others now session_id w =
     (case redis_fail_closed (read_call = Answered) (ac_cache w (session_revocation_key session_id)) of
        RedisUnavailable \<Rightarrow> (read_session_active_from_db now session_id (ac_db w), w)
      | RedisOk (Some cached) \<Rightarrow> (cached = ''active'', w)
      | RedisOk None \<Rightarrow>
          (let active = read_session_active_from_db now session_id (ac_db w)
           in (active, write_cache write_call session_id active (others w))))"

definition invalidate_session_cache :: "redis_call \<Rightarrow> uuid \<Rightarrow> account \<Rightarrow> account" where
  "invalidate_session_cache call session_id w =
     w\<lparr>ac_cache := redis_state call (ac_cache w) ((ac_cache w)(session_revocation_key session_id := None))\<rparr>"

text \<open>The loop over the revoked ids after the commit.\<close>

definition invalidate_session_caches :: "redis_call \<Rightarrow> uuid list \<Rightarrow> account \<Rightarrow> account" where
  "invalidate_session_caches call ids w = fold (invalidate_session_cache call) ids w"

subsection \<open>Access tokens\<close>

datatype token_error = ExpiredTokenError | InvalidTokenError

record access_token_payload =
  at_user_id :: pystr
  at_session_id :: pystr
  at_issued_at :: datetime
  at_expires_at :: datetime

text \<open>\<open>int(t.timestamp())\<close>.\<close>

definition unix_seconds :: "datetime \<Rightarrow> int" where
  "unix_seconds t = (if t < 0 then - ((- t) div 1000000) else t div 1000000)"

definition create_access_token ::
  "(json \<Rightarrow> pystr) \<Rightarrow> int \<Rightarrow> datetime \<Rightarrow> pystr \<Rightarrow> pystr \<Rightarrow> pystr \<times> int" where
  "create_access_token jwt_encode ttl_minutes now user_id session_id =
     (let ttl = seconds (60 * ttl_minutes) in
      (jwt_encode (JObj [(''sub'', JStr user_id), (''sid'', JStr session_id),
                         (''iat'', JInt (unix_seconds now)), (''exp'', JInt (unix_seconds (now + ttl)))]),
       60 * ttl_minutes))"

text \<open>\<open>isinstance(raw, int | float)\<close>; a Python bool is an int.\<close>

fun json_number :: "json option \<Rightarrow> int option" where
  "json_number (Some (JInt n)) = Some n"
| "json_number (Some (JBool b)) = Some (of_bool b)"
| "json_number _ = None"

fun json_string :: "json option \<Rightarrow> pystr option" where
  "json_string (Some (JStr s)) = Some s"
| "json_string _ = None"

definition decode_access_token ::
  "(datetime \<Rightarrow> pystr \<Rightarrow> pystr + json) \<Rightarrow> datetime \<Rightarrow> pystr \<Rightarrow> token_error + access_token_payload" where
  "decode_access_token jwt_decode now token =
     (case jwt_decode now token of
        Inl message \<Rightarrow>
          Inl (if sublist (py ''expired'') (ascii_lower message) then ExpiredTokenError else InvalidTokenError)
      | Inr claims \<Rightarrow>
          (case (json_string (jget ''sub'' claims), json_string (jget ''sid'' claims)) of
             (Some user_id, Some session_id) \<Rightarrow>
               (case (json_number (jget ''iat'' claims), json_number (jget ''exp'' claims)) of
                  (Some iat, Some expires) \<Rightarrow>
                    Inr \<lparr>at_user_id = user_id, at_session_id = session_id,
                         at_issued_at = iat * 1000000, at_expires_at = expires * 1000000\<rparr>
                | _ \<Rightarrow> Inl InvalidTokenError)
           | _ \<Rightarrow> Inl InvalidTokenError))"

subsection \<open>The gate of every protected route\<close>

record authenticated_user =
  au_user_id :: uuid
  au_session_id :: uuid

definition require_auth ::
  "(datetime \<Rightarrow> pystr \<Rightarrow> pystr + json) \<Rightarrow> redis_call \<Rightarrow> redis_call \<Rightarrow> (account \<Rightarrow> account) \<Rightarrow> datetime \<Rightarrow>
   (pystr \<times> pystr) option \<Rightarrow> account \<Rightarrow> authenticated_user option \<times> account" where
  "require_auth jwt_decode read_call write_call others now credentials w =
     (case credentials of
        None \<Rightarrow> (None, w)
      | Some (scheme, token) \<Rightarrow>
          if ascii_lower scheme \<noteq> py ''bearer'' \<or> token = [] then (None, w)
          else case decode_access_token jwt_decode now token of
            Inl e \<Rightarrow> (None, w)
          | Inr payload \<Rightarrow>
              (case (parse_uuid (at_user_id payload), parse_uuid (at_session_id payload)) of
                 (Some user_id, Some session_id) \<Rightarrow>
                   (case is_session_active read_call write_call others now session_id w of
                      (session_active, w') \<Rightarrow>
                        if \<not> session_active then (None, w')
                        else (case get_user user_id (ac_db w') of
                                None \<Rightarrow> (None, w')
                              | Some u \<Rightarrow>
                                  (if u_is_active u
                                   then Some \<lparr>au_user_id = user_id, au_session_id = session_id\<rparr> else None, w')))
               | _ \<Rightarrow> (None, w)))"

definition require_system_admin :: "authenticated_user \<Rightarrow> database \<Rightarrow> bool" where
  "require_system_admin current d =
     (case get_user (au_user_id current) d of None \<Rightarrow> False | Some u \<Rightarrow> u_is_system_admin u)"

subsection \<open>Laws of the session store\<close>

lemma session_key_inj [simp]: "session_revocation_key a = session_revocation_key b \<longleftrightarrow> a = b"
  by (simp add: session_revocation_key_def)

lemma get_session_set_revoked:
  "get_session k (set_revoked now ids d) =
     map_option (\<lambda>s. if s_id s \<in> set ids then s\<lparr>s_revoked_at := Some now\<rparr> else s) (get_session k d)"
  unfolding set_revoked_def by (rule session_row.get_upd) simp

lemma set_revoked_only_sessions: "set_revoked now ids d = d\<lparr>tb_sessions := tb_sessions (set_revoked now ids d)\<rparr>"
  by (simp add: set_revoked_def update_sessions_def)

lemma get_user_set_revoked [simp]: "get_user k (set_revoked now ids d) = get_user k d"
  by (simp add: set_revoked_def update_sessions_def get_user_def)

lemma set_list_active:
  "set (list_active_sessions_for_user u d) = {s \<in> set (tb_sessions d). s_user_id s = u \<and> s_revoked_at s = None}"
  by (auto simp: list_active_sessions_for_user_def)

definition sessions_ok :: "database \<Rightarrow> bool" where
  "sessions_ok d \<longleftrightarrow> distinct (map s_id (tb_sessions d)) \<and> distinct (map s_refresh_token_hash (tb_sessions d))"

text \<open>Bulk revocation: exactly the user's sessions that are not yet revoked, except the kept one.\<close>

definition revokes :: "uuid \<Rightarrow> uuid option \<Rightarrow> session \<Rightarrow> bool" where
  "revokes user_id except s \<longleftrightarrow> s_user_id s = user_id \<and> s_revoked_at s = None \<and> except \<noteq> Some (s_id s)"

lemma revoke_sessions_spec:
  assumes "revoke_sessions_for_user u except now d = (ids, d')" "sessions_ok d"
  shows "set ids = {k. \<exists>s. get_session k d = Some s \<and> revokes u except s}"
    and "get_session k d' =
      map_option (\<lambda>s. if revokes u except s then s\<lparr>s_revoked_at := Some now\<rparr> else s) (get_session k d)"
    and "d' = d\<lparr>tb_sessions := tb_sessions d'\<rparr>"
proof -
  have ids: "ids = filter (\<lambda>k. except \<noteq> Some k) (map s_id (list_active_sessions_for_user u d))"
    and d': "d' = set_revoked now ids d"
    using assms(1) by (auto simp: revoke_sessions_for_user_def Let_def)
  have mem: "s \<in> set (tb_sessions d) \<longleftrightarrow> get_session (s_id s) d = Some s" for s
    using assms(2) session_row.get_mem session_row.get_pk by (fastforce simp: sessions_ok_def)
  show ids_eq: "set ids = {k. \<exists>s. get_session k d = Some s \<and> revokes u except s}"
    by (auto simp: ids set_list_active mem revokes_def dest: session_row.get_pk)
  show "get_session k d' =
      map_option (\<lambda>s. if revokes u except s then s\<lparr>s_revoked_at := Some now\<rparr> else s) (get_session k d)"
  proof (cases "get_session k d")
    case (Some s)
    then have "s_id s \<in> set ids \<longleftrightarrow> revokes u except s"
      using session_row.get_pk [OF Some] unfolding ids_eq by auto
    with Some show ?thesis by (simp add: d' get_session_set_revoked)
  qed (simp add: d' get_session_set_revoked)
  show "d' = d\<lparr>tb_sessions := tb_sessions d'\<rparr>" unfolding d' by (rule set_revoked_only_sessions)
qed

lemma set_revoked_ok: "sessions_ok d \<Longrightarrow> sessions_ok (set_revoked now ids d)"
  by (simp add: sessions_ok_def set_revoked_def update_sessions_def)

lemma revoke_sessions_ok:
  "revoke_sessions_for_user u except now d = (ids, d') \<Longrightarrow> sessions_ok d \<Longrightarrow> sessions_ok d'"
  by (auto simp: revoke_sessions_for_user_def Let_def set_revoked_ok)

subsection \<open>Laws of the verdict cache\<close>

lemma invalidate_caches_db [simp]:
  "ac_db (invalidate_session_caches call ids w) = ac_db w"
  "ac_buckets (invalidate_session_caches call ids w) = ac_buckets w"
  unfolding invalidate_session_caches_def
  by (induction ids arbitrary: w) (simp_all add: invalidate_session_cache_def)

lemma invalidate_caches_cache:
  "ac_cache (invalidate_session_caches call ids w) (session_revocation_key k) =
     (if call \<noteq> Unreached \<and> k \<in> set ids then None else ac_cache w (session_revocation_key k))"
  unfolding invalidate_session_caches_def
  by (induction ids arbitrary: w) (auto simp: invalidate_session_cache_def redis_state_def)

lemma write_cache_simps [simp]:
  "ac_db (write_cache call k active w) = ac_db w"
  "ac_buckets (write_cache call k active w) = ac_buckets w"
  by (simp_all add: write_cache_def)

text \<open>A cached "active" is true of the database.\<close>

definition coherent :: "account \<Rightarrow> bool" where
  "coherent w \<longleftrightarrow>
     (\<forall>k. ac_cache w (session_revocation_key k) = Some ''active'' \<longrightarrow>
        (\<exists>s. get_session k (ac_db w) = Some s \<and> s_revoked_at s = None))"

lemma is_session_active_sound:
  assumes "is_session_active rc wc id now k w = (active, w')" "coherent w"
  shows "coherent w' \<and> ac_db w' = ac_db w \<and>
    (active \<longrightarrow> (\<exists>s. get_session k (ac_db w) = Some s \<and> s_revoked_at s = None \<and>
       (ac_cache w (session_revocation_key k) = None \<or> rc \<noteq> Answered \<longrightarrow> now < s_expires_at s)))"
  using assms
  by (cases rc)
     (auto simp: is_session_active_def redis_fail_closed_def read_session_active_from_db_def coherent_def
       write_cache_def redis_state_def Let_def split: option.splits if_splits)

subsection \<open>Signing out\<close>

text \<open>\<open>sign_out u kept now d w w'\<close>: in database \<open>d\<close>, the sessions of user \<open>u\<close> except
  \<open>kept\<close> are revoked and their verdicts deleted from the cache of \<open>w\<close>, which was true of \<open>d\<close>.\<close>

definition sign_out ::
  "uuid \<Rightarrow> uuid option \<Rightarrow> datetime \<Rightarrow> database \<Rightarrow> account \<Rightarrow> account \<Rightarrow> bool" where
  "sign_out u kept now d w w' \<longleftrightarrow>
     sessions_ok d \<and> coherent (w\<lparr>ac_db := d\<rparr>) \<and>
     (\<exists>call ids d'. call \<noteq> Unreached \<and> revoke_sessions_for_user u kept now d = (ids, d') \<and>
        w' = invalidate_session_caches call ids (w\<lparr>ac_db := d'\<rparr>))"

lemma sign_out_session:
  assumes "sign_out u kept now d w w'"
  shows "get_session k (ac_db w') =
     map_option (\<lambda>s. if revokes u kept s then s\<lparr>s_revoked_at := Some now\<rparr> else s) (get_session k d)"
  using assms by (auto simp: sign_out_def revoke_sessions_spec(2))

lemma sign_out_cache:
  assumes "sign_out u kept now d w w'"
  shows "ac_cache w' (session_revocation_key k) =
     (if \<exists>s. get_session k d = Some s \<and> revokes u kept s then None
      else ac_cache w (session_revocation_key k))"
proof -
  from assms obtain call ids d' where *: "sessions_ok d" "call \<noteq> Unreached"
    "revoke_sessions_for_user u kept now d = (ids, d')"
    "w' = invalidate_session_caches call ids (w\<lparr>ac_db := d'\<rparr>)"
    by (auto simp: sign_out_def)
  show ?thesis
    using *(2) unfolding *(4) invalidate_caches_cache revoke_sessions_spec(1) [OF *(3,1)] by auto
qed

lemma sign_out_coherent:
  assumes "sign_out u kept now d w w'"
  shows "coherent w'"
  unfolding coherent_def
proof (intro allI impI)
  fix k assume "ac_cache w' (session_revocation_key k) = Some ''active''"
  then have no: "\<nexists>s. get_session k d = Some s \<and> revokes u kept s"
    and "ac_cache w (session_revocation_key k) = Some ''active''"
    by (simp_all add: sign_out_cache [OF assms] split: if_splits)
  with assms obtain s where "get_session k d = Some s" "s_revoked_at s = None"
    by (auto simp: sign_out_def coherent_def)
  with no show "\<exists>s. get_session k (ac_db w') = Some s \<and> s_revoked_at s = None"
    by (simp add: sign_out_session [OF assms])
qed

lemma sign_out_frame:
  assumes "sign_out u kept now d w w'"
  shows "ac_db w' = d\<lparr>tb_sessions := tb_sessions (ac_db w')\<rparr>"
    and "get_user k (ac_db w') = get_user k d" "sessions_ok (ac_db w')"
    and "ac_buckets w' = ac_buckets w"
proof -
  from assms obtain call ids d' where *: "sessions_ok d"
    "revoke_sessions_for_user u kept now d = (ids, d')" "ac_db w' = d'" "ac_buckets w' = ac_buckets w"
    by (auto simp: sign_out_def)
  show frame: "ac_db w' = d\<lparr>tb_sessions := tb_sessions (ac_db w')\<rparr>"
    unfolding *(3) by (rule revoke_sessions_spec(3) [OF *(2,1)])
  show "get_user k (ac_db w') = get_user k d"
    unfolding get_user_def by (subst frame) simp
  show "sessions_ok (ac_db w')" unfolding *(3) by (rule revoke_sessions_ok [OF *(2,1)])
  show "ac_buckets w' = ac_buckets w" by (rule *(4))
qed

text \<open>A session of the user is out, whatever the cache says and whether or not Redis answers.\<close>

lemma signed_out:
  assumes "sign_out u kept now d w w'" "get_session k d = Some s" "s_user_id s = u" "kept \<noteq> Some k"
  shows "\<not> fst (is_session_active rc wc id t k w')"
    and "\<exists>s'. get_session k (ac_db w') = Some s' \<and> s_revoked_at s' \<noteq> None \<and>
      s_refresh_token_hash s' = s_refresh_token_hash s"
proof -
  have "s_id s = k" using session_row.get_pk [OF assms(2)] by simp
  then show out: "\<exists>s'. get_session k (ac_db w') = Some s' \<and> s_revoked_at s' \<noteq> None \<and>
      s_refresh_token_hash s' = s_refresh_token_hash s"
    using assms(2-4) by (auto simp: sign_out_session [OF assms(1)] revokes_def)
  show "\<not> fst (is_session_active rc wc id t k w')"
    using out is_session_active_sound [OF _ sign_out_coherent [OF assms(1)], of rc wc t k]
    by (cases "is_session_active rc wc id t k w'") fastforce
qed

text \<open>Every other session keeps its row and its verdict.\<close>

lemma stays_in:
  assumes "sign_out u kept now d w w'"
    and "\<And>s. get_session k d = Some s \<Longrightarrow> s_user_id s \<noteq> u \<or> kept = Some k"
  shows "get_session k (ac_db w') = get_session k d"
    and "fst (is_session_active rc wc id t k w') = fst (is_session_active rc wc id t k (w\<lparr>ac_db := d\<rparr>))"
proof -
  have no: "\<not> revokes u kept s" if "get_session k d = Some s" for s
    using assms(2) [OF that] session_row.get_pk [OF that] by (auto simp: revokes_def)
  show row: "get_session k (ac_db w') = get_session k d"
    using no by (cases "get_session k d") (simp_all add: sign_out_session [OF assms(1)])
  have "ac_cache w' (session_revocation_key k) = ac_cache w (session_revocation_key k)"
    using no by (auto simp: sign_out_cache [OF assms(1)])
  then show "fst (is_session_active rc wc id t k w') =
      fst (is_session_active rc wc id t k (w\<lparr>ac_db := d\<rparr>))"
    using row by (cases rc)
      (simp_all add: is_session_active_def redis_fail_closed_def read_session_active_from_db_def Let_def
        split: option.splits)
qed

end
