(* ===== verification/Auth.thy ===== *)
theory Auth
  imports Sessions
begin

text \<open>
  Login, token refresh, logout and the session list: \<^verbatim>\<open>services/auth.py\<close>, the routes of
  \<^verbatim>\<open>api/auth.py\<close> and \<^verbatim>\<open>api/sessions.py\<close>, and \<open>UserOut\<close>.  The case
  foldings of Python and of the database, bcrypt (\<open>verify\<close>) and the JWT library are
  parameters.  Each route runs the rate limit first and commits or rolls back as one step; its
  state is the database, the verdict cache and the buckets.
\<close>

datatype auth_error =
    InvalidCredentialsError
  | AccountDeactivatedError
  | MustChangePasswordError
  | InvalidRefreshTokenError
  | AuthIntegrityError integrity_error

record login_result =
  lr_user :: user
  lr_access_token :: pystr
  lr_expires_in :: int
  lr_refresh_token :: pystr

record refresh_result =
  rr_access_token :: pystr
  rr_expires_in :: int
  rr_refresh_token :: pystr

text \<open>Settings, libraries and the fresh values a request draws.\<close>

record auth_env =
  py_lower :: "pystr \<Rightarrow> pystr"
  db_lower :: "pystr \<Rightarrow> pystr"
  verify :: "pystr \<Rightarrow> pystr \<Rightarrow> bool"
  token_hash :: "pystr \<Rightarrow> pystr"
  jwt_encode :: "json \<Rightarrow> pystr"
  session_ttl_days :: int
  access_token_ttl_minutes :: int

record fresh =
  f_now :: datetime
  f_id :: uuid
  f_raw_token :: pystr

definition find_user_by_email :: "'a auth_env_scheme \<Rightarrow> pystr \<Rightarrow> database \<Rightarrow> user option" where
  "find_user_by_email env email d =
     find (\<lambda>u. db_lower env (u_email u) = py_lower env (py_strip email)) (tb_users d)"

definition authenticate_and_login ::
  "'a auth_env_scheme \<Rightarrow> fresh \<Rightarrow> pystr \<Rightarrow> pystr \<Rightarrow> pystr option \<Rightarrow> pystr option \<Rightarrow> database \<Rightarrow>
   auth_error + login_result \<times> database" where
  "authenticate_and_login env f email password user_agent ip_address d =
     (case find_user_by_email env email d of
        None \<Rightarrow> Inl InvalidCredentialsError
      | Some u \<Rightarrow>
          and_then (check (verify env password (u_hashed_password u)) InvalidCredentialsError) (\<lambda>_.
          and_then (check (u_is_active u) AccountDeactivatedError) (\<lambda>_.
          and_then (check (\<not> u_must_change_password u) MustChangePasswordError) (\<lambda>_.
            case create_session (token_hash env) (f_id f) (f_raw_token f) (f_now f)
                   (session_ttl_days env) (u_id u) user_agent ip_address d of
              Inl e \<Rightarrow> Inl (AuthIntegrityError e)
            | Inr (created, d') \<Rightarrow>
                (case create_access_token (jwt_encode env) (access_token_ttl_minutes env) (f_now f)
                        (py (uuid_str (u_id u))) (py (uuid_str (s_id (cs_session created)))) of
                   (access_token, expires_in) \<Rightarrow>
                     Inr (\<lparr>lr_user = u, lr_access_token = access_token, lr_expires_in = expires_in,
                           lr_refresh_token = cs_raw_refresh_token created\<rparr>, d'))))))"

text \<open>The update of the unique hash column fails if another session already has the hash.\<close>

definition rotate_session :: "session \<Rightarrow> (session \<Rightarrow> session) \<Rightarrow> database \<Rightarrow> integrity_error + database" where
  "rotate_session s f d =
     (if db_exists (\<lambda>t. s_id t \<noteq> s_id s \<and> s_refresh_token_hash t = s_refresh_token_hash (f s)) (tb_sessions d)
      then Inl (UniqueViolation ''uq_sessions_refresh_hash'')
      else Inr (update_sessions (\<lambda>t. s_id t = s_id s) f d))"

text \<open>Reading the session and its user takes no lock; \<open>others\<close> is what other transactions commit
  between these reads and the flush.\<close>

definition refresh_session ::
  "'a auth_env_scheme \<Rightarrow> fresh \<Rightarrow> (database \<Rightarrow> database) \<Rightarrow> pystr \<Rightarrow> database \<Rightarrow> auth_error + refresh_result \<times> database" where
  "refresh_session env f others raw_refresh_token d =
     (case find (\<lambda>s. s_refresh_token_hash s = token_hash env raw_refresh_token) (tb_sessions d) of
        None \<Rightarrow> Inl InvalidRefreshTokenError
      | Some s \<Rightarrow>
          if s_revoked_at s \<noteq> None \<or> s_expires_at s \<le> f_now f then Inl InvalidRefreshTokenError
          else case get_user (s_user_id s) d of
            None \<Rightarrow> Inl InvalidRefreshTokenError
          | Some u \<Rightarrow>
              if \<not> u_is_active u then Inl InvalidRefreshTokenError
              else case rotate_session s
                     (\<lambda>t. extend_session_expiry (session_ttl_days env) (f_now f)
                            (t\<lparr>s_refresh_token_hash := token_hash env (f_raw_token f)\<rparr>)) (others d) of
                     Inl e \<Rightarrow> Inl (AuthIntegrityError e)
                   | Inr d' \<Rightarrow>
                       (case create_access_token (jwt_encode env) (access_token_ttl_minutes env) (f_now f)
                               (py (uuid_str (u_id u))) (py (uuid_str (s_id s))) of
                          (access_token, expires_in) \<Rightarrow>
                            Inr (\<lparr>rr_access_token = access_token, rr_expires_in = expires_in,
                                  rr_refresh_token = f_raw_token f\<rparr>, d')))"

subsection \<open>Routes\<close>

record user_out =
  uo_id :: uuid
  uo_username :: pystr
  uo_email :: pystr
  uo_first_name :: pystr
  uo_last_name :: pystr
  uo_avatar_url :: "pystr option"
  uo_role :: string
  uo_is_active :: bool
  uo_last_seen :: "datetime option"
  uo_created_at :: datetime

definition from_user :: "user \<Rightarrow> user_out" where
  "from_user u =
     \<lparr>uo_id = u_id u, uo_username = u_username u, uo_email = u_email u,
      uo_first_name = u_first_name u, uo_last_name = u_last_name u, uo_avatar_url = u_avatar_url u,
      uo_role = (if u_is_system_admin u then ''system_admin'' else ''user''),
      uo_is_active = u_is_active u, uo_last_seen = u_last_seen u, uo_created_at = u_created_at u\<rparr>"

record login_response =
  lo_access_token :: pystr
  lo_token_type :: string
  lo_expires_in :: int
  lo_refresh_token :: pystr
  lo_user :: user_out

record refresh_response =
  re_access_token :: pystr
  re_token_type :: string
  re_expires_in :: int
  re_refresh_token :: pystr

text \<open>The global handlers of rate-limit errors; the \<open>Retry-After\<close> header is left out.\<close>

fun rate_limit_problem :: "rate_limit_error \<Rightarrow> 'b http" where
  "rate_limit_problem (RateLimitExceededError retry_after) =
     Problem 429 ''Too many requests. Please slow down and retry after the indicated delay.''"
| "rate_limit_problem RateLimitUnavailableError =
     Problem 503 ''Rate limiting is temporarily unavailable; please retry shortly.''"

record limiter_env =
  le_stored :: "rat \<Rightarrow> rat"
  le_call :: redis_call
  le_time :: rat
  le_client_ip :: "pystr option"

definition with_auth_rate_limit ::
  "(pystr \<Rightarrow> pystr) \<Rightarrow> limiter_env \<Rightarrow> pystr \<Rightarrow> (account \<Rightarrow> 'b http \<times> account) \<Rightarrow> account \<Rightarrow>
   'b http \<times> account" where
  "with_auth_rate_limit hash le identifier handler w =
     (case enforce_auth_rate_limit (le_stored le) hash (le_call le) (le_time le) (le_client_ip le)
             identifier (ac_buckets w) of
        (Inl e, bs) \<Rightarrow> (rate_limit_problem e, w\<lparr>ac_buckets := bs\<rparr>)
      | (Inr _, bs) \<Rightarrow> handler (w\<lparr>ac_buckets := bs\<rparr>))"

fun login_problem :: "auth_error \<Rightarrow> 'b http" where
  "login_problem InvalidCredentialsError = Problem 401 ''The email or password is incorrect.''"
| "login_problem AccountDeactivatedError = Problem 403 ''This account has been deactivated.''"
| "login_problem MustChangePasswordError = Problem 403 ''must-change-password''"
| "login_problem InvalidRefreshTokenError = Problem 401 ''The refresh token is invalid, revoked, or expired.''"
| "login_problem (AuthIntegrityError e) = Unhandled e"

definition login ::
  "'a auth_env_scheme \<Rightarrow> limiter_env \<Rightarrow> fresh \<Rightarrow> pystr option \<Rightarrow> pystr \<Rightarrow> pystr \<Rightarrow> account \<Rightarrow>
   login_response http \<times> account" where
  "login env le f user_agent email password =
     with_auth_rate_limit (token_hash env) le email (\<lambda>w.
       case authenticate_and_login env f email password user_agent (le_client_ip le) (ac_db w) of
         Inl e \<Rightarrow> (login_problem e, w)
       | Inr (r, d') \<Rightarrow>
           (Response 200 \<lparr>lo_access_token = lr_access_token r, lo_token_type = ''Bearer'',
              lo_expires_in = lr_expires_in r, lo_refresh_token = lr_refresh_token r,
              lo_user = from_user (lr_user r)\<rparr>, w\<lparr>ac_db := d'\<rparr>))"

definition refresh ::
  "'a auth_env_scheme \<Rightarrow> limiter_env \<Rightarrow> fresh \<Rightarrow> (database \<Rightarrow> database) \<Rightarrow> pystr \<Rightarrow> account \<Rightarrow>
   refresh_response http \<times> account" where
  "refresh env le f others refresh_token =
     with_auth_rate_limit (token_hash env) le refresh_token (\<lambda>w.
       case refresh_session env f others refresh_token (ac_db w) of
         Inl e \<Rightarrow> (login_problem e, w)
       | Inr (r, d') \<Rightarrow>
           (Response 200 \<lparr>re_access_token = rr_access_token r, re_token_type = ''Bearer'',
              re_expires_in = rr_expires_in r, re_refresh_token = rr_refresh_token r\<rparr>,
            w\<lparr>ac_db := d'\<rparr>))"

definition logout :: "redis_call \<Rightarrow> datetime \<Rightarrow> authenticated_user \<Rightarrow> account \<Rightarrow> unit http \<times> account" where
  "logout call now current w =
     (case revoke_session (au_session_id current) (au_user_id current) now (ac_db w) of
        (outcome, d') \<Rightarrow>
          (Response 204 (), invalidate_session_cache call (au_session_id current) (w\<lparr>ac_db := d'\<rparr>)))"

record session_summary =
  ss_session_id :: uuid
  ss_created_at :: datetime
  ss_last_seen_at :: "datetime option"
  ss_device_label :: "pystr option"
  ss_current :: bool

definition list_sessions :: "authenticated_user \<Rightarrow> database \<Rightarrow> session_summary list" where
  "list_sessions current d =
     map (\<lambda>s. \<lparr>ss_session_id = s_id s, ss_created_at = s_issued_at s, ss_last_seen_at = s_last_used_at s,
                ss_device_label = s_user_agent s, ss_current = (s_id s = au_session_id current)\<rparr>)
       (list_active_sessions_for_user (au_user_id current) d)"

definition delete_session ::
  "redis_call \<Rightarrow> datetime \<Rightarrow> uuid \<Rightarrow> authenticated_user \<Rightarrow> account \<Rightarrow> unit http \<times> account" where
  "delete_session call now session_id current w =
     (case revoke_session session_id (au_user_id current) now (ac_db w) of
        (SESSION_NOT_FOUND, d') \<Rightarrow> (Problem 404 ''No such session for this user.'', w)
      | (SESSION_FORBIDDEN, d') \<Rightarrow> (Problem 403 ''This session belongs to another user.'', w)
      | (SESSION_REVOKED, d') \<Rightarrow>
          (Response 204 (), invalidate_session_cache call session_id (w\<lparr>ac_db := d'\<rparr>)))"

subsection \<open>What login and refresh commit\<close>

lemma login_cases:
  assumes "authenticate_and_login env f email password ua ip d = Inr (r, d')"
  obtains u s where "find_user_by_email env email d = Some u" "u \<in> set (tb_users d)"
    "verify env password (u_hashed_password u)" "u_is_active u" "\<not> u_must_change_password u"
    "s = \<lparr>s_id = f_id f, s_user_id = u_id u, s_refresh_token_hash = token_hash env (f_raw_token f),
          s_user_agent = ua, s_ip_address = ip, s_issued_at = f_now f, s_last_used_at = None,
          s_expires_at = f_now f + days (session_ttl_days env), s_revoked_at = None\<rparr>"
    "insert_session s d = Inr d'" "lr_user r = u" "lr_refresh_token r = f_raw_token f"
    "lr_access_token r = fst (create_access_token (jwt_encode env) (access_token_ttl_minutes env)
       (f_now f) (py (uuid_str (u_id u))) (py (uuid_str (f_id f))))"
proof -
  from assms obtain u where u: "find_user_by_email env email d = Some u"
    by (auto simp: authenticate_and_login_def split: option.splits)
  then have "u \<in> set (tb_users d)"
    using find_SomeD by (force simp: find_user_by_email_def)
  have ok: "verify env password (u_hashed_password u)" "u_is_active u" "\<not> u_must_change_password u"
    using assms u by (auto simp: authenticate_and_login_def check_def split: if_splits)
  let ?s = "\<lparr>s_id = f_id f, s_user_id = u_id u, s_refresh_token_hash = token_hash env (f_raw_token f),
          s_user_agent = ua, s_ip_address = ip, s_issued_at = f_now f, s_last_used_at = None,
          s_expires_at = f_now f + days (session_ttl_days env), s_revoked_at = None\<rparr>"
  let ?c = "create_session (token_hash env) (f_id f) (f_raw_token f) (f_now f) (session_ttl_days env)
    (u_id u) ua ip d"
  from assms u ok have c: "(case ?c of Inl e \<Rightarrow> Inl (AuthIntegrityError e)
      | Inr (created, d') \<Rightarrow>
          (case create_access_token (jwt_encode env) (access_token_ttl_minutes env) (f_now f)
                  (py (uuid_str (u_id u))) (py (uuid_str (s_id (cs_session created)))) of
             (access_token, expires_in) \<Rightarrow>
               Inr (\<lparr>lr_user = u, lr_access_token = access_token, lr_expires_in = expires_in,
                     lr_refresh_token = cs_raw_refresh_token created\<rparr>, d'))) = Inr (r, d')"
    by (simp add: authenticate_and_login_def)
  show ?thesis
  proof (cases "insert_session ?s d")
    case (Inl e)
    then have "?c = Inl e" by (simp add: create_session_def Let_def)
    with c show ?thesis by simp
  next
    case (Inr d1)
    then have "?c = Inr (\<lparr>cs_session = ?s, cs_raw_refresh_token = f_raw_token f\<rparr>, d1)"
      by (simp add: create_session_def Let_def)
    with c have "d1 = d'" "r = \<lparr>lr_user = u,
        lr_access_token = fst (create_access_token (jwt_encode env) (access_token_ttl_minutes env)
          (f_now f) (py (uuid_str (u_id u))) (py (uuid_str (f_id f)))),
        lr_expires_in = snd (create_access_token (jwt_encode env) (access_token_ttl_minutes env)
          (f_now f) (py (uuid_str (u_id u))) (py (uuid_str (f_id f)))),
        lr_refresh_token = f_raw_token f\<rparr>"
      by (simp_all add: case_prod_beta)
    with Inr show ?thesis
      by (intro that [OF u \<open>u \<in> set (tb_users d)\<close> ok refl]) simp_all
  qed
qed

lemma refresh_cases:
  assumes "refresh_session env f id raw d = Inr (r, d')"
  obtains s u where "s \<in> set (tb_sessions d)" "s_refresh_token_hash s = token_hash env raw"
    "s_revoked_at s = None" "f_now f < s_expires_at s"
    "get_user (s_user_id s) d = Some u" "u_is_active u"
    "\<forall>t\<in>set (tb_sessions d). s_id t \<noteq> s_id s \<longrightarrow> s_refresh_token_hash t \<noteq> token_hash env (f_raw_token f)"
    "d' = update_sessions (\<lambda>t. s_id t = s_id s)
       (\<lambda>t. extend_session_expiry (session_ttl_days env) (f_now f)
              (t\<lparr>s_refresh_token_hash := token_hash env (f_raw_token f)\<rparr>)) d"
    "rr_refresh_token r = f_raw_token f"
proof -
  from assms obtain s where s: "find (\<lambda>s. s_refresh_token_hash s = token_hash env raw) (tb_sessions d) = Some s"
    by (auto simp: refresh_session_def split: option.splits)
  from find_SomeD [OF s] have m: "s \<in> set (tb_sessions d)" "s_refresh_token_hash s = token_hash env raw"
    by simp_all
  have st: "s_revoked_at s = None" "f_now f < s_expires_at s"
    using assms s by (auto simp: refresh_session_def split: if_splits)
  obtain u where u: "get_user (s_user_id s) d = Some u"
    using assms s st by (cases "get_user (s_user_id s) d") (auto simp: refresh_session_def)
  have act: "u_is_active u"
    using assms s st u by (auto simp: refresh_session_def split: if_splits)
  let ?g = "\<lambda>t. extend_session_expiry (session_ttl_days env) (f_now f)
    (t\<lparr>s_refresh_token_hash := token_hash env (f_raw_token f)\<rparr>)"
  from assms s st u act have c: "(case rotate_session s ?g d of
      Inl e \<Rightarrow> Inl (AuthIntegrityError e)
    | Inr d' \<Rightarrow>
        (case create_access_token (jwt_encode env) (access_token_ttl_minutes env) (f_now f)
                (py (uuid_str (u_id u))) (py (uuid_str (s_id s))) of
           (access_token, expires_in) \<Rightarrow>
             Inr (\<lparr>rr_access_token = access_token, rr_expires_in = expires_in,
                   rr_refresh_token = f_raw_token f\<rparr>, d'))) = Inr (r, d')"
    by (simp add: refresh_session_def)
  have g: "s_refresh_token_hash (?g s) = token_hash env (f_raw_token f)"
    by (simp add: extend_session_expiry_def)
  show ?thesis
  proof (cases "db_exists (\<lambda>t. s_id t \<noteq> s_id s \<and> s_refresh_token_hash t = token_hash env (f_raw_token f))
      (tb_sessions d)")
    case True
    then have "rotate_session s ?g d = Inl (UniqueViolation ''uq_sessions_refresh_hash'')"
      unfolding rotate_session_def g by (rule if_P)
    with c show ?thesis by simp
  next
    case False
    then have "rotate_session s ?g d = Inr (update_sessions (\<lambda>t. s_id t = s_id s) ?g d)"
      unfolding rotate_session_def g by (rule if_not_P)
    with c have "d' = update_sessions (\<lambda>t. s_id t = s_id s) ?g d" "rr_refresh_token r = f_raw_token f"
      by (auto simp: case_prod_beta)
    with False show ?thesis
      by (intro that [OF m st u act]) auto
  qed
qed

lemma refresh_unknown:
  assumes "\<forall>s\<in>set (tb_sessions d). s_refresh_token_hash s \<noteq> token_hash env raw"
  shows "refresh_session env f others raw d = Inl InvalidRefreshTokenError"
proof -
  have "find (\<lambda>s. s_refresh_token_hash s = token_hash env raw) (tb_sessions d) = None"
    using assms by (simp add: find_None_iff)
  then show ?thesis by (simp add: refresh_session_def)
qed

subsection \<open>Retired refresh tokens\<close>

text \<open>Everything that happens to the session table while no newly drawn token has the hash
  \<open>h\<close>: logins, refreshes, revocations, and changes of other tables.\<close>

inductive session_step :: "'a auth_env_scheme \<Rightarrow> pystr \<Rightarrow> database \<Rightarrow> database \<Rightarrow> bool" for env h where
  step_login:
    "authenticate_and_login env f email password ua ip d = Inr (r, d') \<Longrightarrow>
     token_hash env (f_raw_token f) \<noteq> h \<Longrightarrow> session_step env h d d'"
| step_refresh:
    "refresh_session env f id raw d = Inr (r', d') \<Longrightarrow>
     token_hash env (f_raw_token f) \<noteq> h \<Longrightarrow> session_step env h d d'"
| step_revoke: "revoke_session sid u now d = (outcome, d') \<Longrightarrow> session_step env h d d'"
| step_revoke_all: "revoke_sessions_for_user u except now d = (ids, d') \<Longrightarrow> session_step env h d d'"
| step_elsewhere: "tb_sessions d' = tb_sessions d \<Longrightarrow> session_step env h d d'"

definition retired :: "pystr \<Rightarrow> database \<Rightarrow> bool" where
  "retired h d \<longleftrightarrow> (\<forall>s\<in>set (tb_sessions d). s_refresh_token_hash s \<noteq> h)"

lemma retired_update:
  assumes "retired h d" "\<And>s. s_refresh_token_hash s \<noteq> h \<Longrightarrow> s_refresh_token_hash (g s) \<noteq> h"
  shows "retired h (update_sessions c g d)"
  using assms by (auto simp: retired_def update_sessions_def)

lemma retired_set_revoked: "retired h d \<Longrightarrow> retired h (set_revoked now ids d)"
  unfolding set_revoked_def by (rule retired_update) auto

lemma session_step_retired:
  assumes "session_step env h d d'" "retired h d"
  shows "retired h d'"
  using assms(1)
proof cases
  case (step_login f email password ua ip r)
  from step_login(1) show ?thesis
  proof (cases rule: login_cases)
    case (1 u s)
    then have "tb_sessions d' = tb_sessions d @ [s]" "s_refresh_token_hash s = token_hash env (f_raw_token f)"
      using session_row.ins_rows [OF 1(7)] by simp_all
    with step_login(2) assms(2) show ?thesis by (simp add: retired_def)
  qed
next
  case (step_refresh f raw r')
  from step_refresh(1) show ?thesis
  proof (cases rule: refresh_cases)
    case (1 s u)
    show ?thesis
      unfolding 1(8) by (rule retired_update [OF assms(2)]) (simp add: extend_session_expiry_def step_refresh(2))
  qed
next
  case (step_revoke sid u now outcome)
  then show ?thesis
    using assms(2) by (auto simp: revoke_session_def retired_set_revoked split: option.splits if_splits)
next
  case (step_revoke_all u except now ids)
  then show ?thesis
    using assms(2) by (auto simp: revoke_sessions_for_user_def Let_def retired_set_revoked)
next
  case step_elsewhere
  then show ?thesis using assms(2) by (simp add: retired_def)
qed

lemma session_run_retired:
  "(session_step env h)\<^sup>*\<^sup>* d d' \<Longrightarrow> retired h d \<Longrightarrow> retired h d'"
  by (induction rule: rtranclp_induct) (auto dest: session_step_retired)

text \<open>
  C7. A refresh token works once: the refresh that accepts it keeps the session, its user and
  its id, replaces the token and moves the expiry; from then on, through any logins, refreshes
  and revocations that draw other tokens, the old token is refused.
\<close>

theorem refresh_token_single_use:
  assumes "refresh_session env f id raw d = Inr (r, d')" "sessions_ok d"
    and "token_hash env (f_raw_token f) \<noteq> token_hash env raw"
    and "(session_step env (token_hash env raw))\<^sup>*\<^sup>* d' d''"
  shows "refresh_session env g others raw d'' = Inl InvalidRefreshTokenError
    \<and> (\<exists>s. s \<in> set (tb_sessions d) \<and> s_refresh_token_hash s = token_hash env raw \<and> s_revoked_at s = None
        \<and> get_session (s_id s) d' = Some (s\<lparr>s_refresh_token_hash := token_hash env (rr_refresh_token r),
            s_last_used_at := Some (f_now f), s_expires_at := f_now f + days (session_ttl_days env)\<rparr>)
        \<and> (\<forall>k. k \<noteq> s_id s \<longrightarrow> get_session k d' = get_session k d))"
proof -
  from assms(1) obtain s where s: "s \<in> set (tb_sessions d)"
    "s_refresh_token_hash s = token_hash env raw" "s_revoked_at s = None"
    "d' = update_sessions (\<lambda>t. s_id t = s_id s)
       (\<lambda>t. extend_session_expiry (session_ttl_days env) (f_now f)
              (t\<lparr>s_refresh_token_hash := token_hash env (f_raw_token f)\<rparr>)) d"
    "rr_refresh_token r = f_raw_token f" by (rule refresh_cases)
  have other: "s_refresh_token_hash t \<noteq> token_hash env raw"
    if "t \<in> set (tb_sessions d)" "s_id t \<noteq> s_id s" for t
    using assms(2) s(1,2) that unfolding sessions_ok_def distinct_map inj_on_def by metis
  have "retired (token_hash env raw) d'"
    using other assms(3) by (auto simp: s(4) retired_def update_sessions_def extend_session_expiry_def)
  then have "retired (token_hash env raw) d''" by (rule session_run_retired [OF assms(4)])
  then have refused: "refresh_session env g others raw d'' = Inl InvalidRefreshTokenError"
    by (intro refresh_unknown) (simp add: retired_def)
  have get: "get_session k d' = map_option (\<lambda>t. if s_id t = s_id s
      then extend_session_expiry (session_ttl_days env) (f_now f)
              (t\<lparr>s_refresh_token_hash := token_hash env (f_raw_token f)\<rparr>) else t) (get_session k d)" for k
    unfolding s(4) by (rule session_row.get_upd) (simp add: extend_session_expiry_def)
  have "get_session (s_id s) d = Some s"
    using s(1) assms(2) session_row.get_mem by (auto simp: sessions_ok_def)
  then have "get_session (s_id s) d' = Some (s\<lparr>s_refresh_token_hash := token_hash env (rr_refresh_token r),
      s_last_used_at := Some (f_now f), s_expires_at := f_now f + days (session_ttl_days env)\<rparr>)"
    by (simp add: get extend_session_expiry_def s(5))
  moreover have "get_session k d' = get_session k d" if "k \<noteq> s_id s" for k
  proof (cases "get_session k d")
    case (Some t)
    with that session_row.get_pk [OF Some] show ?thesis by (simp add: get)
  qed (simp add: get)
  ultimately show ?thesis using refused s(1,2,3) by blast
qed

definition plain_env :: auth_env where
  "plain_env = \<lparr>py_lower = ascii_lower, db_lower = ascii_lower, verify = (\<lambda>p h. p = h),
     token_hash = (\<lambda>t. t), jwt_encode = (\<lambda>c. py ''jwt''), session_ttl_days = 30,
     access_token_ttl_minutes = 15\<rparr>"

definition alice :: user where
  "alice = \<lparr>u_id = 1, u_username = py ''alice'', u_email = py ''a@x.io'', u_hashed_password = py ''pw1234'',
     u_first_name = py ''Al'', u_last_name = py ''Ng'', u_avatar_url = None, u_is_active = True,
     u_is_system_admin = True, u_must_change_password = False, u_email_verified = True,
     u_last_seen = None, u_created_at = 7\<rparr>"

definition alice_session :: "uuid \<Rightarrow> string \<Rightarrow> session" where
  "alice_session k token = \<lparr>s_id = k, s_user_id = 1, s_refresh_token_hash = py token, s_user_agent = None,
     s_ip_address = None, s_issued_at = 0, s_last_used_at = None, s_expires_at = days 30,
     s_revoked_at = None\<rparr>"

definition alice_db :: "session list \<Rightarrow> database" where
  "alice_db ss = \<lparr>tb_users = [alice], tb_channels = [], tb_members = [], tb_messages = [],
     tb_attachments = [], tb_invites = [], tb_reset_tokens = [], tb_sessions = ss\<rparr>"

definition fresh_at :: "datetime \<Rightarrow> uuid \<Rightarrow> string \<Rightarrow> fresh" where
  "fresh_at t k token = \<lparr>f_now = t, f_id = k, f_raw_token = py token\<rparr>"

lemmas demo_auth_defs = plain_env_def alice_def alice_session_def alice_db_def fresh_at_def

lemma alice_refresh:
  "\<exists>r. refresh_session plain_env (fresh_at 5 0 ''new'') id (py ''old'') (alice_db [alice_session 8 ''old'']) =
     Inr (r, alice_db [alice_session 8 ''new''\<lparr>s_last_used_at := Some 5, s_expires_at := 5 + days 30\<rparr>])"
  by (simp add: refresh_session_def demo_auth_defs get_user_def db_get_def rotate_session_def
      extend_session_expiry_def create_access_token_def update_sessions_def db_update_def)

lemma refresh_token_single_use_witness:
  "\<exists>d'. refresh_session plain_env (fresh_at 9 0 ''x'') id (py ''old'') d' = Inl InvalidRefreshTokenError \<and>
     map s_refresh_token_hash (tb_sessions d') = [py ''new'']"
proof -
  obtain r where r: "refresh_session plain_env (fresh_at 5 0 ''new'') id (py ''old'')
      (alice_db [alice_session 8 ''old'']) =
     Inr (r, alice_db [alice_session 8 ''new''\<lparr>s_last_used_at := Some 5, s_expires_at := 5 + days 30\<rparr>])"
    using alice_refresh by blast
  have "refresh_session plain_env (fresh_at 9 0 ''x'') id (py ''old'')
      (alice_db [alice_session 8 ''new''\<lparr>s_last_used_at := Some 5, s_expires_at := 5 + days 30\<rparr>]) =
      Inl InvalidRefreshTokenError"
    using refresh_token_single_use [OF r _ _ rtranclp.rtrancl_refl]
    by (simp add: sessions_ok_def demo_auth_defs)
  then show ?thesis
    by (intro exI conjI, assumption) (simp add: demo_auth_defs)
qed

text \<open>Two refreshes with one token that both read before either commits are both accepted: the
  second update replaces the token the first one handed out.\<close>

lemma two_refreshes_with_one_token:
  "\<exists>r r' d'. refresh_session plain_env (fresh_at 5 0 ''new'') id (py ''old'') (alice_db [alice_session 8 ''old'']) = Inr (r, d')
     \<and> refresh_session plain_env (fresh_at 5 0 ''more'') (\<lambda>_. d') (py ''old'') (alice_db [alice_session 8 ''old'']) =
         Inr (r', alice_db [alice_session 8 ''more''\<lparr>s_last_used_at := Some 5, s_expires_at := 5 + days 30\<rparr>])
     \<and> rr_refresh_token r = py ''new''"
  by (simp add: refresh_session_def demo_auth_defs get_user_def db_get_def rotate_session_def
      extend_session_expiry_def create_access_token_def update_sessions_def db_update_def)

subsection \<open>Shut out\<close>

text \<open>Neither the access tokens nor the refresh token of a session work any more.\<close>

definition shut_out :: "'a auth_env_scheme \<Rightarrow> uuid \<Rightarrow> session \<Rightarrow> account \<Rightarrow> bool" where
  "shut_out env k s w \<longleftrightarrow>
     (\<forall>rc wc t. \<not> fst (is_session_active rc wc id t k w)) \<and>
     (\<forall>g others raw. token_hash env raw = s_refresh_token_hash s \<longrightarrow>
        refresh_session env g others raw (ac_db w) = Inl InvalidRefreshTokenError)"

text \<open>From \<open>w\<close> to \<open>w'\<close> exactly the sessions of user \<open>u\<close> except \<open>kept\<close> are shut out.\<close>

definition only_signs_out :: "'a auth_env_scheme \<Rightarrow> uuid \<Rightarrow> uuid option \<Rightarrow> account \<Rightarrow> account \<Rightarrow> bool" where
  "only_signs_out env u kept w w' \<longleftrightarrow>
     (\<forall>k s. get_session k (ac_db w) = Some s \<longrightarrow>
        (if s_user_id s = u \<and> kept \<noteq> Some k then shut_out env k s w'
         else get_session k (ac_db w') = Some s \<and>
           (\<forall>rc wc t. fst (is_session_active rc wc id t k w') = fst (is_session_active rc wc id t k w))))"

lemma refresh_revoked:
  assumes "sessions_ok d" "get_session k d = Some s" "s_revoked_at s \<noteq> None"
    and "token_hash env raw = s_refresh_token_hash s"
  shows "refresh_session env g others raw d = Inl InvalidRefreshTokenError"
proof -
  have s: "s \<in> set (tb_sessions d)" using session_row.get_pk [OF assms(2)] by simp
  have "t = s" if "find (\<lambda>s. s_refresh_token_hash s = token_hash env raw) (tb_sessions d) = Some t" for t
    using find_SomeD [OF that] s assms(1,4) by (auto simp: sessions_ok_def distinct_map inj_on_def)
  then show ?thesis
    using assms(3) by (auto simp: refresh_session_def split: option.splits)
qed

lemma shut_outI:
  assumes "coherent w" "sessions_ok (ac_db w)" "get_session k (ac_db w) = Some t" "s_revoked_at t \<noteq> None"
    and "s_refresh_token_hash t = s_refresh_token_hash s"
  shows "shut_out env k s w"
proof -
  have "\<not> fst (is_session_active rc wc id now k w)" for rc wc now
    using is_session_active_sound [OF _ assms(1), of rc wc now k] assms(3,4)
    by (cases "is_session_active rc wc id now k w") fastforce
  moreover have "refresh_session env g others raw (ac_db w) = Inl InvalidRefreshTokenError"
    if "token_hash env raw = s_refresh_token_hash s" for g others raw
    by (rule refresh_revoked [OF assms(2-4)]) (simp add: that assms(5))
  ultimately show ?thesis by (simp add: shut_out_def)
qed

lemma sign_out_only:
  assumes "sign_out u kept now d w w'" "tb_sessions d = tb_sessions (ac_db w)"
  shows "only_signs_out env u kept w w'"
  unfolding only_signs_out_def
proof (intro allI impI)
  fix k s assume s: "get_session k (ac_db w) = Some s"
  have get: "get_session i (ac_db w) = get_session i d" for i
    using assms(2) by (simp add: get_session_def)
  then have verdict: "fst (is_session_active rc wc id t k (w\<lparr>ac_db := d\<rparr>)) = fst (is_session_active rc wc id t k w)"
    for rc wc t
    by (cases rc) (simp_all add: is_session_active_def redis_fail_closed_def
        read_session_active_from_db_def Let_def split: option.splits)
  show "if s_user_id s = u \<and> kept \<noteq> Some k then shut_out env k s w'
    else get_session k (ac_db w') = Some s \<and>
      (\<forall>rc wc t. fst (is_session_active rc wc id t k w') = fst (is_session_active rc wc id t k w))"
  proof (cases "s_user_id s = u \<and> kept \<noteq> Some k")
    case True
    with s signed_out [OF assms(1), of k s]
    obtain s' where s': "get_session k (ac_db w') = Some s'" "s_revoked_at s' \<noteq> None"
      "s_refresh_token_hash s' = s_refresh_token_hash s" by (auto simp: get)
    have "shut_out env k s w'"
      by (rule shut_outI [OF sign_out_coherent [OF assms(1)] sign_out_frame(3) [OF assms(1)] s'])
    then show ?thesis using True by simp
  next
    case False
    then have "s_user_id s' \<noteq> u \<or> kept = Some k" if "get_session k d = Some s'" for s'
      using s that by (simp add: get)
    from stays_in [OF assms(1) this] show ?thesis
      using False s by (auto simp: get verdict)
  qed
qed

subsection \<open>Fresh credentials work\<close>

lemma login_session_found:
  assumes "insert_session s d = Inr d'"
  shows "find (\<lambda>t. s_refresh_token_hash t = s_refresh_token_hash s) (tb_sessions d') = Some s"
    and "get_session (s_id s) d' = Some s"
proof -
  have new: "\<forall>t\<in>set (tb_sessions d). s_refresh_token_hash t \<noteq> s_refresh_token_hash s"
    using assms by (auto simp: insert_session_def split: if_splits)
  have "tb_sessions d' = tb_sessions d @ [s]"
    using session_row.ins_rows [OF assms] by simp
  then show "find (\<lambda>t. s_refresh_token_hash t = s_refresh_token_hash s) (tb_sessions d') = Some s"
    using new by (simp add: find_snoc)
  show "get_session (s_id s) d' = Some s"
    using session_row.get_ins [OF assms, of "s_id s"] by simp
qed

lemma insert_session_users: "insert_session s d = Inr d' \<Longrightarrow> tb_users d' = tb_users d"
  by (auto simp: insert_session_def split: if_splits)

text \<open>
  C29. Login hands out working credentials: until its expiry the access token passes the gate
  as exactly the user and the session of the login, and until the session's expiry the refresh
  token is accepted (the signature library returning the signed claims until they expire).
\<close>

theorem login_hands_out_working_credentials:
  fixes env :: "'a auth_env_scheme"
  defines "claims u sid now \<equiv> JObj [(''sub'', JStr (py (uuid_str u))), (''sid'', JStr (py (uuid_str sid))),
      (''iat'', JInt (unix_seconds now)),
      (''exp'', JInt (unix_seconds (now + seconds (60 * access_token_ttl_minutes env))))]"
  assumes login: "authenticate_and_login env f email password ua ip (ac_db w) = Inr (r, d')"
    and users: "distinct (map u_id (tb_users (ac_db w)))"
    and cold: "ac_cache w (session_revocation_key (f_id f)) = None"
    and jwt: "jwt_encode env (claims (u_id (lr_user r)) (f_id f) (f_now f)) \<noteq> []"
      "jwt_dec t (jwt_encode env (claims (u_id (lr_user r)) (f_id f) (f_now f))) =
         Inr (claims (u_id (lr_user r)) (f_id f) (f_now f))"
    and t: "t < f_now f + days (session_ttl_days env)"
    and g: "f_now g < f_now f + days (session_ttl_days env)"
      "\<forall>s\<in>set (tb_sessions d'). s_refresh_token_hash s \<noteq> token_hash env (f_raw_token g)"
  shows "fst (require_auth jwt_dec rc wc id t (Some (py ''Bearer'', lr_access_token r)) (w\<lparr>ac_db := d'\<rparr>)) =
      Some \<lparr>au_user_id = u_id (lr_user r), au_session_id = f_id f\<rparr>
    \<and> (\<exists>r' d2. refresh_session env g id (lr_refresh_token r) d' = Inr (r', d2))"
  using login
proof (cases rule: login_cases)
  case (1 u s)
  have sid: "s_id s = f_id f" and sx: "s_expires_at s = f_now f + days (session_ttl_days env)"
    and sr: "s_revoked_at s = None" and su: "s_user_id s = u_id u"
    and sh: "s_refresh_token_hash s = token_hash env (f_raw_token f)"
    by (simp_all add: 1(6))
  note found = login_session_found [OF 1(7)]
  have u: "get_user (u_id u) d' = Some u"
    using users 1(2) insert_session_users [OF 1(7)] by (simp add: get_user_def db_get_Some)
  have token: "lr_access_token r = jwt_encode env (claims (u_id u) (f_id f) (f_now f))"
    by (simp add: 1(10) create_access_token_def claims_def)
  have dec: "decode_access_token jwt_dec t (lr_access_token r) =
      Inr \<lparr>at_user_id = py (uuid_str (u_id u)), at_session_id = py (uuid_str (f_id f)),
           at_issued_at = unix_seconds (f_now f) * 1000000,
           at_expires_at = unix_seconds (f_now f + seconds (60 * access_token_ttl_minutes env)) * 1000000\<rparr>"
    using jwt(2) unfolding 1(8) token decode_access_token_def by (simp add: claims_def)
  have act: "fst (is_session_active rc wc id t (f_id f) (w\<lparr>ac_db := d'\<rparr>))"
    using found(2) t cold by (cases rc)
      (simp_all add: is_session_active_def redis_fail_closed_def read_session_active_from_db_def sid sr sx Let_def)
  have db: "ac_db (snd (is_session_active rc wc id t (f_id f) (w\<lparr>ac_db := d'\<rparr>))) = d'"
    using cold by (cases rc) (simp_all add: is_session_active_def redis_fail_closed_def Let_def)
  have ne: "lr_access_token r \<noteq> []" using jwt(1) by (simp add: token 1(8))
  have "fst (require_auth jwt_dec rc wc id t (Some (py ''Bearer'', lr_access_token r)) (w\<lparr>ac_db := d'\<rparr>)) =
      Some \<lparr>au_user_id = u_id u, au_session_id = f_id f\<rparr>"
    using act db u 1(4) ne
    by (simp add: require_auth_def dec parse_uuid_str ascii_lower_def case_prod_beta)
  moreover have "\<exists>r' d2. refresh_session env g id (lr_refresh_token r) d' = Inr (r', d2)"
  proof -
    have rot: "\<exists>d2. rotate_session s h d' = Inr d2"
      if "s_refresh_token_hash (h s) = token_hash env (f_raw_token g)" for h
      using that g(2) by (auto simp: rotate_session_def)
    show ?thesis
      unfolding refresh_session_def
      using found(1) u rot [of "\<lambda>t. extend_session_expiry (session_ttl_days env) (f_now g)
              (t\<lparr>s_refresh_token_hash := token_hash env (f_raw_token g)\<rparr>)"] g(1) 1(4)
      by (auto simp: 1(9) sh sr sx su extend_session_expiry_def case_prod_beta)
  qed
  ultimately show ?thesis by (simp add: 1(8))
qed

definition plain_jwt_dec :: "datetime \<Rightarrow> pystr \<Rightarrow> pystr + json" where
  "plain_jwt_dec t token =
     (if t \<le> 900000000 then
        Inr (JObj [(''sub'', JStr (py (uuid_str 1))), (''sid'', JStr (py (uuid_str 8))),
                   (''iat'', JInt 0), (''exp'', JInt 900)])
      else Inl (py ''Signature has expired.''))"

definition account_of :: "database \<Rightarrow> account" where
  "account_of d = \<lparr>ac_db = d, ac_cache = Map.empty, ac_buckets = Map.empty\<rparr>"

lemma alice_login:
  "authenticate_and_login plain_env (fresh_at 0 8 ''r1'') (py '' A@x.io'') (py ''pw1234'') None None
     (ac_db (account_of (alice_db []))) =
   Inr (\<lparr>lr_user = alice, lr_access_token = py ''jwt'', lr_expires_in = 900, lr_refresh_token = py ''r1''\<rparr>,
        alice_db [alice_session 8 ''r1''])"
  by (simp add: authenticate_and_login_def find_user_by_email_def account_of_def demo_auth_defs
      ascii_lower_def py_strip_def strip_by_def py_isspace_def create_session_def insert_session_def
      create_access_token_def Let_def)

lemma login_hands_out_working_credentials_witness:
  "fst (require_auth plain_jwt_dec Answered Answered id 60000000 (Some (py ''Bearer'', py ''jwt''))
     (account_of (alice_db [alice_session 8 ''r1'']))) = Some \<lparr>au_user_id = 1, au_session_id = 8\<rparr>"
proof -
  have "account_of (alice_db [])\<lparr>ac_db := alice_db [alice_session 8 ''r1'']\<rparr> =
      account_of (alice_db [alice_session 8 ''r1''])"
    by (simp add: account_of_def)
  moreover have "u_id alice = 1" "f_id (fresh_at 0 8 ''r1'') = 8" "f_now (fresh_at 0 8 ''r1'') = 0"
    by (simp_all add: demo_auth_defs)
  moreover have "jwt_encode plain_env c = py ''jwt''" "session_ttl_days plain_env = 30"
    "access_token_ttl_minutes plain_env = 15" "token_hash plain_env x = x" for c x
    by (simp_all add: plain_env_def)
  ultimately show ?thesis
    using login_hands_out_working_credentials [OF alice_login, where t = 60000000 and
        jwt_dec = plain_jwt_dec and g = "fresh_at 60000000 0 ''r2''" and rc = Answered and wc = Answered]
    by (simp add: plain_jwt_dec_def unix_seconds_def)
      (simp add: demo_auth_defs account_of_def)
qed

end
