(* ===== verification/Revocation_Race.thy ===== *)
theory Revocation_Race
  imports Auth
begin

text \<open>
  How long a revoked session can still pass for active: the checks of one session
  (\<open>is_session_active\<close> of \<^verbatim>\<open>services/session_revocation.py\<close>), interleaved at the granularity of
  single Redis commands and database reads with everything that changes the session row, the
  eviction of the cached verdict, its expiry and the loss of Redis commands.  Process \<open>i\<close> is one
  check; at most \<open>delay\<close> passes between its read of the database and its write to the cache.
\<close>

subsection \<open>The step relation\<close>

text \<open>\<open>Asking\<close>: about to read the cache; \<open>Missed\<close>: the cache had no verdict; \<open>Fell_Back\<close>: Redis
  did not answer; \<open>Writing v\<close>: about to write the verdict read from the database.\<close>

datatype check_pc = Asking | Missed | Fell_Back | Writing bool | Answered_With bool

text \<open>The cache entry carries the time at which Redis drops it; \<open>rv_read_at\<close> is when a check read
  the database and \<open>rv_revoked_at\<close> when the revocation was committed.\<close>

record checks =
  rv_now :: datetime
  rv_db :: database
  rv_entry :: "(string \<times> datetime) option"
  rv_pc :: "nat \<Rightarrow> check_pc"
  rv_read_at :: "nat \<Rightarrow> datetime"
  rv_revoked_at :: "datetime option"

abbreviation goes :: "checks \<Rightarrow> nat \<Rightarrow> check_pc \<Rightarrow> checks" where
  "goes s i p \<equiv> s\<lparr>rv_pc := (rv_pc s)(i := p)\<rparr>"

definition cached :: "checks \<Rightarrow> string option" where
  "cached s = (case rv_entry s of None \<Rightarrow> None | Some (v, e) \<Rightarrow> if rv_now s < e then Some v else None)"

definition verdict :: "bool \<Rightarrow> string" where
  "verdict active = (if active then ''active'' else ''revoked'')"

definition revoked_in :: "uuid \<Rightarrow> database \<Rightarrow> bool" where
  "revoked_in sid d \<longleftrightarrow>
     (case get_session sid d of None \<Rightarrow> True | Some r \<Rightarrow> s_revoked_at r \<noteq> None)"

inductive check_step :: "int \<Rightarrow> int \<Rightarrow> uuid \<Rightarrow> checks \<Rightarrow> checks \<Rightarrow> bool" for ttl delay sid where
  get_hit:
    "rv_pc s i = Asking \<Longrightarrow> cached s = Some v \<Longrightarrow>
     check_step ttl delay sid s (goes s i (Answered_With (v = ''active'')))"
| get_miss: "rv_pc s i = Asking \<Longrightarrow> cached s = None \<Longrightarrow> check_step ttl delay sid s (goes s i Missed)"
| get_fails: "rv_pc s i = Asking \<Longrightarrow> check_step ttl delay sid s (goes s i Fell_Back)"
| read_fallback:
    "rv_pc s i = Fell_Back \<Longrightarrow>
     check_step ttl delay sid s (goes s i (Answered_With (read_session_active_from_db (rv_now s) sid (rv_db s))))"
| read_missed:
    "rv_pc s i = Missed \<Longrightarrow>
     check_step ttl delay sid s
       ((goes s i (Writing (read_session_active_from_db (rv_now s) sid (rv_db s))))
          \<lparr>rv_read_at := (rv_read_at s)(i := rv_now s)\<rparr>)"
| set_executed:
    "rv_pc s i = Writing v \<Longrightarrow>
     check_step ttl delay sid s ((goes s i (Answered_With v))\<lparr>rv_entry := Some (verdict v, rv_now s + ttl)\<rparr>)"
| set_lost: "rv_pc s i = Writing v \<Longrightarrow> check_step ttl delay sid s (goes s i (Answered_With v))"
| commit:
    "(revoked_in sid (rv_db s) \<Longrightarrow> revoked_in sid d') \<Longrightarrow>
     check_step ttl delay sid s
       (s\<lparr>rv_db := d',
          rv_revoked_at := (if revoked_in sid d' \<and> rv_revoked_at s = None then Some (rv_now s) else rv_revoked_at s)\<rparr>)"
| evict: "check_step ttl delay sid s (s\<lparr>rv_entry := None\<rparr>)"
| passes:
    "rv_now s \<le> t \<Longrightarrow> (\<And>i v. rv_pc s i = Writing v \<Longrightarrow> t \<le> rv_read_at s i + delay) \<Longrightarrow>
     check_step ttl delay sid s (s\<lparr>rv_now := t\<rparr>)"

definition no_checks :: "datetime \<Rightarrow> uuid \<Rightarrow> database \<Rightarrow> checks" where
  "no_checks now sid d =
     \<lparr>rv_now = now, rv_db = d, rv_entry = None, rv_pc = (\<lambda>_. Asking), rv_read_at = (\<lambda>_. now),
      rv_revoked_at = (if revoked_in sid d then Some now else None)\<rparr>"

lemma revoked_not_active: "revoked_in sid d \<Longrightarrow> \<not> read_session_active_from_db now sid d"
  by (auto simp: revoked_in_def read_session_active_from_db_def split: option.splits)

lemma cached_goes [simp]: "cached (goes s i p) = cached s"
  by (auto simp: cached_def split: option.split)

text \<open>A check that nobody interferes with is the code's function.\<close>

lemma check_alone:
  assumes "rv_pc s i = Asking" "cached s = ac_cache w (session_revocation_key sid)" "rv_db s = ac_db w" "0 < ttl"
    "is_session_active read_call write_call id (rv_now s) sid w = (b, w')"
  shows "\<exists>s'. (check_step ttl delay sid)\<^sup>*\<^sup>* s s' \<and> rv_pc s' i = Answered_With b
    \<and> cached s' = ac_cache w' (session_revocation_key sid)"
proof (cases "read_call = Answered")
  case False
  have "check_step ttl delay sid s (goes s i Fell_Back)" using assms(1) by (rule get_fails)
  moreover have "check_step ttl delay sid (goes s i Fell_Back) (goes (goes s i Fell_Back) i
      (Answered_With (read_session_active_from_db (rv_now (goes s i Fell_Back)) sid (rv_db (goes s i Fell_Back)))))"
    by (rule read_fallback) simp
  ultimately have "(check_step ttl delay sid)\<^sup>*\<^sup>* s (goes (goes s i Fell_Back) i
      (Answered_With (read_session_active_from_db (rv_now s) sid (rv_db s))))" by simp
  moreover have "b = read_session_active_from_db (rv_now s) sid (rv_db s)" "w' = w"
    using assms(3,5) False by (auto simp: is_session_active_def redis_fail_closed_def)
  ultimately show ?thesis using assms(2)
    by (intro exI [of _ "goes (goes s i Fell_Back) i (Answered_With b)"]) simp
next
  case True
  show ?thesis
  proof (cases "cached s")
    case (Some v)
    then have "b = (v = ''active'')" "w' = w"
      using assms(2,5) True by (auto simp: is_session_active_def redis_fail_closed_def)
    then have "check_step ttl delay sid s (goes s i (Answered_With b))" using get_hit [OF assms(1) Some] by simp
    then show ?thesis using assms(2) \<open>w' = w\<close>
      by (intro exI [of _ "goes s i (Answered_With b)"]) auto
  next
    case None
    let ?b = "read_session_active_from_db (rv_now s) sid (rv_db s)"
    let ?s1 = "goes s i Missed"
    let ?s2 = "(goes ?s1 i (Writing ?b))\<lparr>rv_read_at := (rv_read_at ?s1)(i := rv_now ?s1)\<rparr>"
    have b: "b = ?b" and w': "w' = write_cache write_call sid b w"
      using assms(2,3,5) True None by (auto simp: is_session_active_def redis_fail_closed_def Let_def)
    have one: "check_step ttl delay sid s ?s1" using assms(1) None by (rule get_miss)
    have two: "check_step ttl delay sid ?s1 ?s2" using read_missed [of ?s1 i ttl delay sid] by simp
    have pc: "rv_pc ?s2 i = Writing ?b" by simp
    show ?thesis
    proof (cases "write_call = Unreached")
      case True
      let ?s3 = "goes ?s2 i (Answered_With ?b)"
      have "check_step ttl delay sid ?s2 ?s3" using pc by (rule set_lost)
      then have "(check_step ttl delay sid)\<^sup>*\<^sup>* s ?s3" using one two by (meson converse_rtranclp_into_rtranclp rtranclp.rtrancl_refl)
      moreover have "cached ?s3 = ac_cache w' (session_revocation_key sid)"
      proof -
        have "cached ?s3 = cached s" by (auto simp: cached_def split: option.split)
        then show ?thesis using assms(2) True by (simp add: w' write_cache_def redis_state_def)
      qed
      ultimately show ?thesis using b by (intro exI [of _ ?s3]) simp
    next
      case False
      let ?s3 = "(goes ?s2 i (Answered_With ?b))\<lparr>rv_entry := Some (verdict ?b, rv_now ?s2 + ttl)\<rparr>"
      have "check_step ttl delay sid ?s2 ?s3" using pc by (rule set_executed)
      then have "(check_step ttl delay sid)\<^sup>*\<^sup>* s ?s3" using one two by (meson converse_rtranclp_into_rtranclp rtranclp.rtrancl_refl)
      moreover have "cached ?s3 = ac_cache w' (session_revocation_key sid)"
        using assms(4) False b by (simp add: w' write_cache_def redis_state_def cached_def verdict_def)
      ultimately show ?thesis using b by (intro exI [of _ ?s3]) simp
    qed
  qed
qed

subsection \<open>Staleness is bounded\<close>

definition checks_ok :: "int \<Rightarrow> int \<Rightarrow> uuid \<Rightarrow> checks \<Rightarrow> bool" where
  "checks_ok ttl delay sid s \<longleftrightarrow>
     (\<forall>i v. rv_pc s i = Writing v \<longrightarrow> rv_read_at s i \<le> rv_now s \<and> rv_now s \<le> rv_read_at s i + delay)
     \<and> (\<forall>e. rv_entry s = Some (''active'', e) \<longrightarrow> e \<le> rv_now s + ttl)
     \<and> (revoked_in sid (rv_db s) \<longleftrightarrow> rv_revoked_at s \<noteq> None)
     \<and> (\<forall>T. rv_revoked_at s = Some T \<longrightarrow>
          T \<le> rv_now s \<and> (\<forall>i. rv_pc s i = Writing True \<longrightarrow> rv_read_at s i \<le> T)
          \<and> (\<forall>e. rv_entry s = Some (''active'', e) \<longrightarrow> e \<le> T + delay + ttl))"

lemma no_checks_ok: "checks_ok ttl delay sid (no_checks now sid d)"
  by (simp add: checks_ok_def no_checks_def)

lemma check_step_ok:
  assumes "check_step ttl delay sid s s'" "checks_ok ttl delay sid s" "0 \<le> delay" "0 \<le> ttl"
  shows "checks_ok ttl delay sid s'"
  using assms
proof (induction rule: check_step.induct)
  case (read_missed s i)
  then show ?case
    using revoked_not_active [of sid "rv_db s" "rv_now s"] by (auto simp: checks_ok_def)
next
  case (set_executed s i v)
  then have w: "rv_read_at s i \<le> rv_now s" "rv_now s \<le> rv_read_at s i + delay"
    and T: "\<And>T. rv_revoked_at s = Some T \<Longrightarrow> v \<Longrightarrow> rv_read_at s i \<le> T"
    by (auto simp: checks_ok_def)
  have "rv_now s + ttl \<le> T + delay + ttl" if "rv_revoked_at s = Some T" "v" for T
    using w T [OF that] by linarith
  then show ?case using set_executed by (auto simp: checks_ok_def verdict_def)
next
  case (commit s d')
  then show ?case by (auto simp: checks_ok_def)
qed (fastforce simp: checks_ok_def)+

lemma checks_run_ok:
  "(check_step ttl delay sid)\<^sup>*\<^sup>* s s' \<Longrightarrow> checks_ok ttl delay sid s \<Longrightarrow> 0 \<le> delay \<Longrightarrow> 0 \<le> ttl \<Longrightarrow>
   checks_ok ttl delay sid s'"
  by (induction rule: rtranclp_induct) (auto intro: check_step_ok)

text \<open>Nothing can make check \<open>j\<close> answer active any more.\<close>

definition refused :: "nat \<Rightarrow> checks \<Rightarrow> bool" where
  "refused j s \<longleftrightarrow> rv_pc s j \<notin> {Writing True, Answered_With True}"

text \<open>Past the bound, a live entry says revoked and a read finds the revocation.\<close>

definition past_bound :: "int \<Rightarrow> int \<Rightarrow> uuid \<Rightarrow> datetime \<Rightarrow> checks \<Rightarrow> bool" where
  "past_bound ttl delay sid T s \<longleftrightarrow> checks_ok ttl delay sid s \<and> rv_revoked_at s = Some T \<and> T + delay + ttl \<le> rv_now s"

lemma past_bound_step:
  assumes "check_step ttl delay sid s s'" "past_bound ttl delay sid T s" "refused j s" "0 \<le> delay" "0 \<le> ttl"
  shows "past_bound ttl delay sid T s' \<and> refused j s'"
proof -
  have ok: "checks_ok ttl delay sid s" and T: "rv_revoked_at s = Some T" "T + delay + ttl \<le> rv_now s"
    using assms(2) by (auto simp: past_bound_def)
  have rev: "revoked_in sid (rv_db s)" using ok T(1) by (simp add: checks_ok_def)
  have stale: "cached s \<noteq> Some ''active''"
    using ok T by (fastforce simp: checks_ok_def cached_def split: option.splits if_splits)
  have "rv_revoked_at s' = Some T" "T + delay + ttl \<le> rv_now s'" "refused j s'"
    using assms(1,3) T stale revoked_not_active [OF rev, of "rv_now s"]
    by (cases; auto simp: refused_def)+
  then show ?thesis using check_step_ok [OF assms(1) ok assms(4,5)] by (simp add: past_bound_def)
qed

text \<open>The revocation took at once: it is committed, no entry says active and no check is about to
  write one.\<close>

definition settled :: "uuid \<Rightarrow> checks \<Rightarrow> bool" where
  "settled sid s \<longleftrightarrow> revoked_in sid (rv_db s) \<and> (\<forall>e. rv_entry s \<noteq> Some (''active'', e)) \<and> (\<forall>i. rv_pc s i \<noteq> Writing True)"

lemma settled_step:
  assumes "check_step ttl delay sid s s'" "settled sid s" "refused j s"
  shows "settled sid s' \<and> refused j s'"
proof -
  have rev: "revoked_in sid (rv_db s)" and W: "rv_pc s i = Writing v \<Longrightarrow> \<not> v" for i v
    using assms(2) by (cases v; auto simp: settled_def)+
  have stale: "cached s \<noteq> Some ''active''"
    using assms(2) by (auto simp: settled_def cached_def split: option.splits)
  show ?thesis
    using assms stale revoked_not_active [OF rev, of "rv_now s"]
    by (cases; auto simp: settled_def refused_def verdict_def dest: W)
qed

text \<open>
  C8. How late a revocation can take effect is bounded: once the entry's life time and the
  longest time a check takes have passed since the commit, no check that begins answers active,
  whatever failed, however the checks, the eviction and other transactions interleaved; and it takes
  effect at once, for good, if the eviction was executed and no check was in between.  A check
  that finds Redis down answers by the database and is never late.
\<close>

theorem revocation_is_bounded:
  assumes "(check_step ttl delay sid)\<^sup>*\<^sup>* (no_checks now0 sid d) s" "(check_step ttl delay sid)\<^sup>*\<^sup>* s s'"
    "rv_pc s j = Asking" "rv_revoked_at s = Some T" "0 \<le> delay" "0 \<le> ttl"
  shows "(T + delay + ttl \<le> rv_now s \<or> settled sid s \<longrightarrow> rv_pc s' j \<noteq> Answered_With True)
    \<and> (rv_pc s' i = Fell_Back \<longrightarrow> \<not> read_session_active_from_db (rv_now s') sid (rv_db s'))"
proof
  have ok: "checks_ok ttl delay sid s" by (rule checks_run_ok [OF assms(1) no_checks_ok assms(5,6)])
  have start: "refused j s" using assms(3) by (simp add: refused_def)
  show "T + delay + ttl \<le> rv_now s \<or> settled sid s \<longrightarrow> rv_pc s' j \<noteq> Answered_With True"
  proof (intro impI, elim disjE)
    assume "T + delay + ttl \<le> rv_now s"
    then have "past_bound ttl delay sid T s" using ok assms(4) by (simp add: past_bound_def)
    with assms(2) start have "past_bound ttl delay sid T s' \<and> refused j s'"
      by (induction rule: rtranclp_induct) (auto dest: past_bound_step simp: assms(5,6))
    then show "rv_pc s' j \<noteq> Answered_With True" by (simp add: refused_def)
  next
    assume "settled sid s"
    with assms(2) start have "settled sid s' \<and> refused j s'"
      by (induction rule: rtranclp_induct) (auto dest: settled_step)
    then show "rv_pc s' j \<noteq> Answered_With True" by (simp add: refused_def)
  qed
  have "rv_revoked_at s' \<noteq> None"
    using assms(2,4) by (induction rule: rtranclp_induct) (auto elim: check_step.cases)
  moreover have "checks_ok ttl delay sid s'" by (rule checks_run_ok [OF assms(2) ok assms(5,6)])
  ultimately show "rv_pc s' i = Fell_Back \<longrightarrow> \<not> read_session_active_from_db (rv_now s') sid (rv_db s')"
    using revoked_not_active by (simp add: checks_ok_def)
qed

text \<open>The bound is needed: a check between its two commands undoes the eviction, and the next one
  is told active after the revocation was committed and evicted.\<close>

definition live_db :: database where "live_db = alice_db [alice_session 8 ''r1'']"

definition dead_db :: database where "dead_db = alice_db [(alice_session 8 ''r1'')\<lparr>s_revoked_at := Some 6\<rparr>]"

lemma live_dead: "\<not> revoked_in 8 live_db" "revoked_in 8 dead_db" "read_session_active_from_db 5 8 live_db"
  by (simp_all add: revoked_in_def read_session_active_from_db_def live_db_def dead_db_def alice_db_def
      alice_session_def get_session_def db_get_def)

text \<open>After a miss and a read of the live session by check 0, the revocation and its eviction.\<close>

definition undone :: checks where
  "undone = (no_checks 5 8 live_db)\<lparr>rv_db := dead_db, rv_pc := (\<lambda>_. Asking)(0 := Writing True), rv_revoked_at := Some 5\<rparr>"

lemma undone_reached: "(check_step 30 2 8)\<^sup>*\<^sup>* (no_checks 5 8 live_db) undone"
proof -
  let ?s0 = "no_checks 5 8 live_db"
  let ?s1 = "goes ?s0 0 Missed"
  let ?s2 = "(goes ?s1 0 (Writing True))\<lparr>rv_read_at := (rv_read_at ?s1)(0 := rv_now ?s1)\<rparr>"
  let ?s3 = "?s2\<lparr>rv_db := dead_db, rv_revoked_at := Some 5\<rparr>"
  have "check_step 30 2 8 ?s0 ?s1" by (rule get_miss) (simp_all add: no_checks_def cached_def)
  moreover have "check_step 30 2 8 ?s1 ?s2"
    using read_missed [of ?s1 0 30 2 8] live_dead(3) by (simp add: no_checks_def)
  moreover have "check_step 30 2 8 ?s2 ?s3"
    using commit [of 8 ?s2 dead_db 30 2] live_dead(1,2) by (simp add: no_checks_def)
  moreover have "check_step 30 2 8 ?s3 (?s3\<lparr>rv_entry := None\<rparr>)" by (rule evict)
  moreover have "?s3\<lparr>rv_entry := None\<rparr> = undone"
    by (auto simp: undone_def no_checks_def live_dead(1) fun_eq_iff)
  ultimately show ?thesis by (metis (no_types, lifting) converse_rtranclp_into_rtranclp rtranclp.rtrancl_refl)
qed

theorem revoked_session_answers_active:
  "\<exists>s. (check_step 30 2 8)\<^sup>*\<^sup>* (no_checks 5 8 live_db) undone \<and> revoked_in 8 (rv_db undone) \<and> rv_entry undone = None
    \<and> rv_pc undone 1 = Asking \<and> (check_step 30 2 8)\<^sup>*\<^sup>* undone s \<and> rv_pc s 1 = Answered_With True"
proof -
  let ?s1 = "(goes undone 0 (Answered_With True))\<lparr>rv_entry := Some (verdict True, rv_now undone + 30)\<rparr>"
  let ?s2 = "goes ?s1 1 (Answered_With True)"
  have "check_step 30 2 8 undone ?s1" by (rule set_executed) (simp add: undone_def)
  moreover have "check_step 30 2 8 ?s1 ?s2"
    using get_hit [of ?s1 1 "''active''" 30 2 8] by (simp add: undone_def no_checks_def cached_def verdict_def)
  ultimately have "(check_step 30 2 8)\<^sup>*\<^sup>* undone ?s2" by (meson converse_rtranclp_into_rtranclp rtranclp.rtrancl_refl)
  then show ?thesis
    using undone_reached live_dead(2) by (intro exI [of _ ?s2]) (simp add: undone_def no_checks_def)
qed

lemma revocation_is_bounded_witness:
  "\<exists>s. (check_step 30 2 8)\<^sup>*\<^sup>* (no_checks 5 8 live_db) s \<and> rv_now s = 37 \<and> rv_pc s 1 \<noteq> Answered_With True"
proof -
  let ?s1 = "goes undone 0 (Answered_With True)"
  let ?s2 = "?s1\<lparr>rv_now := 37\<rparr>"
  have "check_step 30 2 8 undone ?s1" by (rule set_lost) (simp add: undone_def)
  moreover have "check_step 30 2 8 ?s1 ?s2" by (rule passes) (auto simp: undone_def no_checks_def split: if_splits)
  ultimately have run: "(check_step 30 2 8)\<^sup>*\<^sup>* (no_checks 5 8 live_db) ?s2" using undone_reached by (meson rtranclp.rtrancl_into_rtrancl)
  have "check_step 30 2 8 ?s2 (goes ?s2 1 Missed)"
    by (rule get_miss) (simp_all add: undone_def no_checks_def cached_def)
  then have step: "(check_step 30 2 8)\<^sup>*\<^sup>* ?s2 (goes ?s2 1 Missed)" by blast
  have "rv_pc ?s2 1 = Asking" "rv_revoked_at ?s2 = Some 5" "5 + 2 + 30 \<le> rv_now ?s2"
    by (simp_all add: undone_def)
  from revocation_is_bounded [OF run step this(1,2)] this(3)
  have "rv_pc (goes ?s2 1 Missed) 1 \<noteq> Answered_With True" by simp
  moreover have "(check_step 30 2 8)\<^sup>*\<^sup>* (no_checks 5 8 live_db) (goes ?s2 1 Missed)" using run step by simp
  ultimately show ?thesis by (intro exI [of _ "goes ?s2 1 Missed"]) simp
qed

end
