(* ===== verification/Integrity.thy ===== *)
theory Integrity
  imports Schema
begin

text \<open>
  The constraints of the database as a property of its state (\<^verbatim>\<open>models/\<close>, the first migration):
  \<open>db_wf\<close> says that every row satisfies its checks, every key is unique and every reference
  meets its row.  An \<open>INSERT\<close> of the model checks its constraints; an \<open>UPDATE\<close> or \<open>DELETE\<close>
  does not, so the lemmas below say what one owes the constraints to keep them.
\<close>

subsection \<open>Well-formed databases\<close>

definition user_checks :: "user \<Rightarrow> bool" where
  "user_checks u \<longleftrightarrow>
     1 \<le> length (u_username u) \<and> length (u_username u) \<le> 32 \<and>
     btrim (u_first_name u) \<noteq> [] \<and> btrim (u_last_name u) \<noteq> []"

definition users_wf :: "(pystr \<Rightarrow> pystr) \<Rightarrow> database \<Rightarrow> bool" where
  "users_wf lower d \<longleftrightarrow>
     (\<forall>u\<in>set (tb_users d). user_checks u) \<and> distinct (map u_id (tb_users d)) \<and>
     distinct (map (\<lambda>u. lower (u_username u)) (tb_users d)) \<and>
     distinct (map (\<lambda>u. lower (u_email u)) (tb_users d))"

abbreviation user_ids :: "database \<Rightarrow> uuid set" where
  "user_ids d \<equiv> u_id ` set (tb_users d)"

definition channels_wf :: "database \<Rightarrow> bool" where
  "channels_wf d \<longleftrightarrow>
     (\<forall>c\<in>set (tb_channels d). ck_channels_name (c_name c) \<and> c_created_by c \<in> user_ids d) \<and>
     distinct (map c_id (tb_channels d)) \<and>
     distinct (map (\<lambda>c. ascii_lower (c_name c)) (tb_channels d))"

definition members_wf :: "database \<Rightarrow> bool" where
  "members_wf d \<longleftrightarrow>
     (\<forall>m\<in>set (tb_members d). cm_channel_id m \<in> c_id ` set (tb_channels d) \<and> cm_user_id m \<in> user_ids d) \<and>
     distinct (map cm_key (tb_members d))"

definition messages_wf :: "database \<Rightarrow> bool" where
  "messages_wf d \<longleftrightarrow>
     (\<forall>m\<in>set (tb_messages d). ck_messages_target_xor m \<and> ck_messages_content (m_content m) \<and>
        (\<forall>c. m_channel_id m = Some c \<longrightarrow> c \<in> c_id ` set (tb_channels d)) \<and>
        (\<forall>r. m_recipient_id m = Some r \<longrightarrow> r \<in> user_ids d) \<and> m_sender_id m \<in> user_ids d) \<and>
     distinct (map m_id (tb_messages d))"

definition attachments_wf :: "database \<Rightarrow> bool" where
  "attachments_wf d \<longleftrightarrow>
     (\<forall>a\<in>set (tb_attachments d). 0 < a_byte_size a \<and> a_byte_size a \<le> size_cap (a_kind a) \<and>
        (\<forall>m. a_message_id a = Some m \<longrightarrow> m \<in> m_id ` set (tb_messages d)) \<and> a_uploader_id a \<in> user_ids d) \<and>
     distinct (map a_id (tb_attachments d))"

definition invites_wf :: "database \<Rightarrow> bool" where
  "invites_wf d \<longleftrightarrow>
     (\<forall>i\<in>set (tb_invites d). i_created_by i \<in> user_ids d) \<and>
     distinct (map i_id (tb_invites d)) \<and> distinct (map i_token_hash (tb_invites d))"

definition reset_tokens_wf :: "database \<Rightarrow> bool" where
  "reset_tokens_wf d \<longleftrightarrow>
     (\<forall>t\<in>set (tb_reset_tokens d). t_user_id t \<in> user_ids d) \<and>
     distinct (map t_id (tb_reset_tokens d)) \<and> distinct (map t_token_hash (tb_reset_tokens d))"

definition sessions_wf :: "database \<Rightarrow> bool" where
  "sessions_wf d \<longleftrightarrow>
     (\<forall>s\<in>set (tb_sessions d). s_user_id s \<in> user_ids d) \<and>
     distinct (map s_id (tb_sessions d)) \<and> distinct (map s_refresh_token_hash (tb_sessions d))"

definition db_wf :: "(pystr \<Rightarrow> pystr) \<Rightarrow> database \<Rightarrow> bool" where
  "db_wf lower d \<longleftrightarrow>
     users_wf lower d \<and> channels_wf d \<and> members_wf d \<and> messages_wf d \<and> attachments_wf d \<and>
     invites_wf d \<and> reset_tokens_wf d \<and> sessions_wf d"

lemmas table_wf_defs =
  users_wf_def channels_wf_def members_wf_def messages_wf_def attachments_wf_def invites_wf_def
  reset_tokens_wf_def sessions_wf_def

subsection \<open>Statements that keep the constraints\<close>

text \<open>An update that keeps a projection of every row it touches.\<close>

definition keeps :: "('r \<Rightarrow> 'k) \<Rightarrow> ('r \<Rightarrow> bool) \<Rightarrow> ('r \<Rightarrow> 'r) \<Rightarrow> 'r list \<Rightarrow> bool" where
  "keeps proj cond f rows \<longleftrightarrow> (\<forall>r\<in>set rows. cond r \<longrightarrow> proj (f r) = proj r)"

lemma keeps_set [simp]: "(\<And>r. proj (f r) = proj r) \<Longrightarrow> keeps proj c f rows"
  by (simp add: keeps_def)

subsection \<open>Statements keep the database well-formed\<close>

lemma update_map: "(\<And>r. r \<in> set rows \<Longrightarrow> c r \<Longrightarrow> g (f r) = g r) \<Longrightarrow> map g (db_update c f rows) = map g rows"
  by (auto simp: db_update_def)

lemma update_image:
  "(\<And>r. r \<in> set rows \<Longrightarrow> c r \<Longrightarrow> g (f r) = g r) \<Longrightarrow> g ` set (db_update c f rows) = g ` set rows"
  by (metis list.set_map update_map)

lemma in_update:
  assumes "r' \<in> set (db_update c f rows)"
  obtains "r' \<in> set rows" | r where "r \<in> set rows" "c r" "r' = f r"
  using assms by (auto simp: db_update_def split: if_splits)

text \<open>Rows of other tables stay valid when the tables they refer to only grow.\<close>

lemma wf_frame:
  assumes "user_ids d \<subseteq> user_ids d'" "c_id ` set (tb_channels d) \<subseteq> c_id ` set (tb_channels d')"
    "m_id ` set (tb_messages d) \<subseteq> m_id ` set (tb_messages d')"
  shows "tb_users d' = tb_users d \<Longrightarrow> users_wf lower d \<Longrightarrow> users_wf lower d'"
    "tb_channels d' = tb_channels d \<Longrightarrow> channels_wf d \<Longrightarrow> channels_wf d'"
    "tb_members d' = tb_members d \<Longrightarrow> members_wf d \<Longrightarrow> members_wf d'"
    "tb_messages d' = tb_messages d \<Longrightarrow> messages_wf d \<Longrightarrow> messages_wf d'"
    "tb_attachments d' = tb_attachments d \<Longrightarrow> attachments_wf d \<Longrightarrow> attachments_wf d'"
    "tb_invites d' = tb_invites d \<Longrightarrow> invites_wf d \<Longrightarrow> invites_wf d'"
    "tb_reset_tokens d' = tb_reset_tokens d \<Longrightarrow> reset_tokens_wf d \<Longrightarrow> reset_tokens_wf d'"
    "tb_sessions d' = tb_sessions d \<Longrightarrow> sessions_wf d \<Longrightarrow> sessions_wf d'"
proof -
  show "tb_users d' = tb_users d \<Longrightarrow> users_wf lower d \<Longrightarrow> users_wf lower d'" by (simp add: users_wf_def)
  show "tb_channels d' = tb_channels d \<Longrightarrow> channels_wf d \<Longrightarrow> channels_wf d'"
    using assms(1) by (simp add: channels_wf_def subset_iff)
  show "tb_members d' = tb_members d \<Longrightarrow> members_wf d \<Longrightarrow> members_wf d'"
    using assms(1,2) by (simp add: members_wf_def subset_iff)
  show "tb_messages d' = tb_messages d \<Longrightarrow> messages_wf d \<Longrightarrow> messages_wf d'"
    using assms(1,2) by (simp add: messages_wf_def subset_iff)
  show "tb_attachments d' = tb_attachments d \<Longrightarrow> attachments_wf d \<Longrightarrow> attachments_wf d'"
    using assms(1,3) by (simp add: attachments_wf_def subset_iff)
  show "tb_invites d' = tb_invites d \<Longrightarrow> invites_wf d \<Longrightarrow> invites_wf d'"
    using assms(1) by (simp add: invites_wf_def subset_iff)
  show "tb_reset_tokens d' = tb_reset_tokens d \<Longrightarrow> reset_tokens_wf d \<Longrightarrow> reset_tokens_wf d'"
    using assms(1) by (simp add: reset_tokens_wf_def subset_iff)
  show "tb_sessions d' = tb_sessions d \<Longrightarrow> sessions_wf d \<Longrightarrow> sessions_wf d'"
    using assms(1) by (simp add: sessions_wf_def subset_iff)
qed

text \<open>A statement on one table: that table is to be shown valid, the others follow.\<close>

lemma wf_one_table:
  assumes "db_wf lower d" "user_ids d \<subseteq> user_ids d'" "c_id ` set (tb_channels d) \<subseteq> c_id ` set (tb_channels d')"
    "m_id ` set (tb_messages d) \<subseteq> m_id ` set (tb_messages d')"
    "tb_users d' = tb_users d \<or> users_wf lower d'" "tb_channels d' = tb_channels d \<or> channels_wf d'"
    "tb_members d' = tb_members d \<or> members_wf d'" "tb_messages d' = tb_messages d \<or> messages_wf d'"
    "tb_attachments d' = tb_attachments d \<or> attachments_wf d'" "tb_invites d' = tb_invites d \<or> invites_wf d'"
    "tb_reset_tokens d' = tb_reset_tokens d \<or> reset_tokens_wf d'" "tb_sessions d' = tb_sessions d \<or> sessions_wf d'"
  shows "db_wf lower d'"
proof -
  have "users_wf lower d" using assms(1) by (simp add: db_wf_def)
  then have users_wf: "users_wf lower d'" using assms(5) wf_frame(1) [OF assms(2-4)] by (elim disjE) simp_all
  have "channels_wf d" using assms(1) by (simp add: db_wf_def)
  then have channels_wf: "channels_wf d'" using assms(6) wf_frame(2) [OF assms(2-4)] by (elim disjE) simp_all
  have "members_wf d" using assms(1) by (simp add: db_wf_def)
  then have members_wf: "members_wf d'" using assms(7) wf_frame(3) [OF assms(2-4)] by (elim disjE) simp_all
  have "messages_wf d" using assms(1) by (simp add: db_wf_def)
  then have messages_wf: "messages_wf d'" using assms(8) wf_frame(4) [OF assms(2-4)] by (elim disjE) simp_all
  have "attachments_wf d" using assms(1) by (simp add: db_wf_def)
  then have attachments_wf: "attachments_wf d'" using assms(9) wf_frame(5) [OF assms(2-4)] by (elim disjE) simp_all
  have "invites_wf d" using assms(1) by (simp add: db_wf_def)
  then have invites_wf: "invites_wf d'" using assms(10) wf_frame(6) [OF assms(2-4)] by (elim disjE) simp_all
  have "reset_tokens_wf d" using assms(1) by (simp add: db_wf_def)
  then have reset_tokens_wf: "reset_tokens_wf d'" using assms(11) wf_frame(7) [OF assms(2-4)] by (elim disjE) simp_all
  have "sessions_wf d" using assms(1) by (simp add: db_wf_def)
  then have sessions_wf: "sessions_wf d'" using assms(12) wf_frame(8) [OF assms(2-4)] by (elim disjE) simp_all
  show ?thesis unfolding db_wf_def
    by (intro conjI users_wf channels_wf members_wf messages_wf attachments_wf invites_wf reset_tokens_wf sessions_wf)
qed

lemma exists_key: "db_exists (\<lambda>r. g r = k) rows \<longleftrightarrow> k \<in> g ` set rows"
  by (auto simp: db_exists_def list_ex_iff)

lemma fk_ok_key: "fk_ok pk k rows \<longleftrightarrow> (\<forall>v. k = Some v \<longrightarrow> v \<in> pk ` set rows)"
  by (simp del: db_exists_iff add: fk_ok_def exists_key split: option.split)

lemma insert_user_wf:
  assumes "db_wf lower d" "insert_user lower u d = Inr d'"
  shows "db_wf lower d'"
proof -
  have d': "d' = d\<lparr>tb_users := tb_users d @ [u]\<rparr>"
    using assms(2) by (simp add: insert_user_def split: if_splits)
  have "users_wf lower d" using assms(1) by (simp add: db_wf_def)
  with assms(2) have "users_wf lower d'"
    unfolding d' by (simp del: db_exists_iff add: users_wf_def insert_user_def exists_key fk_ok_key user_checks_def split: if_splits)
  then show ?thesis unfolding d' by (intro wf_one_table [OF assms(1)]) (simp_all add: subset_insertI)
qed

lemma insert_channel_wf:
  assumes "db_wf lower d" "insert_channel c d = Inr d'"
  shows "db_wf lower d'"
proof -
  have d': "d' = d\<lparr>tb_channels := tb_channels d @ [c]\<rparr>"
    using assms(2) by (simp add: insert_channel_def split: if_splits)
  have "channels_wf d" using assms(1) by (simp add: db_wf_def)
  with assms(2) have "channels_wf d'"
    unfolding d' by (simp del: db_exists_iff add: channels_wf_def insert_channel_def exists_key fk_ok_key split: if_splits)
  then show ?thesis unfolding d' by (intro wf_one_table [OF assms(1)]) (simp_all add: subset_insertI)
qed

lemma insert_member_wf:
  assumes "db_wf lower d" "insert_member m d = Inr d'"
  shows "db_wf lower d'"
proof -
  have d': "d' = d\<lparr>tb_members := tb_members d @ [m]\<rparr>"
    using assms(2) by (simp add: insert_member_def split: if_splits)
  have "members_wf d" using assms(1) by (simp add: db_wf_def)
  with assms(2) have "members_wf d'"
    unfolding d' by (simp del: db_exists_iff add: members_wf_def insert_member_def exists_key fk_ok_key split: if_splits)
  then show ?thesis unfolding d' by (intro wf_one_table [OF assms(1)]) (simp_all add: subset_insertI)
qed

lemma insert_message_wf:
  assumes "db_wf lower d" "insert_message m d = Inr d'"
  shows "db_wf lower d'"
proof -
  have d': "d' = d\<lparr>tb_messages := tb_messages d @ [m]\<rparr>"
    using assms(2) by (simp add: insert_message_def split: if_splits)
  have "messages_wf d" using assms(1) by (simp add: db_wf_def)
  with assms(2) have "messages_wf d'"
    unfolding d' by (simp del: db_exists_iff add: messages_wf_def insert_message_def exists_key fk_ok_key split: if_splits)
  then show ?thesis unfolding d' by (intro wf_one_table [OF assms(1)]) (simp_all add: subset_insertI)
qed

lemma insert_attachment_wf:
  assumes "db_wf lower d" "insert_attachment a d = Inr d'"
  shows "db_wf lower d'"
proof -
  have d': "d' = d\<lparr>tb_attachments := tb_attachments d @ [a]\<rparr>"
    using assms(2) by (simp add: insert_attachment_def split: if_splits)
  have "attachments_wf d" using assms(1) by (simp add: db_wf_def)
  with assms(2) have "attachments_wf d'"
    unfolding d' by (simp del: db_exists_iff add: attachments_wf_def insert_attachment_def exists_key fk_ok_key split: if_splits)
  then show ?thesis unfolding d' by (intro wf_one_table [OF assms(1)]) (simp_all add: subset_insertI)
qed

lemma insert_invite_wf:
  assumes "db_wf lower d" "insert_invite i d = Inr d'"
  shows "db_wf lower d'"
proof -
  have d': "d' = d\<lparr>tb_invites := tb_invites d @ [i]\<rparr>"
    using assms(2) by (simp add: insert_invite_def split: if_splits)
  have "invites_wf d" using assms(1) by (simp add: db_wf_def)
  with assms(2) have "invites_wf d'"
    unfolding d' by (simp del: db_exists_iff add: invites_wf_def insert_invite_def exists_key fk_ok_key split: if_splits)
  then show ?thesis unfolding d' by (intro wf_one_table [OF assms(1)]) (simp_all add: subset_insertI)
qed

lemma insert_reset_token_wf:
  assumes "db_wf lower d" "insert_reset_token t d = Inr d'"
  shows "db_wf lower d'"
proof -
  have d': "d' = d\<lparr>tb_reset_tokens := tb_reset_tokens d @ [t]\<rparr>"
    using assms(2) by (simp add: insert_reset_token_def split: if_splits)
  have "reset_tokens_wf d" using assms(1) by (simp add: db_wf_def)
  with assms(2) have "reset_tokens_wf d'"
    unfolding d' by (simp del: db_exists_iff add: reset_tokens_wf_def insert_reset_token_def exists_key fk_ok_key split: if_splits)
  then show ?thesis unfolding d' by (intro wf_one_table [OF assms(1)]) (simp_all add: subset_insertI)
qed

lemma insert_session_wf:
  assumes "db_wf lower d" "insert_session s d = Inr d'"
  shows "db_wf lower d'"
proof -
  have d': "d' = d\<lparr>tb_sessions := tb_sessions d @ [s]\<rparr>"
    using assms(2) by (simp add: insert_session_def split: if_splits)
  have "sessions_wf d" using assms(1) by (simp add: db_wf_def)
  with assms(2) have "sessions_wf d'"
    unfolding d' by (simp del: db_exists_iff add: sessions_wf_def insert_session_def exists_key fk_ok_key split: if_splits)
  then show ?thesis unfolding d' by (intro wf_one_table [OF assms(1)]) (simp_all add: subset_insertI)
qed

lemma update_users_wf:
  assumes "db_wf lower d" "keeps (\<lambda>u. (u_id u, u_username u, u_email u)) c f (tb_users d)"
    "\<And>u. u \<in> set (tb_users d) \<Longrightarrow> c u \<Longrightarrow> user_checks u \<Longrightarrow> user_checks (f u)"
  shows "db_wf lower (update_users c f d)"
proof -
  have k: "u_id (f u) = u_id u" "u_username (f u) = u_username u" "u_email (f u) = u_email u"
    if "u \<in> set (tb_users d)" "c u" for u
    using assms(2) that by (auto simp: keeps_def)
  have "users_wf lower d" using assms(1) by (simp add: db_wf_def)
  then have "users_wf lower (update_users c f d)"
    using assms(3) by (auto simp: users_wf_def update_users_def update_map k elim!: in_update)
  then show ?thesis
    by (intro wf_one_table [OF assms(1)]) (simp_all del: set_db_update add: update_users_def update_image k)
qed

lemma update_members_wf:
  assumes "db_wf lower d" "keeps cm_key c f (tb_members d)"
  shows "db_wf lower (update_members c f d)"
proof -
  have k: "cm_key (f m) = cm_key m" "cm_channel_id (f m) = cm_channel_id m" "cm_user_id (f m) = cm_user_id m"
    if "m \<in> set (tb_members d)" "c m" for m
    using assms(2) that by (auto simp: keeps_def cm_key_def)
  have "members_wf d" using assms(1) by (simp add: db_wf_def)
  then have "members_wf (update_members c f d)"
    by (auto simp: members_wf_def update_members_def update_map k elim!: in_update)
  then show ?thesis by (intro wf_one_table [OF assms(1)]) (simp_all add: update_members_def)
qed

lemma update_messages_wf:
  assumes "db_wf lower d"
    "keeps (\<lambda>m. (m_id m, m_channel_id m, m_recipient_id m, m_sender_id m)) c f (tb_messages d)"
    "\<And>m. m \<in> set (tb_messages d) \<Longrightarrow> c m \<Longrightarrow> ck_messages_content (m_content m) \<Longrightarrow> ck_messages_content (m_content (f m))"
  shows "db_wf lower (update_messages c f d)"
proof -
  have k: "m_id (f m) = m_id m" "m_channel_id (f m) = m_channel_id m" "m_recipient_id (f m) = m_recipient_id m"
    "m_sender_id (f m) = m_sender_id m" "ck_messages_target_xor (f m) = ck_messages_target_xor m"
    if "m \<in> set (tb_messages d)" "c m" for m
    using assms(2) that by (force simp: keeps_def ck_messages_target_xor_def split: option.split)+
  have "messages_wf d" using assms(1) by (simp add: db_wf_def)
  then have "messages_wf (update_messages c f d)"
    using assms(3) by (auto simp: messages_wf_def update_messages_def update_map k elim!: in_update)
  then show ?thesis
    by (intro wf_one_table [OF assms(1)]) (simp_all del: set_db_update add: update_messages_def update_image k)
qed

lemma update_attachments_wf:
  assumes "db_wf lower d"
    "keeps (\<lambda>a. (a_id a, a_kind a, a_byte_size a, a_uploader_id a)) c f (tb_attachments d)"
    "\<And>a k. a \<in> set (tb_attachments d) \<Longrightarrow> c a \<Longrightarrow> a_message_id (f a) = Some k \<Longrightarrow> k \<in> m_id ` set (tb_messages d)"
  shows "db_wf lower (update_attachments c f d)"
proof -
  have k: "a_id (f a) = a_id a" "a_kind (f a) = a_kind a" "a_byte_size (f a) = a_byte_size a"
    "a_uploader_id (f a) = a_uploader_id a"
    if "a \<in> set (tb_attachments d)" "c a" for a
    using assms(2) that by (auto simp: keeps_def)
  have "attachments_wf d" using assms(1) by (simp add: db_wf_def)
  then have "attachments_wf (update_attachments c f d)"
    using assms(3) by (auto simp: attachments_wf_def update_attachments_def update_map k elim!: in_update)
  then show ?thesis by (intro wf_one_table [OF assms(1)]) (simp_all add: update_attachments_def)
qed

lemma update_invites_wf:
  assumes "db_wf lower d" "keeps (\<lambda>i. (i_id i, i_created_by i)) c f (tb_invites d)"
    "distinct (map i_token_hash (tb_invites d)) \<Longrightarrow> distinct (map i_token_hash (db_update c f (tb_invites d)))"
  shows "db_wf lower (update_invites c f d)"
proof -
  have k: "i_id (f i) = i_id i" "i_created_by (f i) = i_created_by i" if "i \<in> set (tb_invites d)" "c i" for i
    using assms(2) that by (auto simp: keeps_def)
  have "invites_wf d" using assms(1) by (simp add: db_wf_def)
  then have "invites_wf (update_invites c f d)"
    using assms(3) by (auto simp: invites_wf_def update_invites_def update_map k elim!: in_update)
  then show ?thesis by (intro wf_one_table [OF assms(1)]) (simp_all add: update_invites_def)
qed

lemma update_reset_tokens_wf:
  assumes "db_wf lower d" "keeps (\<lambda>t. (t_id t, t_user_id t, t_token_hash t)) c f (tb_reset_tokens d)"
  shows "db_wf lower (update_reset_tokens c f d)"
proof -
  have k: "t_id (f t) = t_id t" "t_user_id (f t) = t_user_id t" "t_token_hash (f t) = t_token_hash t"
    if "t \<in> set (tb_reset_tokens d)" "c t" for t
    using assms(2) that by (auto simp: keeps_def)
  have "reset_tokens_wf d" using assms(1) by (simp add: db_wf_def)
  then have "reset_tokens_wf (update_reset_tokens c f d)"
    by (auto simp: reset_tokens_wf_def update_reset_tokens_def update_map k elim!: in_update)
  then show ?thesis by (intro wf_one_table [OF assms(1)]) (simp_all add: update_reset_tokens_def)
qed

lemma update_sessions_wf:
  assumes "db_wf lower d" "keeps (\<lambda>s. (s_id s, s_user_id s)) c f (tb_sessions d)"
    "distinct (map s_refresh_token_hash (tb_sessions d)) \<Longrightarrow>
       distinct (map s_refresh_token_hash (db_update c f (tb_sessions d)))"
  shows "db_wf lower (update_sessions c f d)"
proof -
  have k: "s_id (f s) = s_id s" "s_user_id (f s) = s_user_id s" if "s \<in> set (tb_sessions d)" "c s" for s
    using assms(2) that by (auto simp: keeps_def)
  have "sessions_wf d" using assms(1) by (simp add: db_wf_def)
  then have "sessions_wf (update_sessions c f d)"
    using assms(3) by (auto simp: sessions_wf_def update_sessions_def update_map k elim!: in_update)
  then show ?thesis by (intro wf_one_table [OF assms(1)]) (simp_all add: update_sessions_def)
qed

lemma delete_members_wf:
  assumes "db_wf lower d"
  shows "db_wf lower (delete_members c d)"
proof -
  have "members_wf d" using assms by (simp add: db_wf_def)
  then have "members_wf (delete_members c d)"
    by (simp add: members_wf_def delete_members_def db_delete_def distinct_map_filter)
  then show ?thesis by (intro wf_one_table [OF assms]) (simp_all add: delete_members_def)
qed

lemma delete_attachments_wf:
  assumes "db_wf lower d"
  shows "db_wf lower (delete_attachments c d)"
proof -
  have "attachments_wf d" using assms by (simp add: db_wf_def)
  then have "attachments_wf (delete_attachments c d)"
    by (auto simp: attachments_wf_def delete_attachments_def db_delete_def distinct_map_filter)
  then show ?thesis by (intro wf_one_table [OF assms]) (simp_all add: delete_attachments_def)
qed

subsection \<open>The second migration\<close>

text \<open>\<open>0002_admin_bootstrap_flags\<close> adds two columns to \<open>users\<close>, false in every row there is, and its
  downgrade drops them.\<close>

record user_0001 =
  u1_id :: uuid
  u1_username :: pystr
  u1_email :: pystr
  u1_hashed_password :: pystr
  u1_first_name :: pystr
  u1_last_name :: pystr
  u1_avatar_url :: "pystr option"
  u1_is_active :: bool
  u1_is_system_admin :: bool
  u1_last_seen :: "datetime option"
  u1_created_at :: datetime

definition add_flags :: "user_0001 \<Rightarrow> user" where
  "add_flags u =
     \<lparr>u_id = u1_id u, u_username = u1_username u, u_email = u1_email u, u_hashed_password = u1_hashed_password u,
      u_first_name = u1_first_name u, u_last_name = u1_last_name u, u_avatar_url = u1_avatar_url u,
      u_is_active = u1_is_active u, u_is_system_admin = u1_is_system_admin u, u_must_change_password = False,
      u_email_verified = False, u_last_seen = u1_last_seen u, u_created_at = u1_created_at u\<rparr>"

definition drop_flags :: "user \<Rightarrow> user_0001" where
  "drop_flags u =
     \<lparr>u1_id = u_id u, u1_username = u_username u, u1_email = u_email u, u1_hashed_password = u_hashed_password u,
      u1_first_name = u_first_name u, u1_last_name = u_last_name u, u1_avatar_url = u_avatar_url u,
      u1_is_active = u_is_active u, u1_is_system_admin = u_is_system_admin u, u1_last_seen = u_last_seen u,
      u1_created_at = u_created_at u\<rparr>"

definition upgrade_0002 :: "user_0001 list \<Rightarrow> user list" where
  "upgrade_0002 rows = map add_flags rows"

definition downgrade_0002 :: "user list \<Rightarrow> user_0001 list" where
  "downgrade_0002 rows = map drop_flags rows"

lemma downgrade_upgrade: "downgrade_0002 (upgrade_0002 rows) = rows"
proof -
  have "drop_flags (add_flags u) = u" for u by (cases u) (simp add: drop_flags_def add_flags_def)
  then show ?thesis by (simp add: downgrade_0002_def upgrade_0002_def comp_def)
qed

text \<open>Nothing the upgrade adds can break a constraint or lock anybody out.\<close>

lemma upgrade_keeps_rows:
  "map u_id (upgrade_0002 rows) = map u1_id rows" "map u_username (upgrade_0002 rows) = map u1_username rows"
  "map u_email (upgrade_0002 rows) = map u1_email rows"
  "u \<in> set (upgrade_0002 rows) \<Longrightarrow> \<not> u_must_change_password u"
  by (auto simp: upgrade_0002_def add_flags_def)

end
