(* ===== verification/Passwords.thy ===== *)
theory Passwords
  imports Auth
begin

text \<open>
  Passwords: the policy (\<^verbatim>\<open>core/password_policy.py\<close>), reset tokens
  (\<^verbatim>\<open>services/password_reset.py\<close>) and the routes of \<^verbatim>\<open>api/password.py\<close>.
  \<open>isalpha\<close> and \<open>isdigit\<close> are Python's Unicode predicates and \<open>hash_password\<close> is
  bcrypt, all parameters.  The request for a reset answers before its background job runs, so
  the route returns the job's argument and the job is a function of its own.  \<open>others\<close> is
  what concurrent requests commit between the reads and the writes of a confirmation.
\<close>

subsection \<open>Policy\<close>

definition MIN_LENGTH :: nat where "MIN_LENGTH = 6"

record password_env = auth_env +
  isalpha :: "nat \<Rightarrow> bool"
  isdigit :: "nat \<Rightarrow> bool"
  hash_password :: "pystr \<Rightarrow> pystr"

definition check_password_policy :: "'a password_env_scheme \<Rightarrow> pystr \<Rightarrow> string list" where
  "check_password_policy env password =
     (if length password < MIN_LENGTH then [''must be at least 6 characters long''] else []) @
     (if py_strip password = [] then [''must not be blank''] else []) @
     (if \<not> (list_ex (isalpha env) password \<and> list_ex (isdigit env) password)
      then [''must contain at least one letter and one digit''] else [])"

datatype password_policy_error = PasswordPolicyError "(string \<times> string) list"

definition enforce_password_policy ::
  "'a password_env_scheme \<Rightarrow> pystr \<Rightarrow> string \<Rightarrow> password_policy_error + unit" where
  "enforce_password_policy env password field_name =
     (let violations = check_password_policy env password in
      check (violations = []) (PasswordPolicyError (map (\<lambda>v. (field_name, v)) violations)))"

subsection \<open>Reset tokens\<close>

definition RESET_TOKEN_TTL :: int where "RESET_TOKEN_TTL = seconds 3600"

definition set_used :: "datetime \<Rightarrow> (password_reset_token \<Rightarrow> bool) \<Rightarrow> database \<Rightarrow> database" where
  "set_used now cond = update_reset_tokens cond (\<lambda>t. t\<lparr>t_used_at := Some now\<rparr>)"

definition invalidate_outstanding_reset_tokens :: "uuid \<Rightarrow> datetime \<Rightarrow> database \<Rightarrow> database" where
  "invalidate_outstanding_reset_tokens user_id now =
     set_used now (\<lambda>t. t_user_id t = user_id \<and> t_used_at t = None)"

definition create_password_reset_token ::
  "(pystr \<Rightarrow> pystr) \<Rightarrow> fresh \<Rightarrow> uuid \<Rightarrow> database \<Rightarrow>
   integrity_error + (password_reset_token \<times> pystr) \<times> database" where
  "create_password_reset_token hash f user_id d =
     (let t = \<lparr>t_id = f_id f, t_user_id = user_id, t_token_hash = hash (f_raw_token f),
               t_expires_at = f_now f + RESET_TOKEN_TTL, t_used_at = None, t_created_at = f_now f\<rparr>
      in and_then (insert_reset_token t (invalidate_outstanding_reset_tokens user_id (f_now f) d))
           (\<lambda>d'. Inr ((t, f_raw_token f), d')))"

definition find_valid_reset_token ::
  "(pystr \<Rightarrow> pystr) \<Rightarrow> pystr \<Rightarrow> datetime \<Rightarrow> database \<Rightarrow> password_reset_token option" where
  "find_valid_reset_token hash raw_token now d =
     (case find (\<lambda>t. t_token_hash t = hash raw_token) (tb_reset_tokens d) of
        None \<Rightarrow> None
      | Some t \<Rightarrow> if t_used_at t \<noteq> None \<or> t_expires_at t \<le> now then None else Some t)"

definition mark_reset_token_used :: "password_reset_token \<Rightarrow> datetime \<Rightarrow> database \<Rightarrow> database" where
  "mark_reset_token_used t now = set_used now (\<lambda>s. t_id s = t_id t)"

subsection \<open>Requesting a reset\<close>

text \<open>The mail the job sends: recipient, raw token of the link, expiry.\<close>

type_synonym reset_mail = "pystr \<times> pystr \<times> datetime"

definition process_password_reset_request ::
  "'a password_env_scheme \<Rightarrow> fresh \<Rightarrow> pystr \<Rightarrow> database \<Rightarrow> integrity_error + reset_mail option \<times> database" where
  "process_password_reset_request env f email d =
     (case find_user_by_email env email d of
        None \<Rightarrow> Inr (None, d)
      | Some u \<Rightarrow>
          and_then (create_password_reset_token (token_hash env) f (u_id u) d) (\<lambda>((t, raw), d').
            Inr (Some (u_email u, raw, t_expires_at t), d')))"

text \<open>The response and the job's argument, if one is scheduled.\<close>

definition request_password_reset ::
  "'a password_env_scheme \<Rightarrow> limiter_env \<Rightarrow> pystr \<Rightarrow> account \<Rightarrow> (string http \<times> pystr option) \<times> account" where
  "request_password_reset env le email w =
     (case with_auth_rate_limit (token_hash env) le email
             (\<lambda>w. (Response 202 ''If an account exists for that email, a reset link has been sent.'', w)) w of
        (Response status b, w') \<Rightarrow> ((Response status b, Some email), w')
      | (r, w') \<Rightarrow> ((r, None), w'))"

subsection \<open>Confirming a reset and changing a password\<close>

definition set_password :: "'a password_env_scheme \<Rightarrow> uuid \<Rightarrow> pystr \<Rightarrow> database \<Rightarrow> database" where
  "set_password env user_id new_password =
     update_users (\<lambda>u. u_id u = user_id)
       (\<lambda>u. u\<lparr>u_hashed_password := hash_password env new_password, u_must_change_password := False\<rparr>)"

definition stale_reset_token :: "'b http" where
  "stale_reset_token = Problem 410 ''Reset token is expired, already used, or no longer valid.''"

definition confirm_password_reset ::
  "'a password_env_scheme \<Rightarrow> redis_call \<Rightarrow> (database \<Rightarrow> database) \<Rightarrow> datetime \<Rightarrow> pystr \<Rightarrow> pystr \<Rightarrow> account \<Rightarrow>
   unit http \<times> account" where
  "confirm_password_reset env call others now reset_token new_password w =
     (case find_valid_reset_token (token_hash env) reset_token now (ac_db w) of
        None \<Rightarrow> (stale_reset_token, w)
      | Some t \<Rightarrow>
          (case enforce_password_policy env new_password ''new_password'' of
             Inl e \<Rightarrow> (Problem 422 ''Password fails policy.'', w)
           | Inr _ \<Rightarrow>
               (case get_user (t_user_id t) (ac_db w) of
                  None \<Rightarrow> (stale_reset_token, w)
                | Some u \<Rightarrow>
                    (case revoke_sessions_for_user (u_id u) None now
                            (set_password env (u_id u) new_password
                              (mark_reset_token_used t now (others (ac_db w)))) of
                       (revoked_session_ids, d') \<Rightarrow>
                         (Response 204 (),
                          invalidate_session_caches call revoked_session_ids (w\<lparr>ac_db := d'\<rparr>))))))"

definition change_password ::
  "'a password_env_scheme \<Rightarrow> redis_call \<Rightarrow> datetime \<Rightarrow> pystr \<Rightarrow> pystr \<Rightarrow> authenticated_user \<Rightarrow> account \<Rightarrow>
   unit http \<times> account" where
  "change_password env call now current_password new_password current w =
     (case get_user (au_user_id current) (ac_db w) of
        None \<Rightarrow> (Problem 401 ''Current password is incorrect.'', w)
      | Some u \<Rightarrow>
          if \<not> verify env current_password (u_hashed_password u)
          then (Problem 401 ''Current password is incorrect.'', w)
          else (case enforce_password_policy env new_password ''new_password'' of
             Inl e \<Rightarrow> (Problem 422 ''Password fails policy.'', w)
           | Inr _ \<Rightarrow>
               (case revoke_sessions_for_user (u_id u) (Some (au_session_id current)) now
                       (set_password env (u_id u) new_password (ac_db w)) of
                  (revoked_session_ids, d') \<Rightarrow>
                    (Response 204 (),
                     invalidate_session_caches call revoked_session_ids (w\<lparr>ac_db := d'\<rparr>)))))"

subsection \<open>What the operations leave untouched\<close>

lemma set_password_tables [simp]:
  "tb_sessions (set_password env k p d) = tb_sessions d"
  "tb_reset_tokens (set_password env k p d) = tb_reset_tokens d"
  "get_session i (set_password env k p d) = get_session i d"
  "sessions_ok (set_password env k p d) = sessions_ok d"
  by (simp_all add: set_password_def update_users_def get_session_def sessions_ok_def)

lemma get_user_set_password:
  "get_user i (set_password env k p d) =
     (if i = k then map_option (\<lambda>u. u\<lparr>u_hashed_password := hash_password env p, u_must_change_password := False\<rparr>)
        (get_user i d) else get_user i d)"
proof -
  have "get_user i (set_password env k p d) =
      map_option (\<lambda>u. if u_id u = k then u\<lparr>u_hashed_password := hash_password env p,
        u_must_change_password := False\<rparr> else u) (get_user i d)"
    unfolding set_password_def by (rule user_row.get_upd) simp
  then show ?thesis using user_row.get_pk by (cases "get_user i d") auto
qed

lemma set_used_tables [simp]:
  "tb_sessions (set_used now c d) = tb_sessions d" "tb_users (set_used now c d) = tb_users d"
  "get_session i (set_used now c d) = get_session i d" "get_user i (set_used now c d) = get_user i d"
  "sessions_ok (set_used now c d) = sessions_ok d"
  "tb_reset_tokens (set_used now c d) = db_update c (\<lambda>t. t\<lparr>t_used_at := Some now\<rparr>) (tb_reset_tokens d)"
  by (simp_all add: set_used_def update_reset_tokens_def get_session_def get_user_def sessions_ok_def)

lemma revoke_reset_tokens:
  "revoke_sessions_for_user u e now d = (ids, d') \<Longrightarrow> tb_reset_tokens d' = tb_reset_tokens d"
  by (auto simp: revoke_sessions_for_user_def Let_def set_revoked_def update_sessions_def)

lemma coherent_same_sessions:
  "tb_sessions d = tb_sessions (ac_db w) \<Longrightarrow> coherent (w\<lparr>ac_db := d\<rparr>) = coherent w"
  by (simp add: coherent_def get_session_def)

lemma enforce_policy_iff:
  "enforce_password_policy env p n = Inr v \<longleftrightarrow> check_password_policy env p = []"
  by (simp add: enforce_password_policy_def Let_def)

subsection \<open>Outcomes\<close>

lemma confirm_cases:
  assumes "confirm_password_reset env call others now raw p w = (r, w')"
  obtains (refused) "w' = w" "r = stale_reset_token \<or> r = Problem 422 ''Password fails policy.''"
      "r = stale_reset_token \<longrightarrow> find_valid_reset_token (token_hash env) raw now (ac_db w) = None \<or>
        (\<exists>t. find_valid_reset_token (token_hash env) raw now (ac_db w) = Some t \<and>
             get_user (t_user_id t) (ac_db w) = None)"
  | (accepted) t u ids d' where "r = Response 204 ()"
      "find_valid_reset_token (token_hash env) raw now (ac_db w) = Some t"
      "check_password_policy env p = []" "get_user (t_user_id t) (ac_db w) = Some u"
      "revoke_sessions_for_user (u_id u) None now
         (set_password env (u_id u) p (mark_reset_token_used t now (others (ac_db w)))) = (ids, d')"
      "w' = invalidate_session_caches call ids (w\<lparr>ac_db := d'\<rparr>)"
proof (cases "find_valid_reset_token (token_hash env) raw now (ac_db w)")
  case None
  with assms show ?thesis by (intro refused) (auto simp: confirm_password_reset_def)
next
  case (Some t)
  note t = Some
  show ?thesis
  proof (cases "enforce_password_policy env p ''new_password''")
    case (Inl e)
    with assms t show ?thesis
      by (intro refused) (auto simp: confirm_password_reset_def stale_reset_token_def)
  next
    case (Inr v)
    note v = Inr
    show ?thesis
    proof (cases "get_user (t_user_id t) (ac_db w)")
      case None
      with assms t v show ?thesis
        by (intro refused) (auto simp: confirm_password_reset_def)
    next
      case (Some u)
      obtain ids d' where rs: "revoke_sessions_for_user (u_id u) None now
         (set_password env (u_id u) p (mark_reset_token_used t now (others (ac_db w)))) = (ids, d')"
        by (rule prod.exhaust)
      with assms t v Some show ?thesis
        by (intro accepted [OF _ t _ Some rs]) (auto simp: confirm_password_reset_def enforce_policy_iff)
    qed
  qed
qed

lemma change_cases:
  assumes "change_password env call now old p current w = (r, w')"
  obtains (refused) "w' = w" "r = Problem 401 ''Current password is incorrect.'' \<or>
      r = Problem 422 ''Password fails policy.''"
  | (accepted) u ids d' where "r = Response 204 ()" "get_user (au_user_id current) (ac_db w) = Some u"
      "verify env old (u_hashed_password u)" "check_password_policy env p = []"
      "revoke_sessions_for_user (u_id u) (Some (au_session_id current)) now
         (set_password env (u_id u) p (ac_db w)) = (ids, d')"
      "w' = invalidate_session_caches call ids (w\<lparr>ac_db := d'\<rparr>)"
proof (cases "get_user (au_user_id current) (ac_db w)")
  case None
  with assms show ?thesis by (intro refused) (auto simp: change_password_def)
next
  case (Some u)
  note u = Some
  show ?thesis
  proof (cases "verify env old (u_hashed_password u)")
    case False
    with assms u show ?thesis by (intro refused) (auto simp: change_password_def)
  next
    case True
    note ver = True
    show ?thesis
    proof (cases "enforce_password_policy env p ''new_password''")
      case (Inl e)
      with assms u ver show ?thesis by (intro refused) (auto simp: change_password_def)
    next
      case (Inr v)
      obtain ids d' where rs: "revoke_sessions_for_user (u_id u) (Some (au_session_id current)) now
         (set_password env (u_id u) p (ac_db w)) = (ids, d')"
        by (rule prod.exhaust)
      with assms u ver Inr show ?thesis
        by (intro accepted [OF _ u ver _ rs]) (auto simp: change_password_def enforce_policy_iff)
    qed
  qed
qed

subsection \<open>A reset token works once\<close>

definition spent :: "pystr \<Rightarrow> database \<Rightarrow> bool" where
  "spent h d \<longleftrightarrow> (\<forall>t\<in>set (tb_reset_tokens d). t_token_hash t = h \<longrightarrow> t_used_at t \<noteq> None)"

text \<open>Whatever happens to the accounts while no newly drawn token has the hash \<open>h\<close>.\<close>

inductive password_step :: "'a password_env_scheme \<Rightarrow> pystr \<Rightarrow> account \<Rightarrow> account \<Rightarrow> bool" for env h where
  step_ask:
    "process_password_reset_request env f email (ac_db w) = Inr (m, d') \<Longrightarrow>
     token_hash env (f_raw_token f) \<noteq> h \<Longrightarrow> password_step env h w (w\<lparr>ac_db := d'\<rparr>)"
| step_confirm:
    "confirm_password_reset env call id now raw p w = (r, w') \<Longrightarrow> password_step env h w w'"
| step_change:
    "change_password env call now old p current w = (r, w') \<Longrightarrow> password_step env h w w'"
| step_other_table:
    "tb_reset_tokens (ac_db w') = tb_reset_tokens (ac_db w) \<Longrightarrow> password_step env h w w'"

lemma spent_db_update:
  "spent h d \<Longrightarrow> tb_reset_tokens d' = db_update c (\<lambda>t. t\<lparr>t_used_at := Some now\<rparr>) (tb_reset_tokens d) \<Longrightarrow>
   spent h d'"
  by (auto simp: spent_def)

lemma confirm_reset_tokens:
  assumes "confirm_password_reset env call id now raw p w = (r, w')"
  obtains "w' = w" | t where "r = Response 204 ()"
    "find_valid_reset_token (token_hash env) raw now (ac_db w) = Some t"
    "tb_reset_tokens (ac_db w') =
       db_update (\<lambda>s. t_id s = t_id t) (\<lambda>t. t\<lparr>t_used_at := Some now\<rparr>) (tb_reset_tokens (ac_db w))"
  using assms
proof (cases rule: confirm_cases)
  case (accepted t u ids d')
  show ?thesis
    by (rule that(2) [OF accepted(1,2)])
      (simp add: accepted(6) revoke_reset_tokens [OF accepted(5)] mark_reset_token_used_def)
qed (use that in blast)

lemma ask_reset_tokens:
  assumes "process_password_reset_request env f email d = Inr (m, d')"
  obtains "m = None" "d' = d"
  | u t where "find_user_by_email env email d = Some u" "m = Some (u_email u, f_raw_token f, t_expires_at t)"
      "t = \<lparr>t_id = f_id f, t_user_id = u_id u, t_token_hash = token_hash env (f_raw_token f),
            t_expires_at = f_now f + RESET_TOKEN_TTL, t_used_at = None, t_created_at = f_now f\<rparr>"
      "insert_reset_token t (invalidate_outstanding_reset_tokens (u_id u) (f_now f) d) = Inr d'"
proof (cases "find_user_by_email env email d")
  case None
  with assms show ?thesis by (intro that(1)) (auto simp: process_password_reset_request_def)
next
  case (Some u)
  with assms show ?thesis
    by (intro that(2) [OF Some]) (auto simp: process_password_reset_request_def create_password_reset_token_def Let_def)
qed

lemma password_step_spent:
  assumes "password_step env h w w'" "spent h (ac_db w)"
  shows "spent h (ac_db w')"
  using assms(1)
proof cases
  case (step_ask f email m d')
  from step_ask(2) show ?thesis
  proof (cases rule: ask_reset_tokens)
    case (2 u t)
    then have "tb_reset_tokens d' = tb_reset_tokens (invalidate_outstanding_reset_tokens (u_id u) (f_now f) (ac_db w)) @ [t]"
      "t_token_hash t \<noteq> h"
      using reset_token_row.ins_rows step_ask(3) by simp_all
    with assms(2) step_ask(1) show ?thesis
      by (auto simp: spent_def invalidate_outstanding_reset_tokens_def)
  qed (use assms(2) step_ask(1) in simp)
next
  case (step_confirm call now raw p r)
  then show ?thesis
    by (cases rule: confirm_reset_tokens) (use assms(2) spent_db_update in blast)+
next
  case (step_change call now old p current r)
  then show ?thesis
  proof (cases rule: change_cases)
    case (accepted u ids d')
    with assms(2) show ?thesis by (simp add: spent_def revoke_reset_tokens [OF accepted(5)])
  qed (use assms(2) in simp)
next
  case step_other_table
  with assms(2) show ?thesis by (simp add: spent_def)
qed

lemma password_run_spent:
  "(password_step env h)\<^sup>*\<^sup>* w w' \<Longrightarrow> spent h (ac_db w) \<Longrightarrow> spent h (ac_db w')"
  by (induction rule: rtranclp_induct) (auto dest: password_step_spent)

lemma spent_invalid:
  "spent (hash raw) d \<Longrightarrow> find_valid_reset_token hash raw now d = None"
  by (auto simp: find_valid_reset_token_def spent_def dest!: find_SomeD split: option.splits)

text \<open>
  C22. A reset link works once: after a confirmation that answers 204, through any further
  requests, confirmations and password changes that draw other tokens, every other
  confirmation with the same token, whatever runs beside it, answers 410 and changes nothing.
\<close>

theorem reset_token_single_use:
  assumes "confirm_password_reset env call id now raw p w = (Response 204 u, w')"
    and "distinct (map t_token_hash (tb_reset_tokens (ac_db w)))"
    and "(password_step env (token_hash env raw))\<^sup>*\<^sup>* w' w''"
  shows "confirm_password_reset env call' others now' raw p' w'' = (stale_reset_token, w'')"
proof -
  have "spent (token_hash env raw) (ac_db w')"
    using assms(1)
  proof (cases rule: confirm_cases)
    case (accepted t v ids d')
    have t: "t \<in> set (tb_reset_tokens (ac_db w))" "t_token_hash t = token_hash env raw"
      using accepted(2) by (auto simp: find_valid_reset_token_def dest!: find_SomeD split: option.splits if_splits)
    have "s = t" if "s \<in> set (tb_reset_tokens (ac_db w))" "t_token_hash s = token_hash env raw" for s
      using assms(2) t that by (auto simp: distinct_map inj_on_def)
    then show ?thesis
      by (auto simp: spent_def accepted(6) revoke_reset_tokens [OF accepted(5)] mark_reset_token_used_def)
  qed (auto simp: stale_reset_token_def)
  then have "spent (token_hash env raw) (ac_db w'')" by (rule password_run_spent [OF assms(3)])
  then show ?thesis
    by (simp add: confirm_password_reset_def spent_invalid)
qed

text \<open>
  Only the newest link works, for one hour: after a reset request that sends a mail, among
  all tokens of the addressed user exactly the mailed one is accepted, and only before the
  expiry stated in the mail, one hour after the request.
\<close>

theorem latest_reset_link_only:
  assumes "process_password_reset_request env f email d = Inr (Some (addr, raw, expires), d')"
  shows "\<exists>u\<in>set (tb_users d). addr = u_email u \<and> expires = f_now f + seconds 3600 \<and>
    (\<forall>now raw'. (\<exists>t. find_valid_reset_token (token_hash env) raw' now d' = Some t \<and> t_user_id t = u_id u) \<longleftrightarrow>
       token_hash env raw' = token_hash env raw \<and> now < expires)"
  using assms
proof (cases rule: ask_reset_tokens)
  case (2 u t)
  let ?d = "invalidate_outstanding_reset_tokens (u_id u) (f_now f) d"
  have rows: "tb_reset_tokens d' = tb_reset_tokens ?d @ [t]"
    using reset_token_row.ins_rows [OF 2(4)] by simp
  have fresh: "\<forall>s\<in>set (tb_reset_tokens ?d). t_token_hash s \<noteq> token_hash env (f_raw_token f)"
    using 2(4) by (auto simp: insert_reset_token_def 2(3) split: if_splits)
  have dead: "t_used_at s \<noteq> None" if "s \<in> set (tb_reset_tokens ?d)" "t_user_id s = u_id u" for s
    using that by (auto simp: invalidate_outstanding_reset_tokens_def split: if_splits)
  have m: "addr = u_email u" "raw = f_raw_token f" "expires = t_expires_at t" using 2(2) by simp_all
  have find_new: "find (\<lambda>s. t_token_hash s = token_hash env raw) (tb_reset_tokens d') = Some t"
    using fresh unfolding rows m(2) by (intro find_snoc) (simp_all add: 2(3))
  have find_old: "s \<in> set (tb_reset_tokens ?d)"
    if "find (\<lambda>s. t_token_hash s = token_hash env raw') (tb_reset_tokens d') = Some s"
      "token_hash env raw' \<noteq> token_hash env raw" for s raw'
    using find_SomeD [OF that(1)] that(2) unfolding rows m(2) by (auto simp: 2(3))
  have "(\<exists>s. find_valid_reset_token (token_hash env) raw' now d' = Some s \<and> t_user_id s = u_id u) \<longleftrightarrow>
       token_hash env raw' = token_hash env raw \<and> now < expires" for now raw'
  proof (cases "token_hash env raw' = token_hash env raw")
    case True
    then show ?thesis by (simp add: find_valid_reset_token_def find_new m(3) 2(3) not_le)
  next
    case False
    then show ?thesis
      using find_old dead by (force simp: find_valid_reset_token_def split: option.splits if_splits)
  qed
  moreover have "u \<in> set (tb_users d)" using 2(1) find_SomeD by (force simp: find_user_by_email_def)
  ultimately show ?thesis using m by (auto simp: 2(3) RESET_TOKEN_TTL_def)
qed simp

subsection \<open>A new password shuts everybody else out\<close>

text \<open>The user's row after the change: the new password verifies and may be used to log in.\<close>

definition has_new_password :: "'a password_env_scheme \<Rightarrow> pystr \<Rightarrow> user \<Rightarrow> account \<Rightarrow> bool" where
  "has_new_password env p u w \<longleftrightarrow>
     (\<exists>v. get_user (u_id u) (ac_db w) = Some v \<and> verify env p (u_hashed_password v) \<and>
        v = u\<lparr>u_hashed_password := u_hashed_password v, u_must_change_password := False\<rparr>)"

lemma password_set:
  assumes so: "sign_out (u_id u) kept now (set_password env (u_id u) p d) w w'"
    and u: "get_user (u_id u) d = Some u" and bcrypt: "verify env p (hash_password env p)"
  shows "has_new_password env p u w'" and "k \<noteq> u_id u \<Longrightarrow> get_user k (ac_db w') = get_user k d"
  using u bcrypt by (simp_all add: has_new_password_def sign_out_frame(2) [OF so] get_user_set_password)

text \<open>
  C30. A reset ends the old access: a confirmation answers 410 or 422 and changes nothing, or it
  answers 204 and, with Redis answering, the token's user can log in with the new password (any
  forced change is over), exactly the sessions of this user are shut out, their cached verdicts
  included, and every other user and session stays as it was.
\<close>

theorem confirm_password_reset_effect:
  assumes "confirm_password_reset env Answered id now raw p w = (r, w')"
    and "sessions_ok (ac_db w)" "coherent w" "verify env p (hash_password env p)"
  shows "w' = w \<and> (r = stale_reset_token \<or> r = Problem 422 ''Password fails policy.'')
    \<or> r = Response 204 () \<and> check_password_policy env p = [] \<and>
      (\<exists>t u. find_valid_reset_token (token_hash env) raw now (ac_db w) = Some t \<and>
         get_user (t_user_id t) (ac_db w) = Some u \<and> has_new_password env p u w' \<and>
         only_signs_out env (u_id u) None w w' \<and>
         (\<forall>k. k \<noteq> u_id u \<longrightarrow> get_user k (ac_db w') = get_user k (ac_db w)))"
  using assms(1)
proof (cases rule: confirm_cases)
  case (accepted t u ids d')
  let ?d = "mark_reset_token_used t now (ac_db w)"
  have same: "tb_sessions (set_password env (u_id u) p ?d) = tb_sessions (ac_db w)"
    by (simp add: mark_reset_token_used_def)
  have so: "sign_out (u_id u) None now (set_password env (u_id u) p ?d) w w'"
    unfolding sign_out_def coherent_same_sessions [OF same] accepted(6)
    using assms(2,3) accepted(5)
    by (intro conjI exI [of _ Answered] exI [of _ ids] exI [of _ d'])
      (simp_all add: mark_reset_token_used_def)
  have id: "t_user_id t = u_id u" using user_row.get_pk [OF accepted(4)] by simp
  have "get_user (u_id u) ?d = Some u" using accepted(4) id by (simp add: mark_reset_token_used_def)
  note p = password_set [OF so this assms(4)]
  show ?thesis
    using accepted(1-4) p sign_out_only [OF so same] by (auto simp: mark_reset_token_used_def)
qed auto

text \<open>
  C31. Changing the password keeps the session that asked: it answers 401 or 422 and changes
  nothing, or it answers 204, the current password was right, the new one works, and, with Redis
  answering, exactly the caller's other sessions are shut out.
\<close>

theorem change_password_effect:
  assumes "change_password env Answered now old p current w = (r, w')"
    and "sessions_ok (ac_db w)" "coherent w" "verify env p (hash_password env p)"
  shows "w' = w \<and> (r = Problem 401 ''Current password is incorrect.'' \<or> r = Problem 422 ''Password fails policy.'')
    \<or> r = Response 204 () \<and> check_password_policy env p = [] \<and>
      (\<exists>u. get_user (au_user_id current) (ac_db w) = Some u \<and> verify env old (u_hashed_password u) \<and>
         has_new_password env p u w' \<and> only_signs_out env (u_id u) (Some (au_session_id current)) w w' \<and>
         (\<forall>k. k \<noteq> u_id u \<longrightarrow> get_user k (ac_db w') = get_user k (ac_db w)))"
  using assms(1)
proof (cases rule: change_cases)
  case (accepted u ids d')
  have same: "tb_sessions (set_password env (u_id u) p (ac_db w)) = tb_sessions (ac_db w)" by simp
  have so: "sign_out (u_id u) (Some (au_session_id current)) now (set_password env (u_id u) p (ac_db w)) w w'"
    unfolding sign_out_def coherent_same_sessions [OF same] accepted(6)
    using assms(2,3) accepted(5)
    by (intro conjI exI [of _ Answered] exI [of _ ids] exI [of _ d']) simp_all
  have "get_user (u_id u) (ac_db w) = Some u" using accepted(2) user_row.get_pk [OF accepted(2)] by simp
  note p = password_set [OF so this assms(4)]
  show ?thesis using accepted(1-4) p sign_out_only [OF so same] by auto
qed auto

subsection \<open>Examples\<close>

definition plain_password_env :: password_env where
  "plain_password_env = \<lparr>py_lower = ascii_lower, db_lower = ascii_lower, verify = (\<lambda>p h. p = h),
     token_hash = (\<lambda>t. t), jwt_encode = (\<lambda>c. py ''jwt''), session_ttl_days = 30,
     access_token_ttl_minutes = 15, isalpha = (\<lambda>c. 97 \<le> c \<and> c \<le> 122),
     isdigit = (\<lambda>c. 48 \<le> c \<and> c \<le> 57), hash_password = (\<lambda>p. p)\<rparr>"

definition alice_token :: password_reset_token where
  "alice_token = \<lparr>t_id = 4, t_user_id = 1, t_token_hash = py ''tok'', t_expires_at = seconds 3600,
     t_used_at = None, t_created_at = 0\<rparr>"

definition forgetful :: database where
  "forgetful = alice_db [alice_session 8 ''r1'', alice_session 9 ''r2'']\<lparr>tb_reset_tokens := [alice_token]\<rparr>"

lemmas demo_password_defs =
  plain_password_env_def alice_token_def forgetful_def alice_db_def alice_def alice_session_def account_of_def

lemma forgetful_ok: "sessions_ok (ac_db (account_of forgetful))" "coherent (account_of forgetful)"
  by (simp_all add: demo_password_defs sessions_ok_def coherent_def)

lemma get_alice: "get_user 1 forgetful = Some alice"
  by (simp add: demo_password_defs get_user_def db_get_def)

lemma alice_password_ok: "check_password_policy plain_password_env (py ''new123'') = []"
  "check_password_policy plain_password_env (py ''abc123'') = []"
  by (simp_all add: check_password_policy_def MIN_LENGTH_def plain_password_env_def py_isspace_def
      py_strip_def)

lemma alice_token_valid:
  "find_valid_reset_token (token_hash plain_password_env) (py ''tok'') 5 forgetful = Some alice_token"
  by (simp add: demo_password_defs find_valid_reset_token_def)

lemma alice_confirms:
  assumes "check_password_policy plain_password_env p = []"
  shows "fst (confirm_password_reset plain_password_env Answered others 5 (py ''tok'') p (account_of forgetful)) =
     Response 204 ()"
proof -
  have "get_user (t_user_id alice_token) forgetful = Some alice"
    using get_alice by (simp add: alice_token_def)
  moreover have "enforce_password_policy plain_password_env p ''new_password'' = Inr ()"
    using assms by (simp add: enforce_policy_iff)
  ultimately show ?thesis
    using alice_token_valid
    by (simp add: confirm_password_reset_def account_of_def case_prod_beta)
qed

lemma confirm_password_reset_effect_witness:
  "\<exists>r w'. confirm_password_reset plain_password_env Answered id 5 (py ''tok'') (py ''new123'')
       (account_of forgetful) = (r, w') \<and> r = Response 204 () \<and>
     only_signs_out plain_password_env 1 None (account_of forgetful) w'"
proof -
  obtain r w' where c: "confirm_password_reset plain_password_env Answered id 5 (py ''tok'') (py ''new123'')
      (account_of forgetful) = (r, w')" by (rule prod.exhaust)
  then have r: "r = Response 204 ()" using alice_confirms [OF alice_password_ok(1), of id] by simp
  have "verify plain_password_env (py ''new123'') (hash_password plain_password_env (py ''new123''))"
    by (simp add: plain_password_env_def)
  from confirm_password_reset_effect [OF c forgetful_ok this] r
  obtain t u where "find_valid_reset_token (token_hash plain_password_env) (py ''tok'') 5 forgetful = Some t"
    "get_user (t_user_id t) forgetful = Some u" "only_signs_out plain_password_env (u_id u) None (account_of forgetful) w'"
    by (auto simp: stale_reset_token_def account_of_def)
  moreover from this have "t = alice_token" using alice_token_valid by simp
  ultimately have "u = alice" using get_alice by (simp add: alice_token_def)
  with \<open>only_signs_out plain_password_env (u_id u) None (account_of forgetful) w'\<close>
  have "only_signs_out plain_password_env 1 None (account_of forgetful) w'" by (simp add: alice_def)
  with c r show ?thesis by blast
qed

lemma change_password_effect_witness:
  "\<exists>r w'. change_password plain_password_env Answered 5 (py ''pw1234'') (py ''new123'')
       \<lparr>au_user_id = 1, au_session_id = 8\<rparr> (account_of forgetful) = (r, w') \<and> r = Response 204 () \<and>
     only_signs_out plain_password_env 1 (Some 8) (account_of forgetful) w'"
proof -
  let ?me = "\<lparr>au_user_id = 1, au_session_id = 8\<rparr>"
  obtain r w' where c: "change_password plain_password_env Answered 5 (py ''pw1234'') (py ''new123'') ?me
      (account_of forgetful) = (r, w')" by (rule prod.exhaust)
  have "enforce_password_policy plain_password_env (py ''new123'') ''new_password'' = Inr ()"
    using alice_password_ok by (simp add: enforce_policy_iff)
  moreover have "verify plain_password_env (py ''pw1234'') (u_hashed_password alice)"
    by (simp add: plain_password_env_def alice_def)
  ultimately have r: "r = Response 204 ()"
    using c get_alice by (auto simp: change_password_def account_of_def split: prod.splits)
  have "verify plain_password_env (py ''new123'') (hash_password plain_password_env (py ''new123''))"
    by (simp add: plain_password_env_def)
  from change_password_effect [OF c forgetful_ok this] r
  obtain u where "get_user 1 forgetful = Some u" "only_signs_out plain_password_env (u_id u) (Some 8) (account_of forgetful) w'"
    by (auto simp: account_of_def)
  moreover from this have "u = alice" using get_alice by simp
  ultimately have "only_signs_out plain_password_env 1 (Some 8) (account_of forgetful) w'"
    by (simp add: alice_def)
  with c r show ?thesis by blast
qed

lemma reset_token_single_use_witness:
  "\<exists>w'. fst (confirm_password_reset plain_password_env Answered id 5 (py ''tok'') (py ''new123'')
       (account_of forgetful)) = Response 204 () \<and>
     confirm_password_reset plain_password_env Answered id 6 (py ''tok'') (py ''abc123'') w' = (stale_reset_token, w') \<and>
     w' = snd (confirm_password_reset plain_password_env Answered id 5 (py ''tok'') (py ''new123'')
       (account_of forgetful))"
proof -
  let ?c = "confirm_password_reset plain_password_env Answered id 5 (py ''tok'') (py ''new123'')
    (account_of forgetful)"
  have r: "fst ?c = Response 204 ()" by (rule alice_confirms [OF alice_password_ok(1)])
  then have c: "?c = (Response 204 (), snd ?c)" by (simp only: prod_eq_iff fst_conv snd_conv simp_thms)
  have d: "distinct (map t_token_hash (tb_reset_tokens (ac_db (account_of forgetful))))"
    by (simp add: demo_password_defs)
  show ?thesis
    using r reset_token_single_use [OF c d rtranclp.rtrancl_refl] by blast
qed

lemma alice_asks:
  "process_password_reset_request plain_password_env (fresh_at 7 5 ''tok2'') (py ''a@x.io'') forgetful =
     Inr (Some (py ''a@x.io'', py ''tok2'', 7 + seconds 3600),
       forgetful\<lparr>tb_reset_tokens := [alice_token\<lparr>t_used_at := Some 7\<rparr>,
         \<lparr>t_id = 5, t_user_id = 1, t_token_hash = py ''tok2'', t_expires_at = 7 + seconds 3600,
          t_used_at = None, t_created_at = 7\<rparr>]\<rparr>)"
  by (simp add: process_password_reset_request_def find_user_by_email_def demo_password_defs fresh_at_def
      ascii_lower_def py_strip_def strip_by_def py_isspace_def create_password_reset_token_def Let_def
      insert_reset_token_def invalidate_outstanding_reset_tokens_def set_used_def
      update_reset_tokens_def db_update_def RESET_TOKEN_TTL_def)

lemma latest_reset_link_only_witness:
  "\<exists>d'. find_valid_reset_token (token_hash plain_password_env) (py ''tok2'') 8 d' \<noteq> None \<and>
     find_valid_reset_token (token_hash plain_password_env) (py ''tok2'') (seconds 3601) d' = None \<and>
     map t_token_hash (tb_reset_tokens d') = [py ''tok'', py ''tok2'']"
proof -
  from alice_asks obtain d' where
    d': "process_password_reset_request plain_password_env (fresh_at 7 5 ''tok2'') (py ''a@x.io'') forgetful =
      Inr (Some (py ''a@x.io'', py ''tok2'', 7 + seconds 3600), d')"
    and toks: "map t_token_hash (tb_reset_tokens d') = [py ''tok'', py ''tok2'']"
    "\<forall>t\<in>set (tb_reset_tokens d'). t_user_id t = u_id alice"
    by (fastforce simp: alice_token_def alice_def)
  have one: "u = alice" if "u \<in> set (tb_users forgetful)" for u
    using that by (simp add: forgetful_def alice_db_def)
  from latest_reset_link_only [OF d']
  have valid: "(\<exists>t. find_valid_reset_token (token_hash plain_password_env) (py ''tok2'') now d' = Some t \<and>
       t_user_id t = u_id alice) \<longleftrightarrow> now < 7 + seconds 3600" for now
    by (auto dest!: one)
  have owner: "t_user_id t = u_id alice"
    if "find_valid_reset_token (token_hash plain_password_env) (py ''tok2'') now d' = Some t" for now t
    using that toks(2) by (auto simp: find_valid_reset_token_def dest!: find_SomeD split: option.splits if_splits)
  have "find_valid_reset_token (token_hash plain_password_env) (py ''tok2'') 8 d' \<noteq> None"
    using valid [of 8] by auto
  moreover have "find_valid_reset_token (token_hash plain_password_env) (py ''tok2'') (seconds 3601) d' = None"
    using valid [of "seconds 3601"] owner by (cases "find_valid_reset_token (token_hash plain_password_env) (py ''tok2'') (seconds 3601) d'") auto
  ultimately show ?thesis using toks(1) by (intro exI [of _ d'] conjI)
qed

text \<open>
  The confirmation does not lock the token row it read: of two confirmations with one token
  that both read before either commits, both are accepted.
\<close>

theorem two_resets_with_one_token:
  "fst (confirm_password_reset plain_password_env Answered id 5 (py ''tok'') (py ''abc123'')
      (account_of forgetful)) = Response 204 () \<and>
   fst (confirm_password_reset plain_password_env Answered
      (\<lambda>d. ac_db (snd (confirm_password_reset plain_password_env Answered id 5 (py ''tok'') (py ''abc123'') (account_of d))))
      5 (py ''tok'') (py ''new123'') (account_of forgetful)) = Response 204 ()"
  using alice_confirms [OF alice_password_ok(1)] alice_confirms [OF alice_password_ok(2)] by simp

end
