(* ===== verification/Invites.thy ===== *)
theory Invites
  imports Passwords
begin

text \<open>
  Invites and registration: \<^verbatim>\<open>services/invites.py\<close>,
  \<^verbatim>\<open>services/registration.py\<close>, \<^verbatim>\<open>core/email_validation.py\<close> and
  \<open>POST /v1/auth/register\<close>; the invite routes are in theory \<open>Invite_Api\<close>.  \<open>nfc\<close> is
  Unicode normalisation, a parameter; \<open>others\<close> is what concurrent transactions commit
  between a registration's reads and its flush.
\<close>

record invite_env = password_env +
  nfc :: "pystr \<Rightarrow> pystr"

subsection \<open>Email addresses\<close>

text \<open>\<open>^[^@\s]+@[^@\s]+\.[^@\s]+$\<close> against the stripped text: one at-sign, no white space,
  and a dot that is neither the first nor the last character of the domain.\<close>

definition is_valid_email_format :: "pystr \<Rightarrow> bool" where
  "is_valid_email_format email =
     (let s = py_strip email; local_part = takeWhile (\<lambda>c. c \<noteq> 64) s; domain = drop (Suc (length local_part)) s
      in local_part \<noteq> [] \<and> 64 \<in> set s \<and> 64 \<notin> set domain \<and> list_all (\<lambda>c. \<not> py_isspace c) s \<and>
         domain \<noteq> [] \<and> 46 \<in> set (butlast (tl domain)))"

subsection \<open>The invite store\<close>

definition INVITE_TOKEN_TTL :: int where "INVITE_TOKEN_TTL = days 7"

definition is_email_registered :: "'a invite_env_scheme \<Rightarrow> pystr \<Rightarrow> database \<Rightarrow> bool" where
  "is_email_registered env email d =
     list_ex (\<lambda>u. db_lower env (u_email u) = py_lower env (py_strip email)) (tb_users d)"

definition create_invite ::
  "'a invite_env_scheme \<Rightarrow> fresh \<Rightarrow> pystr \<Rightarrow> uuid \<Rightarrow> database \<Rightarrow>
   integrity_error + (invite \<times> pystr) \<times> database" where
  "create_invite env f email created_by d =
     (let i = \<lparr>i_id = f_id f, i_email = email, i_token_hash = token_hash env (f_raw_token f),
               i_status = PENDING, i_created_by = created_by, i_expires_at = f_now f + INVITE_TOKEN_TTL,
               i_accepted_at = None, i_created_at = f_now f\<rparr>
      in and_then (insert_invite i d) (\<lambda>d'. Inr ((i, f_raw_token f), d')))"

definition find_valid_invite_by_token ::
  "'a invite_env_scheme \<Rightarrow> pystr \<Rightarrow> datetime \<Rightarrow> database \<Rightarrow> invite option" where
  "find_valid_invite_by_token env raw_token now d =
     (case find (\<lambda>i. i_token_hash i = token_hash env raw_token) (tb_invites d) of
        None \<Rightarrow> None
      | Some i \<Rightarrow> if i_status i \<noteq> PENDING \<or> i_expires_at i \<le> now then None else Some i)"

definition set_invite :: "invite \<Rightarrow> (invite \<Rightarrow> invite) \<Rightarrow> database \<Rightarrow> database" where
  "set_invite i = update_invites (\<lambda>j. i_id j = i_id i)"

definition rotated :: "'a invite_env_scheme \<Rightarrow> fresh \<Rightarrow> invite \<Rightarrow> invite" where
  "rotated env f j =
     j\<lparr>i_token_hash := token_hash env (f_raw_token f), i_expires_at := f_now f + INVITE_TOKEN_TTL\<rparr>"

text \<open>The update fails if another invite already has the new hash (\<open>uq_invites_token_hash\<close>).\<close>

definition rotate_invite_token ::
  "'a invite_env_scheme \<Rightarrow> fresh \<Rightarrow> invite \<Rightarrow> database \<Rightarrow> integrity_error + pystr \<times> database" where
  "rotate_invite_token env f i d =
     (if db_exists (\<lambda>j. i_id j \<noteq> i_id i \<and> i_token_hash j = token_hash env (f_raw_token f)) (tb_invites d)
      then Inl (UniqueViolation ''uq_invites_token_hash'')
      else Inr (f_raw_token f, set_invite i (rotated env f) d))"

definition revoke_invite :: "invite \<Rightarrow> database \<Rightarrow> database" where
  "revoke_invite i = set_invite i (\<lambda>j. j\<lparr>i_status := REVOKED\<rparr>)"

definition redeem_invite :: "invite \<Rightarrow> datetime \<Rightarrow> database \<Rightarrow> database" where
  "redeem_invite i now = set_invite i (\<lambda>j. j\<lparr>i_status := ACCEPTED, i_accepted_at := Some now\<rparr>)"

datatype invite_list_status_filter = Only_Pending | Only_Accepted | Only_Revoked | Only_Expired

fun invite_filter :: "datetime \<Rightarrow> invite_list_status_filter \<Rightarrow> invite \<Rightarrow> bool" where
  "invite_filter ts Only_Pending i \<longleftrightarrow> i_status i = PENDING \<and> i_expires_at i > ts"
| "invite_filter ts Only_Expired i \<longleftrightarrow> i_status i = PENDING \<and> i_expires_at i \<le> ts"
| "invite_filter ts Only_Accepted i \<longleftrightarrow> i_status i = ACCEPTED"
| "invite_filter ts Only_Revoked i \<longleftrightarrow> i_status i = REVOKED"

definition invite_key :: "invite \<Rightarrow> cursor_key" where
  "invite_key i = \<lparr>ck_created_at = i_created_at i, ck_id = i_id i\<rparr>"

definition invite_rows :: "invite_list_status_filter option \<Rightarrow> datetime \<Rightarrow> database \<Rightarrow> invite list" where
  "invite_rows status_filter now d =
     filter (case status_filter of None \<Rightarrow> \<lambda>i. True | Some f \<Rightarrow> invite_filter now f) (tb_invites d)"

definition list_invites ::
  "invite_list_status_filter option \<Rightarrow> datetime \<Rightarrow> int \<Rightarrow> cursor_key option \<Rightarrow> database \<Rightarrow> invite page" where
  "list_invites status_filter now limit cursor d =
     paginate_rows (sql_limit (limit + 1)
       (apply_keyset invite_key cursor (invite_rows status_filter now d))) limit invite_key"

subsection \<open>Registration\<close>

definition USERNAME_MIN_LENGTH :: nat where "USERNAME_MIN_LENGTH = 1"
definition USERNAME_MAX_LENGTH :: nat where "USERNAME_MAX_LENGTH = 32"

datatype registration_error =
    RegistrationFieldError "(string \<times> string) list"
  | DuplicateIdentityError

definition normalize_username :: "'a invite_env_scheme \<Rightarrow> pystr \<Rightarrow> pystr" where
  "normalize_username env username = nfc env (py_strip username)"

definition validate_registration_fields ::
  "'a invite_env_scheme \<Rightarrow> pystr \<Rightarrow> pystr \<Rightarrow> pystr \<Rightarrow> registration_error + pystr" where
  "validate_registration_fields env username first_name last_name =
     (let normalized_username = normalize_username env username;
          n = length normalized_username;
          errors =
            (if \<not> (USERNAME_MIN_LENGTH \<le> n \<and> n \<le> USERNAME_MAX_LENGTH)
             then [(''username'', ''must be between 1 and 32 characters long'')] else []) @
            (if py_strip first_name = [] then [(''first_name'', ''must not be blank'')] else []) @
            (if py_strip last_name = [] then [(''last_name'', ''must not be blank'')] else [])
      in if errors \<noteq> [] then Inl (RegistrationFieldError errors) else Inr normalized_username)"

definition is_username_registered :: "'a invite_env_scheme \<Rightarrow> pystr \<Rightarrow> database \<Rightarrow> bool" where
  "is_username_registered env username d =
     list_ex (\<lambda>u. db_lower env (u_username u) = py_lower env (py_strip username)) (tb_users d)"

definition check_identity_not_taken ::
  "'a invite_env_scheme \<Rightarrow> pystr \<Rightarrow> pystr \<Rightarrow> database \<Rightarrow> registration_error + unit" where
  "check_identity_not_taken env username email d =
     check (\<not> (is_username_registered env username d \<or> is_email_registered env email d))
       DuplicateIdentityError"

definition build_registered_user ::
  "'a invite_env_scheme \<Rightarrow> fresh \<Rightarrow> invite \<Rightarrow> pystr \<Rightarrow> pystr \<Rightarrow> pystr \<Rightarrow> pystr \<Rightarrow> pystr option \<Rightarrow> user" where
  "build_registered_user env f i username first_name last_name password avatar_url =
     \<lparr>u_id = f_id f, u_username = username, u_email = i_email i,
      u_hashed_password = hash_password env password, u_first_name = first_name,
      u_last_name = last_name, u_avatar_url = avatar_url, u_is_active = True,
      u_is_system_admin = False, u_must_change_password = False, u_email_verified = True,
      u_last_seen = None, u_created_at = f_now f\<rparr>"

record register_request =
  rq_invite_token :: pystr
  rq_username :: pystr
  rq_first_name :: pystr
  rq_last_name :: pystr
  rq_password :: pystr
  rq_avatar_url :: "pystr option"

definition register_user ::
  "'a invite_env_scheme \<Rightarrow> fresh \<Rightarrow> (database \<Rightarrow> database) \<Rightarrow> register_request \<Rightarrow> database \<Rightarrow>
   user http \<times> database" where
  "register_user env f others body d =
     (case find_valid_invite_by_token env (rq_invite_token body) (f_now f) d of
        None \<Rightarrow> (Problem 410 ''Invite token is expired, already used, or no longer valid.'', d)
      | Some i \<Rightarrow>
     (case enforce_password_policy env (rq_password body) ''password'' of
        Inl e \<Rightarrow> (Problem 422 ''Password fails policy.'', d)
      | Inr _ \<Rightarrow>
     (case validate_registration_fields env (rq_username body) (rq_first_name body) (rq_last_name body) of
        Inl e \<Rightarrow> (Problem 422 ''Registration field validation failed.'', d)
      | Inr normalized_username \<Rightarrow>
     (case check_identity_not_taken env normalized_username (i_email i) d of
        Inl e \<Rightarrow> (Problem 409 ''This username or email is already registered.'', d)
      | Inr _ \<Rightarrow>
          (let u = build_registered_user env f i normalized_username (rq_first_name body)
                     (rq_last_name body) (rq_password body) (rq_avatar_url body)
           in case insert_user (db_lower env) u (others d) of
                Inl e \<Rightarrow>
                  (if is_unique_violation e
                   then Problem 409 ''This username or email is already registered.'' else Unhandled e,
                   others d)
              | Inr d' \<Rightarrow> (Response 201 u, redeem_invite i (f_now f) d'))))))"

record registered_user =
  ru_id :: uuid
  ru_username :: pystr
  ru_email :: pystr
  ru_first_name :: pystr
  ru_last_name :: pystr
  ru_avatar_url :: "pystr option"
  ru_role :: string
  ru_created_at :: datetime

definition registered_from_user :: "user \<Rightarrow> registered_user" where
  "registered_from_user u =
     \<lparr>ru_id = u_id u, ru_username = u_username u, ru_email = u_email u, ru_first_name = u_first_name u,
      ru_last_name = u_last_name u, ru_avatar_url = u_avatar_url u,
      ru_role = (if u_is_system_admin u then ''system_admin'' else ''user''),
      ru_created_at = u_created_at u\<rparr>"

definition register ::
  "'a invite_env_scheme \<Rightarrow> limiter_env \<Rightarrow> fresh \<Rightarrow> (database \<Rightarrow> database) \<Rightarrow> register_request \<Rightarrow> account \<Rightarrow>
   registered_user http \<times> account" where
  "register env le f others body =
     with_auth_rate_limit (token_hash env) le (rq_invite_token body) (\<lambda>w.
       case register_user env f others body (ac_db w) of
         (r, d') \<Rightarrow> (map_http registered_from_user r, w\<lparr>ac_db := d'\<rparr>))"

subsection \<open>The email pattern\<close>

lemma split_at_sign:
  "64 \<in> set s \<longleftrightarrow> s = takeWhile (\<lambda>c. c \<noteq> 64) s @ 64 # drop (Suc (length (takeWhile (\<lambda>c. c \<noteq> 64) s))) s"
  for s :: pystr
  by (induction s) auto

lemma inner_mem: "x \<in> set (butlast (tl xs)) \<longleftrightarrow> (\<exists>a b. xs = a @ x # b \<and> a \<noteq> [] \<and> b \<noteq> [])"
proof
  assume *: "x \<in> set (butlast (tl xs))"
  then obtain y ys where xs: "xs = y # ys" by (cases xs) auto
  with * obtain a c where ac: "butlast ys = a @ x # c" by (auto simp: in_set_conv_decomp)
  moreover from this have "ys \<noteq> []" by auto
  ultimately have "ys = a @ x # c @ [List.last ys]"
    by (metis append_Cons append_assoc append_butlast_last_id)
  then show "\<exists>a b. xs = a @ x # b \<and> a \<noteq> [] \<and> b \<noteq> []"
    using xs by (intro exI [of _ "y # a"] exI [of _ "c @ [List.last ys]"]) simp
next
  assume "\<exists>a b. xs = a @ x # b \<and> a \<noteq> [] \<and> b \<noteq> []"
  then obtain a b where "xs = a @ x # b" "a \<noteq> []" "b \<noteq> []" by blast
  then show "x \<in> set (butlast (tl xs))" by (cases a) (auto simp: butlast_append)
qed

text \<open>
  The email check is its regular expression \<open>[^@\s]+@[^@\s]+\.[^@\s]+\<close>: a stripped text
  passes exactly when it is a local part, an at-sign, a domain, a dot and a top-level domain,
  each part non-empty and free of at-signs and white space.
\<close>

theorem email_format_is_the_pattern:
  "is_valid_email_format email \<longleftrightarrow>
     (\<exists>name domain tld. py_strip email = name @ [64] @ domain @ [46] @ tld \<and>
        list_all (\<lambda>part. part \<noteq> [] \<and> list_all (\<lambda>c. c \<noteq> 64 \<and> \<not> py_isspace c) part) [name, domain, tld])"
  (is "_ = ?R")
proof
  let ?s = "py_strip email" and ?l = "takeWhile (\<lambda>c. c \<noteq> 64) (py_strip email)"
  let ?d = "drop (Suc (length ?l)) ?s"
  assume valid: "is_valid_email_format email"
  then have s: "?s = ?l @ 64 # ?d" "?l \<noteq> []" "64 \<notin> set ?d" "\<forall>c\<in>set ?s. \<not> py_isspace c"
    and "46 \<in> set (butlast (tl ?d))"
    by (simp_all add: is_valid_email_format_def Let_def split_at_sign [symmetric] list_all_iff)
  then obtain a b where d: "?d = a @ 46 # b" "a \<noteq> []" "b \<noteq> []" by (auto simp: inner_mem)
  have "set ?s = set ?l \<union> {64} \<union> set a \<union> {46} \<union> set b"
    by (subst s(1)) (auto simp: d(1))
  with s(4) have "\<forall>c\<in>set ?l \<union> set a \<union> set b. \<not> py_isspace c" by simp
  moreover have "64 \<notin> set ?l" by (auto dest: set_takeWhileD)
  moreover have "64 \<notin> set a \<union> set b" using s(3) by (simp add: d(1))
  ultimately have "list_all (\<lambda>part. part \<noteq> [] \<and> list_all (\<lambda>c. c \<noteq> 64 \<and> \<not> py_isspace c) part) [?l, a, b]"
    using s(2) d(2,3) unfolding list_all_iff by auto
  moreover have "?s = ?l @ [64] @ a @ [46] @ b" using s(1) by (simp add: d(1))
  ultimately show ?R by blast
next
  assume ?R
  then obtain l a b where s: "py_strip email = l @ [64] @ a @ [46] @ b"
    and p: "list_all (\<lambda>part. part \<noteq> [] \<and> list_all (\<lambda>c. c \<noteq> 64 \<and> \<not> py_isspace c) part) [l, a, b]"
    by blast
  have l: "takeWhile (\<lambda>c. c \<noteq> 64) (py_strip email) = l"
    using p unfolding s by (subst takeWhile_append2) (auto simp: list_all_iff)
  have d: "drop (Suc (length l)) (py_strip email) = a @ 46 # b" by (simp add: s)
  have "46 \<in> set (butlast (tl (a @ 46 # b)))"
    using p unfolding inner_mem by (intro exI [of _ a] exI [of _ b]) simp
  moreover have "64 \<notin> set (a @ 46 # b)" "64 \<in> set (py_strip email)" "l \<noteq> []"
    using p by (auto simp: s list_all_iff)
  moreover have "list_all (\<lambda>c. \<not> py_isspace c) (py_strip email)"
  proof -
    have "\<not> py_isspace 64" "\<not> py_isspace 46" by (simp_all add: py_isspace_def)
    then show ?thesis using p by (auto simp: s list_all_iff)
  qed
  ultimately show "is_valid_email_format email"
    unfolding is_valid_email_format_def l Let_def d by simp
qed

subsection \<open>Registration\<close>

lemma validated_fields:
  assumes "validate_registration_fields env username first_name last_name = Inr n"
  shows "n = normalize_username env username" "1 \<le> length n" "length n \<le> 32"
    "py_strip first_name \<noteq> []" "py_strip last_name \<noteq> []"
  using assms by (auto simp: validate_registration_fields_def Let_def USERNAME_MIN_LENGTH_def
      USERNAME_MAX_LENGTH_def split: if_splits)

lemma insert_user_only_unique:
  assumes "insert_user lower u d = Inl e" "1 \<le> length (u_username u)" "length (u_username u) \<le> 32"
    "py_strip (u_first_name u) \<noteq> []" "py_strip (u_last_name u) \<noteq> []"
  shows "is_unique_violation e"
  using assms strip_btrim [OF assms(4)] strip_btrim [OF assms(5)]
  by (auto simp: insert_user_def split: if_splits)

lemma register_cases:
  assumes "register_user env f others body d = (r, d')"
  obtains (refused) status detail where "r = Problem status detail" "status \<in> {409, 410, 422}"
      "d' = d \<or> d' = others d"
  | (registered) i n u where "find_valid_invite_by_token env (rq_invite_token body) (f_now f) d = Some i"
      "check_password_policy env (rq_password body) = []"
      "validate_registration_fields env (rq_username body) (rq_first_name body) (rq_last_name body) = Inr n"
      "u = build_registered_user env f i n (rq_first_name body) (rq_last_name body) (rq_password body) (rq_avatar_url body)"
      "r = Response 201 u" "insert_user (db_lower env) u (others d) = Inr (others d\<lparr>tb_users := tb_users (others d) @ [u]\<rparr>)"
      "d' = redeem_invite i (f_now f) (others d\<lparr>tb_users := tb_users (others d) @ [u]\<rparr>)"
proof (cases "find_valid_invite_by_token env (rq_invite_token body) (f_now f) d")
  case None
  with assms show ?thesis by (intro refused [of 410]) (auto simp: register_user_def)
next
  case (Some i)
  note i = Some
  show ?thesis
  proof (cases "enforce_password_policy env (rq_password body) ''password''")
    case (Inl e)
    with assms i show ?thesis by (intro refused [of 422]) (auto simp: register_user_def)
  next
    case (Inr v)
    then have pw: "enforce_password_policy env (rq_password body) ''password'' = Inr ()" by simp
    show ?thesis
    proof (cases "validate_registration_fields env (rq_username body) (rq_first_name body) (rq_last_name body)")
      case (Inl e)
      with assms i pw show ?thesis by (intro refused [of 422]) (auto simp: register_user_def)
    next
      case (Inr n)
      note n = Inr
      let ?u = "build_registered_user env f i n (rq_first_name body) (rq_last_name body) (rq_password body) (rq_avatar_url body)"
      show ?thesis
      proof (cases "check_identity_not_taken env n (i_email i) d")
        case (Inl e)
        with assms i pw n show ?thesis by (intro refused [of 409]) (auto simp: register_user_def)
      next
        case (Inr v)
        then have id: "check_identity_not_taken env n (i_email i) d = Inr ()" by simp
        have eq: "(r, d') = (case insert_user (db_lower env) ?u (others d) of
            Inl e \<Rightarrow> (if is_unique_violation e
               then Problem 409 ''This username or email is already registered.'' else Unhandled e, others d)
          | Inr d' \<Rightarrow> (Response 201 ?u, redeem_invite i (f_now f) d'))"
          unfolding assms [symmetric] register_user_def by (simp add: i pw n id Let_def)
        show ?thesis
        proof (cases "insert_user (db_lower env) ?u (others d)")
          case (Inl e)
          have "is_unique_violation e"
            using insert_user_only_unique [OF Inl] validated_fields [OF n] by (simp add: build_registered_user_def)
          with eq Inl show ?thesis by (intro refused [of 409]) auto
        next
          case (Inr d1)
          then have "d1 = others d\<lparr>tb_users := tb_users (others d) @ [?u]\<rparr>"
            by (auto simp: insert_user_def split: if_splits)
          with eq Inr pw show ?thesis
            by (intro registered [OF i _ n refl]) (auto simp: enforce_policy_iff)
        qed
      qed
    qed
  qed
qed

text \<open>
  C12. Registration needs an invite and spends it in one transaction, whatever runs beside it:
  it answers 201 with one new user, an active non-admin whose email is the invite's and belongs
  to nobody else and whose username is free, while the invite, pending and unexpired when read,
  is marked accepted; or it answers 409, 410 or 422 (never an unhandled integrity error) and
  writes nothing.
\<close>

theorem register_user_outcome:
  assumes "register_user env f others body d = (r, d')"
  shows "(\<exists>status detail. r = Problem status detail \<and> status \<in> {409, 410, 422} \<and> (d' = d \<or> d' = others d))
    \<or> (\<exists>u i. r = Response 201 u \<and> i \<in> set (tb_invites d) \<and> i_status i = PENDING \<and> f_now f < i_expires_at i
        \<and> i_token_hash i = token_hash env (rq_invite_token body)
        \<and> u_email u = i_email i \<and> u_is_active u \<and> \<not> u_is_system_admin u \<and> \<not> u_must_change_password u
        \<and> 1 \<le> length (u_username u) \<and> length (u_username u) \<le> 32
        \<and> (\<forall>v\<in>set (tb_users (others d)). u_id v \<noteq> u_id u \<and>
             db_lower env (u_email v) \<noteq> db_lower env (u_email u) \<and>
             db_lower env (u_username v) \<noteq> db_lower env (u_username u))
        \<and> tb_users d' = tb_users (others d) @ [u]
        \<and> get_invite (i_id i) d' = map_option (\<lambda>j. j\<lparr>i_status := ACCEPTED, i_accepted_at := Some (f_now f)\<rparr>)
             (get_invite (i_id i) (others d))
        \<and> (\<forall>k. k \<noteq> i_id i \<longrightarrow> get_invite k d' = get_invite k (others d)))"
  using assms
proof (cases rule: register_cases)
  case (registered i n u)
  let ?d = "others d\<lparr>tb_users := tb_users (others d) @ [u]\<rparr>"
  have i: "i \<in> set (tb_invites d)" "i_token_hash i = token_hash env (rq_invite_token body)"
    "i_status i = PENDING" "f_now f < i_expires_at i"
    using registered(1) by (auto simp: find_valid_invite_by_token_def dest!: find_SomeD split: option.splits if_splits)
  have u: "u_email u = i_email i \<and> u_is_active u \<and> \<not> u_is_system_admin u \<and> \<not> u_must_change_password u
      \<and> u_username u = n"
    by (simp add: registered(4) build_registered_user_def)
  have fresh: "\<forall>v\<in>set (tb_users (others d)). u_id v \<noteq> u_id u \<and>
      db_lower env (u_email v) \<noteq> db_lower env (u_email u) \<and>
      db_lower env (u_username v) \<noteq> db_lower env (u_username u)"
    using registered(6) by (auto simp: insert_user_def split: if_splits)
  have get: "get_invite k d' = map_option (\<lambda>j. if i_id j = i_id i
      then j\<lparr>i_status := ACCEPTED, i_accepted_at := Some (f_now f)\<rparr> else j) (get_invite k (others d))" for k
    unfolding registered(7) redeem_invite_def set_invite_def
    by (subst invite_row.get_upd) (simp_all add: get_invite_def)
  have same: "get_invite (i_id i) d' = map_option (\<lambda>j. j\<lparr>i_status := ACCEPTED, i_accepted_at := Some (f_now f)\<rparr>)
      (get_invite (i_id i) (others d))"
    using invite_row.get_pk by (cases "get_invite (i_id i) (others d)") (force simp: get)+
  have other: "get_invite k d' = get_invite k (others d)" if "k \<noteq> i_id i" for k
    using that invite_row.get_pk by (cases "get_invite k (others d)") (force simp: get)+
  have "tb_users d' = tb_users (others d) @ [u]"
    by (simp add: registered(7) redeem_invite_def set_invite_def update_invites_def)
  then show ?thesis
    using registered(5) i u fresh same other validated_fields(2,3) [OF registered(3)] by blast
qed blast

subsection \<open>Example\<close>

definition plain_invite_env :: invite_env where
  "plain_invite_env = \<lparr>py_lower = ascii_lower, db_lower = ascii_lower, verify = (\<lambda>p h. p = h),
     token_hash = (\<lambda>t. t), jwt_encode = (\<lambda>c. py ''jwt''), session_ttl_days = 30,
     access_token_ttl_minutes = 15, isalpha = (\<lambda>c. 97 \<le> c \<and> c \<le> 122),
     isdigit = (\<lambda>c. 48 \<le> c \<and> c \<le> 57), hash_password = (\<lambda>p. p), nfc = (\<lambda>s. s)\<rparr>"

definition bob_invite :: invite where
  "bob_invite = \<lparr>i_id = 6, i_email = py ''b@x.io'', i_token_hash = py ''inv'', i_status = PENDING,
     i_created_by = 1, i_expires_at = days 7, i_accepted_at = None, i_created_at = 0\<rparr>"

definition inviting :: database where
  "inviting = alice_db []\<lparr>tb_invites := [bob_invite]\<rparr>"

definition bob_request :: register_request where
  "bob_request = \<lparr>rq_invite_token = py ''inv'', rq_username = py ''bob'', rq_first_name = py ''Bo'',
     rq_last_name = py ''Ng'', rq_password = py ''new123'', rq_avatar_url = None\<rparr>"

lemmas demo_invite_defs =
  plain_invite_env_def bob_invite_def inviting_def bob_request_def alice_db_def alice_def fresh_at_def

lemma bob_registers:
  "\<exists>u. fst (register_user plain_invite_env (fresh_at 5 9 ''x'') id bob_request inviting) = Response 201 u"
proof -
  have "find_valid_invite_by_token plain_invite_env (rq_invite_token bob_request) (f_now (fresh_at 5 9 ''x'')) inviting =
      Some bob_invite"
    by (simp add: find_valid_invite_by_token_def demo_invite_defs)
  moreover have "enforce_password_policy plain_invite_env (rq_password bob_request) ''password'' = Inr ()"
    by (simp add: enforce_policy_iff check_password_policy_def MIN_LENGTH_def demo_invite_defs py_strip_def py_isspace_def)
  moreover have "validate_registration_fields plain_invite_env (rq_username bob_request) (rq_first_name bob_request)
      (rq_last_name bob_request) = Inr (py ''bob'')"
    by (simp add: validate_registration_fields_def normalize_username_def USERNAME_MIN_LENGTH_def
        USERNAME_MAX_LENGTH_def demo_invite_defs py_strip_def strip_by_def py_isspace_def)
  moreover have "check_identity_not_taken plain_invite_env (py ''bob'') (i_email bob_invite) inviting = Inr ()"
    by (simp add: check_identity_not_taken_def is_username_registered_def is_email_registered_def
        demo_invite_defs py_strip_def strip_by_def py_isspace_def ascii_lower_def)
  moreover have "\<exists>d'. insert_user (db_lower plain_invite_env) (build_registered_user plain_invite_env (fresh_at 5 9 ''x'')
      bob_invite (py ''bob'') (rq_first_name bob_request) (rq_last_name bob_request) (rq_password bob_request)
      (rq_avatar_url bob_request)) (id inviting) = Inr d'"
    by (simp add: insert_user_def build_registered_user_def demo_invite_defs btrim_def ascii_lower_def)
  ultimately show ?thesis by (auto simp: register_user_def Let_def)
qed

lemma register_user_outcome_witness:
  "\<exists>u. fst (register_user plain_invite_env (fresh_at 5 9 ''x'') id bob_request inviting) = Response 201 u
    \<and> u_email u = py ''b@x.io'' \<and> \<not> u_is_system_admin u"
proof -
  from bob_registers obtain u where
    u: "fst (register_user plain_invite_env (fresh_at 5 9 ''x'') id bob_request inviting) = Response 201 u" by blast
  obtain d' where r: "register_user plain_invite_env (fresh_at 5 9 ''x'') id bob_request inviting = (Response 201 u, d')"
    using u by (metis prod.collapse)
  from register_user_outcome [OF r] obtain i where "i \<in> set (tb_invites inviting)" "u_email u = i_email i"
    "\<not> u_is_system_admin u" by auto
  then have "u_email u = py ''b@x.io''" "\<not> u_is_system_admin u"
    by (simp_all add: inviting_def bob_invite_def)
  with u show ?thesis by blast
qed

end
