(* ===== verification/User_Directory.thy ===== *)
theory User_Directory
  imports Auth
begin

text \<open>
  The user directory and the caller's own profile: \<^verbatim>\<open>services/user_search.py\<close>,
  \<^verbatim>\<open>api/users.py\<close>, \<^verbatim>\<open>services/profile.py\<close>, \<^verbatim>\<open>api/me.py\<close>.  \<open>ILIKE\<close> is
  PostgreSQL's pattern matcher on the two texts folded character by character; the folding
  \<open>lc\<close> is the database's and a parameter.
\<close>

subsection \<open>Patterns\<close>

text \<open>\<open>LIKE\<close> with the escape character backslash; a pattern that ends in a lone escape is an
  error in PostgreSQL and matches nothing here.\<close>

fun like :: "pystr \<Rightarrow> pystr \<Rightarrow> bool" where
  "like [] s = (s = [])"
| "like (p # ps) [] = (p = 37 \<and> like ps [])"
| "like (p # ps) (c # s) =
     (if p = 37 then like ps (c # s) \<or> like (p # ps) s
      else if p = 95 then like ps s
      else if p = 92 then (case ps of [] \<Rightarrow> False | q # qs \<Rightarrow> q = c \<and> like qs s)
      else p = c \<and> like ps s)"

definition ilike :: "(nat \<Rightarrow> nat) \<Rightarrow> pystr \<Rightarrow> pystr \<Rightarrow> bool" where
  "ilike lc pattern s = like (map lc pattern) (map lc s)"

text \<open>\<open>value.replace(c, c')\<close> for one character \<open>c\<close>.\<close>

definition py_replace :: "nat \<Rightarrow> pystr \<Rightarrow> pystr \<Rightarrow> pystr" where
  "py_replace c new value = concat (map (\<lambda>x. if x = c then new else [x]) value)"

definition escape_like :: "pystr \<Rightarrow> pystr" where
  "escape_like value = py_replace 95 [92, 95] (py_replace 37 [92, 37] (py_replace 92 [92, 92] value))"

definition contains_pattern :: "pystr \<Rightarrow> pystr" where
  "contains_pattern q = 37 # escape_like q @ [37]"

subsection \<open>Search\<close>

definition user_key :: "user \<Rightarrow> cursor_key" where
  "user_key u = \<lparr>ck_created_at = u_created_at u, ck_id = u_id u\<rparr>"

definition search_filter :: "(nat \<Rightarrow> nat) \<Rightarrow> pystr \<Rightarrow> user \<Rightarrow> bool" where
  "search_filter lc q u \<longleftrightarrow>
     u_is_active u \<and>
     (let pattern = contains_pattern q in
      ilike lc pattern (u_username u) \<or> ilike lc pattern (u_first_name u) \<or> ilike lc pattern (u_last_name u))"

definition search_users ::
  "(nat \<Rightarrow> nat) \<Rightarrow> pystr \<Rightarrow> int \<Rightarrow> cursor_key option \<Rightarrow> database \<Rightarrow> user page" where
  "search_users lc q limit cursor d =
     (let rows = sort_key u_id (filter (search_filter lc q) (tb_users d));
          rows = (case cursor of None \<Rightarrow> rows | Some k \<Rightarrow> filter (\<lambda>u. u_id u > ck_id k) rows)
      in paginate_rows (sql_limit (limit + 1) rows) limit user_key)"

record user_search_item =
  us_id :: uuid
  us_username :: pystr
  us_first_name :: pystr
  us_last_name :: pystr
  us_avatar_url :: "pystr option"

definition search_item_from_user :: "user \<Rightarrow> user_search_item" where
  "search_item_from_user u =
     \<lparr>us_id = u_id u, us_username = u_username u, us_first_name = u_first_name u,
      us_last_name = u_last_name u, us_avatar_url = u_avatar_url u\<rparr>"

text \<open>\<open>_parse_limit\<close> and the cursor, with the \<open>400\<close> of \<open>PaginationError\<close>; an empty cursor
  is no cursor.\<close>

definition parse_list_limit :: "pystr option \<Rightarrow> pagination_error + int" where
  "parse_list_limit raw =
     (case raw of
        None \<Rightarrow> resolve_limit None
      | Some text \<Rightarrow>
          (case py_int 10 text of
             None \<Rightarrow> Inl (PaginationError ''limit'' ''limit must be a positive integer'')
           | Some v \<Rightarrow> resolve_limit (Some v)))"

definition parse_list_cursor :: "pystr option \<Rightarrow> pagination_error + cursor_key option" where
  "parse_list_cursor raw =
     (case raw of
        None \<Rightarrow> Inr None
      | Some token \<Rightarrow> if token = [] then Inr None else map_sum id Some (decode_cursor token))"

fun pagination_problem :: "pagination_error \<Rightarrow> 'b http" where
  "pagination_problem (PaginationError field detail) = Problem 400 detail"

definition search_users_route ::
  "(nat \<Rightarrow> nat) \<Rightarrow> pystr option \<Rightarrow> pystr option \<Rightarrow> pystr option \<Rightarrow> database \<Rightarrow>
   user_search_item page http" where
  "search_users_route lc q limit cursor d =
     (let stripped_q = (case q of None \<Rightarrow> [] | Some s \<Rightarrow> py_strip s) in
      if stripped_q = [] then Problem 400 ''q is required and must be at least 1 character.''
      else case parse_list_limit limit of
        Inl e \<Rightarrow> pagination_problem e
      | Inr resolved_limit \<Rightarrow>
          (case parse_list_cursor cursor of
             Inl e \<Rightarrow> pagination_problem e
           | Inr cursor_key \<Rightarrow>
               (let page = search_users lc stripped_q resolved_limit cursor_key d
                in Response 200 \<lparr>items = map search_item_from_user (items page),
                                 next_cursor = next_cursor page\<rparr>)))"

subsection \<open>The caller's profile\<close>

text \<open>A body field is absent, \<open>null\<close> (\<open>Some None\<close>) or a text.\<close>

record profile_update_request =
  pu_first_name :: "pystr option option"
  pu_last_name :: "pystr option option"
  pu_avatar_url :: "pystr option option"
  pu_email :: "pystr option option"
  pu_username :: "pystr option option"

datatype profile_error =
    ImmutableFieldChangeError string
  | EmptyNameError string

record profile_update =
  up_first_name :: "pystr option"
  up_last_name :: "pystr option"
  up_avatar_url :: "pystr option"
  up_avatar_url_provided :: bool

definition unchanged_field :: "string \<Rightarrow> pystr option option \<Rightarrow> pystr \<Rightarrow> profile_error + unit" where
  "unchanged_field field sent current =
     check (case sent of None \<Rightarrow> True | Some v \<Rightarrow> v = Some current) (ImmutableFieldChangeError field)"

definition present_name :: "string \<Rightarrow> pystr option option \<Rightarrow> profile_error + unit" where
  "present_name field sent =
     check (case sent of None \<Rightarrow> True | Some None \<Rightarrow> False | Some (Some name) \<Rightarrow> py_strip name \<noteq> [])
       (EmptyNameError field)"

definition validate_profile_update ::
  "user \<Rightarrow> profile_update_request \<Rightarrow> profile_error + profile_update" where
  "validate_profile_update u rq =
     and_then (unchanged_field ''email'' (pu_email rq) (u_email u)) (\<lambda>_.
     and_then (unchanged_field ''username'' (pu_username rq) (u_username u)) (\<lambda>_.
     and_then (present_name ''first_name'' (pu_first_name rq)) (\<lambda>_.
     and_then (present_name ''last_name'' (pu_last_name rq)) (\<lambda>_.
       Inr \<lparr>up_first_name = Option.bind (pu_first_name rq) id, up_last_name = Option.bind (pu_last_name rq) id,
            up_avatar_url = Option.bind (pu_avatar_url rq) id,
            up_avatar_url_provided = (pu_avatar_url rq \<noteq> None)\<rparr>))))"

definition apply_profile_update :: "profile_update \<Rightarrow> user \<Rightarrow> user" where
  "apply_profile_update up u =
     u\<lparr>u_first_name := (case up_first_name up of None \<Rightarrow> u_first_name u | Some n \<Rightarrow> n),
       u_last_name := (case up_last_name up of None \<Rightarrow> u_last_name u | Some n \<Rightarrow> n),
       u_avatar_url := (if up_avatar_url_provided up then up_avatar_url up else u_avatar_url u)\<rparr>"

text \<open>The check constraint an update of the two names meets.\<close>

definition ck_users_names_present :: "user \<Rightarrow> bool" where
  "ck_users_names_present u \<longleftrightarrow> btrim (u_first_name u) \<noteq> [] \<and> btrim (u_last_name u) \<noteq> []"

text \<open>\<open>UserProfile\<close>, which repeats the shape of \<open>UserOut\<close>.\<close>

definition workspace_role :: "user \<Rightarrow> string" where
  "workspace_role u = (if u_is_system_admin u then ''system_admin'' else ''user'')"

definition user_profile_of :: "user \<Rightarrow> user_out" where
  "user_profile_of u =
     \<lparr>uo_id = u_id u, uo_username = u_username u, uo_email = u_email u,
      uo_first_name = u_first_name u, uo_last_name = u_last_name u, uo_avatar_url = u_avatar_url u,
      uo_role = workspace_role u, uo_is_active = u_is_active u, uo_last_seen = u_last_seen u,
      uo_created_at = u_created_at u\<rparr>"

lemma user_profile_of [simp]: "user_profile_of = from_user"
  by (simp add: fun_eq_iff user_profile_of_def workspace_role_def from_user_def)

definition get_me :: "authenticated_user \<Rightarrow> database \<Rightarrow> user_out http" where
  "get_me current d =
     (case get_user (au_user_id current) d of
        None \<Rightarrow> Problem 401 ''Authentication failed. Provide a valid access token.''
      | Some u \<Rightarrow> Response 200 (user_profile_of u))"

definition patch_me ::
  "profile_update_request \<Rightarrow> authenticated_user \<Rightarrow> database \<Rightarrow> user_out http \<times> database" where
  "patch_me body current d =
     (case get_user (au_user_id current) d of
        None \<Rightarrow> (Problem 401 ''Authentication failed. Provide a valid access token.'', d)
      | Some u \<Rightarrow>
          (case validate_profile_update u body of
             Inl (ImmutableFieldChangeError field) \<Rightarrow>
               (Problem 400 (CHR 0x27 # field @ CHR 0x27 # '' is immutable and cannot be changed.''), d)
           | Inl (EmptyNameError field) \<Rightarrow>
               (Problem 422 (CHR 0x27 # field @ CHR 0x27 # '' must not be empty.''), d)
           | Inr up \<Rightarrow>
               (let u' = apply_profile_update up u in
                if \<not> ck_users_names_present u' then (Unhandled (CheckViolation ''ck_users_names_present''), d)
                else (Response 200 (user_profile_of u'), update_users (\<lambda>v. u_id v = u_id u) (apply_profile_update up) d))))"

subsection \<open>Escaped patterns match literally\<close>

definition escape_char :: "nat \<Rightarrow> pystr" where
  "escape_char c = (if c = 92 \<or> c = 37 \<or> c = 95 then [92, c] else [c])"

lemma py_replace_simps [simp]:
  "py_replace c new [] = []"
  "py_replace c new (x # xs) = (if x = c then new else [x]) @ py_replace c new xs"
  by (simp_all add: py_replace_def)

lemma escape_like_chars: "escape_like q = concat (map escape_char q)"
  by (induction q) (auto simp: escape_like_def escape_char_def)

lemma like_escaped: "like (concat (map escape_char q) @ ps) s \<longleftrightarrow> (\<exists>t. s = q @ t \<and> like ps t)"
proof (induction q arbitrary: s)
  case (Cons x q)
  show ?case
  proof (cases s)
    case Nil
    then show ?thesis by (auto simp: escape_char_def)
  next
    case (Cons c cs)
    then show ?thesis using Cons.IH [of cs] by (auto simp: escape_char_def)
  qed
qed simp

lemma like_percent: "like (37 # ps) s \<longleftrightarrow> (\<exists>u v. s = u @ v \<and> like ps v)"
proof (induction s)
  case (Cons c cs)
  have "(\<exists>u v. c # cs = u @ v \<and> like ps v) \<longleftrightarrow>
      like ps (c # cs) \<or> (\<exists>u v. cs = u @ v \<and> like ps v)"
    by (auto simp: Cons_eq_append_conv intro: exI [of _ "[]"])
  with Cons.IH show ?case by simp
qed simp

lemma like_contains: "like (contains_pattern q) s \<longleftrightarrow> sublist q s"
  unfolding contains_pattern_def like_percent escape_like_chars like_escaped
  by (auto simp: sublist_def like_percent)

text \<open>The folding is a folding of letters: it neither creates nor changes a special character.\<close>

definition letter_folding :: "(nat \<Rightarrow> nat) \<Rightarrow> bool" where
  "letter_folding lc \<longleftrightarrow> (\<forall>c. (lc c = 37 \<longleftrightarrow> c = 37) \<and> (lc c = 92 \<longleftrightarrow> c = 92) \<and> (lc c = 95 \<longleftrightarrow> c = 95))"

lemma fold_escape_char: "letter_folding lc \<Longrightarrow> map lc (escape_char c) = escape_char (lc c)"
  by (simp add: escape_char_def letter_folding_def)

lemma fold_contains_pattern:
  "letter_folding lc \<Longrightarrow> map lc (contains_pattern q) = contains_pattern (map lc q)"
  by (simp add: contains_pattern_def escape_like_chars map_concat comp_def fold_escape_char)
     (simp add: letter_folding_def)

lemma ilike_contains:
  "letter_folding lc \<Longrightarrow> ilike lc (contains_pattern q) s \<longleftrightarrow> sublist (map lc q) (map lc s)"
  by (simp add: ilike_def fold_contains_pattern like_contains)

subsection \<open>Walking the search\<close>

definition search_results :: "(nat \<Rightarrow> nat) \<Rightarrow> pystr \<Rightarrow> database \<Rightarrow> user list" where
  "search_results lc q d = sort_key u_id (filter (search_filter lc q) (tb_users d))"

definition users_ok :: "database \<Rightarrow> bool" where
  "users_ok d \<longleftrightarrow> distinct (map u_id (tb_users d)) \<and>
     (\<forall>u\<in>set (tb_users d). valid_datetime (u_created_at u))"

lemma search_results_sorted:
  assumes "users_ok d"
  shows "sorted_wrt (\<lambda>u v. u_id u < u_id v) (search_results lc q d)"
proof -
  have "distinct (map u_id (filter (search_filter lc q) (tb_users d)))"
    using assms by (simp add: users_ok_def distinct_map_filter)
  then have "distinct (map u_id (search_results lc q d))"
    by (metis distinct_map distinct_sort search_results_def set_sort)
  then have "sorted_wrt (<) (map u_id (search_results lc q d))"
    by (simp add: strict_sorted_iff search_results_def)
  then show ?thesis by (simp add: sorted_wrt_map)
qed

lemma filter_above_nth:
  assumes "sorted_wrt (\<lambda>u v. u_id u < u_id v) L" "0 < n" "n \<le> length L"
  shows "filter (\<lambda>u. u_id u > u_id (L ! (n - 1))) L = drop n L"
proof -
  have sw: "u_id (L ! i) < u_id (L ! j)" if "i < j" "j < length L" for i j
    using assms(1) that by (simp add: sorted_wrt_iff_nth_less)
  have "filter (\<lambda>u. u_id u > u_id (L ! (n - 1))) (take n L) = []"
  proof (rule filter_False, intro ballI)
    fix u assume "u \<in> set (take n L)"
    then obtain i where i: "i < n" "i < length L" "u = L ! i" by (auto simp: in_set_conv_nth)
    show "\<not> u_id u > u_id (L ! (n - 1))"
    proof (cases "i = n - 1")
      case False
      with i have "u_id (L ! i) < u_id (L ! (n - 1))" using sw [of i "n - 1"] assms(2,3) by linarith
      with i show ?thesis by simp
    qed (simp add: i)
  qed
  moreover have "filter (\<lambda>u. u_id u > u_id (L ! (n - 1))) (drop n L) = drop n L"
  proof (rule filter_True, intro ballI)
    fix u assume "u \<in> set (drop n L)"
    then obtain j where "j < length L - n" "u = L ! (n + j)" by (auto simp: in_set_conv_nth)
    with sw [of "n - 1" "n + j"] assms(2) show "u_id u > u_id (L ! (n - 1))" by simp
  qed
  moreover have "L = take n L @ drop n L" by simp
  ultimately show ?thesis by (metis append_Nil filter_append)
qed

interpretation user_search: cursor_listing
  "\<lambda>d limit c. search_users lc q limit c d" "search_results lc q" user_key users_ok for lc q
proof unfold_locales
  fix d n c limit
  assume d: "users_ok d" and n: "n \<le> length (search_results lc q d)"
    and c: "n = 0 \<and> c = None \<or> 0 < n \<and> c = Some (user_key (search_results lc q d ! (n - 1)))"
  have "(case c of None \<Rightarrow> search_results lc q d
      | Some k \<Rightarrow> filter (\<lambda>u. u_id u > ck_id k) (search_results lc q d)) = drop n (search_results lc q d)"
    using c filter_above_nth [OF search_results_sorted [OF d] _ n] by (auto simp: user_key_def)
  then show "search_users lc q limit c d =
      paginate_rows (sql_limit (limit + 1) (drop n (search_results lc q d))) limit user_key"
    unfolding search_users_def Let_def search_results_def [symmetric] by simp
qed (auto simp: search_results_def user_key_def users_ok_def)

text \<open>
  Searching the directory is a literal, case-insensitive substring search: following the
  cursors visits, in id order and each once, exactly the active users whose username, first or
  last name contains the folded search text, whatever percent signs, underscores or
  backslashes it holds.
\<close>

theorem user_search_walk:
  assumes "users_ok d" "1 \<le> limit" "length (tb_users d) < fuel" "letter_folding lc"
  shows "\<exists>us. walk_pages (\<lambda>k. search_users lc q limit k d) fuel None = Some us
    \<and> sorted_wrt (\<lambda>u v. u_id u < u_id v) us
    \<and> (\<forall>u. u \<in> set us \<longleftrightarrow> u \<in> set (tb_users d) \<and> u_is_active u \<and>
        (\<exists>s\<in>{u_username u, u_first_name u, u_last_name u}. sublist (map lc q) (map lc s)))"
proof -
  have "length (search_results lc q d) < fuel"
    using assms(3) le_less_trans [OF length_filter_le] by (simp add: search_results_def)
  from user_search.walk_complete [OF assms(1,2) this]
  have "walk_pages (\<lambda>k. search_users lc q limit k d) fuel None = Some (search_results lc q d)" .
  moreover have "u \<in> set (search_results lc q d) \<longleftrightarrow> u \<in> set (tb_users d) \<and> u_is_active u \<and>
      (\<exists>s\<in>{u_username u, u_first_name u, u_last_name u}. sublist (map lc q) (map lc s))" for u
    by (auto simp: search_results_def search_filter_def Let_def ilike_contains [OF assms(4)])
  ultimately show ?thesis using search_results_sorted [OF assms(1)] by blast
qed

lemma sublist_singleton: "sublist [x] xs \<longleftrightarrow> x \<in> set xs"
  by (auto simp: sublist_def in_set_conv_decomp)

definition named_user :: "uuid \<Rightarrow> string \<Rightarrow> user" where
  "named_user u name =
     \<lparr>u_id = u, u_username = py name, u_email = py (name @ ''@x.io''), u_hashed_password = py ''h'',
      u_first_name = py ''Ann'', u_last_name = py ''Lee'', u_avatar_url = None, u_is_active = True,
      u_is_system_admin = False, u_must_change_password = False, u_email_verified = True,
      u_last_seen = None, u_created_at = 7\<rparr>"

definition directory :: database where
  "directory = \<lparr>tb_users = [named_user 2 ''a_b'', named_user 1 ''axb''], tb_channels = [],
     tb_members = [], tb_messages = [], tb_attachments = [], tb_invites = [], tb_reset_tokens = [],
     tb_sessions = []\<rparr>"

lemma directory_ok: "users_ok directory"
  by (simp add: users_ok_def directory_def named_user_def valid_datetime_def datetime_min_def
      datetime_max_def)

lemma user_search_walk_witness:
  "\<exists>us. walk_pages (\<lambda>k. search_users (\<lambda>c. if 65 \<le> c \<and> c \<le> 90 then c + 32 else c) (py ''_'') 50 k
       directory) 3 None = Some us \<and> set us = {named_user 2 ''a_b''}"
proof -
  let ?lc = "\<lambda>c. if 65 \<le> c \<and> c \<le> 90 then c + 32 else c :: nat"
  have "letter_folding ?lc" by (auto simp: letter_folding_def)
  then obtain us where
    "walk_pages (\<lambda>k. search_users ?lc (py ''_'') 50 k directory) 3 None = Some us" and
    us: "\<And>u. u \<in> set us \<longleftrightarrow> u \<in> set (tb_users directory) \<and> u_is_active u \<and>
        (\<exists>s\<in>{u_username u, u_first_name u, u_last_name u}. sublist (map ?lc (py ''_'')) (map ?lc s))"
    using user_search_walk [OF directory_ok, of 50 3 ?lc "py ''_''"]
    by (auto simp: directory_def)
  moreover have "set us = {named_user 2 ''a_b''}"
    by (intro set_eqI) (auto simp: us directory_def named_user_def sublist_singleton)
  ultimately show ?thesis by blast
qed

subsection \<open>Editing the profile\<close>

lemma apply_profile_keeps [simp]:
  "u_id (apply_profile_update up u) = u_id u" "u_email (apply_profile_update up u) = u_email u"
  "u_username (apply_profile_update up u) = u_username u"
  "apply_profile_update up (apply_profile_update up u) = apply_profile_update up u"
  by (auto simp: apply_profile_update_def split: option.split)

lemma validate_again:
  "validate_profile_update (apply_profile_update up u) body = validate_profile_update u body"
  by (simp add: validate_profile_update_def)

lemma validated_names:
  assumes "validate_profile_update u body = Inr up" "ck_users_names_present u"
  shows "ck_users_names_present (apply_profile_update up u)"
  using assms
  by (auto simp: validate_profile_update_def unchanged_field_def present_name_def check_def
      ck_users_names_present_def apply_profile_update_def strip_btrim split: if_splits option.splits)

lemma db_update_again:
  assumes "\<And>r. c (f r) = c r" "\<And>r. f (f r) = f r"
  shows "db_update c f (db_update c f rows) = db_update c f rows"
  using assms by (simp add: db_update_def)

text \<open>
  A profile edit touches nothing but the caller's own names and avatar: every user keeps
  their email and username, everybody else's row and all other tables stay, both names stay
  present, the database check is never violated, a refusal changes nothing, and repeating an
  accepted request gives the same answer and the same state.
\<close>

theorem patch_me_effect:
  assumes "patch_me body current d = (r, d')" "\<forall>u\<in>set (tb_users d). ck_users_names_present u"
  shows "(\<nexists>e. r = Unhandled e)
    \<and> (\<forall>k. k \<noteq> au_user_id current \<longrightarrow> get_user k d' = get_user k d)
    \<and> (\<forall>k. map_option u_email (get_user k d') = map_option u_email (get_user k d)
        \<and> map_option u_username (get_user k d') = map_option u_username (get_user k d))
    \<and> (\<forall>u\<in>set (tb_users d'). ck_users_names_present u)
    \<and> d' = d\<lparr>tb_users := tb_users d'\<rparr>
    \<and> ((\<nexists>b. r = Response 200 b) \<longrightarrow> d' = d)
    \<and> ((\<exists>b. r = Response 200 b) \<longrightarrow> patch_me body current d' = (r, d'))"
proof (cases "\<exists>u up. get_user (au_user_id current) d = Some u \<and> validate_profile_update u body = Inr up")
  case False
  then have "d' = d" "(\<nexists>e. r = Unhandled e) \<and> (\<nexists>b. r = Response 200 b)"
    using assms(1) by (auto simp: patch_me_def split: option.splits sum.splits profile_error.splits)
  with assms(2) show ?thesis by simp
next
  case True
  then obtain u up where u: "get_user (au_user_id current) d = Some u"
    "validate_profile_update u body = Inr up" by blast
  let ?f = "apply_profile_update up" and ?c = "\<lambda>v. u_id v = u_id u"
  have id: "u_id u = au_user_id current" and mem: "u \<in> set (tb_users d)"
    using user_row.get_pk [OF u(1)] by simp_all
  have names: "ck_users_names_present (?f u)"
    using validated_names [OF u(2)] assms(2) mem by blast
  have r: "r = Response 200 (from_user (?f u))" and d': "d' = update_users ?c ?f d"
    using assms(1) u names by (simp_all add: patch_me_def)
  have get: "get_user k d' = map_option (\<lambda>v. if ?c v then ?f v else v) (get_user k d)" for k
    unfolding d' by (rule user_row.get_upd) simp
  have again: "update_users ?c ?f d' = d'"
    unfolding d' update_users_def by (simp add: db_update_again)
  have "get_user (au_user_id current) d' = Some (?f u)" by (simp add: get u(1))
  then have "patch_me body current d' = (r, d')"
    using u(2) names by (simp add: patch_me_def validate_again r again)
  moreover have "get_user k d' = get_user k d" if "k \<noteq> au_user_id current" for k
  proof (cases "get_user k d")
    case (Some v)
    then have "\<not> ?c v" using that id user_row.get_pk [OF Some] by simp
    with Some show ?thesis by (simp add: get)
  qed (simp add: get)
  moreover have "ck_users_names_present v" if "v \<in> set (tb_users d')" for v
  proof -
    from that obtain v' where v': "v' \<in> set (tb_users d)" "v = (if ?c v' then ?f v' else v')"
      by (auto simp: d' update_users_def)
    show ?thesis
    proof (cases "?c v'")
      case True
      have "ck_users_names_present (?f v')"
        using names assms(2) v'(1)
        by (auto simp: ck_users_names_present_def apply_profile_update_def split: option.splits)
      with True v' show ?thesis by simp
    qed (use v' assms(2) in auto)
  qed
  moreover have "d' = d\<lparr>tb_users := tb_users d'\<rparr>" by (simp add: d' update_users_def)
  moreover have "map_option u_email (get_user k d') = map_option u_email (get_user k d)"
    "map_option u_username (get_user k d') = map_option u_username (get_user k d)" for k
    by (cases "get_user k d"; simp add: get)+
  ultimately show ?thesis using r by simp
qed

lemma patch_me_effect_witness:
  "let body = \<lparr>pu_first_name = Some (Some (py ''Bo'')), pu_last_name = None, pu_avatar_url = None,
        pu_email = Some (Some (py ''axb@x.io'')), pu_username = None\<rparr>;
       current = \<lparr>au_user_id = 1, au_session_id = 9\<rparr>;
       (r, d') = patch_me body current directory
   in patch_me body current d' = (r, d') \<and> (\<exists>b. r = Response 200 b) \<and>
      map_option u_first_name (get_user 1 d') = Some (py ''Bo'')"
proof -
  let ?body = "\<lparr>pu_first_name = Some (Some (py ''Bo'')), pu_last_name = None, pu_avatar_url = None,
        pu_email = Some (Some (py ''axb@x.io'')), pu_username = None\<rparr>"
  let ?current = "\<lparr>au_user_id = 1, au_session_id = 9\<rparr>"
  let ?u = "named_user 1 ''axb''" and ?up = "\<lparr>up_first_name = Some (py ''Bo''), up_last_name = None,
    up_avatar_url = None, up_avatar_url_provided = False\<rparr>"
  have u: "get_user 1 directory = Some ?u"
    by (simp add: get_user_def db_get_def directory_def named_user_def)
  have "validate_profile_update ?u ?body = Inr ?up"
    by (simp add: validate_profile_update_def unchanged_field_def present_name_def named_user_def
        py_strip_def py_isspace_def)
  moreover have "ck_users_names_present (apply_profile_update ?up ?u)"
    by (simp add: ck_users_names_present_def apply_profile_update_def named_user_def btrim_def)
  ultimately have eq: "patch_me ?body ?current directory =
      (Response 200 (from_user (apply_profile_update ?up ?u)),
       update_users (\<lambda>v. u_id v = 1) (apply_profile_update ?up) directory)"
    by (simp add: patch_me_def u) (simp add: named_user_def)
  have "\<forall>u\<in>set (tb_users directory). ck_users_names_present u"
    by (simp add: ck_users_names_present_def directory_def named_user_def btrim_def)
  from patch_me_effect [OF eq this]
  have "patch_me ?body ?current (update_users (\<lambda>v. u_id v = 1) (apply_profile_update ?up) directory) =
      (Response 200 (from_user (apply_profile_update ?up ?u)),
       update_users (\<lambda>v. u_id v = 1) (apply_profile_update ?up) directory)" by blast
  moreover have "get_user 1 (update_users (\<lambda>v. u_id v = 1) (apply_profile_update ?up) directory) =
      Some (apply_profile_update ?up ?u)"
    by (simp add: user_row.get_upd u) (simp add: named_user_def)
  ultimately show ?thesis
    unfolding Let_def eq by (simp add: apply_profile_update_def)
qed

end
