(* ===== verification/Invite_Api.thy ===== *)
theory Invite_Api
  imports Invites User_Directory
begin

text \<open>
  The invite routes of \<^verbatim>\<open>api/invites.py\<close> with the shapes of
  \<^verbatim>\<open>schemas/invites.py\<close>.  Whether the mail server takes a message (\<open>delivered\<close>) is a
  parameter; a route returns its answer, the messages taken, and the database after its commit
  or rollback.  \<open>parse_list_limit\<close> and \<open>parse_list_cursor\<close> are the parsers this module
  shares with the user directory.
\<close>

record invite_response =
  ir_id :: uuid
  ir_email :: pystr
  ir_status :: string
  ir_expiry :: datetime
  ir_issued_by :: uuid
  ir_created_at :: datetime

definition invite_response_of :: "invite \<Rightarrow> invite_response" where
  "invite_response_of i =
     \<lparr>ir_id = i_id i, ir_email = i_email i, ir_status = ''pending'', ir_expiry = i_expires_at i,
      ir_issued_by = i_created_by i, ir_created_at = i_created_at i\<rparr>"

record invite_resend_response =
  rs_id :: uuid
  rs_email :: pystr
  rs_status :: string
  rs_expiry :: datetime

definition resend_response_of :: "invite \<Rightarrow> invite_resend_response" where
  "resend_response_of i =
     \<lparr>rs_id = i_id i, rs_email = i_email i, rs_status = ''pending'', rs_expiry = i_expires_at i\<rparr>"

fun invite_status_value :: "invite_status \<Rightarrow> string" where
  "invite_status_value PENDING = ''pending''"
| "invite_status_value ACCEPTED = ''accepted''"
| "invite_status_value REVOKED = ''revoked''"

definition invite_list_wire_status :: "datetime \<Rightarrow> invite \<Rightarrow> string" where
  "invite_list_wire_status now i =
     (if i_status i = PENDING \<and> i_expires_at i \<le> now then ''expired'' else invite_status_value (i_status i))"

record invite_list_item =
  il_id :: uuid
  il_email :: pystr
  il_status :: string
  il_expiry :: datetime
  il_issued_at :: datetime

definition invite_list_item_of :: "datetime \<Rightarrow> invite \<Rightarrow> invite_list_item" where
  "invite_list_item_of now i =
     \<lparr>il_id = i_id i, il_email = i_email i, il_status = invite_list_wire_status now i,
      il_expiry = i_expires_at i, il_issued_at = i_created_at i\<rparr>"

text \<open>Recipient, link and expiry of an invite mail.\<close>

type_synonym invite_mail = "pystr \<times> pystr \<times> datetime"

definition invite_link :: "pystr \<Rightarrow> pystr \<Rightarrow> pystr" where
  "invite_link invite_url_base raw_token = invite_url_base @ py ''?token='' @ raw_token"

text \<open>The dependency \<open>require_system_admin\<close> of a route.\<close>

definition system_admin_only ::
  "authenticated_user \<Rightarrow> database \<Rightarrow> 'b http \<Rightarrow> 'b http" where
  "system_admin_only admin d answer =
     (if require_system_admin admin d then answer
      else Problem 403 ''This action requires System Admin privileges.'')"

definition issue_invite ::
  "'a invite_env_scheme \<Rightarrow> pystr \<Rightarrow> bool \<Rightarrow> fresh \<Rightarrow> pystr \<Rightarrow> authenticated_user \<Rightarrow> database \<Rightarrow>
   invite_response http \<times> invite_mail list \<times> database" where
  "issue_invite env invite_url_base delivered f body_email admin d =
     (let email = py_strip body_email in
      if \<not> require_system_admin admin d
      then (Problem 403 ''This action requires System Admin privileges.'', [], d)
      else if \<not> is_valid_email_format email then (Problem 422 ''Must be a valid email address.'', [], d)
      else if is_email_registered env email d
      then (Problem 409 ''This email address already belongs to a registered user.'', [], d)
      else case create_invite env f email (au_user_id admin) d of
        Inl e \<Rightarrow> (Unhandled e, [], d)
      | Inr ((i, raw_token), d') \<Rightarrow>
          if \<not> delivered
          then (Problem 502 ''The invite email could not be delivered. Please try again.'', [], d)
          else (Response 201 (invite_response_of i),
                [(email, invite_link invite_url_base raw_token, i_expires_at i)], d'))"

definition validate_invite_token ::
  "'a invite_env_scheme \<Rightarrow> datetime \<Rightarrow> pystr \<Rightarrow> database \<Rightarrow> (pystr \<times> datetime) http" where
  "validate_invite_token env now token d =
     (case find_valid_invite_by_token env token now d of
        None \<Rightarrow> Problem 410 ''Invite is expired, already used, or no longer valid.''
      | Some i \<Rightarrow> Response 200 (i_email i, i_expires_at i))"

definition resend_invite ::
  "'a invite_env_scheme \<Rightarrow> pystr \<Rightarrow> bool \<Rightarrow> fresh \<Rightarrow> uuid \<Rightarrow> authenticated_user \<Rightarrow> database \<Rightarrow>
   invite_resend_response http \<times> invite_mail list \<times> database" where
  "resend_invite env invite_url_base delivered f invite_id admin d =
     (if \<not> require_system_admin admin d
      then (Problem 403 ''This action requires System Admin privileges.'', [], d)
      else case get_invite invite_id d of
        None \<Rightarrow> (Problem 404 ''No such invite.'', [], d)
      | Some i \<Rightarrow>
          if i_status i \<noteq> PENDING
          then (Problem 409 ''Invite is not in a pending (resendable) state.'', [], d)
          else (case rotate_invite_token env f i d of
             Inl e \<Rightarrow> (Unhandled e, [], d)
           | Inr (raw_token, d') \<Rightarrow>
               if \<not> delivered
               then (Problem 502 ''The invite email could not be delivered. Please try again.'', [], d)
               else (Response 200 (resend_response_of (rotated env f i)),
                     [(i_email i, invite_link invite_url_base raw_token, i_expires_at (rotated env f i))], d')))"

fun parse_status_filter :: "pystr option \<Rightarrow> invite_list_status_filter option option" where
  "parse_status_filter None = Some None"
| "parse_status_filter (Some s) =
     (if s = py ''pending'' then Some (Some Only_Pending)
      else if s = py ''accepted'' then Some (Some Only_Accepted)
      else if s = py ''revoked'' then Some (Some Only_Revoked)
      else if s = py ''expired'' then Some (Some Only_Expired)
      else None)"

definition list_invites_route ::
  "datetime \<Rightarrow> datetime \<Rightarrow> pystr option \<Rightarrow> pystr option \<Rightarrow> pystr option \<Rightarrow> authenticated_user \<Rightarrow> database \<Rightarrow>
   invite_list_item page http" where
  "list_invites_route now render_now status_filter limit cursor admin d =
     system_admin_only admin d
      (case parse_status_filter status_filter of
         None \<Rightarrow> Problem 400 ''status must be one of: pending, accepted, revoked, expired.''
       | Some status_filter \<Rightarrow>
           (case parse_list_limit limit of
              Inl e \<Rightarrow> pagination_problem e
            | Inr resolved_limit \<Rightarrow>
                (case parse_list_cursor cursor of
                   Inl e \<Rightarrow> pagination_problem e
                 | Inr cursor_key \<Rightarrow>
                     (let page = list_invites status_filter now resolved_limit cursor_key d
                      in Response 200 \<lparr>items = map (invite_list_item_of render_now) (items page),
                                       next_cursor = next_cursor page\<rparr>))))"

definition revoke_invite_route ::
  "uuid \<Rightarrow> authenticated_user \<Rightarrow> database \<Rightarrow> unit http \<times> database" where
  "revoke_invite_route invite_id admin d =
     (if \<not> require_system_admin admin d
      then (Problem 403 ''This action requires System Admin privileges.'', d)
      else case get_invite invite_id d of
        None \<Rightarrow> (Problem 404 ''No such invite.'', d)
      | Some i \<Rightarrow>
          if i_status i = ACCEPTED
          then (Problem 409 ''Invite has already been redeemed and cannot be revoked.'', d)
          else (Response 204 (), revoke_invite i d))"

subsection \<open>The listing\<close>

definition invites_ok :: "database \<Rightarrow> bool" where
  "invites_ok d \<longleftrightarrow> distinct (map i_id (tb_invites d)) \<and>
     (\<forall>i\<in>set (tb_invites d). valid_datetime (i_created_at i))"

interpretation invite_listing: keyset_source
  "\<lambda>d limit c. list_invites flt now limit c d" "invite_rows flt now" invite_key invites_ok for flt now
proof unfold_locales
  fix d assume "invites_ok d"
  then have "distinct (map i_id (invite_rows flt now d))"
    by (simp add: invites_ok_def invite_rows_def distinct_map_filter)
  then show "distinct (map invite_key (invite_rows flt now d))"
    by (simp add: distinct_map inj_on_def invite_key_def)
qed (auto simp: list_invites_def keyset_page_def invites_ok_def invite_rows_def invite_key_def)

fun filter_name :: "invite_list_status_filter \<Rightarrow> string" where
  "filter_name Only_Pending = ''pending''"
| "filter_name Only_Accepted = ''accepted''"
| "filter_name Only_Revoked = ''revoked''"
| "filter_name Only_Expired = ''expired''"

lemma filter_is_wire_status: "invite_filter now s i \<longleftrightarrow> invite_list_wire_status now i = filter_name s"
  by (cases s; cases "i_status i") (auto simp: invite_list_wire_status_def)

text \<open>
  Browsing invites page by page yields, newest first and each once, exactly the invites
  whose displayed status is the requested one; so the four filters divide the invites among them.
\<close>

theorem invite_listing_walk:
  assumes "invites_ok d" "1 \<le> limit" "length (tb_invites d) < fuel"
  shows "\<exists>rows. walk_pages (\<lambda>c. list_invites flt now limit c d) fuel None = Some rows
    \<and> newest_first invite_key rows
    \<and> mset rows = mset (filter (\<lambda>i. flt \<in> {None} \<union> {Some s |s. filter_name s = invite_list_wire_status now i})
        (tb_invites d))"
proof -
  have "length (invite_rows flt now d) < fuel"
    using assms(3) le_less_trans [OF length_filter_le] by (simp add: invite_rows_def)
  from invite_listing.walk_visits_once [OF assms(1,2) this]
  obtain rows where "walk_pages (\<lambda>c. list_invites flt now limit c d) fuel None = Some rows"
    "mset rows = mset (invite_rows flt now d)" "newest_first invite_key rows" by blast
  moreover have "invite_rows flt now d = filter (\<lambda>i. flt \<in> {None} \<union> {Some s |s. filter_name s = invite_list_wire_status now i})
      (tb_invites d)"
    unfolding invite_rows_def by (rule filter_cong [OF refl])
      (auto simp: filter_is_wire_status split: option.splits)
  ultimately show ?thesis by auto
qed

subsection \<open>The life of an invite\<close>

text \<open>How an invite may change: who was invited by whom is fixed, and accepted and revoked
  are final.\<close>

definition invite_evolves :: "invite \<Rightarrow> invite \<Rightarrow> bool" where
  "invite_evolves i j \<longleftrightarrow>
     i_id j = i_id i \<and> i_email j = i_email i \<and> i_created_by j = i_created_by i \<and>
     i_created_at j = i_created_at i \<and> (i_status i \<noteq> PENDING \<longrightarrow> j = i)"

lemma invite_evolves_refl [simp]: "invite_evolves i i"
  by (simp add: invite_evolves_def)

lemma invite_evolves_trans: "invite_evolves i j \<Longrightarrow> invite_evolves j k \<Longrightarrow> invite_evolves i k"
  by (auto simp: invite_evolves_def)

definition invites_inv :: "database \<Rightarrow> bool" where
  "invites_inv d \<longleftrightarrow> distinct (map i_id (tb_invites d)) \<and> distinct (map i_token_hash (tb_invites d)) \<and>
     (\<forall>i\<in>set (tb_invites d). i_status i = ACCEPTED \<longleftrightarrow> i_accepted_at i \<noteq> None)"

definition invites_grow :: "database \<Rightarrow> database \<Rightarrow> bool" where
  "invites_grow d d' \<longleftrightarrow>
     (\<forall>k i. get_invite k d = Some i \<longrightarrow> (\<exists>j. get_invite k d' = Some j \<and> invite_evolves i j))"

lemma invites_grow_refl [simp]: "invites_grow d d"
  by (auto simp: invites_grow_def)

lemma invites_grow_trans: "invites_grow d d1 \<Longrightarrow> invites_grow d1 d2 \<Longrightarrow> invites_grow d d2"
  unfolding invites_grow_def using invite_evolves_trans by meson

inductive invite_step :: "'a invite_env_scheme \<Rightarrow> database \<Rightarrow> database \<Rightarrow> bool" for env where
  step_issue: "issue_invite env base delivered f email admin d = (r, mails, d') \<Longrightarrow> invite_step env d d'"
| step_resend: "resend_invite env base delivered f k admin d = (r2, mails, d') \<Longrightarrow> invite_step env d d'"
| step_revoke: "revoke_invite_route k admin d = (r3, d') \<Longrightarrow> invite_step env d d'"
| step_register: "register_user env f id body d = (r4, d') \<Longrightarrow> invite_step env d d'"
| step_elsewhere: "tb_invites d' = tb_invites d \<Longrightarrow> invite_step env d d'"

text \<open>The two shapes every change of the table has.\<close>

lemma insert_invite_keeps:
  assumes "insert_invite i d = Inr d'" "i_status i = PENDING" "i_accepted_at i = None" "invites_inv d"
  shows "invites_inv d' \<and> invites_grow d d'"
proof -
  have rows: "tb_invites d' = tb_invites d @ [i]" "i_id i \<notin> i_id ` set (tb_invites d)"
    using invite_row.ins_rows [OF assms(1)] by simp_all
  have "i_token_hash i \<notin> i_token_hash ` set (tb_invites d)"
    using assms(1) by (auto simp: insert_invite_def split: if_splits)
  with rows assms(2-4) have "invites_inv d'" by (auto simp: invites_inv_def)
  moreover have "get_invite k d' = Some j" if "get_invite k d = Some j" for k j
  proof -
    have "k \<noteq> i_id i" using rows(2) invite_row.get_pk [OF that] by (metis image_eqI)
    then show ?thesis using that invite_row.get_ins [OF assms(1), of k] by simp
  qed
  ultimately show ?thesis by (auto simp: invites_grow_def)
qed

lemma set_invite_keeps:
  assumes inv: "invites_inv d" and i: "i \<in> set (tb_invites d)" and ev: "invite_evolves i (g i)"
    and id: "\<And>j. i_id (g j) = i_id j"
    and ok: "i_status (g i) = ACCEPTED \<longleftrightarrow> i_accepted_at (g i) \<noteq> None"
    and hash: "\<forall>j\<in>set (tb_invites d). i_id j \<noteq> i_id i \<longrightarrow> i_token_hash j \<noteq> i_token_hash (g i)"
  shows "invites_inv (set_invite i g d) \<and> invites_grow d (set_invite i g d)"
proof -
  let ?h = "\<lambda>j. if i_id j = i_id i then g j else j"
  have only: "j = i" if "j \<in> set (tb_invites d)" "i_id j = i_id i" for j
    using inv i that by (auto simp: invites_inv_def distinct_map inj_on_def)
  have rows: "tb_invites (set_invite i g d) = map ?h (tb_invites d)"
    by (simp add: set_invite_def update_invites_def db_update_def)
  have ids: "map i_id (map ?h (tb_invites d)) = map i_id (tb_invites d)"
    using id by simp
  have old: "x = y" if "x \<in> set (tb_invites d)" "y \<in> set (tb_invites d)" "i_token_hash x = i_token_hash y" for x y
    using inv that by (auto simp: invites_inv_def distinct_map inj_on_def)
  have "inj_on (i_token_hash \<circ> ?h) (set (tb_invites d))"
  proof (rule inj_onI)
    fix x y
    assume x: "x \<in> set (tb_invites d)" and y: "y \<in> set (tb_invites d)"
      and eq: "(i_token_hash \<circ> ?h) x = (i_token_hash \<circ> ?h) y"
    show "x = y"
      using eq x y only [OF x] only [OF y] hash old [OF x y]
      by (cases "i_id x = i_id i"; cases "i_id y = i_id i") auto
  qed
  then have "distinct (map i_token_hash (map ?h (tb_invites d)))"
    using inv by (auto simp: invites_inv_def distinct_map)
  moreover have "\<forall>j\<in>set (map ?h (tb_invites d)). i_status j = ACCEPTED \<longleftrightarrow> i_accepted_at j \<noteq> None"
    using inv ok only by (auto simp: invites_inv_def)
  ultimately have "invites_inv (set_invite i g d)"
    using inv ids by (simp only: invites_inv_def rows simp_thms)
  moreover have "invites_grow d (set_invite i g d)"
    unfolding invites_grow_def
  proof (intro allI impI)
    fix k j assume j: "get_invite k d = Some j"
    have "get_invite k (set_invite i g d) = Some (?h j)"
      unfolding set_invite_def using invite_row.get_upd [where f = g, OF id] j by simp
    moreover have "invite_evolves j (?h j)"
      using ev only invite_row.get_pk [OF j] by auto
    ultimately show "\<exists>j'. get_invite k (set_invite i g d) = Some j' \<and> invite_evolves j j'" by blast
  qed
  ultimately show ?thesis ..
qed

lemma hash_alone:
  assumes "invites_inv d" "i \<in> set (tb_invites d)"
  shows "\<forall>j\<in>set (tb_invites d). i_id j \<noteq> i_id i \<longrightarrow> i_token_hash j \<noteq> i_token_hash i"
  using assms by (auto simp: invites_inv_def distinct_map inj_on_def)

lemma issue_keeps:
  assumes "issue_invite env base delivered f email admin d = (r, mails, d')" "invites_inv d"
  shows "invites_inv d' \<and> invites_grow d d'"
proof (cases "d' = d")
  case False
  then obtain i raw where "create_invite env f (py_strip email) (au_user_id admin) d = Inr ((i, raw), d')"
    using assms(1) by (auto simp: issue_invite_def Let_def split: if_splits sum.splits prod.splits)
  then obtain i where "insert_invite i d = Inr d'" "i_status i = PENDING" "i_accepted_at i = None"
    by (auto simp: create_invite_def Let_def)
  then show ?thesis using insert_invite_keeps assms(2) by blast
qed (use assms(2) in simp)

lemma resend_keeps:
  assumes "resend_invite env base delivered f k admin d = (r, mails, d')" "invites_inv d"
  shows "invites_inv d' \<and> invites_grow d d'"
proof (cases "d' = d")
  case False
  then obtain i raw where i: "get_invite k d = Some i" "i_status i = PENDING"
    "rotate_invite_token env f i d = Inr (raw, d')"
    using assms(1) by (auto simp: resend_invite_def split: if_splits option.splits sum.splits prod.splits)
  from invite_row.get_pk [OF i(1)] have mem: "i \<in> set (tb_invites d)" by simp
  have d': "d' = set_invite i (rotated env f) d"
    and new: "\<forall>j\<in>set (tb_invites d). i_id j \<noteq> i_id i \<longrightarrow> i_token_hash j \<noteq> i_token_hash (rotated env f i)"
    using i(3) by (auto simp: rotate_invite_token_def rotated_def split: if_splits)
  show ?thesis
    unfolding d'
    by (rule set_invite_keeps [OF assms(2) mem])
      (use new i(2) assms(2) mem in \<open>auto simp: rotated_def invite_evolves_def invites_inv_def\<close>)
qed (use assms(2) in simp)

lemma revoke_keeps:
  assumes "revoke_invite_route k admin d = (r, d')" "invites_inv d"
  shows "invites_inv d' \<and> invites_grow d d'"
proof (cases "d' = d")
  case False
  then obtain i where i: "get_invite k d = Some i" "i_status i \<noteq> ACCEPTED" "d' = revoke_invite i d"
    using assms(1) by (auto simp: revoke_invite_route_def split: if_splits option.splits)
  from invite_row.get_pk [OF i(1)] have mem: "i \<in> set (tb_invites d)" by simp
  then have none: "i_accepted_at i = None" using assms(2) i(2) by (auto simp: invites_inv_def)
  have new: "\<forall>j\<in>set (tb_invites d). i_id j \<noteq> i_id i \<longrightarrow> i_token_hash j \<noteq> i_token_hash (i\<lparr>i_status := REVOKED\<rparr>)"
    using hash_alone [OF assms(2) mem] by simp
  show ?thesis
    unfolding i(3) revoke_invite_def
    by (rule set_invite_keeps [OF assms(2) mem])
      (use new i(2) none in \<open>cases "i_status i"; auto simp: invite_evolves_def\<close>)+
qed (use assms(2) in simp)

lemma register_keeps:
  assumes "register_user env f id body d = (r, d')" "invites_inv d"
  shows "invites_inv d' \<and> invites_grow d d'"
  using assms(1)
proof (cases rule: register_cases)
  case (registered i n u)
  have i: "i \<in> set (tb_invites d)" "i_status i = PENDING"
    using registered(1) by (auto simp: find_valid_invite_by_token_def dest!: find_SomeD split: option.splits if_splits)
  let ?d = "d\<lparr>tb_users := tb_users d @ [u]\<rparr>"
  have inv: "invites_inv ?d" using assms(2) by (simp add: invites_inv_def)
  have mem: "i \<in> set (tb_invites ?d)" using i(1) by simp
  have new: "\<forall>j\<in>set (tb_invites ?d). i_id j \<noteq> i_id i \<longrightarrow>
      i_token_hash j \<noteq> i_token_hash (i\<lparr>i_status := ACCEPTED, i_accepted_at := Some (f_now f)\<rparr>)"
    using hash_alone [OF inv mem] by simp
  have "invites_inv d' \<and> invites_grow ?d d'"
    unfolding registered(7) id_apply redeem_invite_def
    by (rule set_invite_keeps [OF inv mem]) (use new i(2) in \<open>simp_all add: invite_evolves_def\<close>)
  then show ?thesis by (simp add: invites_grow_def get_invite_def)
qed (use assms(2) in auto)

lemma invite_step_keeps:
  assumes "invite_step env d d'" "invites_inv d"
  shows "invites_inv d' \<and> invites_grow d d'"
  using assms(1)
proof cases
  case (step_issue base delivered f email admin r mails)
  then show ?thesis using issue_keeps assms(2) by blast
next
  case (step_resend base delivered f k admin r2 mails)
  then show ?thesis using resend_keeps assms(2) by blast
next
  case (step_revoke k admin r3)
  then show ?thesis using revoke_keeps assms(2) by blast
next
  case (step_register f body r4)
  then show ?thesis using register_keeps assms(2) by blast
next
  case step_elsewhere
  then show ?thesis using assms(2) by (auto simp: invites_inv_def invites_grow_def get_invite_def)
qed

lemma invite_run_keeps:
  assumes "(invite_step env)\<^sup>*\<^sup>* d d'" "invites_inv d"
  shows "invites_inv d' \<and> invites_grow d d'"
  using assms
proof (induction rule: rtranclp_induct)
  case (step d1 d2)
  then show ?case using invite_step_keeps invites_grow_trans by blast
qed simp

lemma closed_invite_unusable:
  assumes "invites_inv d" "get_invite k d = Some i" "i_status i \<noteq> PENDING"
    and "token_hash env raw = i_token_hash i"
  shows "find_valid_invite_by_token env raw now d = None"
proof -
  have i: "i \<in> set (tb_invites d)" using invite_row.get_pk [OF assms(2)] by simp
  have "j = i" if "find (\<lambda>j. i_token_hash j = token_hash env raw) (tb_invites d) = Some j" for j
    using find_SomeD [OF that] assms(1,4) i by (auto simp: invites_inv_def distinct_map inj_on_def)
  then show ?thesis
    using assms(3) by (auto simp: find_valid_invite_by_token_def split: option.splits)
qed

text \<open>
  C32. An invite is used at most once: along any sequence of issues, resends, revocations and
  registrations no invite disappears, changes its addressee or issuer, or leaves the accepted or
  revoked state, token hashes stay unique, and the token of an accepted or revoked invite is
  refused from then on by the lookup every use goes through.
\<close>

theorem invites_only_evolve:
  assumes "(invite_step env)\<^sup>*\<^sup>* d d'" "invites_inv d"
  shows "invites_inv d' \<and> invites_grow d d'
    \<and> (\<forall>k i raw now. get_invite k d = Some i \<and> i_status i \<noteq> PENDING \<and> token_hash env raw = i_token_hash i
        \<longrightarrow> find_valid_invite_by_token env raw now d' = None)"
proof -
  note keeps = invite_run_keeps [OF assms]
  have "find_valid_invite_by_token env raw now d' = None"
    if "get_invite k d = Some i" "i_status i \<noteq> PENDING" "token_hash env raw = i_token_hash i" for k i raw now
  proof -
    note i = that
    obtain j where "get_invite k d' = Some j" "invite_evolves i j"
      using keeps i(1) unfolding invites_grow_def by blast
    then have "get_invite k d' = Some i" using that(2) by (simp add: invite_evolves_def)
    then show ?thesis using closed_invite_unusable keeps that(2,3) by blast
  qed
  with keeps show ?thesis by blast
qed

text \<open>
  A resent invite has one working token: a resend that answers 200 mails the one link that
  now opens this invite, valid for seven days, and the token it replaces is refused; a resend
  that cannot deliver its mail changes nothing.
\<close>

theorem resend_replaces_token:
  assumes "resend_invite env base delivered f k admin d = (r, mails, d')" "invites_inv d"
  shows "(\<nexists>b. r = Response 200 b) \<and> mails = [] \<and> d' = d
    \<or> (\<exists>i j. delivered \<and> r = Response 200 (resend_response_of j) \<and> get_invite k d = Some i \<and> i_status i = PENDING
        \<and> get_invite k d' = Some j \<and> j = i\<lparr>i_token_hash := token_hash env (f_raw_token f),
            i_expires_at := f_now f + days 7\<rparr>
        \<and> mails = [(i_email i, invite_link base (f_raw_token f), i_expires_at j)]
        \<and> (\<forall>now. find_valid_invite_by_token env (f_raw_token f) now d' = (if now < i_expires_at j then Some j else None))
        \<and> (\<forall>raw now. token_hash env raw = i_token_hash i \<and> i_token_hash i \<noteq> token_hash env (f_raw_token f)
             \<longrightarrow> find_valid_invite_by_token env raw now d' = None))"
proof (cases "\<exists>b. r = Response 200 b")
  case False
  then show ?thesis
    using assms(1) by (auto simp: resend_invite_def split: if_splits option.splits sum.splits prod.splits)
next
  case True
  then obtain i where i: "get_invite k d = Some i" "i_status i = PENDING" delivered
    "rotate_invite_token env f i d = Inr (f_raw_token f, d')" "r = Response 200 (resend_response_of (rotated env f i))"
    "mails = [(i_email i, invite_link base (f_raw_token f), i_expires_at (rotated env f i))]"
    using assms(1)
    by (auto simp: resend_invite_def rotate_invite_token_def split: if_splits option.splits sum.splits prod.splits)
  let ?j = "rotated env f i"
  have d': "d' = set_invite i (rotated env f) d"
    using i(4) by (simp add: rotate_invite_token_def split: if_splits)
  have inv: "invites_inv d'" using resend_keeps [OF assms] by simp
  have j: "get_invite k d' = Some ?j"
    unfolding d' set_invite_def using invite_row.get_pk [OF i(1)] i(1)
    by (subst invite_row.get_upd) (simp_all add: rotated_def)
  have mem: "?j \<in> set (tb_invites d')" using invite_row.get_pk [OF j] by simp
  have only: "x = ?j" if "x \<in> set (tb_invites d')" "i_token_hash x = token_hash env (f_raw_token f)" for x
    using inv mem that by (auto simp: invites_inv_def distinct_map inj_on_def rotated_def)
  have new: "find_valid_invite_by_token env (f_raw_token f) now d' = (if now < i_expires_at ?j then Some ?j else None)" for now
  proof -
    have "find (\<lambda>x. i_token_hash x = token_hash env (f_raw_token f)) (tb_invites d') \<noteq> None"
      using mem by (auto simp: find_None_iff rotated_def)
    then have "find (\<lambda>x. i_token_hash x = token_hash env (f_raw_token f)) (tb_invites d') = Some ?j"
      using find_SomeD only by fastforce
    then show ?thesis
      using i(2) by (simp add: find_valid_invite_by_token_def) (simp add: rotated_def)
  qed
  have old: "find_valid_invite_by_token env raw now d' = None"
    if "token_hash env raw = i_token_hash i" "i_token_hash i \<noteq> token_hash env (f_raw_token f)" for raw now
  proof -
    have "i_token_hash x \<noteq> i_token_hash i" if "x \<in> set (tb_invites d')" for x
      using that hash_alone [OF assms(2)] invite_row.get_pk [OF i(1)] \<open>i_token_hash i \<noteq> _\<close>
      by (auto simp: d' set_invite_def update_invites_def rotated_def)
    then have "find (\<lambda>x. i_token_hash x = token_hash env raw) (tb_invites d') = None"
      using that(1) by (auto simp: find_None_iff)
    then show ?thesis by (simp add: find_valid_invite_by_token_def)
  qed
  have "?j = i\<lparr>i_token_hash := token_hash env (f_raw_token f), i_expires_at := f_now f + days 7\<rparr>"
    by (simp add: rotated_def INVITE_TOKEN_TTL_def)
  then show ?thesis using i j new old by blast
qed

subsection \<open>Example\<close>

lemma inviting_ok: "invites_ok inviting" "invites_inv inviting"
  by (simp_all add: invites_ok_def invites_inv_def inviting_def bob_invite_def valid_datetime_def
      datetime_min_def datetime_max_def)

lemma invite_listing_walk_witness:
  "\<exists>rows. walk_pages (\<lambda>c. list_invites (Some Only_Pending) 5 50 c inviting) 2 None = Some rows \<and>
     mset rows = {#bob_invite#}"
proof -
  have "length (tb_invites inviting) < 2" by (simp add: inviting_def)
  from invite_listing_walk [OF inviting_ok(1) _ this, of 50 "Some Only_Pending" 5]
  obtain rows where rows: "walk_pages (\<lambda>c. list_invites (Some Only_Pending) 5 50 c inviting) 2 None = Some rows"
    "mset rows = mset (filter (\<lambda>i. Some Only_Pending \<in> {None} \<union> {Some s |s. filter_name s = invite_list_wire_status 5 i})
        (tb_invites inviting))" by auto
  have "filter_name Only_Pending = invite_list_wire_status 5 bob_invite"
    by (simp add: invite_list_wire_status_def bob_invite_def)
  then have "mset rows = {#bob_invite#}"
    unfolding rows(2) by (auto simp: inviting_def)
  with rows(1) show ?thesis by blast
qed

lemma alice_revokes:
  "revoke_invite_route 6 \<lparr>au_user_id = 1, au_session_id = 8\<rparr> inviting =
     (Response 204 (), inviting\<lparr>tb_invites := [bob_invite\<lparr>i_status := REVOKED\<rparr>]\<rparr>)"
  by (simp add: revoke_invite_route_def require_system_admin_def get_user_def get_invite_def db_get_def
      revoke_invite_def set_invite_def update_invites_def db_update_def demo_invite_defs)

lemma invites_only_evolve_witness:
  "find_valid_invite_by_token plain_invite_env (py ''inv'') 5
     (inviting\<lparr>tb_invites := [bob_invite\<lparr>i_status := REVOKED\<rparr>]\<rparr>) = None"
proof -
  let ?d = "inviting\<lparr>tb_invites := [bob_invite\<lparr>i_status := REVOKED\<rparr>]\<rparr>"
  have inv: "invites_inv ?d" by (simp add: invites_inv_def bob_invite_def)
  have "invite_step plain_invite_env ?d ?d" by (rule step_elsewhere) simp
  then have run: "(invite_step plain_invite_env)\<^sup>*\<^sup>* ?d ?d" by blast
  have "get_invite 6 ?d = Some (bob_invite\<lparr>i_status := REVOKED\<rparr>)"
    by (simp add: get_invite_def db_get_def bob_invite_def)
  moreover have "token_hash plain_invite_env (py ''inv'') = i_token_hash (bob_invite\<lparr>i_status := REVOKED\<rparr>)"
    by (simp add: plain_invite_env_def bob_invite_def)
  ultimately show ?thesis
    using invites_only_evolve [OF run inv] by fastforce
qed

lemma alice_resends:
  "\<exists>b mails d'. resend_invite plain_invite_env (py ''u'') True (fresh_at 5 0 ''new'') 6
     \<lparr>au_user_id = 1, au_session_id = 8\<rparr> inviting = (Response 200 b, mails, d')"
  by (simp add: resend_invite_def require_system_admin_def get_user_def get_invite_def db_get_def
      rotate_invite_token_def demo_invite_defs)

lemma resend_replaces_token_witness:
  "\<exists>mails d'. snd (resend_invite plain_invite_env (py ''u'') True (fresh_at 5 0 ''new'') 6
       \<lparr>au_user_id = 1, au_session_id = 8\<rparr> inviting) = (mails, d') \<and>
     mails = [(py ''b@x.io'', invite_link (py ''u'') (py ''new''), 5 + days 7)] \<and>
     find_valid_invite_by_token plain_invite_env (py ''inv'') 6 d' = None"
proof -
  from alice_resends obtain b mails d' where r: "resend_invite plain_invite_env (py ''u'') True (fresh_at 5 0 ''new'') 6
     \<lparr>au_user_id = 1, au_session_id = 8\<rparr> inviting = (Response 200 b, mails, d')" by blast
  have bob: "get_invite 6 inviting = Some bob_invite" by (simp add: get_invite_def db_get_def inviting_def bob_invite_def)
  have new: "token_hash plain_invite_env (py ''inv'') = i_token_hash bob_invite"
    "i_token_hash bob_invite \<noteq> token_hash plain_invite_env (f_raw_token (fresh_at 5 0 ''new''))"
    by (simp_all add: plain_invite_env_def bob_invite_def fresh_at_def)
  from resend_replaces_token [OF r inviting_ok(2)] bob
  have "mails = [(i_email bob_invite, invite_link (py ''u'') (f_raw_token (fresh_at 5 0 ''new'')),
        f_now (fresh_at 5 0 ''new'') + days 7)]"
    and "\<forall>raw now. token_hash plain_invite_env raw = i_token_hash bob_invite \<and>
        i_token_hash bob_invite \<noteq> token_hash plain_invite_env (f_raw_token (fresh_at 5 0 ''new''))
        \<longrightarrow> find_valid_invite_by_token plain_invite_env raw now d' = None"
    by auto
  with new have "mails = [(py ''b@x.io'', invite_link (py ''u'') (py ''new''), 5 + days 7)]"
    "find_valid_invite_by_token plain_invite_env (py ''inv'') 6 d' = None"
    by (auto simp: bob_invite_def fresh_at_def)
  with r show ?thesis by simp
qed

end
