(* ===== verification/Admin.thy ===== *)
theory Admin
  imports Channels Invite_Api
begin

text \<open>
  System Admins: the bootstrap at start-up (\<^verbatim>\<open>services/bootstrap.py\<close>), the admin user
  directory and deactivation (\<^verbatim>\<open>services/admin_users.py\<close>), and the routes of
  \<^verbatim>\<open>api/admin.py\<close>.  \<open>others\<close> is what other transactions commit between a request's first
  read and its next statement: for a deactivation, between reading the target and the row locks
  on the active admins, which nobody else can deactivate until it commits.
\<close>

subsection \<open>Bootstrap\<close>

definition active_system_admin_exists :: "database \<Rightarrow> bool" where
  "active_system_admin_exists d = db_exists (\<lambda>u. u_is_system_admin u \<and> u_is_active u) (tb_users d)"

record bootstrap_settings =
  bs_username :: pystr
  bs_email :: pystr
  bs_password :: pystr
  bs_first_name :: pystr
  bs_last_name :: pystr

definition bootstrap_admin :: "'a password_env_scheme \<Rightarrow> bootstrap_settings \<Rightarrow> fresh \<Rightarrow> user" where
  "bootstrap_admin env s f =
     \<lparr>u_id = f_id f, u_username = bs_username s, u_email = bs_email s,
      u_hashed_password = hash_password env (bs_password s), u_first_name = bs_first_name s,
      u_last_name = bs_last_name s, u_avatar_url = None, u_is_active = True, u_is_system_admin = True,
      u_must_change_password = True, u_email_verified = True, u_last_seen = None,
      u_created_at = f_now f\<rparr>"

datatype bootstrap_error = BootstrapError string

text \<open>The result is the state the start-up commits; an error aborts it.\<close>

definition ensure_system_admin_bootstrapped ::
  "'a password_env_scheme \<Rightarrow> bootstrap_settings \<Rightarrow> fresh \<Rightarrow> (database \<Rightarrow> database) \<Rightarrow> database \<Rightarrow>
   bootstrap_error + database" where
  "ensure_system_admin_bootstrapped env s f others d =
     and_then
       (if tb_users d = [] then
          (case enforce_password_policy env (bs_password s) ''password'' of
             Inl e \<Rightarrow> Inl (BootstrapError ''BOOTSTRAP_ADMIN_PASSWORD does not meet the password policy'')
           | Inr _ \<Rightarrow>
               (case insert_user (db_lower env) (bootstrap_admin env s f) (others d) of
                  Inl e \<Rightarrow>
                    if is_unique_violation e then Inr (others d)
                    else Inl (BootstrapError ''the bootstrap admin row violates a database constraint'')
                | Inr d' \<Rightarrow> Inr d'))
        else Inr d)
       (\<lambda>d'. if active_system_admin_exists d' then Inr d'
             else Inl (BootstrapError ''No active System Admin exists''))"

subsection \<open>The user directory\<close>

datatype admin_user_status_filter = Only_Active | Only_Inactive

definition admin_user_filter ::
  "(nat \<Rightarrow> nat) \<Rightarrow> pystr option \<Rightarrow> admin_user_status_filter option \<Rightarrow> user \<Rightarrow> bool" where
  "admin_user_filter lc q status_filter u \<longleftrightarrow>
     (let stripped_q = (case q of None \<Rightarrow> [] | Some s \<Rightarrow> py_strip s);
          pattern = contains_pattern stripped_q
      in stripped_q = [] \<or> ilike lc pattern (u_first_name u) \<or> ilike lc pattern (u_last_name u) \<or>
         ilike lc pattern (u_username u) \<or> ilike lc pattern (u_email u)) \<and>
     (case status_filter of
        None \<Rightarrow> True
      | Some Only_Active \<Rightarrow> u_is_active u
      | Some Only_Inactive \<Rightarrow> \<not> u_is_active u)"

definition list_admin_users ::
  "(nat \<Rightarrow> nat) \<Rightarrow> pystr option \<Rightarrow> admin_user_status_filter option \<Rightarrow> int \<Rightarrow> cursor_key option \<Rightarrow>
   database \<Rightarrow> user page" where
  "list_admin_users lc q status_filter limit cursor d =
     paginate_rows (sql_limit (limit + 1)
       (apply_keyset user_key cursor (filter (admin_user_filter lc q status_filter) (tb_users d)))) limit user_key"

record admin_user_list_item =
  al_id :: uuid
  al_first_name :: pystr
  al_last_name :: pystr
  al_username :: pystr
  al_email :: pystr
  al_role :: string
  al_is_active :: bool
  al_last_seen :: "datetime option"

definition admin_item_from_user :: "user \<Rightarrow> admin_user_list_item" where
  "admin_item_from_user u =
     \<lparr>al_id = u_id u, al_first_name = u_first_name u, al_last_name = u_last_name u,
      al_username = u_username u, al_email = u_email u,
      al_role = (if u_is_system_admin u then ''system_admin'' else ''user''),
      al_is_active = u_is_active u, al_last_seen = u_last_seen u\<rparr>"

fun parse_user_status :: "pystr option \<Rightarrow> admin_user_status_filter option option" where
  "parse_user_status None = Some None"
| "parse_user_status (Some s) =
     (if s = py ''active'' then Some (Some Only_Active)
      else if s = py ''inactive'' then Some (Some Only_Inactive) else None)"

definition list_users_route ::
  "(nat \<Rightarrow> nat) \<Rightarrow> pystr option \<Rightarrow> pystr option \<Rightarrow> pystr option \<Rightarrow> pystr option \<Rightarrow>
   authenticated_user \<Rightarrow> database \<Rightarrow> admin_user_list_item page http" where
  "list_users_route lc q status_filter limit cursor admin d =
     system_admin_only admin d
      (case parse_user_status status_filter of
         None \<Rightarrow> Problem 400 ''status must be one of: active, inactive.''
       | Some status_filter \<Rightarrow>
           (case parse_list_limit limit of
              Inl e \<Rightarrow> pagination_problem e
            | Inr resolved_limit \<Rightarrow>
                (case parse_list_cursor cursor of
                   Inl e \<Rightarrow> pagination_problem e
                 | Inr cursor_key \<Rightarrow>
                     (let page = list_admin_users lc q status_filter resolved_limit cursor_key d
                      in Response 200 \<lparr>items = map admin_item_from_user (items page),
                                       next_cursor = next_cursor page\<rparr>))))"

subsection \<open>Deactivation\<close>

definition lock_and_count_active_system_admins :: "database \<Rightarrow> int" where
  "lock_and_count_active_system_admins d =
     int (length (filter (\<lambda>u. u_is_system_admin u \<and> u_is_active u) (tb_users d)))"

datatype deactivate_outcome = DEACTIVATED | ALREADY_INACTIVE | LAST_ACTIVE_SYSTEM_ADMIN

record deactivation_result =
  da_outcome :: deactivate_outcome
  da_revoked_session_ids :: "uuid list"
  da_promoted_channel_ids :: "uuid list"

definition set_active :: "bool \<Rightarrow> uuid \<Rightarrow> database \<Rightarrow> database" where
  "set_active b k = update_users (\<lambda>u. u_id u = k) (\<lambda>u. u\<lparr>u_is_active := b\<rparr>)"

definition deactivate_user ::
  "(database \<Rightarrow> database) \<Rightarrow> datetime \<Rightarrow> user \<Rightarrow> database \<Rightarrow> deactivation_result \<times> database" where
  "deactivate_user others now target d =
     (if \<not> u_is_active target
      then (\<lparr>da_outcome = ALREADY_INACTIVE, da_revoked_session_ids = [], da_promoted_channel_ids = []\<rparr>, d)
      else if u_is_system_admin target \<and> lock_and_count_active_system_admins (others d) \<le> 1
      then (\<lparr>da_outcome = LAST_ACTIVE_SYSTEM_ADMIN, da_revoked_session_ids = [], da_promoted_channel_ids = []\<rparr>,
            others d)
      else (case run_sole_admin_succession (u_id target) None (others d) of
              (promoted_channel_ids, d1) \<Rightarrow>
                (case revoke_sessions_for_user (u_id target) None now (set_active False (u_id target) d1) of
                   (revoked_session_ids, d2) \<Rightarrow>
                     (\<lparr>da_outcome = DEACTIVATED, da_revoked_session_ids = revoked_session_ids,
                       da_promoted_channel_ids = promoted_channel_ids\<rparr>, d2))))"

definition reactivate_user :: "user \<Rightarrow> database \<Rightarrow> bool \<times> database" where
  "reactivate_user target d =
     (if u_is_active target then (False, d) else (True, set_active True (u_id target) d))"

record admin_user_action_response =
  aa_id :: uuid
  aa_is_active :: bool

definition deactivate_user_route ::
  "redis_call \<Rightarrow> (database \<Rightarrow> database) \<Rightarrow> datetime \<Rightarrow> uuid \<Rightarrow> authenticated_user \<Rightarrow> account \<Rightarrow>
   admin_user_action_response http \<times> account" where
  "deactivate_user_route call others now user_id admin w =
     (if \<not> require_system_admin admin (ac_db w)
      then (Problem 403 ''This action requires System Admin privileges.'', w)
      else case get_user user_id (ac_db w) of
        None \<Rightarrow> (Problem 404 ''No such user.'', w)
      | Some target \<Rightarrow>
          (case deactivate_user others now target (ac_db w) of
             (result, d') \<Rightarrow>
               (case da_outcome result of
                  LAST_ACTIVE_SYSTEM_ADMIN \<Rightarrow>
                    (Problem 409 ''Cannot deactivate the last active System Admin.'', w\<lparr>ac_db := d'\<rparr>)
                | ALREADY_INACTIVE \<Rightarrow>
                    (Response 200 \<lparr>aa_id = u_id target, aa_is_active = False\<rparr>, w\<lparr>ac_db := d'\<rparr>)
                | DEACTIVATED \<Rightarrow>
                    (Response 200 \<lparr>aa_id = u_id target, aa_is_active = False\<rparr>,
                     invalidate_session_caches call (da_revoked_session_ids result) (w\<lparr>ac_db := d'\<rparr>)))))"

definition reactivate_user_route ::
  "uuid \<Rightarrow> authenticated_user \<Rightarrow> account \<Rightarrow> admin_user_action_response http \<times> account" where
  "reactivate_user_route user_id admin w =
     (if \<not> require_system_admin admin (ac_db w)
      then (Problem 403 ''This action requires System Admin privileges.'', w)
      else case get_user user_id (ac_db w) of
        None \<Rightarrow> (Problem 404 ''No such user.'', w)
      | Some target \<Rightarrow>
          (case reactivate_user target (ac_db w) of
             (changed, d') \<Rightarrow>
               (Response 200 \<lparr>aa_id = u_id target, aa_is_active = True\<rparr>, if changed then w\<lparr>ac_db := d'\<rparr> else w)))"

subsection \<open>Laws\<close>

interpretation admin_directory: keyset_source
  "\<lambda>d limit c. list_admin_users lc q flt limit c d"
  "\<lambda>d. filter (admin_user_filter lc q flt) (tb_users d)" user_key users_ok for lc q flt
proof unfold_locales
  fix d assume "users_ok d"
  then have "distinct (map u_id (filter (admin_user_filter lc q flt) (tb_users d)))"
    by (simp add: users_ok_def distinct_map_filter)
  then show "distinct (map user_key (filter (admin_user_filter lc q flt) (tb_users d)))"
    by (simp add: distinct_map inj_on_def user_key_def)
qed (auto simp: list_admin_users_def keyset_page_def users_ok_def user_key_def)

lemma set_active_tables [simp]:
  "tb_sessions (set_active b k d) = tb_sessions d" "tb_members (set_active b k d) = tb_members d"
  "get_session i (set_active b k d) = get_session i d" "sessions_ok (set_active b k d) = sessions_ok d"
  "get_membership c v (set_active b k d) = get_membership c v d"
  by (simp_all add: set_active_def update_users_def get_session_def sessions_ok_def get_membership_def get_member_def)

lemma get_user_set_active:
  "get_user i (set_active b k d) =
     (if i = k then map_option (\<lambda>u. u\<lparr>u_is_active := b\<rparr>) (get_user i d) else get_user i d)"
proof -
  have "get_user i (set_active b k d) =
      map_option (\<lambda>u. if u_id u = k then u\<lparr>u_is_active := b\<rparr> else u) (get_user i d)"
    unfolding set_active_def by (rule user_row.get_upd) simp
  then show ?thesis using user_row.get_pk by (cases "get_user i d") auto
qed

lemma same_but_members_sessions: "same_but_members d d' \<Longrightarrow> tb_sessions d' = tb_sessions d"
  unfolding same_but_members_def by (metis database.select_convs(8) database.surjective database.update_convs(3))

lemma deactivate_cases:
  assumes "deactivate_user others now target d = (res, d')"
  obtains (inactive) "\<not> u_is_active target" "da_outcome res = ALREADY_INACTIVE" "d' = d"
  | (last_admin) "u_is_active target" "u_is_system_admin target"
      "lock_and_count_active_system_admins (others d) \<le> 1"
      "da_outcome res = LAST_ACTIVE_SYSTEM_ADMIN" "d' = others d"
  | (deactivated) d1 where "u_is_active target" "da_outcome res = DEACTIVATED"
      "u_is_system_admin target \<longrightarrow> 2 \<le> lock_and_count_active_system_admins (others d)"
      "run_sole_admin_succession (u_id target) None (others d) = (da_promoted_channel_ids res, d1)"
      "revoke_sessions_for_user (u_id target) None now (set_active False (u_id target) d1) =
         (da_revoked_session_ids res, d')"
proof (cases "u_is_active target")
  case False
  with assms show ?thesis by (intro inactive) (auto simp: deactivate_user_def)
next
  case True
  note act = True
  show ?thesis
  proof (cases "u_is_system_admin target \<and> lock_and_count_active_system_admins (others d) \<le> 1")
    case True
    with act assms show ?thesis by (intro last_admin) (auto simp: deactivate_user_def)
  next
    case False
    obtain ps d1 where s: "run_sole_admin_succession (u_id target) None (others d) = (ps, d1)"
      by (rule prod.exhaust)
    obtain ids d2 where r: "revoke_sessions_for_user (u_id target) None now (set_active False (u_id target) d1) = (ids, d2)"
      by (rule prod.exhaust)
    have "res = \<lparr>da_outcome = DEACTIVATED, da_revoked_session_ids = ids, da_promoted_channel_ids = ps\<rparr>" "d' = d2"
      using assms act False s r by (auto simp: deactivate_user_def)
    with act False s r show ?thesis by (intro deactivated [of d1]) auto
  qed
qed

subsection \<open>The workspace keeps an active System Admin\<close>

text \<open>Everything that changes the user table, each request reading the state \<open>d\<close> and
  committing in the state \<open>d1\<close> that other requests have made of it since.\<close>

inductive users_run :: "'a invite_env_scheme \<Rightarrow> database \<Rightarrow> database \<Rightarrow> bool" for env where
  users_refl: "users_run env d d"
| users_register: "users_run env d0 d \<Longrightarrow> users_run env d d1 \<Longrightarrow>
    register_user env f (\<lambda>_. d1) body d = (r, d') \<Longrightarrow> users_run env d0 d'"
| users_deactivate: "users_run env d0 d \<Longrightarrow> users_run env d d1 \<Longrightarrow> get_user k d = Some target \<Longrightarrow>
    deactivate_user (\<lambda>_. d1) now target d = (res, d') \<Longrightarrow> users_run env d0 d'"
| users_reactivate: "users_run env d0 d \<Longrightarrow> get_user k d = Some target \<Longrightarrow>
    reactivate_user target d = (changed, d') \<Longrightarrow> users_run env d0 d'"
| users_confirm: "users_run env d0 (ac_db w) \<Longrightarrow> users_run env (ac_db w) d1 \<Longrightarrow>
    confirm_password_reset env call (\<lambda>_. d1) now raw p w = (r2, w') \<Longrightarrow> users_run env d0 (ac_db w')"
| users_change: "users_run env d0 (ac_db w) \<Longrightarrow>
    change_password env call now old p current w = (r3, w') \<Longrightarrow> users_run env d0 (ac_db w')"
| users_patch: "users_run env d0 d \<Longrightarrow> patch_me rq current d = (r4, d') \<Longrightarrow> users_run env d0 d'"
| users_elsewhere: "users_run env d0 d \<Longrightarrow> tb_users d' = tb_users d \<Longrightarrow> users_run env d0 d'"

definition distinct_users :: "database \<Rightarrow> bool" where
  "distinct_users d \<longleftrightarrow> distinct (map u_id (tb_users d))"

text \<open>The admin flag is given at creation and never changes; nobody is deleted.\<close>

definition same_admins :: "database \<Rightarrow> database \<Rightarrow> bool" where
  "same_admins d d' \<longleftrightarrow>
     (\<forall>k u. get_user k d = Some u \<longrightarrow> (\<exists>v. get_user k d' = Some v \<and> u_is_system_admin v = u_is_system_admin u)) \<and>
     (\<forall>k v. get_user k d' = Some v \<and> u_is_system_admin v \<longrightarrow> (\<exists>u. get_user k d = Some u \<and> u_is_system_admin u))"

definition admin_kept :: "database \<Rightarrow> database \<Rightarrow> bool" where
  "admin_kept d d' \<longleftrightarrow> same_admins d d' \<and> (distinct_users d \<longrightarrow> distinct_users d') \<and>
     (distinct_users d \<longrightarrow> active_system_admin_exists d \<longrightarrow> active_system_admin_exists d')"

lemma same_admins_trans: "same_admins d d1 \<Longrightarrow> same_admins d1 d2 \<Longrightarrow> same_admins d d2"
  unfolding same_admins_def by metis

lemma admin_kept_trans: "admin_kept d d1 \<Longrightarrow> admin_kept d1 d2 \<Longrightarrow> admin_kept d d2"
  unfolding admin_kept_def using same_admins_trans by blast

lemma admin_kept_same_table:
  assumes "tb_users d' = tb_users d"
  shows "admin_kept d d'"
proof -
  have "get_user k d' = get_user k d" for k by (simp add: get_user_def assms)
  then show ?thesis
    by (simp add: admin_kept_def same_admins_def distinct_users_def active_system_admin_exists_def assms)
qed

text \<open>Updates that keep id, admin flag and activity.\<close>

lemma admin_kept_update:
  assumes g: "\<And>u. u_id (g u) = u_id u \<and> u_is_system_admin (g u) = u_is_system_admin u"
    and act: "\<And>u. u_is_active u \<Longrightarrow> u_is_active (g u)"
  shows "admin_kept d (update_users c g d)"
proof -
  have get: "get_user k (update_users c g d) = map_option (\<lambda>u. if c u then g u else u) (get_user k d)" for k
    using g by (intro user_row.get_upd) simp
  have "same_admins d (update_users c g d)"
    using g by (auto simp: same_admins_def get split: if_splits)
  moreover have "distinct_users (update_users c g d) = distinct_users d"
    using g by (simp add: distinct_users_def user_row.upd_rows)
  moreover have "active_system_admin_exists (update_users c g d)" if "active_system_admin_exists d"
    proof -
    from that obtain u where u: "u \<in> set (tb_users d)" "u_is_system_admin u" "u_is_active u"
      by (auto simp: active_system_admin_exists_def)
    let ?v = "if c u then g u else u"
    have "?v \<in> set (tb_users (update_users c g d))" using u(1) by (simp add: user_row.upd_rows)
    moreover have "u_is_system_admin ?v \<and> u_is_active ?v" using u(2,3) g act by simp
    ultimately show ?thesis unfolding active_system_admin_exists_def db_exists_iff by blast
  qed
  ultimately show ?thesis by (simp add: admin_kept_def)
qed

lemma admin_kept_append:
  assumes "insert_user lower u d = Inr d'" "\<not> u_is_system_admin u"
  shows "admin_kept d d'"
proof -
  have rows: "tb_users d' = tb_users d @ [u]" "u_id u \<notin> u_id ` set (tb_users d)"
    using user_row.ins_rows [OF assms(1)] by simp_all
  have old: "k \<noteq> u_id u" if "get_user k d = Some v" for k v
    using that rows(2) user_row.get_pk [OF that] by (metis image_eqI)
  have "same_admins d d'"
    unfolding same_admins_def user_row.get_ins [OF assms(1)] using assms(2) old by auto
  then show ?thesis
    using rows by (auto simp: admin_kept_def distinct_users_def active_system_admin_exists_def)
qed

lemma register_kept:
  assumes "register_user env f (\<lambda>_. d1) body d = (r, d')" "admin_kept d d1"
  shows "admin_kept d d'"
  using assms(1)
proof (cases rule: register_cases)
  case (registered i n u)
  have "\<not> u_is_system_admin u" by (simp add: registered(4) build_registered_user_def)
  from admin_kept_append [OF registered(6) this]
  have "admin_kept d1 (d1\<lparr>tb_users := tb_users d1 @ [u]\<rparr>)" .
  moreover have "admin_kept (d1\<lparr>tb_users := tb_users d1 @ [u]\<rparr>) d'"
    by (rule admin_kept_same_table) (simp add: registered(7) redeem_invite_def set_invite_def update_invites_def)
  ultimately show ?thesis using admin_kept_trans assms(2) by blast
qed (use assms(2) admin_kept_same_table in blast)

lemma admin_count_two:
  assumes "distinct_users d" "2 \<le> lock_and_count_active_system_admins d"
  shows "\<exists>u\<in>set (tb_users d). u_is_system_admin u \<and> u_is_active u \<and> u_id u \<noteq> k"
proof (rule ccontr)
  let ?as = "filter (\<lambda>u. u_is_system_admin u \<and> u_is_active u) (tb_users d)"
  assume "\<not> ?thesis"
  then have "set (map u_id ?as) \<subseteq> {k}" by auto
  then have "card (set (map u_id ?as)) \<le> 1" using card_mono [of "{k}"] by force
  moreover have "distinct (map u_id ?as)"
    using assms(1) by (simp add: distinct_users_def distinct_map_filter)
  ultimately have "length ?as \<le> 1" using distinct_card by force
  with assms(2) show False by (simp add: lock_and_count_active_system_admins_def)
qed

lemma succession_users: "tb_users (snd (succession_loop v cs e)) = tb_users e"
proof (induction v cs e rule: succession_loop.induct)
  case (2 v c cs e)
  then show ?case
    by (cases "find_successor c v e") (simp_all add: set_role_def update_members_def case_prod_beta)
qed simp

lemma revoke_users: "revoke_sessions_for_user u e now d = (ids, d') \<Longrightarrow> tb_users d' = tb_users d"
  by (auto simp: revoke_sessions_for_user_def Let_def set_revoked_def update_sessions_def)

lemma deactivated_users:
  assumes "run_sole_admin_succession k None d1 = (promoted, d2)"
    and "revoke_sessions_for_user k None now (set_active False k d2) = (ids, d')"
  shows "tb_users d' = tb_users (set_active False k d1)"
proof -
  have "d2 = snd (run_sole_admin_succession k None d1)" by (simp add: assms(1))
  then have "tb_users d2 = tb_users d1" by (simp add: run_sole_admin_succession_def succession_users)
  then show ?thesis by (simp add: revoke_users [OF assms(2)] set_active_def update_users_def)
qed

text \<open>Somebody else remains, because the target is no admin or is one of at least two.\<close>

lemma another_admin:
  assumes "distinct_users d1" "active_system_admin_exists d1"
    and "\<forall>v. get_user k d1 = Some v \<longrightarrow> u_is_system_admin v = flag"
    and "flag \<longrightarrow> 2 \<le> lock_and_count_active_system_admins d1"
  shows "\<exists>u\<in>set (tb_users d1). u_is_system_admin u \<and> u_is_active u \<and> u_id u \<noteq> k"
proof (cases flag)
  case True
  with assms(4) show ?thesis using admin_count_two [OF assms(1)] by simp
next
  case False
  from assms(2) obtain u where u: "u \<in> set (tb_users d1)" "u_is_system_admin u" "u_is_active u"
    by (auto simp: active_system_admin_exists_def)
  have "get_user (u_id u) d1 = Some u"
    using u(1) assms(1) user_row.get_mem by (simp add: distinct_users_def)
  with False assms(3) u show ?thesis by blast
qed

lemma set_active_admins:
  "same_admins d (set_active b k d)" "distinct_users (set_active b k d) = distinct_users d"
proof -
  show "same_admins d (set_active b k d)"
    unfolding same_admins_def get_user_set_active by auto
  show "distinct_users (set_active b k d) = distinct_users d"
    by (simp add: distinct_users_def set_active_def update_users_def)
qed

lemma set_active_others:
  assumes "\<exists>u\<in>set (tb_users d). u_is_system_admin u \<and> u_is_active u \<and> u_id u \<noteq> k"
  shows "active_system_admin_exists (set_active False k d)"
proof -
  from assms obtain u where u: "u \<in> set (tb_users d)" "u_is_system_admin u" "u_is_active u" "u_id u \<noteq> k" by blast
  then have "u \<in> set (tb_users (set_active False k d))"
    unfolding set_active_def user_row.upd_rows set_db_update by (intro image_eqI [of _ _ u]) simp_all
  with u(2,3) show ?thesis unfolding active_system_admin_exists_def db_exists_iff by blast
qed

lemma deactivate_kept:
  assumes "get_user k d = Some target" "deactivate_user (\<lambda>_. d1) now target d = (res, d')" "admin_kept d d1"
  shows "admin_kept d d'"
  using assms(2)
proof (cases rule: deactivate_cases)
  case (deactivated d2)
  have k: "u_id target = k" using user_row.get_pk [OF assms(1)] by simp
  have flag: "\<forall>v. get_user k d1 = Some v \<longrightarrow> u_is_system_admin v = u_is_system_admin target"
    using assms(1,3) unfolding admin_kept_def same_admins_def by (metis option.inject)
  have users: "tb_users d' = tb_users (set_active False k d1)"
    by (rule deactivated_users [OF deactivated(4,5) [unfolded k]])
  have "active_system_admin_exists (set_active False k d1)"
    if "distinct_users d" "active_system_admin_exists d"
    using another_admin [OF _ _ flag deactivated(3)] assms(3) that set_active_others
    by (simp add: admin_kept_def)
  then have "admin_kept d (set_active False k d1)"
    using assms(3) set_active_admins same_admins_trans by (auto simp: admin_kept_def)
  then show ?thesis using admin_kept_same_table [OF users] admin_kept_trans by blast
qed (use assms(3) admin_kept_same_table in auto)

lemma password_write_kept: "admin_kept d (set_password env k p d)"
  unfolding set_password_def by (rule admin_kept_update) auto

lemma confirm_kept:
  assumes "confirm_password_reset env call (\<lambda>_. d1) now raw p w = (r, w')" "admin_kept (ac_db w) d1"
  shows "admin_kept (ac_db w) (ac_db w')"
  using assms(1)
proof (cases rule: confirm_cases)
  case (accepted t u ids d')
  have "admin_kept d1 (mark_reset_token_used t now d1)"
    by (rule admin_kept_same_table) (simp add: mark_reset_token_used_def)
  moreover have "tb_users (ac_db w') = tb_users (set_password env (u_id u) p (mark_reset_token_used t now d1))"
    using accepted(5) by (auto simp: accepted(6) revoke_sessions_for_user_def Let_def set_revoked_def update_sessions_def)
  ultimately show ?thesis
    using admin_kept_trans admin_kept_same_table password_write_kept assms(2) by metis
qed (simp add: admin_kept_same_table)

lemma change_kept:
  assumes "change_password env call now old p current w = (r, w')"
  shows "admin_kept (ac_db w) (ac_db w')"
  using assms
proof (cases rule: change_cases)
  case (accepted u ids d')
  then have "tb_users (ac_db w') = tb_users (set_password env (u_id u) p (ac_db w))"
    by (auto simp: revoke_sessions_for_user_def Let_def set_revoked_def update_sessions_def)
  then show ?thesis using admin_kept_trans admin_kept_same_table password_write_kept by metis
qed (simp add: admin_kept_same_table)

lemma patch_kept:
  assumes "patch_me rq current d = (r, d')"
  shows "admin_kept d d'"
proof (cases "d' = d")
  case False
  then obtain u :: user and up where "d' = update_users (\<lambda>v. u_id v = u_id u) (apply_profile_update up) d"
    using assms by (auto simp: patch_me_def Let_def split: option.splits sum.splits profile_error.splits if_splits)
  then show ?thesis
    by (simp add: admin_kept_update apply_profile_update_def)
qed (simp add: admin_kept_same_table)

lemma users_run_kept: "users_run env d d' \<Longrightarrow> admin_kept d d'"
proof (induction rule: users_run.induct)
  case (users_refl d)
  show ?case by (rule admin_kept_same_table) simp
next
  case (users_register d0 d d1 f body r d')
  then show ?case using register_kept admin_kept_trans by blast
next
  case (users_deactivate d0 d d1 k target now res d')
  then show ?case using deactivate_kept admin_kept_trans by blast
next
  case (users_reactivate d0 d k target changed d')
  have "admin_kept d (set_active True k d)" for k
    unfolding set_active_def by (rule admin_kept_update) auto
  with users_reactivate show ?case
    using admin_kept_trans by (auto simp: reactivate_user_def split: if_splits)
next
  case (users_confirm d0 w d1 call now raw p r2 w')
  then show ?case using confirm_kept admin_kept_trans by blast
next
  case (users_change d0 w call now old p current r3 w')
  then show ?case using change_kept admin_kept_trans by blast
next
  case (users_patch d0 d rq current r4 d')
  then show ?case using patch_kept admin_kept_trans by blast
next
  case (users_elsewhere d0 d d')
  then show ?case using admin_kept_same_table admin_kept_trans by blast
qed

text \<open>
  C9. The workspace never loses its last active System Admin: from a start-up that succeeds on,
  through any interleaving of registrations, deactivations, reactivations, password changes and
  profile edits, each seeing a state others have changed since it first read, an active System
  Admin exists, no user is deleted, and nobody gains or loses the admin flag.
\<close>

theorem workspace_keeps_an_admin:
  assumes "ensure_system_admin_bootstrapped env s f others d0 = Inr d" "distinct_users d"
    and "users_run env d d'"
  shows "active_system_admin_exists d' \<and> distinct_users d' \<and> same_admins d d'"
proof -
  have "active_system_admin_exists d"
    using assms(1) by (auto simp: ensure_system_admin_bootstrapped_def split: if_splits)
  with users_run_kept [OF assms(3)] assms(2) show ?thesis by (simp add: admin_kept_def)
qed

subsection \<open>Deactivation\<close>

lemma reactivate_sessions:
  assumes "reactivate_user_route k admin w = (r, w')"
  shows "tb_sessions (ac_db w') = tb_sessions (ac_db w)" "ac_cache w' = ac_cache w"
  using assms by (auto simp: reactivate_user_route_def reactivate_user_def split: if_splits option.splits)

lemma same_sessions_coherent:
  assumes "tb_sessions (ac_db w') = tb_sessions (ac_db w)" "ac_cache w' = ac_cache w"
  shows "coherent w' = coherent w" "sessions_ok (ac_db w') = sessions_ok (ac_db w)"
    "get_session k (ac_db w') = get_session k (ac_db w)"
  using assms by (simp_all add: coherent_def sessions_ok_def get_session_def)

text \<open>
  C33. Deactivation is immediate and complete: the route refuses (403, 404, or 409 for the last
  active System Admin) or finds the user already inactive and changes nothing, or it answers 200
  and, with Redis answering, the user is inactive, exactly the user's sessions are shut out and
  stay so after a reactivation, and every channel only the user administered that has another
  member has another admin.
\<close>

theorem deactivation_effect:
  assumes "deactivate_user_route Answered id now k admin w = (r, w')"
    and "sessions_ok (ac_db w)" "coherent w" "members_ok (ac_db w)"
  shows "w' = w \<and> ((\<exists>status detail. r = Problem status detail \<and> status \<in> {403, 404, 409})
        \<or> (\<exists>u. get_user k (ac_db w) = Some u \<and> \<not> u_is_active u))
    \<or> (\<exists>u. r = Response 200 \<lparr>aa_id = k, aa_is_active = False\<rparr> \<and> require_system_admin admin (ac_db w)
        \<and> get_user k (ac_db w) = Some u \<and> u_is_active u
        \<and> (\<forall>i. get_user i (ac_db w') = (if i = k then Some (u\<lparr>u_is_active := False\<rparr>) else get_user i (ac_db w)))
        \<and> only_signs_out env k None w w'
        \<and> (\<forall>i s admin2 r2 w2. get_session i (ac_db w) = Some s \<and> s_user_id s = k
             \<and> reactivate_user_route k admin2 w' = (r2, w2) \<longrightarrow> shut_out env i s w2)
        \<and> (\<forall>c. channel_admins c (ac_db w) = {k} \<and> channel_members c (ac_db w) \<noteq> {k}
             \<longrightarrow> (\<exists>v\<in>channel_admins c (ac_db w'). v \<noteq> k)))"
proof (cases "require_system_admin admin (ac_db w)")
  case False
  with assms(1) show ?thesis by (auto simp: deactivate_user_route_def)
next
  case True
  note adm = True
  show ?thesis
  proof (cases "get_user k (ac_db w)")
    case None
    with adm assms(1) show ?thesis by (auto simp: deactivate_user_route_def)
  next
    case (Some u)
    have k: "u_id u = k" using user_row.get_pk [OF Some] by simp
    obtain res d' where dea: "deactivate_user id now u (ac_db w) = (res, d')" by (rule prod.exhaust)
    have route: "(r, w') = (case da_outcome res of
        LAST_ACTIVE_SYSTEM_ADMIN \<Rightarrow> (Problem 409 ''Cannot deactivate the last active System Admin.'', w\<lparr>ac_db := d'\<rparr>)
      | ALREADY_INACTIVE \<Rightarrow> (Response 200 \<lparr>aa_id = u_id u, aa_is_active = False\<rparr>, w\<lparr>ac_db := d'\<rparr>)
      | DEACTIVATED \<Rightarrow> (Response 200 \<lparr>aa_id = u_id u, aa_is_active = False\<rparr>,
          invalidate_session_caches Answered (da_revoked_session_ids res) (w\<lparr>ac_db := d'\<rparr>)))"
      unfolding assms(1) [symmetric] deactivate_user_route_def by (simp add: adm Some dea)
    show ?thesis
      using dea
    proof (cases rule: deactivate_cases)
      case (deactivated d1)
      note run = deactivated(4) [unfolded k id_apply]
      let ?d = "set_active False k d1"
      have smb: "same_but_members (ac_db w) d1"
        using run_sole_admin_succession_spec(3) [OF assms(4), of k None] run by simp
      have ses: "tb_sessions ?d = tb_sessions (ac_db w)"
        by (simp add: same_but_members_sessions [OF smb])
      have w': "w' = invalidate_session_caches Answered (da_revoked_session_ids res) (w\<lparr>ac_db := d'\<rparr>)"
        and r: "r = Response 200 \<lparr>aa_id = k, aa_is_active = False\<rparr>"
        using route deactivated(2) k by simp_all
      have so: "sign_out k None now ?d w w'"
        unfolding sign_out_def coherent_same_sessions [OF ses] w'
        using assms(2,3) ses deactivated(5) k
        by (intro conjI exI [of _ Answered] exI [of _ "da_revoked_session_ids res"] exI [of _ d'])
          (simp_all add: sessions_ok_def)
      have users: "get_user i (ac_db w') = (if i = k then Some (u\<lparr>u_is_active := False\<rparr>) else get_user i (ac_db w))" for i
        using Some by (simp add: sign_out_frame(2) [OF so] get_user_set_active same_but_members_get(2) [OF smb])
      note only = sign_out_only [OF so ses, where env = env]
      have stay: "shut_out env i s w2"
        if "get_session i (ac_db w) = Some s" "s_user_id s = k" "reactivate_user_route k admin2 w' = (r2, w2)"
        for i s admin2 r2 w2
      proof -
        note same = same_sessions_coherent [OF reactivate_sessions [OF that(3)]]
        have "get_session i ?d = Some s" using that(1) ses by (simp add: get_session_def)
        from signed_out(2) [OF so this that(2)] obtain s' where s': "get_session i (ac_db w') = Some s'"
          "s_revoked_at s' \<noteq> None" "s_refresh_token_hash s' = s_refresh_token_hash s" by auto
        have "coherent w2" unfolding same(1) by (rule sign_out_coherent [OF so])
        moreover have "sessions_ok (ac_db w2)" unfolding same(2) by (rule sign_out_frame(3) [OF so])
        moreover have "get_session i (ac_db w2) = Some s'" unfolding same(3) by (rule s'(1))
        ultimately show ?thesis by (rule shut_outI [OF _ _ _ s'(2,3)])
      qed
      have "tb_members (ac_db w') = tb_members d1"
        by (subst sign_out_frame(1) [OF so]) simp
      then have "channel_admins c (ac_db w') = channel_admins c d1" for c
        by (simp add: channel_admins_def get_membership_def get_member_def)
      then have heirs: "\<exists>v\<in>channel_admins c (ac_db w'). v \<noteq> k"
        if "channel_admins c (ac_db w) = {k} \<and> channel_members c (ac_db w) \<noteq> {k}" for c
        using that succession_covers_all_channels [OF assms(4) run] by auto
      show ?thesis using r adm Some deactivated(1) users only stay heirs by blast
    qed (use route Some in auto)
  qed
qed

subsection \<open>Example\<close>

text \<open>Alice administers the workspace; user 1 of \<open>demo_db\<close> is deactivated by her, here user 4.\<close>

definition staffed :: account where
  "staffed = account_of (demo_db\<lparr>tb_users := alice\<lparr>u_id := 4\<rparr> # tb_users demo_db,
     tb_sessions := [alice_session 8 ''r1'']\<rparr>)"

lemma staffed_ok: "sessions_ok (ac_db staffed)" "coherent staffed" "members_ok (ac_db staffed)"
proof -
  show "members_ok (ac_db staffed)"
    using demo_inv by (simp add: staffed_def account_of_def membership_inv_def members_ok_def)
qed (simp_all add: staffed_def account_of_def sessions_ok_def coherent_def)

lemma staffed_facts:
  "require_system_admin \<lparr>au_user_id = 4, au_session_id = 9\<rparr> (ac_db staffed)"
  "get_user 1 (ac_db staffed) = Some (demo_user 1 ''ann'')"
  "get_session 8 (ac_db staffed) = Some (alice_session 8 ''r1'')"
  by (simp_all add: staffed_def account_of_def require_system_admin_def get_user_def get_session_def db_get_def
      demo_defs alice_def alice_session_def)

lemma ann_deactivated:
  "fst (deactivate_user_route Answered id 50 1 \<lparr>au_user_id = 4, au_session_id = 9\<rparr> staffed) =
     Response 200 \<lparr>aa_id = 1, aa_is_active = False\<rparr>"
proof -
  have "da_outcome (fst (deactivate_user id 50 (demo_user 1 ''ann'') (ac_db staffed))) = DEACTIVATED"
    by (simp add: deactivate_user_def demo_user_def case_prod_beta)
  then show ?thesis
    using staffed_facts(1,2)
    by (simp add: deactivate_user_route_def case_prod_beta) (simp add: demo_user_def)
qed

lemma deactivation_effect_witness:
  "\<exists>w'. deactivate_user_route Answered id 50 1 \<lparr>au_user_id = 4, au_session_id = 9\<rparr> staffed =
       (Response 200 \<lparr>aa_id = 1, aa_is_active = False\<rparr>, w') \<and>
     only_signs_out plain_env 1 None staffed w'"
proof -
  obtain w' where w': "deactivate_user_route Answered id 50 1 \<lparr>au_user_id = 4, au_session_id = 9\<rparr> staffed =
       (Response 200 \<lparr>aa_id = 1, aa_is_active = False\<rparr>, w')"
    using ann_deactivated by (metis prod.collapse)
  have "u_is_active (demo_user 1 ''ann'')" by (simp add: demo_user_def)
  with deactivation_effect [OF w' staffed_ok, where env = plain_env] staffed_facts(2)
  have "only_signs_out plain_env 1 None staffed w'" by auto
  with w' show ?thesis by blast
qed

definition first_admin :: bootstrap_settings where
  "first_admin = \<lparr>bs_username = py ''root'', bs_email = py ''r@x.io'', bs_password = py ''new123'',
     bs_first_name = py ''Ro'', bs_last_name = py ''Ot''\<rparr>"

definition booted :: database where
  "booted = empty_db\<lparr>tb_users := [bootstrap_admin plain_invite_env first_admin (fresh_at 5 1 ''x'')]\<rparr>"

lemma first_admin_boots:
  "ensure_system_admin_bootstrapped plain_invite_env first_admin (fresh_at 5 1 ''x'') id empty_db = Inr booted"
proof -
  have "enforce_password_policy plain_invite_env (bs_password first_admin) ''password'' = Inr ()"
    by (simp add: enforce_policy_iff check_password_policy_def MIN_LENGTH_def first_admin_def
        plain_invite_env_def py_strip_def py_isspace_def)
  moreover have "insert_user (db_lower plain_invite_env)
      (bootstrap_admin plain_invite_env first_admin (fresh_at 5 1 ''x'')) empty_db = Inr booted"
    by (simp add: insert_user_def bootstrap_admin_def first_admin_def empty_db_def btrim_def booted_def)
  moreover have "active_system_admin_exists booted"
    by (simp add: active_system_admin_exists_def bootstrap_admin_def booted_def)
  ultimately show ?thesis
    by (simp add: ensure_system_admin_bootstrapped_def) (simp add: empty_db_def)
qed

lemma workspace_keeps_an_admin_witness:
  "\<exists>d. ensure_system_admin_bootstrapped plain_invite_env first_admin (fresh_at 5 1 ''x'') id empty_db = Inr d
    \<and> active_system_admin_exists (d\<lparr>tb_messages := []\<rparr>)"
proof -
  have dist: "distinct_users booted" by (simp add: distinct_users_def booted_def)
  have "users_run plain_invite_env booted (booted\<lparr>tb_messages := []\<rparr>)"
    by (rule users_elsewhere [OF users_refl]) simp
  from workspace_keeps_an_admin [OF first_admin_boots dist this] first_admin_boots show ?thesis by blast
qed

end
