(* ===== verification/Media_Validation.thy ===== *)
theory Media_Validation
  imports Values
begin

text \<open>
  The checks of an upload (\<^verbatim>\<open>core/media_validation.py\<close>): kind, declared type, the type
  recognised from the first bytes, and the sanitised filename; the bounded read of the uploaded
  part (\<open>read_upload_within_limit\<close> of \<^verbatim>\<open>services/media.py\<close>); and the re-encoding of images
  (\<^verbatim>\<open>services/media_images.py\<close>) over the imaging library, which is a record of functions.
  \<open>lower\<close> is \<open>str.lower\<close>.
\<close>

subsection \<open>Kinds and declared types\<close>

datatype media_error =
    InvalidMediaKindError
  | MediaSizeExceededError
  | MediaTypeDisallowedError
  | MediaSniffMismatchError
  | MediaExifStripError
  | MediaUploadEmptyError
  | MediaStorageError
  | CommitError integrity_error
  | ConnectionLost

definition parse_kind :: "(pystr \<Rightarrow> pystr) \<Rightarrow> pystr \<Rightarrow> media_error + attachment_kind" where
  "parse_kind lower raw =
     (let value = lower (py_strip raw) in
      if value = py ''image'' then Inr IMAGE
      else if value = py ''file'' then Inr FILE
      else if value = py ''video'' then Inr VIDEO
      else Inl InvalidMediaKindError)"

definition allowed_content_types :: "attachment_kind \<Rightarrow> string list" where
  "allowed_content_types kind =
     (case kind of IMAGE \<Rightarrow> [''image/png'', ''image/jpeg'', ''image/gif'', ''image/webp'']
      | VIDEO \<Rightarrow> [''video/mp4'', ''video/webm''] | FILE \<Rightarrow> [])"

definition file_kind_denylisted_content_types :: "string list" where
  "file_kind_denylisted_content_types =
     [''text/html'', ''text/xml'', ''application/xhtml+xml'', ''application/javascript'',
      ''text/javascript'', ''image/svg+xml'']"

definition validate_allowlist :: "attachment_kind \<Rightarrow> pystr \<Rightarrow> media_error + unit" where
  "validate_allowlist kind content_type =
     (if kind = FILE
      then check (content_type \<notin> py ` set file_kind_denylisted_content_types) MediaTypeDisallowedError
      else check (content_type \<in> py ` set (allowed_content_types kind)) MediaTypeDisallowedError)"

subsection \<open>Sniffing\<close>

abbreviation bytes :: "string \<Rightarrow> byte list" where
  "bytes s \<equiv> map of_char s"

definition startswith :: "'a list \<Rightarrow> 'a list \<Rightarrow> bool" where
  "startswith pat data \<longleftrightarrow> take (length pat) data = pat"

text \<open>\<open>pat in data\<close>.\<close>

fun contains :: "'a list \<Rightarrow> 'a list \<Rightarrow> bool" where
  "contains pat [] \<longleftrightarrow> pat = []"
| "contains pat (b # bs) \<longleftrightarrow> startswith pat (b # bs) \<or> contains pat bs"

definition slice :: "nat \<Rightarrow> nat \<Rightarrow> 'a list \<Rightarrow> 'a list" where
  "slice i j data = take (j - i) (drop i data)"

definition mp4_major_brands :: "string list" where
  "mp4_major_brands = [''isom'', ''iso2'', ''iso3'', ''iso4'', ''iso5'', ''iso6'', ''mp41'', ''mp42'',
     ''avc1'', ''M4V '', ''3gp4'', ''3gp5'', ''3g2a'', ''mmp4'', ''dash'', ''f4v '']"

definition byte_lower :: "byte \<Rightarrow> byte" where
  "byte_lower b = (if 65 \<le> b \<and> b \<le> 90 then b + 32 else b)"

definition looks_like_svg :: "byte list \<Rightarrow> bool" where
  "looks_like_svg data =
     (let head = map byte_lower
            (dropWhile (\<lambda>b. b \<in> set [0xef, 0xbb, 0xbf, 0x20, 0x09, 0x0d, 0x0a]) (take 512 data))
      in startswith (bytes ''<?xml'') head \<or> startswith (bytes ''<svg'') head \<or> contains (bytes ''<svg'') head)"

definition sniff_content_type :: "byte list \<Rightarrow> string option" where
  "sniff_content_type data =
     (if startswith [0x89, 0x50, 0x4e, 0x47, 0x0d, 0x0a, 0x1a, 0x0a] data then Some ''image/png''
      else if startswith [0xff, 0xd8, 0xff] data then Some ''image/jpeg''
      else if startswith (bytes ''GIF87a'') data \<or> startswith (bytes ''GIF89a'') data then Some ''image/gif''
      else if 12 \<le> length data \<and> slice 0 4 data = bytes ''RIFF'' \<and> slice 8 12 data = bytes ''WEBP''
      then Some ''image/webp''
      else if 12 \<le> length data \<and> slice 4 8 data = bytes ''ftyp'' \<and>
              slice 8 12 data \<in> bytes ` set mp4_major_brands
      then Some ''video/mp4''
      else if startswith [0x1a, 0x45, 0xdf, 0xa3] data then Some ''video/webm''
      else if looks_like_svg data then Some ''image/svg+xml''
      else None)"

definition sniffable_image_types :: "string list" where
  "sniffable_image_types = [''image/png'', ''image/jpeg'', ''image/gif'', ''image/webp'', ''image/svg+xml'']"

definition validate_sniff_match :: "attachment_kind \<Rightarrow> pystr \<Rightarrow> string option \<Rightarrow> media_error + unit" where
  "validate_sniff_match kind content_type sniffed =
     (case kind of
        FILE \<Rightarrow>
          (case sniffed of
             None \<Rightarrow> Inr ()
           | Some s \<Rightarrow>
               if s \<in> set sniffable_image_types then Inl MediaSniffMismatchError
               else check (s \<in> set (sniffable_image_types @ [''video/mp4'', ''video/webm'']) \<longrightarrow> py s = content_type)
                      MediaSniffMismatchError)
      | _ \<Rightarrow> check (map_option py sniffed = Some content_type) MediaSniffMismatchError)"

subsection \<open>Filenames\<close>

definition safe_filename_char :: "nat \<Rightarrow> bool" where
  "safe_filename_char c \<longleftrightarrow>
     65 \<le> c \<and> c \<le> 90 \<or> 97 \<le> c \<and> c \<le> 122 \<or> 48 \<le> c \<and> c \<le> 57 \<or> c = 46 \<or> c = 95 \<or> c = 32 \<or> c = 45"

text \<open>\<open>PurePosixPath(path).name\<close>: the last component that is neither empty nor a dot.\<close>

definition posix_name :: "pystr \<Rightarrow> pystr" where
  "posix_name path =
     (case rev (filter (\<lambda>w. w \<noteq> [] \<and> w \<noteq> [46]) (split_on 47 path)) of [] \<Rightarrow> [] | w # ws \<Rightarrow> w)"

definition sanitize_filename :: "pystr \<Rightarrow> pystr" where
  "sanitize_filename raw =
     (let normalized = map (\<lambda>c. if c = 92 then 47 else c) (py_strip raw);
          name = posix_name normalized;
          candidate = (if name \<noteq> [] then name else last (split_on 47 normalized));
          candidate = dropWhile (\<lambda>c. c = 46) candidate;
          candidate = py_strip (map (\<lambda>c. if safe_filename_char c then c else 95) candidate);
          candidate = (if candidate = [] then py ''file'' else candidate)
      in take 255 candidate)"

subsection \<open>The bounded read\<close>

definition READ_CHUNK_BYTES :: nat where
  "READ_CHUNK_BYTES = 1048576"

text \<open>The loop over \<open>file.read\<close>: \<open>chunks\<close> and their size \<open>total_before\<close>; the result comes with
  the number of bytes read.\<close>

function read_loop :: "int \<Rightarrow> byte list \<Rightarrow> int \<Rightarrow> byte list list \<Rightarrow> (media_error + byte list) \<times> int" where
  "read_loop max_bytes part total_before chunks =
     (let chunk = take READ_CHUNK_BYTES part in
      if chunk = [] then (Inr (concat chunks), total_before)
      else let total_read = total_before + int (length chunk) in
           if total_read > max_bytes then (Inl MediaSizeExceededError, total_read)
           else read_loop max_bytes (drop READ_CHUNK_BYTES part) total_read (chunks @ [chunk]))"
  by pat_completeness auto
termination
  by (relation "measure (\<lambda>(max_bytes, part, total_before, chunks). length part)") (auto simp: READ_CHUNK_BYTES_def)

declare read_loop.simps [simp del]

definition read_upload_within_limit :: "byte list \<Rightarrow> int \<Rightarrow> (media_error + byte list) \<times> int" where
  "read_upload_within_limit part max_bytes = read_loop max_bytes part 0 []"

subsection \<open>Re-encoding images\<close>

text \<open>What the pipeline uses of the imaging library; a frame still carries its EXIF orientation,
  \<open>exif_transpose\<close> applies it.  \<open>im_save\<close> writes the frames with the given options.\<close>

record 'f decoded_image =
  im_first :: 'f
  im_rest :: "'f list"
  im_icc_profile :: "byte list option"
  im_duration :: "int option"
  im_loop :: "int option"

record save_options =
  so_quality :: "int option"
  so_icc_profile :: "byte list option"
  so_duration :: "int option"
  so_loop :: "int option"

record 'f imaging =
  im_open :: "byte list \<Rightarrow> 'f decoded_image option"
  im_exif_transpose :: "'f \<Rightarrow> 'f option"
  im_mode :: "'f \<Rightarrow> string"
  im_convert_rgb :: "'f \<Rightarrow> 'f option"
  im_save :: "string \<Rightarrow> save_options \<Rightarrow> 'f list \<Rightarrow> byte list option"

definition pillow_format :: "pystr \<Rightarrow> string option" where
  "pillow_format content_type =
     map_of [(py ''image/png'', ''PNG''), (py ''image/jpeg'', ''JPEG''), (py ''image/gif'', ''GIF''),
             (py ''image/webp'', ''WEBP'')] content_type"

fun transpose_frames :: "('f \<Rightarrow> 'f option) \<Rightarrow> 'f list \<Rightarrow> 'f list option" where
  "transpose_frames f [] = Some []"
| "transpose_frames f (x # xs) = Option.bind (f x) (\<lambda>y. map_option (Cons y) (transpose_frames f xs))"

definition strip_exif :: "'f imaging \<Rightarrow> byte list \<Rightarrow> pystr \<Rightarrow> media_error + byte list" where
  "strip_exif lib data content_type =
     (case pillow_format content_type of
        None \<Rightarrow> Inl MediaExifStripError
      | Some format \<Rightarrow>
          (case im_open lib data of
             None \<Rightarrow> Inl MediaExifStripError
           | Some img \<Rightarrow>
               (let fidelity = \<lparr>so_quality = (if format \<in> {''JPEG'', ''WEBP''} then Some 95 else None),
                               so_icc_profile = im_icc_profile img, so_duration = None, so_loop = None\<rparr>;
                    saved =
                      (if im_rest img \<noteq> []
                       then Option.bind (transpose_frames (im_exif_transpose lib) (im_first img # im_rest img))
                              (im_save lib format (fidelity\<lparr>so_duration := im_duration img, so_loop := im_loop img\<rparr>))
                       else Option.bind (im_exif_transpose lib (im_first img))
                              (\<lambda>oriented. Option.bind
                                 (if format = ''JPEG'' \<and> im_mode lib oriented \<in> {''RGBA'', ''P''}
                                  then im_convert_rgb lib oriented else Some oriented)
                                 (\<lambda>f. im_save lib format fidelity [f])))
                in case saved of None \<Rightarrow> Inl MediaExifStripError | Some out \<Rightarrow> Inr out)))"

subsection \<open>The read is bounded\<close>

lemma read_loop_more:
  assumes "take READ_CHUNK_BYTES part \<noteq> []"
  shows "read_loop max_bytes part total_before chunks =
     (if total_before + int (length (take READ_CHUNK_BYTES part)) > max_bytes
      then (Inl MediaSizeExceededError, total_before + int (length (take READ_CHUNK_BYTES part)))
      else read_loop max_bytes (drop READ_CHUNK_BYTES part)
             (total_before + int (length (take READ_CHUNK_BYTES part))) (chunks @ [take READ_CHUNK_BYTES part]))"
  using assms by (subst read_loop.simps) (simp only: Let_def if_False)

lemma read_loop_spec:
  assumes "0 \<le> total_before" "total_before \<le> max_bytes"
  shows "read_loop max_bytes part total_before chunks =
     (if total_before + int (length part) \<le> max_bytes
      then (Inr (concat chunks @ part), total_before + int (length part))
      else (Inl MediaSizeExceededError, snd (read_loop max_bytes part total_before chunks)))"
    and "snd (read_loop max_bytes part total_before chunks) \<le> max_bytes + int READ_CHUNK_BYTES"
  using assms
proof (induction max_bytes part total_before chunks rule: read_loop.induct)
  case (1 max_bytes part total_before chunks)
  let ?chunk = "take READ_CHUNK_BYTES part"
  let ?total = "total_before + int (length ?chunk)"
  have C: "0 < READ_CHUNK_BYTES" by (simp add: READ_CHUNK_BYTES_def)
  have len: "length part = length ?chunk + length (drop READ_CHUNK_BYTES part)"
    by (metis append_take_drop_id length_append)
  {
    case 1
    show ?case
    proof (cases "?chunk = []")
      case True
      with C have "part = []" by simp
      with 1 show ?thesis by (subst read_loop.simps) simp
    next
      case False
      note step = read_loop_more [OF False]
      show ?thesis
      proof (cases "?total > max_bytes")
        case True
        then have "\<not> total_before + int (length part) \<le> max_bytes" using len by linarith
        with True step show ?thesis by simp
      next
        case small: False
        have eq: "?total + int (length (drop READ_CHUNK_BYTES part)) = total_before + int (length part)"
          using len by linarith
        have app: "concat (chunks @ [?chunk]) @ drop READ_CHUNK_BYTES part = concat chunks @ part" by simp
        have "0 \<le> ?total" "?total \<le> max_bytes" using 1(1) small by linarith+
        note ih = "1.IH"(1) [OF refl False refl small this]
        show ?thesis unfolding step if_not_P [OF small] using ih unfolding eq app .
      qed
    qed
  next
    case 2
    show ?case
    proof (cases "?chunk = []")
      case True
      with 2 show ?thesis by (subst read_loop.simps) (simp add: Let_def)
    next
      case False
      note step = read_loop_more [OF False]
      show ?thesis
      proof (cases "?total > max_bytes")
        case True
        then show ?thesis using step 2 by simp
      next
        case small: False
        then have "0 \<le> ?total" "?total \<le> max_bytes" using 2(1) by linarith+
        from "1.IH"(2) [OF refl False refl small this] show ?thesis unfolding step if_not_P [OF small] .
      qed
    qed
  }
qed

text \<open>
  The read ends, gives the part as it is when it fits the cap and refuses it otherwise, and
  never takes in more than the cap and one chunk, however long the part is.
\<close>

theorem bounded_read:
  assumes "0 \<le> max_bytes"
  shows "fst (read_upload_within_limit part max_bytes) =
      (if int (length part) \<le> max_bytes then Inr part else Inl MediaSizeExceededError)
    \<and> snd (read_upload_within_limit part max_bytes) \<le> max_bytes + int READ_CHUNK_BYTES"
  using read_loop_spec [where total_before = 0 and chunks = "[]" and part = part, OF order_refl assms]
  by (auto simp: read_upload_within_limit_def prod_eq_iff split: if_splits)

lemma bounded_read_witness:
  "fst (read_upload_within_limit [1, 2, 3] 2) = Inl MediaSizeExceededError \<and>
   fst (read_upload_within_limit [1, 2, 3] 3) = Inr [1, 2, 3]"
  using bounded_read [of 2 "[1, 2, 3]"] bounded_read [of 3 "[1, 2, 3]"] by simp

subsection \<open>Filenames are safe\<close>

lemma takeWhile_dropWhile_strip: "set (py_strip s) \<subseteq> set s"
  by (simp add: py_strip_def set_strip_by)

lemma strip_by_ends:
  assumes "strip_by p xs \<noteq> []"
  shows "\<not> p (hd (strip_by p xs))" "\<not> p (last (strip_by p xs))"
proof -
  let ?d = "dropWhile p xs"
  have ne: "?d \<noteq> []" using assms unfolding strip_by_def by (metis dropWhile.simps(1) rev.simps(1))
  have ne2: "dropWhile p (rev ?d) \<noteq> []" using assms unfolding strip_by_def by blast
  then have "\<not> p (hd (dropWhile p (rev ?d)))" by (metis dropWhile_eq_Nil_conv hd_dropWhile)
  then show "\<not> p (last (strip_by p xs))" unfolding strip_by_def by (simp add: last_rev)
  have "\<not> p (hd ?d)" using ne by (metis dropWhile_eq_Nil_conv hd_dropWhile)
  moreover have "hd (strip_by p xs) = hd ?d"
  proof -
    obtain ys where "rev ?d = ys @ dropWhile p (rev ?d)"
      by (metis takeWhile_dropWhile_id)
    then have "?d = strip_by p xs @ rev ys" by (metis rev_append rev_rev_ident strip_by_def)
    then show ?thesis using assms by (metis hd_append2)
  qed
  ultimately show "\<not> p (hd (strip_by p xs))" by simp
qed

text \<open>
  Whatever name a client sends, the stored name is safe: not empty, at most 255 characters,
  letters, digits, dots, underscores, hyphens and spaces only (so no path separator, quote or
  control character), not starting with a space, and the download header carries it unchanged.
\<close>

theorem sanitized_filename_safe:
  "sanitize_filename raw \<noteq> [] \<and> length (sanitize_filename raw) \<le> 255
    \<and> list_all safe_filename_char (sanitize_filename raw) \<and> hd (sanitize_filename raw) \<noteq> 32"
proof -
  obtain candidate where c: "sanitize_filename raw =
      take 255 (if py_strip (map (\<lambda>c. if safe_filename_char c then c else 95) candidate) = [] then py ''file''
                else py_strip (map (\<lambda>c. if safe_filename_char c then c else 95) candidate))"
    by (simp add: sanitize_filename_def Let_def)
  let ?s = "py_strip (map (\<lambda>c. if safe_filename_char c then c else 95) candidate)"
  have safe: "list_all safe_filename_char ?s"
    using takeWhile_dropWhile_strip [of "map (\<lambda>c. if safe_filename_char c then c else 95) candidate"]
    by (auto simp: list_all_iff safe_filename_char_def split: if_splits)
  show ?thesis
  proof (cases "?s = []")
    case True
    then show ?thesis unfolding c by (simp add: safe_filename_char_def)
  next
    case False
    then have "\<not> py_isspace (hd ?s)" unfolding py_strip_def by (rule strip_by_ends)
    then have "hd ?s \<noteq> 32" by (auto simp: py_isspace_def)
    moreover have "list_all safe_filename_char (take 255 ?s)"
      using safe by (auto simp: list_all_iff dest: in_set_takeD)
    moreover have "hd (take 255 ?s) = hd ?s" using False by (cases ?s) auto
    ultimately show ?thesis unfolding c if_not_P [OF False] using False by simp
  qed
qed

text \<open>Leading dots are dropped before leading spaces, so a hidden name and the name of the parent
  directory survive when a space hides the dots from the first step.\<close>

lemma sanitize_keeps_hidden_dots:
  "sanitize_filename (py ''. .bashrc'') = py ''.bashrc''"
  "sanitize_filename (py ''a/. ..'') = py ''..''"
  by (simp_all add: sanitize_filename_def posix_name_def py_strip_def strip_by_def py_isspace_def
      safe_filename_char_def)

text \<open>The deny list compares whole strings: a browser-active type with a parameter passes, and so do
  images whose signature the sniffer does not know (here HEIC).\<close>

lemma file_checks_that_pass:
  "validate_allowlist FILE (py ''text/html; charset=utf-8'') = Inr ()"
  "sniff_content_type ([0, 0, 0, 0] @ bytes ''ftypheic'') = None"
  "validate_sniff_match FILE ct None = Inr ()"
  by (simp_all add: validate_allowlist_def check_def file_kind_denylisted_content_types_def sniff_content_type_def
      startswith_def slice_def mp4_major_brands_def looks_like_svg_def byte_lower_def validate_sniff_match_def)

end
