(* ===== verification/Media.thy ===== *)
theory Media
  imports Media_Validation Messages
begin

text \<open>
  Upload, fetch and sweep of media (\<^verbatim>\<open>services/media.py\<close>, \<^verbatim>\<open>services/media_storage.py\<close>,
  \<^verbatim>\<open>services/media_sweep.py\<close>, \<^verbatim>\<open>jobs/media_orphan_sweep.py\<close>) and the two routes
  (\<^verbatim>\<open>api/media.py\<close>, \<^verbatim>\<open>schemas/media.py\<close>) over the database and the object store.  A call
  to the store is answered, never arrives, or is executed while its answer is lost; the imaging
  library and the signing of URLs are parameters.
\<close>

subsection \<open>The object store\<close>

record stored_object =
  ob_body :: "byte list"
  ob_content_type :: pystr

type_synonym object_store = "pystr \<Rightarrow> stored_object option"

record media_world =
  mw_db :: database
  mw_objects :: object_store

definition put_object ::
  "redis_call \<Rightarrow> pystr \<Rightarrow> byte list \<Rightarrow> pystr \<Rightarrow> object_store \<Rightarrow> (media_error + unit) \<times> object_store" where
  "put_object call key body content_type objects =
     (check (call = Answered) MediaStorageError,
      redis_state call objects (objects(key \<mapsto> \<lparr>ob_body = body, ob_content_type = content_type\<rparr>)))"

definition delete_object :: "redis_call \<Rightarrow> pystr \<Rightarrow> object_store \<Rightarrow> (media_error + unit) \<times> object_store" where
  "delete_object call key objects =
     (check (call = Answered) MediaStorageError, redis_state call objects (objects(key := None)))"

text \<open>What is signed into a URL: the key, the lifetime and the overridden response headers.\<close>

record presign_params =
  pp_key :: pystr
  pp_expires_in_seconds :: int
  pp_response_content_type :: "pystr option"
  pp_response_content_disposition :: "pystr option"

definition PRESIGNED_URL_TTL_SECONDS :: int where
  "PRESIGNED_URL_TTL_SECONDS = 300"

definition generate_presigned_get_url ::
  "(presign_params \<Rightarrow> pystr) \<Rightarrow> pystr \<Rightarrow> pystr option \<Rightarrow> pystr option \<Rightarrow> pystr" where
  "generate_presigned_get_url sign key response_content_type response_content_disposition =
     sign \<lparr>pp_key = key, pp_expires_in_seconds = PRESIGNED_URL_TTL_SECONDS,
           pp_response_content_type = response_content_type,
           pp_response_content_disposition = response_content_disposition\<rparr>"

subsection \<open>Upload\<close>

definition file_kind_stored_content_type :: pystr where
  "file_kind_stored_content_type = py ''application/octet-stream''"

definition storage_key :: "uuid \<Rightarrow> pystr" where
  "storage_key media_id = py ''attachments/'' @ py (uuid_str media_id)"

definition attachment_content_disposition :: "pystr \<Rightarrow> pystr" where
  "attachment_content_disposition filename =
     py ''attachment; filename='' @ [34] @
     map (\<lambda>c. if c = 34 then 95 else c) (map (\<lambda>c. if c = 92 then 95 else c) filename) @ [34]"

text \<open>The parts of a request, and what the upload meets: the id it draws, the clock, the outcome
  of the calls to the store and of the commit.\<close>

record upload_parts =
  up_uploader_id :: uuid
  up_file :: "byte list"
  up_declared_content_type :: pystr
  up_kind :: pystr
  up_filename :: pystr

record upload_env =
  ue_id :: uuid
  ue_now :: datetime
  ue_put :: redis_call
  ue_commit_ok :: bool
  ue_purge :: redis_call

text \<open>The checks before anything is stored, in their order: kind, read, empty, declared type,
  sniffed type, and for images the re-encoding.\<close>

definition validated_upload ::
  "(pystr \<Rightarrow> pystr) \<Rightarrow> 'f imaging \<Rightarrow> upload_parts \<Rightarrow> media_error + (attachment_kind \<times> pystr \<times> byte list)" where
  "validated_upload lower lib p =
     and_then (parse_kind lower (up_kind p)) (\<lambda>kind.
       let content_type = lower (py_strip (up_declared_content_type p));
           cap = size_cap kind
       in and_then (fst (read_upload_within_limit (up_file p) cap)) (\<lambda>data.
          and_then (check (data \<noteq> []) MediaUploadEmptyError) (\<lambda>_.
          and_then (validate_allowlist kind content_type) (\<lambda>_.
          and_then (validate_sniff_match kind content_type (sniff_content_type data)) (\<lambda>_.
            if kind = IMAGE
            then and_then (strip_exif lib data content_type) (\<lambda>stripped.
                   and_then (check (int (length stripped) \<le> cap) MediaSizeExceededError) (\<lambda>_.
                     Inr (kind, content_type, stripped)))
            else Inr (kind, content_type, data))))))"

definition upload_media ::
  "(pystr \<Rightarrow> pystr) \<Rightarrow> 'f imaging \<Rightarrow> upload_env \<Rightarrow> upload_parts \<Rightarrow> media_world \<Rightarrow>
   (media_error + attachment) \<times> media_world" where
  "upload_media lower lib e p w =
     (case validated_upload lower lib p of
        Inl err \<Rightarrow> (Inl err, w)
      | Inr (kind, content_type, stored_bytes) \<Rightarrow>
          (let key = storage_key (ue_id e);
               stored_content_type = (if kind = FILE then file_kind_stored_content_type else content_type)
           in case put_object (ue_put e) key stored_bytes stored_content_type (mw_objects w) of
                (Inl err, objects) \<Rightarrow> (Inl err, w\<lparr>mw_objects := objects\<rparr>)
              | (Inr _, objects) \<Rightarrow>
                  (let attachment = \<lparr>a_id = ue_id e, a_message_id = None, a_uploader_id = up_uploader_id p,
                          a_kind = kind, a_content_type = content_type, a_storage_key = key,
                          a_filename = sanitize_filename (up_filename p),
                          a_byte_size = int (length stored_bytes), a_created_at = ue_now e\<rparr>
                   in case (if ue_commit_ok e
                            then case insert_attachment attachment (mw_db w) of
                                   Inl c \<Rightarrow> Inl (CommitError c) | Inr d \<Rightarrow> Inr d
                            else Inl ConnectionLost) of
                        Inr d \<Rightarrow> (Inr attachment, \<lparr>mw_db = d, mw_objects = objects\<rparr>)
                      | Inl err \<Rightarrow>
                          (Inl err, w\<lparr>mw_objects := snd (delete_object (ue_purge e) key objects)\<rparr>))))"

subsection \<open>Fetch\<close>

definition caller_can_access_message_media :: "message \<Rightarrow> uuid \<Rightarrow> database \<Rightarrow> bool" where
  "caller_can_access_message_media m caller_id d =
     (case m_channel_id m of
        Some c \<Rightarrow> get_membership c caller_id d \<noteq> None
      | None \<Rightarrow> caller_id = m_sender_id m \<or> m_recipient_id m = Some caller_id)"

datatype media_url_error = MediaNotFoundError | NotAuthorizedForMediaError

record media_url_result =
  mu_url :: pystr
  mu_expires_at :: datetime
  mu_content_type :: pystr
  mu_filename :: pystr
  mu_size :: int

definition get_media_url ::
  "(presign_params \<Rightarrow> pystr) \<Rightarrow> datetime \<Rightarrow> uuid \<Rightarrow> uuid \<Rightarrow> database \<Rightarrow> media_url_error + media_url_result" where
  "get_media_url sign now media_id caller_id d =
     (case get_attachment media_id d of
        None \<Rightarrow> Inl MediaNotFoundError
      | Some a \<Rightarrow>
          (case Option.bind (a_message_id a) (\<lambda>m. get_message m d) of
             None \<Rightarrow> Inl MediaNotFoundError
           | Some m \<Rightarrow>
               if m_deleted_at m \<noteq> None then Inl MediaNotFoundError
               else if \<not> caller_can_access_message_media m caller_id d then Inl NotAuthorizedForMediaError
               else Inr \<lparr>mu_url = (if a_kind a = FILE
                      then generate_presigned_get_url sign (a_storage_key a) (Some file_kind_stored_content_type)
                             (Some (attachment_content_disposition (a_filename a)))
                      else generate_presigned_get_url sign (a_storage_key a) None None),
                     mu_expires_at = now + seconds PRESIGNED_URL_TTL_SECONDS,
                     mu_content_type = a_content_type a, mu_filename = a_filename a,
                     mu_size = a_byte_size a\<rparr>))"

subsection \<open>Sweep\<close>

definition DEFAULT_ORPHAN_TTL :: int where
  "DEFAULT_ORPHAN_TTL = seconds (24 * 3600)"

definition DEFAULT_BATCH_SIZE :: nat where
  "DEFAULT_BATCH_SIZE = 500"

record sweep_result =
  sw_scanned :: nat
  sw_purged :: nat
  sw_purge_failures :: nat

definition is_orphan :: "datetime \<Rightarrow> attachment \<Rightarrow> bool" where
  "is_orphan cutoff a \<longleftrightarrow> a_message_id a = None \<and> a_created_at a < cutoff"

text \<open>One row of the batch: \<open>others\<close> is what commits between the scan and the moment its row lock
  is granted; the lock keeps the row as it is until the end of the transaction.  \<open>gone\<close> collects
  the deleted rows.\<close>

definition sweep_row ::
  "redis_call \<Rightarrow> (database \<Rightarrow> database) \<Rightarrow> attachment \<Rightarrow> sweep_result \<times> attachment list \<times> media_world \<Rightarrow>
   sweep_result \<times> attachment list \<times> media_world" where
  "sweep_row call others a acc =
     (case acc of (r, gone, w0) \<Rightarrow>
        (let w = w0\<lparr>mw_db := others (mw_db w0)\<rparr>;
             unbound = (\<lambda>b. a_id b = a_id a \<and> a_message_id b = None)
         in if \<not> db_exists unbound (tb_attachments (mw_db w)) then (r, gone, w)
            else (case delete_object call (a_storage_key a) (mw_objects w) of
                    (Inl e, objects) \<Rightarrow>
                      (r\<lparr>sw_purge_failures := sw_purge_failures r + 1\<rparr>, gone, w\<lparr>mw_objects := objects\<rparr>)
                  | (Inr _, objects) \<Rightarrow>
                      (r\<lparr>sw_purged := sw_purged r + 1\<rparr>,
                       gone @ filter unbound (tb_attachments (mw_db w)),
                       \<lparr>mw_db = delete_attachments unbound (mw_db w), mw_objects = objects\<rparr>))))"

text \<open>Each row of the batch meets an outcome of its purge and what others did before it.\<close>

fun sweep_loop ::
  "(attachment \<times> redis_call \<times> (database \<Rightarrow> database)) list \<Rightarrow> sweep_result \<times> attachment list \<times> media_world \<Rightarrow>
   sweep_result \<times> attachment list \<times> media_world" where
  "sweep_loop [] acc = acc"
| "sweep_loop ((a, call, others) # rest) acc = sweep_loop rest (sweep_row call others a acc)"

text \<open>A failed commit rolls the deleted rows back.\<close>

definition sweep_orphaned_media ::
  "(nat \<Rightarrow> redis_call) \<Rightarrow> (nat \<Rightarrow> database \<Rightarrow> database) \<Rightarrow> bool \<Rightarrow> datetime \<Rightarrow> int \<Rightarrow> nat \<Rightarrow> media_world \<Rightarrow>
   sweep_result option \<times> media_world" where
  "sweep_orphaned_media calls others commit_ok now ttl batch_size w =
     (let cutoff = now - ttl;
          rows = take batch_size (filter (is_orphan cutoff) (tb_attachments (mw_db w)))
      in case sweep_loop (zip rows (map (\<lambda>i. (calls i, others i)) [0..<length rows]))
                (\<lparr>sw_scanned = length rows, sw_purged = 0, sw_purge_failures = 0\<rparr>, [], w) of
           (r, gone, w') \<Rightarrow>
             if commit_ok then (Some r, w')
             else (None, w'\<lparr>mw_db := (mw_db w')\<lparr>tb_attachments := tb_attachments (mw_db w') @ gone\<rparr>\<rparr>))"

text \<open>The job: exit code 0, or 1 if the pass raised.\<close>

definition media_orphan_sweep_main ::
  "(nat \<Rightarrow> redis_call) \<Rightarrow> (nat \<Rightarrow> database \<Rightarrow> database) \<Rightarrow> bool \<Rightarrow> datetime \<Rightarrow> media_world \<Rightarrow> int \<times> media_world" where
  "media_orphan_sweep_main calls others commit_ok now w =
     (case sweep_orphaned_media calls others commit_ok now DEFAULT_ORPHAN_TTL DEFAULT_BATCH_SIZE w of
        (r, w') \<Rightarrow> (if r = None then 1 else 0, w'))"

subsection \<open>Routes\<close>

text \<open>The parts as the form parser hands them over.\<close>

record media_form =
  mf_file :: "byte list option"
  mf_declared_content_type :: "pystr option"
  mf_kind :: "pystr option"
  mf_filename :: "pystr option"

definition missing_part :: "string \<Rightarrow> string" where
  "missing_part field = [CHR 0x27] @ field @ [CHR 0x27] @ '' part is required and must be present in the multipart body.''"

definition require_part :: "pystr option \<Rightarrow> string \<Rightarrow> string + pystr" where
  "require_part value field =
     (case value of None \<Rightarrow> Inl (missing_part field)
      | Some v \<Rightarrow> if py_strip v = [] then Inl (missing_part field) else Inr v)"

definition require_file :: "byte list option \<Rightarrow> string + byte list" where
  "require_file value = (case value of None \<Rightarrow> Inl (missing_part ''file'') | Some f \<Rightarrow> Inr f)"

record media_upload_response =
  mr_media_id :: uuid
  mr_kind :: string
  mr_content_type :: pystr
  mr_filename :: pystr
  mr_size :: int
  mr_created_at :: datetime

definition media_upload_response_of :: "attachment \<Rightarrow> media_upload_response" where
  "media_upload_response_of a =
     \<lparr>mr_media_id = a_id a, mr_kind = kind_value (a_kind a), mr_content_type = a_content_type a,
      mr_filename = a_filename a, mr_size = a_byte_size a, mr_created_at = a_created_at a\<rparr>"

text \<open>A response, a problem, or an exception that becomes a 500.\<close>

datatype 'b media_response =
    MediaResponse int 'b
  | MediaProblem int string
  | MediaUnhandled media_error

fun upload_problem :: "media_error \<Rightarrow> 'b media_response" where
  "upload_problem InvalidMediaKindError =
     MediaProblem 400 (''kind must be one of '' @ [CHR 0x27] @ ''image'' @ [CHR 0x27] @ '', '' @ [CHR 0x27] @
       ''file'' @ [CHR 0x27] @ '', '' @ [CHR 0x27] @ ''video'' @ [CHR 0x27] @ ''.'')"
| "upload_problem MediaUploadEmptyError = MediaProblem 400 ''uploaded file must not be empty.''"
| "upload_problem MediaSizeExceededError =
     MediaProblem 413 ''Upload exceeds the maximum size allowed for this media kind.''"
| "upload_problem MediaStorageError =
     MediaProblem 503 ''Media storage is temporarily unavailable; please retry shortly.''"
| "upload_problem (CommitError e) = MediaUnhandled (CommitError e)"
| "upload_problem ConnectionLost = MediaUnhandled ConnectionLost"
| "upload_problem e = MediaProblem 415
     (''This media'' @ [CHR 0x27] @ ''s declared type, actual content, or (for images) EXIF metadata could not be validated/stripped.'')"

definition upload_media_route ::
  "(pystr \<Rightarrow> pystr) \<Rightarrow> 'f imaging \<Rightarrow> upload_env \<Rightarrow> uuid \<Rightarrow> media_form \<Rightarrow> media_world \<Rightarrow>
   media_upload_response media_response \<times> media_world" where
  "upload_media_route lower lib e current form w =
     (case and_then (require_file (mf_file form)) (\<lambda>part.
           and_then (require_part (mf_declared_content_type form) ''declared_content_type'') (\<lambda>content_type.
           and_then (require_part (mf_kind form) ''kind'') (\<lambda>kind.
           and_then (require_part (mf_filename form) ''filename'') (\<lambda>filename.
             Inr \<lparr>up_uploader_id = current, up_file = part, up_declared_content_type = content_type,
                  up_kind = kind, up_filename = filename\<rparr>)))) of
        Inl detail \<Rightarrow> (MediaProblem 400 detail, w)
      | Inr parts \<Rightarrow>
          (case upload_media lower lib e parts w of
             (Inl err, w') \<Rightarrow> (upload_problem err, w')
           | (Inr attachment, w') \<Rightarrow> (MediaResponse 201 (media_upload_response_of attachment), w')))"

definition get_media_url_route ::
  "(presign_params \<Rightarrow> pystr) \<Rightarrow> datetime \<Rightarrow> uuid \<Rightarrow> uuid \<Rightarrow> database \<Rightarrow> media_url_result media_response" where
  "get_media_url_route sign now media_id current d =
     (case get_media_url sign now media_id current d of
        Inl MediaNotFoundError \<Rightarrow> MediaProblem 404 ''No such media.''
      | Inl NotAuthorizedForMediaError \<Rightarrow>
          MediaProblem 403 (''You must be a current member/participant of this media'' @ [CHR 0x27] @ ''s conversation to fetch it.'')
      | Inr result \<Rightarrow> MediaResponse 200 result)"

subsection \<open>What an upload leaves behind\<close>

lemma validated_uploadD:
  assumes "validated_upload lower lib p = Inr (kind, content_type, stored)"
  shows "content_type = lower (py_strip (up_declared_content_type p))" "parse_kind lower (up_kind p) = Inr kind"
    "int (length stored) \<le> size_cap kind"
    "kind = IMAGE \<Longrightarrow> strip_exif lib (up_file p) content_type = Inr stored"
    "kind \<noteq> IMAGE \<Longrightarrow> stored = up_file p"
    "validate_allowlist kind content_type = Inr ()"
    "validate_sniff_match kind content_type (sniff_content_type (up_file p)) = Inr ()"
proof -
  have cap: "0 \<le> size_cap k" for k by (cases k) auto
  have read: "fst (read_upload_within_limit f (size_cap k)) = Inr d \<longleftrightarrow> d = f \<and> int (length f) \<le> size_cap k" for f k d
    using read_loop_spec(1) [where total_before = 0 and max_bytes = "size_cap k" and part = f and chunks = "[]"] cap [of k]
    by (auto simp: read_upload_within_limit_def prod_eq_iff split: if_splits)
  from assms show "content_type = lower (py_strip (up_declared_content_type p))" "parse_kind lower (up_kind p) = Inr kind"
    "int (length stored) \<le> size_cap kind"
    "kind = IMAGE \<Longrightarrow> strip_exif lib (up_file p) content_type = Inr stored"
    "kind \<noteq> IMAGE \<Longrightarrow> stored = up_file p"
    "validate_allowlist kind content_type = Inr ()"
    "validate_sniff_match kind content_type (sniff_content_type (up_file p)) = Inr ()"
    by (auto simp: validated_upload_def Let_def read split: if_splits)
qed

lemma check_errors:
  "parse_kind lower raw = Inl x \<Longrightarrow> x = InvalidMediaKindError"
  "validate_allowlist kind ct = Inl x \<Longrightarrow> x = MediaTypeDisallowedError"
  "validate_sniff_match kind ct sniffed = Inl x \<Longrightarrow> x = MediaSniffMismatchError"
  "strip_exif lib data ct = Inl x \<Longrightarrow> x = MediaExifStripError"
  "fst (read_upload_within_limit f (size_cap kind)) = Inl x \<Longrightarrow> x = MediaSizeExceededError"
proof -
  show "parse_kind lower raw = Inl x \<Longrightarrow> x = InvalidMediaKindError"
    by (auto simp: parse_kind_def Let_def split: if_splits)
  show "validate_allowlist kind ct = Inl x \<Longrightarrow> x = MediaTypeDisallowedError"
    by (simp add: validate_allowlist_def split: if_splits)
  show "validate_sniff_match kind ct sniffed = Inl x \<Longrightarrow> x = MediaSniffMismatchError"
    by (cases kind; cases sniffed) (simp_all add: validate_sniff_match_def split: if_splits)
  show "strip_exif lib data ct = Inl x \<Longrightarrow> x = MediaExifStripError"
    by (simp add: strip_exif_def Let_def split: option.splits)
  have "0 \<le> size_cap kind" by (cases kind) auto
  then show "fst (read_upload_within_limit f (size_cap kind)) = Inl x \<Longrightarrow> x = MediaSizeExceededError"
    using read_loop_spec(1) [where total_before = 0 and max_bytes = "size_cap kind" and part = f and chunks = "[]"]
    by (auto simp: read_upload_within_limit_def prod_eq_iff split: if_splits)
qed

lemma validated_upload_errors:
  assumes "validated_upload lower lib p = Inl err"
  shows "err \<in> {InvalidMediaKindError, MediaSizeExceededError, MediaUploadEmptyError, MediaTypeDisallowedError,
    MediaSniffMismatchError, MediaExifStripError}"
  using assms
  by (auto simp: validated_upload_def Let_def and_then_eq_Inl split: if_splits dest: check_errors)

text \<open>
  C10. An upload is stored as promised or leaves no row: on a validation error neither the
  database nor the store changes, on any error (a failed commit was not executed) the database and
  every other object stay; on success one unbound row of the uploader is added whose size is that
  of the stored bytes, within the cap of its kind; images are stored re-encoded, images and videos
  only under an allowed type that their bytes show; a plain file is stored byte for byte as
  \<open>application/octet-stream\<close>, its declared type, lowered and stripped, is not literally one of the
  six on the deny list, and its first bytes are not a signature of the five image types that the
  sniffer knows.
\<close>

theorem upload_media_outcome:
  assumes "upload_media lower lib e p w = (r, w')"
  shows "case r of
      Inl err \<Rightarrow> mw_db w' = mw_db w
        \<and> (\<forall>k. k \<noteq> storage_key (ue_id e) \<longrightarrow> mw_objects w' k = mw_objects w k)
        \<and> ((\<exists>err'. validated_upload lower lib p = Inl err') \<longleftrightarrow> err \<notin> {MediaStorageError, ConnectionLost} \<union> range CommitError)
        \<and> (validated_upload lower lib p = Inl err \<longrightarrow> w' = w)
    | Inr a \<Rightarrow> tb_attachments (mw_db w') = tb_attachments (mw_db w) @ [a]
        \<and> a_message_id a = None \<and> a_uploader_id a = up_uploader_id p \<and> a_filename a = sanitize_filename (up_filename p)
        \<and> 0 < a_byte_size a \<and> a_byte_size a \<le> size_cap (a_kind a)
        \<and> (\<exists>body. mw_objects w' = (mw_objects w)(a_storage_key a \<mapsto> \<lparr>ob_body = body,
              ob_content_type = (if a_kind a = FILE then py ''application/octet-stream'' else a_content_type a)\<rparr>)
            \<and> int (length body) = a_byte_size a
            \<and> (if a_kind a = IMAGE then strip_exif lib (up_file p) (a_content_type a) = Inr body else body = up_file p))
        \<and> (a_kind a \<noteq> FILE \<longrightarrow> a_content_type a \<in> py ` set (allowed_content_types (a_kind a))
            \<and> map_option py (sniff_content_type (up_file p)) = Some (a_content_type a))
        \<and> (a_kind a = FILE \<longrightarrow> a_content_type a \<notin> py ` set file_kind_denylisted_content_types
            \<and> sniff_content_type (up_file p) \<notin> Some ` set sniffable_image_types)"
proof (cases "validated_upload lower lib p")
  case (Inl err)
  then show ?thesis using assms validated_upload_errors [OF Inl] by (auto simp: upload_media_def)
next
  case (Inr v)
  obtain kind ct body where v: "v = (kind, ct, body)" by (cases v)
  note vd = validated_uploadD [OF Inr [unfolded v]]
  let ?a = "\<lparr>a_id = ue_id e, a_message_id = None, a_uploader_id = up_uploader_id p, a_kind = kind,
      a_content_type = ct, a_storage_key = storage_key (ue_id e), a_filename = sanitize_filename (up_filename p),
      a_byte_size = int (length body), a_created_at = ue_now e\<rparr>"
  show ?thesis
  proof (cases "ue_put e = Answered \<and> ue_commit_ok e \<and> (\<exists>d. insert_attachment ?a (mw_db w) = Inr d)")
    case False
    then show ?thesis
      using assms Inr v
      by (cases "ue_put e"; cases "ue_purge e"; cases "ue_commit_ok e"; cases "insert_attachment ?a (mw_db w)")
        (auto simp: upload_media_def put_object_def delete_object_def redis_state_def Let_def check_def)
  next
    case True
    then obtain d where d: "insert_attachment ?a (mw_db w) = Inr d" by blast
    then have row: "tb_attachments d = tb_attachments (mw_db w) @ [?a]" "0 < length body"
      by (auto simp: insert_attachment_def split: if_splits)
    have rw: "r = Inr ?a" "w' = \<lparr>mw_db = d, mw_objects = (mw_objects w)(storage_key (ue_id e) \<mapsto>
        \<lparr>ob_body = body, ob_content_type = (if kind = FILE then file_kind_stored_content_type else ct)\<rparr>)\<rparr>"
      using assms Inr v True d
      by (auto simp: upload_media_def put_object_def redis_state_def Let_def check_def)
    show ?thesis
      unfolding rw using vd row
      by (cases kind)
        (auto simp: validate_allowlist_def validate_sniff_match_def file_kind_stored_content_type_def
          split: option.splits if_splits)
  qed
qed

subsection \<open>Who may fetch\<close>

text \<open>
  C37. A link is issued exactly for media bound to a message that is not deleted, to a caller
  who at that moment is a member of the message's channel or one of the two users of its direct
  conversation; it lasts five minutes, and for a plain file it forces a download under the stored
  name.  Everything else is refused, with the answer of a missing medium unless the medium is
  bound and its message is there.
\<close>

theorem media_fetch_is_authorized:
  assumes "get_attachment k d = Some a"
  shows "(case get_media_url sign now k u d of
      Inr r \<Rightarrow> mu_expires_at r = now + 300000000 \<and> mu_filename r = a_filename a \<and> mu_size r = a_byte_size a
        \<and> mu_url r = sign \<lparr>pp_key = a_storage_key a, pp_expires_in_seconds = 300,
            pp_response_content_type = (if a_kind a = FILE then Some (py ''application/octet-stream'') else None),
            pp_response_content_disposition =
              (if a_kind a = FILE then Some (attachment_content_disposition (a_filename a)) else None)\<rparr>
    | Inl err \<Rightarrow> (err = NotAuthorizedForMediaError) =
        (\<exists>i m. a_message_id a = Some i \<and> get_message i d = Some m \<and> m_deleted_at m = None))
    \<and> ((\<exists>r. get_media_url sign now k u d = Inr r) \<longleftrightarrow>
        (\<exists>i m. a_message_id a = Some i \<and> get_message i d = Some m \<and> m_deleted_at m = None \<and>
          (case m_channel_id m of Some c \<Rightarrow> get_membership c u d \<noteq> None
           | None \<Rightarrow> u = m_sender_id m \<or> m_recipient_id m = Some u)))"
  using assms
  by (auto simp: get_media_url_def caller_can_access_message_media_def generate_presigned_get_url_def
      PRESIGNED_URL_TTL_SECONDS_def file_kind_stored_content_type_def
      split: option.splits if_splits Option.bind_splits)

subsection \<open>What a sweep takes away\<close>

definition bound_in :: "database \<Rightarrow> uuid \<Rightarrow> bool" where
  "bound_in d i \<longleftrightarrow> (\<exists>b\<in>set (tb_attachments d). a_id b = i \<and> a_message_id b \<noteq> None)"

text \<open>While the pass runs, whatever else commits leaves a row the pass has locked unbound.\<close>

definition respects_locks :: "uuid list \<Rightarrow> (nat \<Rightarrow> database \<Rightarrow> database) \<Rightarrow> bool" where
  "respects_locks ids others \<longleftrightarrow>
     (\<forall>i j d. j < i \<longrightarrow> i < length ids \<longrightarrow> \<not> bound_in d (ids ! j) \<longrightarrow> \<not> bound_in (others i d) (ids ! j))"

text \<open>Objects change only at keys of rows already passed that are not bound.\<close>

definition purged_unbound :: "attachment list \<Rightarrow> object_store \<Rightarrow> attachment list \<times> media_world \<Rightarrow> bool" where
  "purged_unbound passed objects0 acc \<longleftrightarrow>
     (\<forall>k. mw_objects (snd acc) k \<noteq> objects0 k \<longrightarrow>
        (\<exists>a\<in>set passed. k = a_storage_key a \<and> \<not> bound_in (mw_db (snd acc)) (a_id a))) \<and>
     (\<forall>b\<in>set (fst acc). a_message_id b = None)"

lemma unbound_rows:
  "\<not> bound_in d i \<Longrightarrow> \<not> bound_in (delete_attachments (\<lambda>b. a_id b = j \<and> a_message_id b = None) d) i"
  by (auto simp: bound_in_def table_defs)

lemma sweep_row_purges:
  assumes "purged_unbound passed objects0 (gone, w)" "distinct (map a_id (tb_attachments (others (mw_db w))))"
    and "\<And>i. i \<in> a_id ` set passed \<Longrightarrow> \<not> bound_in (mw_db w) i \<Longrightarrow> \<not> bound_in (others (mw_db w)) i"
    and "sweep_row call others a (r, gone, w) = (r', gone', w')"
  shows "purged_unbound (passed @ [a]) objects0 (gone', w')"
proof (cases "db_exists (\<lambda>b. a_id b = a_id a \<and> a_message_id b = None) (tb_attachments (others (mw_db w)))")
  case False
  then have w': "gone' = gone" "mw_objects w' = mw_objects w" "mw_db w' = others (mw_db w)"
    using assms(4) by (auto simp: sweep_row_def Let_def)
  show ?thesis
    unfolding w' purged_unbound_def fst_conv snd_conv
  proof (intro conjI allI impI)
    fix k assume "mw_objects w k \<noteq> objects0 k"
    with assms(1) obtain b where b: "b \<in> set passed" "k = a_storage_key b" "\<not> bound_in (mw_db w) (a_id b)"
      unfolding purged_unbound_def by auto
    from b(1) have "\<not> bound_in (others (mw_db w)) (a_id b)" by (intro assms(3) b(3)) simp
    with b(1,2) show "\<exists>b\<in>set (passed @ [a]). k = a_storage_key b \<and> \<not> bound_in (others (mw_db w)) (a_id b)"
      by auto
  qed (use assms(1) in \<open>simp add: purged_unbound_def\<close>)
next
  case True
  then have free: "\<not> bound_in (others (mw_db w)) (a_id a)"
    using assms(2) unfolding bound_in_def db_exists_iff distinct_map inj_on_def by metis
  let ?d = "others (mw_db w)"
  have w': "mw_objects w' = redis_state call (mw_objects w) ((mw_objects w)(a_storage_key a := None))"
    "mw_db w' = (if call = Answered then delete_attachments (\<lambda>b. a_id b = a_id a \<and> a_message_id b = None) ?d else ?d)"
    "set gone' \<subseteq> set gone \<union> {b. a_message_id b = None}"
    using assms(4) True
    by (simp_all add: sweep_row_def Let_def delete_object_def check_def redis_state_def split: if_splits) auto
  have keep: "\<not> bound_in (mw_db w') i" if "\<not> bound_in ?d i" for i
    using unbound_rows [OF that] that by (simp add: w'(2))
  have changed: "\<exists>b\<in>set (passed @ [a]). k = a_storage_key b \<and> \<not> bound_in (mw_db w') (a_id b)"
    if "mw_objects w' k \<noteq> objects0 k" for k
  proof (cases "mw_objects w k = objects0 k")
    case same: True
    with that have "k = a_storage_key a" by (auto simp: w'(1) redis_state_def split: if_splits)
    with keep [OF free] show ?thesis by auto
  next
    case False
    with assms(1) obtain b where b: "b \<in> set passed" "k = a_storage_key b" "\<not> bound_in (mw_db w) (a_id b)"
      unfolding purged_unbound_def by auto
    from b(1) have "\<not> bound_in ?d (a_id b)" by (intro assms(3) b(3)) simp
    with b(1,2) keep show ?thesis by auto
  qed
  have "\<forall>b\<in>set gone'. a_message_id b = None" using w'(3) assms(1) by (auto simp: purged_unbound_def)
  with changed show ?thesis by (simp add: purged_unbound_def)
qed

lemma sweep_loop_purges:
  assumes "sweep_loop (zip rows (map (\<lambda>i. (calls i, others i)) [n..<n + length rows])) (r, gone, w) = (r', gone', w')"
    and "purged_unbound passed objects0 (gone, w)" "length passed = n"
    and "respects_locks (map a_id (passed @ rows)) others"
    and "\<forall>i d. distinct (map a_id (tb_attachments d)) \<longrightarrow> distinct (map a_id (tb_attachments (others i d)))"
    and "distinct (map a_id (tb_attachments (mw_db w)))"
  shows "purged_unbound (passed @ rows) objects0 (gone', w') \<and> distinct (map a_id (tb_attachments (mw_db w')))"
  using assms
proof (induction rows arbitrary: r gone w passed n)
  case Nil
  then show ?case by simp
next
  case (Cons a rows)
  obtain r1 gone1 w1 where row: "sweep_row (calls n) (others n) a (r, gone, w) = (r1, gone1, w1)"
    by (rule prod_cases3)
  have "[n..<n + length (a # rows)] = n # [Suc n..<Suc n + length rows]" by (simp add: upt_rec)
  then have loop: "sweep_loop (zip rows (map (\<lambda>i. (calls i, others i)) [Suc n..<Suc n + length rows])) (r1, gone1, w1) = (r', gone', w')"
    using Cons.prems(1) row by simp
  have dist: "distinct (map a_id (tb_attachments (others n (mw_db w))))" using Cons.prems(5,6) by simp
  have locked: "\<not> bound_in (others n (mw_db w)) i" if i: "i \<in> a_id ` set passed" "\<not> bound_in (mw_db w) i" for i
  proof -
    from i(1) obtain j where j: "j < length passed" "a_id (passed ! j) = i" by (auto simp: in_set_conv_nth)
    then have "map a_id (passed @ a # rows) ! j = i" by (simp add: nth_append)
    with Cons.prems(4) i(2) j(1) Cons.prems(3) show ?thesis
      unfolding respects_locks_def by (metis length_append length_map trans_less_add1 list.size(4) add_Suc_right less_add_Suc1)
  qed
  have p: "purged_unbound (passed @ [a]) objects0 (gone1, w1)"
    by (rule sweep_row_purges [OF Cons.prems(2) dist locked row])
  have d1: "distinct (map a_id (tb_attachments (mw_db w1)))"
    using dist row by (auto simp: sweep_row_def Let_def delete_object_def check_def table_defs split: if_splits)
  show ?case
    using Cons.IH [OF loop p _ _ Cons.prems(5) d1] Cons.prems(3,4) by simp
qed

text \<open>
  C23. A sweep never takes the bytes of media in use: whatever the store answers, whether or not
  the final commit succeeds and whatever else commits meanwhile, as long as it leaves the rows
  the pass has locked, every object that the pass removed belongs to a row of its batch that no
  message has bound, however late a message binds its media.
\<close>

theorem sweep_spares_bound_media:
  assumes "sweep_orphaned_media calls others commit_ok now ttl batch w = (r, w')"
    and "distinct (map a_id (tb_attachments (mw_db w)))"
    and "\<forall>i d. distinct (map a_id (tb_attachments d)) \<longrightarrow> distinct (map a_id (tb_attachments (others i d)))"
    and "respects_locks (map a_id (take batch (filter (is_orphan (now - ttl)) (tb_attachments (mw_db w))))) others"
    and "mw_objects w' k \<noteq> mw_objects w k"
  shows "\<exists>a\<in>set (tb_attachments (mw_db w)). k = a_storage_key a \<and> a_message_id a = None \<and> a_created_at a < now - ttl
    \<and> \<not> bound_in (mw_db w') (a_id a)"
proof -
  let ?rows = "take batch (filter (is_orphan (now - ttl)) (tb_attachments (mw_db w)))"
  obtain r1 gone w1 where loop: "sweep_loop (zip ?rows (map (\<lambda>i. (calls i, others i)) [0..<length ?rows]))
      (\<lparr>sw_scanned = length ?rows, sw_purged = 0, sw_purge_failures = 0\<rparr>, [], w) = (r1, gone, w1)"
    by (rule prod_cases3)
  have purged: "purged_unbound ([] @ ?rows) (mw_objects w) (gone, w1)"
    using sweep_loop_purges [where n = 0 and passed = "[]" and ?objects0.0 = "mw_objects w", simplified, OF loop _ assms(4,3,2)]
    by (simp add: purged_unbound_def)
  have "w' = w1 \<or> w' = w1\<lparr>mw_db := (mw_db w1)\<lparr>tb_attachments := tb_attachments (mw_db w1) @ gone\<rparr>\<rparr>"
    using assms(1) loop by (auto simp: sweep_orphaned_media_def Let_def split: if_splits)
  note w'_cases = this
  have unbound: "\<forall>b\<in>set gone. a_message_id b = None" using purged by (simp add: purged_unbound_def)
  have objects: "mw_objects w' = mw_objects w1" using w'_cases by auto
  have bound: "bound_in (mw_db w1) i" if "bound_in (mw_db w') i" for i
    using w'_cases that unbound by (elim disjE) (auto simp: bound_in_def)
  obtain a where a: "a \<in> set ?rows" "k = a_storage_key a" "\<not> bound_in (mw_db w') (a_id a)"
    using purged assms(5) bound unfolding purged_unbound_def objects append_Nil fst_conv snd_conv by blast
  from a(1) have "a \<in> set (tb_attachments (mw_db w))" "is_orphan (now - ttl) a"
    by (auto dest: in_set_takeD)
  with a(2,3) show ?thesis by (auto simp: is_orphan_def)
qed

subsection \<open>A sweep without disturbance\<close>

lemma sweep_loop_clears:
  assumes "distinct (map a_id rows)" "set rows \<subseteq> set (tb_attachments (mw_db w))" "\<forall>a\<in>set rows. a_message_id a = None"
    and "distinct (map a_id (tb_attachments (mw_db w)))"
  shows "\<exists>gone. sweep_loop (zip rows (map (\<lambda>i. (Answered, id)) ns)) (r, gone0, w) =
      (r\<lparr>sw_purged := sw_purged r + length (zip rows ns)\<rparr>, gone,
       \<lparr>mw_db = (mw_db w)\<lparr>tb_attachments := filter (\<lambda>b. b \<notin> set (take (length ns) rows)) (tb_attachments (mw_db w))\<rparr>,
        mw_objects = (\<lambda>k. if k \<in> a_storage_key ` set (take (length ns) rows) then None else mw_objects w k)\<rparr>)"
  using assms
proof (induction rows arbitrary: ns r gone0 w)
  case Nil
  then show ?case by (cases r) simp
next
  case (Cons a rows)
  note prems = Cons.prems and IH = Cons.IH
  show ?case
  proof (cases ns)
    case nil: Nil
    then show ?thesis by (cases r) simp
  next
    case ns: (Cons n ns')
    have only: "b = a" if "b \<in> set (tb_attachments (mw_db w))" "a_id b = a_id a" for b
      using prems(2,4) that by (auto simp: distinct_map inj_on_def)
    have a: "a \<in> set (tb_attachments (mw_db w))" "a_message_id a = None" using prems(2,3) by auto
    have removed: "db_delete (\<lambda>b. a_id b = a_id a \<and> a_message_id b = None) (tb_attachments (mw_db w)) =
        filter (\<lambda>b. b \<noteq> a) (tb_attachments (mw_db w))"
      using only a(2) by (auto simp: db_delete_def intro: filter_cong)
    let ?w = "\<lparr>mw_db = (mw_db w)\<lparr>tb_attachments := filter (\<lambda>b. b \<noteq> a) (tb_attachments (mw_db w))\<rparr>,
        mw_objects = (mw_objects w)(a_storage_key a := None)\<rparr>"
    let ?r = "r\<lparr>sw_purged := sw_purged r + 1\<rparr>"
    have ex: "db_exists (\<lambda>b. a_id b = a_id a \<and> a_message_id b = None) (tb_attachments (mw_db w))"
      using a by auto
    define gone1 where "gone1 = gone0 @ filter (\<lambda>b. a_id b = a_id a \<and> a_message_id b = None) (tb_attachments (mw_db w))"
    have row: "sweep_row Answered id a (r, gone0, w) = (?r, gone1, ?w)"
      using ex
      by (simp add: sweep_row_def Let_def delete_object_def redis_state_def table_defs removed gone1_def del: db_exists_iff)
    have sub: "set rows \<subseteq> set (tb_attachments (mw_db ?w))" using prems(1,2) by auto
    have dist: "distinct (map a_id (tb_attachments (mw_db ?w)))" using prems(4) by (simp add: distinct_map_filter)
    have "distinct (map a_id rows)" "\<forall>a\<in>set rows. a_message_id a = None" using prems(1,3) by auto
    note ih = IH [OF this(1) sub this(2) dist, of ns' ?r gone1]
    have step: "sweep_loop (zip (a # rows) (map (\<lambda>i. (Answered, id)) (n # ns'))) (r, gone0, w) =
        sweep_loop (zip rows (map (\<lambda>i. (Answered, id)) ns')) (?r, gone1, ?w)"
      by (simp only: list.map zip_Cons_Cons sweep_loop.simps row)
    have counts: "?r\<lparr>sw_purged := sw_purged ?r + length (zip rows ns')\<rparr> =
        r\<lparr>sw_purged := sw_purged r + length (zip (a # rows) (n # ns'))\<rparr>" by simp
    have rows: "filter (\<lambda>b. b \<notin> set (take (length ns') rows)) (tb_attachments (mw_db ?w)) =
        filter (\<lambda>b. b \<notin> set (take (length (n # ns')) (a # rows))) (tb_attachments (mw_db w))"
      by (auto intro!: filter_cong)
    have objects: "(\<lambda>k. if k \<in> a_storage_key ` set (take (length ns') rows) then None else mw_objects ?w k) =
        (\<lambda>k. if k \<in> a_storage_key ` set (take (length (n # ns')) (a # rows)) then None else mw_objects w k)"
      by (auto simp: fun_eq_iff)
    have db: "(mw_db ?w)\<lparr>tb_attachments := xs\<rparr> = (mw_db w)\<lparr>tb_attachments := xs\<rparr>" for xs by simp
    show ?thesis unfolding ns step using ih unfolding counts rows objects db .
  qed
qed

text \<open>
  A pass with an answering store, a batch that holds every orphan and nothing else going on
  leaves no orphan: exactly the unbound rows older than the limit are deleted with their objects,
  every other row and object stays, and the counts say so.
\<close>

theorem sweep_clears_orphans:
  assumes "distinct (map a_id (tb_attachments (mw_db w)))"
    and "length (filter (is_orphan (now - ttl)) (tb_attachments (mw_db w))) \<le> batch"
  shows "sweep_orphaned_media (\<lambda>i. Answered) (\<lambda>i. id) True now ttl batch w =
    (let orphans = filter (is_orphan (now - ttl)) (tb_attachments (mw_db w)) in
     (Some \<lparr>sw_scanned = length orphans, sw_purged = length orphans, sw_purge_failures = 0\<rparr>,
      \<lparr>mw_db = (mw_db w)\<lparr>tb_attachments := filter (\<lambda>a. \<not> is_orphan (now - ttl) a) (tb_attachments (mw_db w))\<rparr>,
       mw_objects = (\<lambda>k. if k \<in> a_storage_key ` set orphans then None else mw_objects w k)\<rparr>))"
proof -
  let ?orphans = "filter (is_orphan (now - ttl)) (tb_attachments (mw_db w))"
  have take: "take batch ?orphans = ?orphans" using assms(2) by simp
  have "distinct (map a_id ?orphans)" using assms(1) by (simp add: distinct_map_filter)
  moreover have "set ?orphans \<subseteq> set (tb_attachments (mw_db w))" by auto
  moreover have "\<forall>a\<in>set ?orphans. a_message_id a = None" by (auto simp: is_orphan_def)
  ultimately obtain gone where loop: "sweep_loop (zip ?orphans (map (\<lambda>i. (Answered, id)) [0..<length ?orphans]))
      (\<lparr>sw_scanned = length ?orphans, sw_purged = 0, sw_purge_failures = 0\<rparr>, [], w) =
      (\<lparr>sw_scanned = length ?orphans, sw_purged = 0, sw_purge_failures = 0\<rparr>\<lparr>sw_purged := length ?orphans\<rparr>, gone,
       \<lparr>mw_db = (mw_db w)\<lparr>tb_attachments := filter (\<lambda>b. b \<notin> set ?orphans) (tb_attachments (mw_db w))\<rparr>,
        mw_objects = (\<lambda>k. if k \<in> a_storage_key ` set ?orphans then None else mw_objects w k)\<rparr>)"
    using sweep_loop_clears [of ?orphans w "[0..<length ?orphans]"
        "\<lparr>sw_scanned = length ?orphans, sw_purged = 0, sw_purge_failures = 0\<rparr>" "[]"] assms(1)
    by auto
  have rest: "filter (\<lambda>b. b \<notin> set ?orphans) (tb_attachments (mw_db w)) =
      filter (\<lambda>a. \<not> is_orphan (now - ttl) a) (tb_attachments (mw_db w))"
    by (intro filter_cong) auto
  show ?thesis
    unfolding sweep_orphaned_media_def Let_def take loop prod.case if_P [OF TrueI] rest by simp
qed

subsection \<open>Runs\<close>

text \<open>A document, a note of user 1 bound to message 20, and an orphan of user 2.\<close>

definition demo_attachment :: "uuid \<Rightarrow> uuid \<Rightarrow> uuid option \<Rightarrow> attachment" where
  "demo_attachment k u m = \<lparr>a_id = k, a_message_id = m, a_uploader_id = u, a_kind = FILE,
     a_content_type = py ''application/pdf'', a_storage_key = storage_key k, a_filename = py ''a.pdf'',
     a_byte_size = 2, a_created_at = 9\<rparr>"

definition demo_media :: media_world where
  "demo_media = \<lparr>mw_db = demo_db\<lparr>tb_messages := [demo_message, demo_dm],
       tb_attachments := [demo_attachment 50 1 (Some 20), demo_attachment 51 2 None]\<rparr>,
     mw_objects = (\<lambda>k. Some \<lparr>ob_body = [1, 2], ob_content_type = py ''application/pdf''\<rparr>)\<rparr>"

definition demo_parts :: upload_parts where
  "demo_parts = \<lparr>up_uploader_id = 1, up_file = bytes ''%PDF-1.4 some text'', up_declared_content_type = py '' Application/PDF'',
     up_kind = py ''File'', up_filename = py ''../up.pdf''\<rparr>"

definition no_imaging :: "unit imaging" where
  "no_imaging = \<lparr>im_open = (\<lambda>_. None), im_exif_transpose = Some, im_mode = (\<lambda>_. ''RGB''), im_convert_rgb = Some,
     im_save = (\<lambda>_ _ _. None)\<rparr>"

definition demo_env :: upload_env where
  "demo_env = \<lparr>ue_id = 60, ue_now = 77, ue_put = Answered, ue_commit_ok = True, ue_purge = Answered\<rparr>"

lemma demo_validated: "validated_upload ascii_lower no_imaging demo_parts =
    Inr (FILE, py ''application/pdf'', bytes ''%PDF-1.4 some text'')"
proof -
  have "fst (read_upload_within_limit (bytes ''%PDF-1.4 some text'') 52428800) = Inr (bytes ''%PDF-1.4 some text'')"
    using read_loop_spec(1) [of 0 52428800 "bytes ''%PDF-1.4 some text''" "[]"] by (simp add: read_upload_within_limit_def)
  moreover have "sniff_content_type (bytes ''%PDF-1.4 some text'') = None"
    by (simp add: sniff_content_type_def startswith_def slice_def looks_like_svg_def Let_def byte_lower_def)
  ultimately show ?thesis
    by (simp add: validated_upload_def demo_parts_def parse_kind_def ascii_lower_def py_strip_def strip_by_def
        py_isspace_def Let_def validate_allowlist_def file_kind_denylisted_content_types_def validate_sniff_match_def)
qed

lemma upload_media_outcome_witness:
  "\<exists>a w'. upload_media ascii_lower no_imaging demo_env demo_parts demo_media = (Inr a, w') \<and>
     tb_attachments (mw_db w') = [demo_attachment 50 1 (Some 20), demo_attachment 51 2 None, a] \<and>
     a_message_id a = None \<and> a_kind a = FILE"
proof -
  obtain r w' where u: "upload_media ascii_lower no_imaging demo_env demo_parts demo_media = (r, w')" by (rule prod.exhaust)
  have uploader: "up_uploader_id demo_parts = 1" by (simp add: demo_parts_def)
  from u obtain a where a: "r = Inr a" "a_kind a = FILE"
    by (auto simp: upload_media_def demo_validated demo_env_def put_object_def redis_state_def Let_def insert_attachment_def
        demo_media_def demo_defs uploader demo_attachment_def)
  with upload_media_outcome [OF u] have "tb_attachments (mw_db w') = tb_attachments (mw_db demo_media) @ [a]" "a_message_id a = None"
    by auto
  with u a show ?thesis by (auto simp: demo_media_def)
qed

lemma media_fetch_is_authorized_witness:
  "(\<exists>r. get_media_url (\<lambda>_. []) 5 50 2 (mw_db demo_media) = Inr r) \<and>
   \<not> (\<exists>r. get_media_url (\<lambda>_. []) 5 50 4 (mw_db demo_media) = Inr r)"
proof -
  have a: "get_attachment 50 (mw_db demo_media) = Some (demo_attachment 50 1 (Some 20))"
    by (simp add: get_attachment_def db_get_def demo_media_def demo_attachment_def)
  have m: "get_message 20 (mw_db demo_media) = Some demo_message" "get_membership 10 u (mw_db demo_media) = get_membership 10 u demo_db" for u
    by (simp_all add: get_message_def db_get_def demo_media_def demo_message_defs get_membership_def get_member_def)
  show ?thesis
    using media_fetch_is_authorized [OF a, where sign = "\<lambda>_. []" and now = 5 and u = 2] media_fetch_is_authorized [OF a, where sign = "\<lambda>_. []" and now = 5 and u = 4]
    by (simp add: demo_attachment_def m(1)) (simp add: demo_message_defs m(2) demo_get_membership)
qed

lemma sweep_clears_orphans_witness:
  "\<exists>w'. sweep_orphaned_media (\<lambda>i. Answered) (\<lambda>i. id) True 100 10 500 demo_media =
     (Some \<lparr>sw_scanned = 1, sw_purged = 1, sw_purge_failures = 0\<rparr>, w') \<and>
     tb_attachments (mw_db w') = [demo_attachment 50 1 (Some 20)] \<and> mw_objects w' (storage_key 51) = None"
proof -
  have rows: "filter (is_orphan 90) (tb_attachments (mw_db demo_media)) = [demo_attachment 51 2 None]"
    by (simp add: demo_media_def demo_attachment_def is_orphan_def)
  have "distinct (map a_id (tb_attachments (mw_db demo_media)))" by (simp add: demo_media_def demo_attachment_def)
  from sweep_clears_orphans [OF this, of 100 10 500] show ?thesis
    by (simp add: rows Let_def) (simp add: demo_media_def demo_attachment_def is_orphan_def)
qed

text \<open>Message 21 binds the orphan just before the pass reaches it: nothing is purged.\<close>

lemma sweep_spares_bound_media_witness:
  "\<exists>a\<in>set (tb_attachments (mw_db demo_media)). storage_key 51 = a_storage_key a \<and> a_message_id a = None \<and>
     a_created_at a < 90 \<and>
     \<not> bound_in (mw_db (snd (sweep_orphaned_media (\<lambda>i. Answered) (\<lambda>i. id) True 100 10 500 demo_media))) (a_id a)"
proof -
  obtain r w' where s: "sweep_orphaned_media (\<lambda>i. Answered) (\<lambda>i. id) True 100 10 500 demo_media = (r, w')" by (rule prod.exhaust)
  have d: "distinct (map a_id (tb_attachments (mw_db demo_media)))" by (simp add: demo_media_def demo_attachment_def)
  have "mw_objects w' (storage_key 51) \<noteq> mw_objects demo_media (storage_key 51)"
    using s
    by (auto simp: sweep_orphaned_media_def sweep_row_def Let_def delete_object_def redis_state_def demo_media_def
        demo_attachment_def is_orphan_def check_def)
  then show ?thesis
    using sweep_spares_bound_media [OF s d, of "storage_key 51"] s by (simp add: respects_locks_def)
qed

text \<open>When the store deletes but its answer is lost, or the final commit fails, the row stays and
  can still be bound: the message then shows media whose bytes are gone.\<close>

definition swept_badly :: media_world where
  "swept_badly = snd (sweep_orphaned_media (\<lambda>i. Reply_Lost) (\<lambda>i. id) True 100 10 500 demo_media)"

theorem purged_media_can_be_bound:
  "\<exists>media d. bind_media_atomically 21 [51] 2 (mw_db swept_badly) = Inr (media, d) \<and>
     map a_id media = [51] \<and> mw_objects swept_badly (storage_key 51) = None"
  by (simp add: swept_badly_def sweep_orphaned_media_def sweep_row_def Let_def delete_object_def redis_state_def
      demo_media_def demo_attachment_def is_orphan_def check_def bind_media_atomically_def bindable_def
      table_defs db_update_def get_message_media_def)

end
