(* ===== verification/Presence.thy ===== *)
theory Presence
  imports Values
begin

text \<open>
  Presence (\<^verbatim>\<open>services/presence.py\<close>): one Redis counter per user, incremented by a
  connection that registers, decremented by one that closes, renewed by heartbeats.  The
  handlers are functions of the counters and the database; every call to Redis may fail in
  the ways of \<open>redis_call\<close>.  The step relation adds what the handlers cannot see: the
  sockets really open, the death of an instance, the expiry of a counter and a restart of Redis.
\<close>

subsection \<open>Scripts\<close>

type_synonym counters = "string \<Rightarrow> int option"

definition increment_and_expire :: "string \<Rightarrow> counters \<Rightarrow> int \<times> counters" where
  "increment_and_expire key cs =
     (let n = (case cs key of None \<Rightarrow> 0 | Some v \<Rightarrow> v) + 1 in (n, cs(key \<mapsto> n)))"

definition heartbeat_renew :: "string \<Rightarrow> counters \<Rightarrow> int \<times> counters" where
  "heartbeat_renew key cs =
     (case cs key of
        None \<Rightarrow> (0, snd (increment_and_expire key cs))
      | Some v \<Rightarrow> (1, cs))"

definition decrement_and_floor :: "string \<Rightarrow> counters \<Rightarrow> int \<times> counters" where
  "decrement_and_floor key cs =
     (case cs key of
        None \<Rightarrow> (0, cs)
      | Some raw \<Rightarrow>
          (let n = raw - 1 in
           if n \<le> 0 then (0, cs(key := None)) else (n, cs(key \<mapsto> n))))"

subsection \<open>Handlers\<close>

definition build_presence_event :: "uuid \<Rightarrow> string \<Rightarrow> datetime option \<Rightarrow> json" where
  "build_presence_event user_id state last_seen =
     JObj [(''type'', JStr (py ''presence'')), (''conversation'', JNull),
           (''data'', JObj [(''user_id'', juuid user_id), (''state'', JStr (py state)),
                          (''last_seen'', jopt (\<lambda>t. JStr (isoformat t)) last_seen)])]"

definition publish_presence :: "bool \<Rightarrow> json \<Rightarrow> uuid \<Rightarrow> publication list" where
  "publish_presence publish_ok event user_id =
     redis_fail_open publish_ok [(presence_topic user_id, event)] []"

definition is_online :: "redis_call \<Rightarrow> counters \<Rightarrow> uuid \<Rightarrow> bool" where
  "is_online call cs user_id =
     redis_fail_open (call = Answered)
       (case cs (presence_connection_count_key user_id) of None \<Rightarrow> False | Some raw \<Rightarrow> 0 < raw) False"

definition handle_connect ::
  "redis_call \<Rightarrow> bool \<Rightarrow> uuid \<Rightarrow> counters \<Rightarrow> publication list \<times> counters" where
  "handle_connect call publish_ok user_id cs =
     (case increment_and_expire (presence_connection_count_key user_id) cs of (n, cs') \<Rightarrow>
        (if redis_fail_open (call = Answered) n 0 = 1
         then publish_presence publish_ok (build_presence_event user_id ''online'' None) user_id
         else [],
         redis_state call cs cs'))"

definition handle_heartbeat :: "redis_call \<Rightarrow> uuid \<Rightarrow> counters \<Rightarrow> counters" where
  "handle_heartbeat call user_id cs =
     redis_state call cs (snd (heartbeat_renew (presence_connection_count_key user_id) cs))"

definition set_last_seen :: "datetime \<Rightarrow> uuid \<Rightarrow> database \<Rightarrow> database" where
  "set_last_seen now user_id = update_users (\<lambda>u. u_id u = user_id) (\<lambda>u. u\<lparr>u_last_seen := Some now\<rparr>)"

definition handle_disconnect ::
  "redis_call \<Rightarrow> bool \<Rightarrow> datetime \<Rightarrow> uuid \<Rightarrow> counters \<Rightarrow> database \<Rightarrow>
   publication list \<times> counters \<times> database" where
  "handle_disconnect call publish_ok now user_id cs d =
     (case decrement_and_floor (presence_connection_count_key user_id) cs of (n, cs') \<Rightarrow>
        if 0 < redis_fail_open (call = Answered) n 0
        then ([], redis_state call cs cs', d)
        else (publish_presence publish_ok (build_presence_event user_id ''offline'' (Some now)) user_id,
              redis_state call cs cs', set_last_seen now user_id d))"

subsection \<open>Connections and the environment\<close>

record presence =
  ps_counts :: counters
  ps_db :: database
  ps_published :: "publication list"
  ps_live :: "uuid \<Rightarrow> nat"

datatype presence_event =
    Connect uuid redis_call bool
  | Heartbeat uuid redis_call
  | Disconnect uuid redis_call bool datetime
  | Instance_Dies "uuid \<Rightarrow> nat"
  | Key_Expires uuid
  | Redis_Restarts

inductive presence_step :: "presence_event \<Rightarrow> presence \<Rightarrow> presence \<Rightarrow> bool" where
  connects:
    "handle_connect call ok u (ps_counts s) = (pubs, cs) \<Longrightarrow>
     presence_step (Connect u call ok) s
       (s\<lparr>ps_counts := cs, ps_published := ps_published s @ pubs,
          ps_live := (ps_live s)(u := ps_live s u + 1)\<rparr>)"
| beats:
    "0 < ps_live s u \<Longrightarrow>
     presence_step (Heartbeat u call) s (s\<lparr>ps_counts := handle_heartbeat call u (ps_counts s)\<rparr>)"
| disconnects:
    "0 < ps_live s u \<Longrightarrow> handle_disconnect call ok now u (ps_counts s) (ps_db s) = (pubs, cs, d) \<Longrightarrow>
     presence_step (Disconnect u call ok now) s
       (s\<lparr>ps_counts := cs, ps_db := d, ps_published := ps_published s @ pubs,
          ps_live := (ps_live s)(u := ps_live s u - 1)\<rparr>)"
| dies:
    "\<forall>u. lost u \<le> ps_live s u \<Longrightarrow>
     presence_step (Instance_Dies lost) s (s\<lparr>ps_live := \<lambda>u. ps_live s u - lost u\<rparr>)"
| expires:
    "presence_step (Key_Expires u) s
       (s\<lparr>ps_counts := (ps_counts s)(presence_connection_count_key u := None)\<rparr>)"
| restarts: "presence_step Redis_Restarts s (s\<lparr>ps_counts := Map.empty\<rparr>)"

inductive_cases presence_stepE: "presence_step e s s'"

inductive presence_run :: "presence_event list \<Rightarrow> presence \<Rightarrow> presence \<Rightarrow> bool" where
  presence_done: "presence_run [] s s"
| presence_more: "presence_step e s s' \<Longrightarrow> presence_run es s' s'' \<Longrightarrow> presence_run (e # es) s s''"

inductive_cases presence_run_NilE: "presence_run [] s s'"
inductive_cases presence_run_ConsE: "presence_run (e # es) s s'"

definition presence_init :: "database \<Rightarrow> presence" where
  "presence_init d = \<lparr>ps_counts = Map.empty, ps_db = d, ps_published = [], ps_live = \<lambda>u. 0\<rparr>"

lemma presence_key_inj [simp]:
  "presence_connection_count_key a = presence_connection_count_key b \<longleftrightarrow> a = b"
  by (simp add: presence_connection_count_key_def)

definition connection_count :: "presence \<Rightarrow> uuid \<Rightarrow> int" where
  "connection_count s u = (case ps_counts s (presence_connection_count_key u) of None \<Rightarrow> 0 | Some n \<Rightarrow> n)"

lemma is_online_count: "is_online Answered (ps_counts s) u \<longleftrightarrow> 0 < connection_count s u"
  by (simp add: is_online_def redis_fail_open_def connection_count_def split: option.split)

subsection \<open>Counting\<close>

definition counts_positive :: "presence \<Rightarrow> bool" where
  "counts_positive s \<longleftrightarrow> (\<forall>u n. ps_counts s (presence_connection_count_key u) = Some n \<longrightarrow> 1 \<le> n)"

text \<open>The effect of the three scripts on the counters, as counts.\<close>

lemmas script_defs = increment_and_expire_def heartbeat_renew_def decrement_and_floor_def

lemmas handler_defs = handle_connect_def handle_heartbeat_def handle_disconnect_def redis_state_def
  redis_fail_open_def script_defs

lemma presence_step_count:
  assumes "presence_step e s s'" "counts_positive s"
  shows "counts_positive s'" and "connection_count s' u =
    (case e of
       Connect v call ok \<Rightarrow> connection_count s u + (if v = u \<and> call \<noteq> Unreached then 1 else 0)
     | Heartbeat v call \<Rightarrow>
         if v = u \<and> call \<noteq> Unreached then max 1 (connection_count s u) else connection_count s u
     | Disconnect v call ok now \<Rightarrow>
         if v = u \<and> call \<noteq> Unreached then max 0 (connection_count s u - 1) else connection_count s u
     | Instance_Dies lost \<Rightarrow> connection_count s u
     | Key_Expires v \<Rightarrow> if v = u then 0 else connection_count s u
     | Redis_Restarts \<Rightarrow> 0)"
proof -
  show "counts_positive s'"
    using assms
    by (cases rule: presence_stepE)
       (fastforce simp: counts_positive_def handler_defs Let_def split: option.splits if_splits)+
  have pos: "ps_counts s (presence_connection_count_key u) = Some n \<Longrightarrow> 1 \<le> n" for n
    using assms(2) by (simp add: counts_positive_def)
  show "connection_count s' u = (case e of
       Connect v call ok \<Rightarrow> connection_count s u + (if v = u \<and> call \<noteq> Unreached then 1 else 0)
     | Heartbeat v call \<Rightarrow>
         if v = u \<and> call \<noteq> Unreached then max 1 (connection_count s u) else connection_count s u
     | Disconnect v call ok now \<Rightarrow>
         if v = u \<and> call \<noteq> Unreached then max 0 (connection_count s u - 1) else connection_count s u
     | Instance_Dies lost \<Rightarrow> connection_count s u
     | Key_Expires v \<Rightarrow> if v = u then 0 else connection_count s u
     | Redis_Restarts \<Rightarrow> 0)"
    using assms(1)
    by (cases rule: presence_stepE)
       (auto simp: connection_count_def handler_defs Let_def max_def dest: pos split: option.splits if_splits)
qed

lemma presence_step_live:
  "presence_step e s s' \<Longrightarrow> ps_live s' u =
    (case e of
       Connect v call ok \<Rightarrow> ps_live s u + (if v = u then 1 else 0)
     | Disconnect v call ok now \<Rightarrow> ps_live s u - (if v = u then 1 else 0)
     | Instance_Dies lost \<Rightarrow> ps_live s u - lost u
     | _ \<Rightarrow> ps_live s u)"
  by (cases rule: presence_step.cases) auto

lemma presence_step_guard:
  "presence_step (Heartbeat u call) s s' \<Longrightarrow> 0 < ps_live s u"
  "presence_step (Disconnect u call ok now) s s' \<Longrightarrow> 0 < ps_live s u"
  by (auto elim: presence_stepE)

subsection \<open>Never falsely online\<close>

text \<open>Events that leave every closed socket counted down: no decrement is lost on the way to
  Redis and no instance dies.\<close>

definition counted_down :: "presence_event \<Rightarrow> bool" where
  "counted_down e \<longleftrightarrow>
     (case e of
        Disconnect u call ok now \<Rightarrow> call \<noteq> Unreached
      | Instance_Dies lost \<Rightarrow> False
      | _ \<Rightarrow> True)"

definition under_counted :: "presence \<Rightarrow> bool" where
  "under_counted s \<longleftrightarrow> counts_positive s \<and> (\<forall>u. connection_count s u \<le> int (ps_live s u))"

lemma under_counted_step:
  assumes "presence_step e s s'" "under_counted s" "counted_down e"
  shows "under_counted s'"
proof -
  have pos: "counts_positive s" and le: "connection_count s u \<le> int (ps_live s u)" for u
    using assms(2) by (simp_all add: under_counted_def)
  have nonneg: "0 \<le> connection_count s u" for u
    using pos by (force simp: connection_count_def counts_positive_def split: option.split)
  have "connection_count s' u \<le> int (ps_live s' u)" for u
    using le [of u] assms(3,1)
    unfolding presence_step_count(2) [OF assms(1) pos, of u] presence_step_live [OF assms(1), of u]
    by (cases e) (auto simp: counted_down_def max_def split: if_splits dest!: presence_step_guard)
  with presence_step_count(1) [OF assms(1) pos] show ?thesis by (simp add: under_counted_def)
qed

lemma under_counted_run:
  "presence_run es s s' \<Longrightarrow> under_counted s \<Longrightarrow> \<forall>e\<in>set es. counted_down e \<Longrightarrow> under_counted s'"
  by (induction rule: presence_run.induct) (auto dest: under_counted_step)

lemma under_counted_init: "under_counted (presence_init d)"
  by (simp add: under_counted_def counts_positive_def connection_count_def presence_init_def)

text \<open>
  C26. Nobody is falsely online: as long as no decrement fails to reach Redis and no instance
  dies, then through connections, heartbeats, closings, lost answers, expiries and Redis
  restarts the counter never exceeds the number of open sockets, so a user reported online has
  one; and an unreachable Redis reports everybody offline.
\<close>

theorem never_falsely_online:
  assumes "presence_run es (presence_init d) s" "\<forall>e\<in>set es. counted_down e"
    and "is_online call (ps_counts s) u"
  shows "call = Answered \<and> 0 < ps_live s u"
proof -
  have "under_counted s" by (rule under_counted_run [OF assms(1) under_counted_init assms(2)])
  moreover have "call = Answered" using assms(3) by (auto simp: is_online_def redis_fail_open_def split: if_splits)
  ultimately show ?thesis
    using assms(3) by (force simp: is_online_count under_counted_def dest: spec [of _ u])
qed

definition no_rows :: database where
  "no_rows = \<lparr>tb_users = [], tb_channels = [], tb_members = [], tb_messages = [], tb_attachments = [],
     tb_invites = [], tb_reset_tokens = [], tb_sessions = []\<rparr>"

text \<open>Two tabs, one answer lost, one tab closed, Redis restarted, one heartbeat.\<close>

definition rough_day :: "presence_event list" where
  "rough_day = [Connect 1 Answered True, Connect 1 Reply_Lost True, Disconnect 1 Answered True 5,
     Redis_Restarts, Heartbeat 1 Answered]"

lemma rough_day_run:
  "\<exists>s. presence_run rough_day (presence_init no_rows) s \<and> is_online Answered (ps_counts s) 1"
proof -
  let ?init = "presence_init no_rows" and ?k = "presence_connection_count_key 1"
  let ?on = "[(presence_topic 1, build_presence_event 1 ''online'' None)]"
  let ?at = "\<lambda>n live. \<lparr>ps_counts = Map.empty(?k := n), ps_db = no_rows, ps_published = ?on,
    ps_live = (\<lambda>u. 0)(1 := live)\<rparr>"
  let ?final = "?at (Some 1) 1"
  have "presence_step (Connect 1 Answered True) ?init (?at (Some 1) 1)"
    using connects [of Answered True 1 ?init ?on "[?k \<mapsto> 1]"]
    by (simp add: presence_init_def handler_defs publish_presence_def)
  moreover have "presence_step (Connect 1 Reply_Lost True) (?at (Some 1) 1) (?at (Some 2) 2)"
    using connects [of Reply_Lost True 1 "?at (Some 1) 1" "[]" "[?k \<mapsto> 2]"]
    by (simp add: handler_defs numeral_2_eq_2)
  moreover have "presence_step (Disconnect 1 Answered True 5) (?at (Some 2) 2) (?at (Some 1) 1)"
    using disconnects [of "?at (Some 2) 2" 1 Answered True 5 "[]" "[?k \<mapsto> 1]" no_rows]
    by (simp add: handler_defs numeral_2_eq_2)
  moreover have "presence_step Redis_Restarts (?at (Some 1) 1) (?at None 1)"
    using restarts [of "?at (Some 1) 1"] by simp
  moreover have "presence_step (Heartbeat 1 Answered) (?at None 1) ?final"
    using beats [of "?at None 1" 1 Answered] by (simp add: handler_defs)
  ultimately have "presence_run rough_day ?init ?final"
    unfolding rough_day_def by (blast intro: presence_run.intros)
  then show ?thesis by (intro exI [of _ ?final]) (simp add: is_online_def redis_fail_open_def)
qed

lemma never_falsely_online_witness:
  "\<exists>s. presence_run rough_day (presence_init no_rows) s \<and> 0 < ps_live s 1"
proof -
  have "\<forall>e\<in>set rough_day. counted_down e" by (simp add: rough_day_def counted_down_def)
  with rough_day_run never_falsely_online show ?thesis by blast
qed

subsection \<open>The abstract reference count\<close>

text \<open>What the component promises while Redis answers: the first connection of a user announces
  them online, the last one to close stores \<open>last_seen\<close> and announces them offline.\<close>

type_synonym presence_view = "(uuid \<Rightarrow> nat) \<times> database \<times> publication list"

fun promised :: "presence_event \<Rightarrow> presence_view \<Rightarrow> presence_view" where
  "promised (Connect u call ok) (live, d, log) =
     (live(u := live u + 1), d,
      if live u = 0 then log @ [(presence_topic u, build_presence_event u ''online'' None)] else log)"
| "promised (Disconnect u call ok now) (live, d, log) =
     (if live u = 1
      then (live(u := 0), set_last_seen now u d,
            log @ [(presence_topic u, build_presence_event u ''offline'' (Some now))])
      else (live(u := live u - 1), d, log))"
| "promised e v = v"

fun healthy :: "presence_event \<Rightarrow> bool" where
  "healthy (Connect u call ok) \<longleftrightarrow> call = Answered \<and> ok"
| "healthy (Heartbeat u call) \<longleftrightarrow> call = Answered"
| "healthy (Disconnect u call ok now) \<longleftrightarrow> call = Answered \<and> ok"
| "healthy e \<longleftrightarrow> False"

definition presence_view :: "presence \<Rightarrow> presence_view" where
  "presence_view s = (ps_live s, ps_db s, ps_published s)"

definition counts_exactly :: "presence \<Rightarrow> bool" where
  "counts_exactly s \<longleftrightarrow> (\<forall>u. ps_counts s (presence_connection_count_key u) =
     (if ps_live s u = 0 then None else Some (int (ps_live s u))))"

lemma promised_step:
  assumes "presence_step e s s'" "counts_exactly s" "healthy e"
  shows "counts_exactly s' \<and> presence_view s' = promised e (presence_view s)"
  using assms(1)
proof (cases rule: presence_step.cases)
  case (connects call ok u pubs cs)
  have "ps_counts s (presence_connection_count_key v) =
      (if ps_live s v = 0 then None else Some (int (ps_live s v)))" for v
    using assms(2) by (simp add: counts_exactly_def)
  with connects assms(3) show ?thesis
    by (auto simp: counts_exactly_def presence_view_def handler_defs publish_presence_def Let_def
        split: if_splits)
next
  case (beats u call)
  have "ps_counts s (presence_connection_count_key u) = Some (int (ps_live s u))"
    using assms(2) beats by (simp add: counts_exactly_def)
  with beats assms(2,3) show ?thesis
    by (simp add: presence_view_def handler_defs)
next
  case (disconnects u call ok now pubs cs d)
  have "ps_counts s (presence_connection_count_key v) =
      (if ps_live s v = 0 then None else Some (int (ps_live s v)))" for v
    using assms(2) by (simp add: counts_exactly_def)
  with disconnects assms(3) show ?thesis
    by (auto simp: counts_exactly_def presence_view_def handler_defs publish_presence_def Let_def
        split: if_splits)
qed (use assms(3) in auto)

lemma promised_run:
  "presence_run es s s' \<Longrightarrow> counts_exactly s \<Longrightarrow> \<forall>e\<in>set es. healthy e \<Longrightarrow>
   counts_exactly s' \<and> presence_view s' = fold promised es (presence_view s)"
  by (induction rule: presence_run.induct) (auto dest!: promised_step)

text \<open>
  C11. While Redis answers, the counters implement the reference count: after any sequence of
  connections, heartbeats and closings of any users, the published events and the stored
  \<open>last_seen\<close> are those of the abstract count of open sockets (online at 0 to 1, offline
  with \<open>last_seen\<close> at 1 to 0, nothing else), and a user reads as online exactly while a
  socket is open.
\<close>

theorem presence_refines_reference_count:
  assumes "presence_run es (presence_init d) s" "\<forall>e\<in>set es. healthy e"
  shows "presence_view s = fold promised es (\<lambda>u. 0, d, [])
    \<and> (\<forall>u. is_online Answered (ps_counts s) u \<longleftrightarrow> 0 < ps_live s u)"
proof -
  have "counts_exactly (presence_init d)" "presence_view (presence_init d) = (\<lambda>u. 0, d, [])"
    by (simp_all add: counts_exactly_def presence_view_def presence_init_def)
  with promised_run [OF assms(1) _ assms(2)]
  have "counts_exactly s" "presence_view s = fold promised es (\<lambda>u. 0, d, [])" by simp_all
  then show ?thesis by (simp add: counts_exactly_def is_online_def redis_fail_open_def)
qed

definition visit :: "presence_event list" where
  "visit = [Connect 1 Answered True, Disconnect 1 Answered True 5]"

lemma visit_run:
  "presence_run visit (presence_init no_rows)
     \<lparr>ps_counts = Map.empty, ps_db = no_rows,
      ps_published = [(presence_topic 1, build_presence_event 1 ''online'' None),
        (presence_topic 1, build_presence_event 1 ''offline'' (Some 5))],
      ps_live = (\<lambda>u. 0)\<rparr>"
proof -
  let ?k = "presence_connection_count_key 1"
  let ?on = "(presence_topic 1, build_presence_event 1 ''online'' None)"
  let ?off = "(presence_topic 1, build_presence_event 1 ''offline'' (Some 5))"
  let ?mid = "\<lparr>ps_counts = [?k \<mapsto> 1], ps_db = no_rows, ps_published = [?on], ps_live = (\<lambda>u. 0)(1 := 1)\<rparr>"
  have "presence_step (Connect 1 Answered True) (presence_init no_rows) ?mid"
    using connects [of Answered True 1 "presence_init no_rows" "[?on]" "[?k \<mapsto> 1]"]
    by (simp add: presence_init_def handler_defs publish_presence_def)
  moreover have "presence_step (Disconnect 1 Answered True 5) ?mid
      \<lparr>ps_counts = Map.empty, ps_db = no_rows, ps_published = [?on, ?off], ps_live = (\<lambda>u. 0)\<rparr>"
    using disconnects [of ?mid 1 Answered True 5 "[?off]" Map.empty no_rows]
    by (simp add: handler_defs publish_presence_def set_last_seen_def update_users_def
        db_update_def no_rows_def fun_upd_idem)
  ultimately show ?thesis
    unfolding visit_def by (blast intro: presence_run.intros)
qed

lemma presence_refines_reference_count_witness:
  "\<exists>s. presence_run visit (presence_init no_rows) s \<and>
     presence_view s = fold promised visit (\<lambda>u. 0, no_rows, []) \<and> \<not> is_online Answered (ps_counts s) 1"
proof -
  have "\<forall>e\<in>set visit. healthy e" by (simp add: visit_def)
  from presence_refines_reference_count [OF visit_run this] show ?thesis
    using visit_run by (intro exI conjI) (assumption, simp_all)
qed

text \<open>
  The price of failing open: a closing whose decrement never reaches Redis announces the
  user offline and stores \<open>last_seen\<close>, but leaves the counter behind; with no socket open the
  user reads as online once Redis is back, and their next connection announces nothing.
\<close>

theorem lost_decrement_stays_online:
  "let cs1 = snd (handle_connect Answered True u Map.empty);
       (pubs, cs2, d) = handle_disconnect Unreached True now u cs1 no_rows
   in is_online Answered cs2 u
    \<and> pubs = [(presence_topic u, build_presence_event u ''offline'' (Some now))]
    \<and> fst (handle_connect Answered True u cs2) = []"
  by (simp add: handler_defs is_online_def publish_presence_def)

end
