(* ===== verification/Workspace.thy ===== *)
theory Workspace
  imports Integrity Admin Invite_Api Messages Media Presence
begin

text \<open>
  All transactions of the services together, in any order and number and with each other in
  between: a run of the workspace keeps every constraint of the database.  What the model's
  \<open>INSERT\<close>s check, its \<open>UPDATE\<close>s and \<open>DELETE\<close>s cannot break, so PostgreSQL never refuses one.
\<close>

subsection \<open>Channels\<close>

lemma set_role_wf: "db_wf lower d \<Longrightarrow> db_wf lower (set_role role m d)"
  by (simp add: set_role_def update_members_wf cm_key_def)

lemma delete_membership_wf: "db_wf lower d \<Longrightarrow> db_wf lower (delete_membership m d)"
  by (simp add: delete_membership_def delete_members_wf)

lemma succession_loop_wf: "db_wf lower d \<Longrightarrow> db_wf lower (snd (succession_loop u cs d))"
  by (induction u cs d rule: succession_loop.induct)
    (auto simp: set_role_wf split: option.split prod.split)

lemma succession_wf: "db_wf lower d \<Longrightarrow> db_wf lower (snd (run_sole_admin_succession u c d))"
  by (simp add: run_sole_admin_succession_def succession_loop_wf)

lemma create_channel_wf:
  "create_channel cid now name priv u d = Inr (c, d') \<Longrightarrow> db_wf lower d \<Longrightarrow> db_wf lower d'"
  by (auto simp: create_channel_def Let_def dest: insert_channel_wf insert_member_wf)

lemma join_public_channel_wf:
  "join_public_channel others now c u d = Inr (r, d') \<Longrightarrow> db_wf lower d \<Longrightarrow> db_wf lower (others d) \<Longrightarrow>
   db_wf lower d'"
  by (auto simp: join_public_channel_def Let_def dest: insert_member_wf split: option.splits if_splits sum.splits)

lemma leave_channel_wf:
  "leave_channel others c u d = (r, d') \<Longrightarrow> db_wf lower d \<Longrightarrow> db_wf lower (others d) \<Longrightarrow> db_wf lower d'"
  by (auto simp: leave_channel_def Let_def delete_membership_wf succession_wf split: option.splits if_splits)

lemma add_channel_member_wf:
  "add_channel_member others now c caller t role d = Inr (r, d') \<Longrightarrow> db_wf lower d \<Longrightarrow>
   db_wf lower (others d) \<Longrightarrow> db_wf lower d'"
  by (auto simp: add_channel_member_def Let_def dest: insert_member_wf split: option.splits if_splits sum.splits)

lemma change_member_role_wf:
  "change_member_role c caller t role d = (r, d') \<Longrightarrow> db_wf lower d \<Longrightarrow> db_wf lower d'"
  by (auto simp: change_member_role_def Let_def set_role_wf split: option.splits if_splits)

lemma remove_channel_member_wf:
  "remove_channel_member c caller t d = (r, d') \<Longrightarrow> db_wf lower d \<Longrightarrow> db_wf lower d'"
  by (auto simp: remove_channel_member_def Let_def delete_membership_wf succession_wf
      split: option.splits if_splits)

subsection \<open>Messages and media\<close>

lemma get_message_mem: "get_message k d = Some m \<Longrightarrow> k \<in> m_id ` set (tb_messages d)"
  by (auto simp: get_message_def dest: db_get_SomeD)

lemma bind_media_wf:
  assumes "bind_media_atomically k ids s d = Inr (media, d')" "db_wf lower d" "k \<in> m_id ` set (tb_messages d)"
  shows "db_wf lower d'"
  using assms by (auto simp: bind_media_atomically_def Let_def intro!: update_attachments_wf split: if_splits)

lemma persist_claimed_wf:
  assumes "persist_claimed rd up s key ids m w = (r, w')" "db_wf lower (w_db w)"
  shows "db_wf lower (w_db w')"
proof -
  have "db_wf lower d2" if "insert_message m (w_db w) = Inr d1"
    "bind_media_atomically (m_id m) ids s d1 = Inr (media, d2)" for d1 d2 media
  proof -
    have "m_id m \<in> m_id ` set (tb_messages d1)"
      using that(1) by (auto simp: insert_message_def split: if_splits)
    then show ?thesis using bind_media_wf [OF that(2)] insert_message_wf [OF assms(2) that(1)] by blast
  qed
  then show ?thesis
    using assms
    by (auto simp: persist_claimed_def release_after_def redis_state_def release_idempotency_key_def
        publish_message_created_def publish_message_event_def split: sum.splits if_splits)
qed

definition keeps_wf :: "(pystr \<Rightarrow> pystr) \<Rightarrow> (world \<Rightarrow> world) \<Rightarrow> bool" where
  "keeps_wf lower f \<longleftrightarrow> (\<forall>w. db_wf lower (w_db w) \<longrightarrow> db_wf lower (w_db (f w)))"

lemma resolve_loop_wf:
  "(\<And>k. keeps_wf lower (env k)) \<Longrightarrow> db_wf lower (w_db w) \<Longrightarrow> resolve_loop env rd s key n w = (r, w') \<Longrightarrow>
   db_wf lower (w_db w')"
  by (induction n arbitrary: w) (auto simp: keeps_wf_def Let_def split: option.splits if_splits)

lemma resolve_existing_claim_wf:
  "(\<And>k. keeps_wf lower (env k)) \<Longrightarrow> db_wf lower (w_db w) \<Longrightarrow> resolve_existing_claim env rd s key w = (r, w') \<Longrightarrow>
   db_wf lower (w_db w')"
  by (auto simp: resolve_existing_claim_def split: option.splits if_splits intro: resolve_loop_wf [of lower env])

lemma claim_rounds_wf:
  "(\<And>r k. keeps_wf lower (env r k)) \<Longrightarrow> db_wf lower (w_db w) \<Longrightarrow> claim_rounds env rd up s key ids m n w = (r, w') \<Longrightarrow>
   db_wf lower (w_db w')"
proof (induction n arbitrary: w)
  case (Suc n)
  obtain won w1 where claim: "claim_idempotency_key s key (m_id m) w = (won, w1)" by fastforce
  then have w1: "db_wf lower (w_db w1)"
    using Suc.prems(2) by (auto simp: claim_idempotency_key_def Let_def split: option.splits if_splits)
  obtain res w2 where resolve: "resolve_existing_claim (env n) (\<lambda>k. rd (Read_Claim n k)) s key w1 = (res, w2)" by fastforce
  have w2: "db_wf lower (w_db w2)" by (rule resolve_existing_claim_wf [OF Suc.prems(1) w1 resolve])
  show ?case
    using Suc.prems(2,3) claim resolve w1 w2 Suc.IH [OF Suc.prems(1) w2]
    by (auto simp: redis_state_def dest: persist_claimed_wf split: if_splits resolution.splits)
qed simp

lemma send_after_replay_wf:
  assumes "send_after_replay env rd up new s key ids content gate build w = (r, w')"
    "\<And>r k. keeps_wf lower (env r k)" "db_wf lower (w_db w)"
  shows "db_wf lower (w_db w')"
proof -
  obtain res w1 where resolve: "resolve_existing_claim (env CLAIM_MAX_ROUNDS) (\<lambda>k. rd (Read_Claim CLAIM_MAX_ROUNDS k)) s key w = (res, w1)" by fastforce
  have "db_wf lower (w_db w1)" by (rule resolve_existing_claim_wf [OF assms(2,3) resolve])
  then show ?thesis
    using assms(1,3) resolve claim_rounds_wf [of lower env, OF assms(2)]
    by (auto simp: send_after_replay_def claim_and_persist_message_def split: if_splits resolution.splits sum.splits)
qed

lemma edit_message_wf:
  "edit_message up now k u content w = (r, w') \<Longrightarrow> db_wf lower (w_db w) \<Longrightarrow> db_wf lower (w_db w')"
  by (auto simp: edit_message_def Let_def check_def valid_content_db publish_message_edited_def publish_message_event_def
      intro!: update_messages_wf split: if_splits sum.splits)

lemma delete_message_wf:
  "delete_message up now k u w = (r, w') \<Longrightarrow> db_wf lower (w_db w) \<Longrightarrow> db_wf lower (w_db w')"
  by (auto simp: delete_message_def Let_def publish_message_deleted_def publish_message_event_def intro!: update_messages_wf split: if_splits sum.splits option.splits)

lemma upload_media_wf:
  "upload_media lc lib e p w = (r, w') \<Longrightarrow> db_wf lower (mw_db w) \<Longrightarrow> db_wf lower (mw_db w')"
  by (auto simp: upload_media_def Let_def dest: insert_attachment_wf split: if_splits sum.splits prod.splits)

lemma sweep_loop_wf:
  assumes "\<And>x e. x \<in> set rows \<Longrightarrow> db_wf lower e \<Longrightarrow> db_wf lower (snd (snd x) e)"
    "sweep_loop rows acc = (r, gone, w')" "db_wf lower (mw_db (snd (snd acc)))"
  shows "db_wf lower (mw_db w')"
  using assms
proof (induction rows acc rule: sweep_loop.induct)
  case (2 a call others rest acc)
  have "db_wf lower (mw_db (snd (snd (sweep_row call others a acc))))"
    using 2(2) [of "(a, call, others)"] 2(4)
    by (auto simp: sweep_row_def Let_def delete_attachments_wf split: prod.splits sum.splits)
  then show ?case using 2 by simp
qed simp

lemma sweep_wf:
  assumes "sweep_orphaned_media calls others True now ttl n w = (r, w')" "db_wf lower (mw_db w)"
    "\<And>i e. db_wf lower e \<Longrightarrow> db_wf lower (others i e)"
  shows "db_wf lower (mw_db w')"
  using assms(1)
proof (clarsimp simp: sweep_orphaned_media_def Let_def split: prod.splits)
  fix r0 gone
  assume "sweep_loop (zip (take n (filter (is_orphan (now - ttl)) (tb_attachments (mw_db w))))
      (map (\<lambda>i. (calls i, others i)) [0..<min (length (filter (is_orphan (now - ttl)) (tb_attachments (mw_db w)))) n]))
    (\<lparr>sw_scanned = min (length (filter (is_orphan (now - ttl)) (tb_attachments (mw_db w)))) n, sw_purged = 0, sw_purge_failures = 0\<rparr>, [], w) = (r0, gone, w')"
  then show "db_wf lower (mw_db w')"
    by (rule sweep_loop_wf [rotated]) (auto simp: assms dest!: set_zip_rightD)
qed

subsection \<open>Accounts\<close>

lemma create_session_wf:
  "create_session hash new raw now ttl u ua ip d = Inr (c, d') \<Longrightarrow> db_wf lower d \<Longrightarrow> db_wf lower d'"
  by (auto simp: create_session_def Let_def dest: insert_session_wf)

lemma set_revoked_wf: "db_wf lower d \<Longrightarrow> db_wf lower (set_revoked now ids d)"
  by (simp add: set_revoked_def update_sessions_wf update_map)

lemma revoke_sessions_for_user_wf:
  "revoke_sessions_for_user u except now d = (ids, d') \<Longrightarrow> db_wf lower d \<Longrightarrow> db_wf lower d'"
  by (auto simp: revoke_sessions_for_user_def Let_def set_revoked_wf)

lemma revoke_session_wf:
  "revoke_session sid u now d = (r, d') \<Longrightarrow> db_wf lower d \<Longrightarrow> db_wf lower d'"
  by (auto simp: revoke_session_def set_revoked_wf split: option.splits if_splits)

lemma authenticate_and_login_wf:
  "authenticate_and_login env f email password ua ip d = Inr (r, d') \<Longrightarrow> db_wf lower d \<Longrightarrow> db_wf lower d'"
  by (auto simp: authenticate_and_login_def check_def dest: create_session_wf
      split: option.splits sum.splits prod.splits if_splits)

text \<open>One row moves to a key no other row has.\<close>

lemma distinct_rekey:
  assumes "distinct (map pk rows)" "distinct (map g rows)"
    "\<And>r. r \<in> set rows \<Longrightarrow> pk r \<noteq> k \<Longrightarrow> g r \<noteq> v" "\<And>r. r \<in> set rows \<Longrightarrow> pk r = k \<Longrightarrow> g (f r) = v"
  shows "distinct (map g (db_update (\<lambda>r. pk r = k) f rows))"
  using assms
proof (induction rows)
  case (Cons r rows)
  have other: "pk x \<noteq> k" if "pk r = k" "x \<in> set rows" for x
    using that Cons.prems(1) by (auto simp: rev_image_eqI)
  have tail: "map g (db_update (\<lambda>r. pk r = k) f rows) = map g rows" if "pk r = k"
    using other that by (auto simp: db_update_def)
  show ?case
  proof (cases "pk r = k")
    case True
    then have "v \<notin> g ` set rows" using Cons.prems(3) other by auto
    moreover have "db_update (\<lambda>r. pk r = k) f (r # rows) = f r # db_update (\<lambda>r. pk r = k) f rows"
      using True by (simp add: db_update_def)
    ultimately show ?thesis using True tail Cons.prems by simp
  next
    case False
    have "g r \<notin> g ` set (db_update (\<lambda>r. pk r = k) f rows)"
      using Cons.prems False by (auto simp: db_update_def split: if_splits)
    then show ?thesis using False Cons by (auto simp: db_update_def)
  qed
qed (simp add: db_update_def)

lemma rotate_session_wf:
  assumes "rotate_session s f d = Inr d'" "db_wf lower d"
    "\<And>t. s_id (f t) = s_id t \<and> s_user_id (f t) = s_user_id t" "\<And>t. s_refresh_token_hash (f t) = v"
  shows "db_wf lower d'"
proof -
  have d': "d' = update_sessions (\<lambda>t. s_id t = s_id s) f d"
    and free: "\<And>t. t \<in> set (tb_sessions d) \<Longrightarrow> s_id t \<noteq> s_id s \<Longrightarrow> s_refresh_token_hash t \<noteq> v"
    using assms(1,4) by (auto simp: rotate_session_def split: if_splits)
  have "distinct (map s_id (tb_sessions d))" using assms(2) by (simp add: db_wf_def sessions_wf_def)
  then show ?thesis unfolding d'
    by (intro update_sessions_wf [OF assms(2)] distinct_rekey [of s_id _ _ _ v]) (simp_all add: assms(3,4) free)
qed

lemma refresh_session_wf:
  "refresh_session env f others raw d = Inr (r, d') \<Longrightarrow> db_wf lower (others d) \<Longrightarrow> db_wf lower d'"
  by (auto simp: refresh_session_def extend_session_expiry_def
      elim!: rotate_session_wf split: option.splits sum.splits prod.splits if_splits)

lemma set_password_wf: "db_wf lower d \<Longrightarrow> db_wf lower (set_password env k p d)"
  by (auto simp: set_password_def user_checks_def intro!: update_users_wf)

lemma set_used_wf: "db_wf lower d \<Longrightarrow> db_wf lower (set_used now c d)"
  by (simp add: set_used_def update_reset_tokens_wf)

lemma process_password_reset_request_wf:
  "process_password_reset_request env f email d = Inr (m, d') \<Longrightarrow> db_wf lower d \<Longrightarrow> db_wf lower d'"
  by (auto simp: process_password_reset_request_def create_password_reset_token_def Let_def
      invalidate_outstanding_reset_tokens_def set_used_wf dest!: insert_reset_token_wf [rotated] split: option.splits)

lemma confirm_password_reset_wf:
  "confirm_password_reset env call others now raw p w = (r, w') \<Longrightarrow> db_wf lower (ac_db w) \<Longrightarrow>
   db_wf lower (others (ac_db w)) \<Longrightarrow> db_wf lower (ac_db w')"
  by (auto simp: confirm_password_reset_def mark_reset_token_used_def set_password_wf set_used_wf
      elim!: revoke_sessions_for_user_wf split: option.splits sum.splits prod.splits)

lemma change_password_wf:
  "change_password env call now old p current w = (r, w') \<Longrightarrow> db_wf lower (ac_db w) \<Longrightarrow> db_wf lower (ac_db w')"
  by (auto simp: change_password_def set_password_wf
      elim!: revoke_sessions_for_user_wf split: option.splits sum.splits prod.splits if_splits)

subsection \<open>Invites and users\<close>

lemma create_invite_wf:
  "create_invite env f email by d = Inr (i, d') \<Longrightarrow> db_wf lower d \<Longrightarrow> db_wf lower d'"
  by (auto simp: create_invite_def Let_def dest: insert_invite_wf)

lemma set_invite_wf:
  "(\<And>j. i_id (f j) = i_id j \<and> i_created_by (f j) = i_created_by j \<and> i_token_hash (f j) = i_token_hash j) \<Longrightarrow>
   db_wf lower d \<Longrightarrow> db_wf lower (set_invite i f d)"
  by (simp add: set_invite_def update_invites_wf update_map)

lemma rotate_invite_token_wf:
  assumes "rotate_invite_token env f i d = Inr (raw, d')" "db_wf lower d"
  shows "db_wf lower d'"
proof -
  let ?v = "token_hash env (f_raw_token f)"
  have d': "d' = update_invites (\<lambda>j. i_id j = i_id i) (rotated env f) d"
    and free: "\<And>j. j \<in> set (tb_invites d) \<Longrightarrow> i_id j \<noteq> i_id i \<Longrightarrow> i_token_hash j \<noteq> ?v"
    using assms(1) by (auto simp: rotate_invite_token_def set_invite_def split: if_splits)
  have "distinct (map i_id (tb_invites d))" using assms(2) by (simp add: db_wf_def invites_wf_def)
  then show ?thesis unfolding d'
    by (intro update_invites_wf [OF assms(2)] distinct_rekey [of i_id _ _ _ ?v]) (simp_all add: rotated_def free)
qed

lemma issue_invite_wf:
  "issue_invite env base delivered f email admin d = (r, mails, d') \<Longrightarrow> db_wf lower d \<Longrightarrow> db_wf lower d'"
  by (auto simp: issue_invite_def Let_def dest: create_invite_wf split: if_splits sum.splits prod.splits)

lemma resend_invite_wf:
  "resend_invite env base delivered f k admin d = (r, mails, d') \<Longrightarrow> db_wf lower d \<Longrightarrow> db_wf lower d'"
  by (auto simp: resend_invite_def dest: rotate_invite_token_wf split: if_splits option.splits sum.splits prod.splits)

lemma revoke_invite_route_wf:
  "revoke_invite_route k admin d = (r, d') \<Longrightarrow> db_wf lower d \<Longrightarrow> db_wf lower d'"
  by (auto simp: revoke_invite_route_def revoke_invite_def set_invite_wf split: if_splits option.splits)

lemma register_user_wf:
  "register_user env f others body d = (r, d') \<Longrightarrow> db_wf (db_lower env) d \<Longrightarrow>
   db_wf (db_lower env) (others d) \<Longrightarrow> db_wf (db_lower env) d'"
  by (auto simp: register_user_def Let_def redeem_invite_def set_invite_wf insert_user_wf
      split: option.splits sum.splits)

lemma bootstrap_wf:
  "ensure_system_admin_bootstrapped env s f others d = Inr d' \<Longrightarrow> db_wf (db_lower env) d \<Longrightarrow>
   db_wf (db_lower env) (others d) \<Longrightarrow> db_wf (db_lower env) d'"
  by (auto simp: ensure_system_admin_bootstrapped_def insert_user_wf split: if_splits sum.splits)

lemma set_active_wf: "db_wf lower d \<Longrightarrow> db_wf lower (set_active b k d)"
  by (auto simp: set_active_def user_checks_def intro!: update_users_wf)

lemma deactivate_user_wf:
  assumes "deactivate_user others now target d = (r, d')" "db_wf lower d" "db_wf lower (others d)"
  shows "db_wf lower d'"
proof -
  obtain cs d1 where succ: "run_sole_admin_succession (u_id target) None (others d) = (cs, d1)" by fastforce
  then have d1: "db_wf lower (set_active False (u_id target) d1)"
    using succession_wf [OF assms(3), of "u_id target" None] by (simp add: set_active_wf)
  obtain ids d2 where rev: "revoke_sessions_for_user (u_id target) None now (set_active False (u_id target) d1) = (ids, d2)"
    by fastforce
  show ?thesis
    using assms succ rev revoke_sessions_for_user_wf [OF rev d1] by (auto simp: deactivate_user_def split: if_splits)
qed

lemma reactivate_user_wf: "reactivate_user target d = (c, d') \<Longrightarrow> db_wf lower d \<Longrightarrow> db_wf lower d'"
  by (auto simp: reactivate_user_def set_active_wf split: if_splits)

lemma set_last_seen_wf: "db_wf lower d \<Longrightarrow> db_wf lower (set_last_seen now k d)"
  by (auto simp: set_last_seen_def user_checks_def intro!: update_users_wf)

lemma handle_disconnect_wf:
  "handle_disconnect call up now k cs d = (ps, cs', d') \<Longrightarrow> db_wf lower d \<Longrightarrow> db_wf lower d'"
  by (auto simp: handle_disconnect_def set_last_seen_wf split: prod.splits if_splits)

lemma patch_me_wf:
  assumes "patch_me body current d = (r, d')" "db_wf lower d"
  shows "db_wf lower d'"
proof -
  have dist: "distinct (map u_id (tb_users d))" using assms(2) by (simp add: db_wf_def users_wf_def)
  have "db_wf lower (update_users (\<lambda>v. u_id v = u_id u) (apply_profile_update up) d)"
    if u: "get_user (au_user_id current) d = Some u" and ck: "ck_users_names_present (apply_profile_update up u)" for u up
  proof -
    have same: "v = u" if "v \<in> set (tb_users d)" "u_id v = u_id u" for v
    proof -
      have "u \<in> set (tb_users d)" using u by (auto simp: get_user_def dest: db_get_SomeD)
      then have "db_get u_id (u_id u) (tb_users d) = Some u" using db_get_Some [OF dist] by blast
      moreover have "db_get u_id (u_id u) (tb_users d) = Some v" using that db_get_Some [OF dist] by blast
      ultimately show ?thesis by simp
    qed
    show ?thesis
    proof (rule update_users_wf [OF assms(2)])
      fix v assume "v \<in> set (tb_users d)" "u_id v = u_id u" "user_checks v"
      then show "user_checks (apply_profile_update up v)"
        using ck same [of v] by (simp add: user_checks_def ck_users_names_present_def apply_profile_update_def)
    qed (simp add: apply_profile_update_def)
  qed
  note changed = this
  show ?thesis
  proof (cases "get_user (au_user_id current) d")
    case None
    then show ?thesis using assms by (simp add: patch_me_def)
  next
    case (Some u)
    note u = this
    show ?thesis
    proof (cases "validate_profile_update u body")
      case (Inl e)
      then show ?thesis using assms u by (cases e) (simp_all add: patch_me_def)
    next
      case (Inr up)
      show ?thesis
      proof (cases "ck_users_names_present (apply_profile_update up u)")
        case True
        have "d' = update_users (\<lambda>v. u_id v = u_id u) (apply_profile_update up) d"
          using assms(1) u Inr True by (simp add: patch_me_def Let_def)
        then show ?thesis using changed [OF u True] by simp
      next
        case False
        then show ?thesis using assms u Inr by (simp add: patch_me_def Let_def)
      qed
    qed
  qed
qed

subsection \<open>Runs of the workspace\<close>

text \<open>What others commit inside a transaction is again a run.  Sends may meet others before every
  attempt on the key, and the sweep before every row.\<close>

inductive workspace_run :: "'a invite_env_scheme \<Rightarrow> 'f imaging \<Rightarrow> database \<Rightarrow> database \<Rightarrow> bool" for env lib where
  ws_idle: "workspace_run env lib d d"
| ws_create: "workspace_run env lib d0 d \<Longrightarrow>
    create_channel cid now name priv u d = Inr (ch, d') \<Longrightarrow> workspace_run env lib d0 d'"
| ws_join: "workspace_run env lib d0 d \<Longrightarrow> workspace_run env lib d (others d) \<Longrightarrow>
    join_public_channel others now c u d = Inr (jr, d') \<Longrightarrow> workspace_run env lib d0 d'"
| ws_leave: "workspace_run env lib d0 d \<Longrightarrow> workspace_run env lib d (others d) \<Longrightarrow>
    leave_channel others c u d = (lr, d') \<Longrightarrow> workspace_run env lib d0 d'"
| ws_add: "workspace_run env lib d0 d \<Longrightarrow> workspace_run env lib d (others d) \<Longrightarrow>
    add_channel_member others now c u t role d = Inr (ar, d') \<Longrightarrow> workspace_run env lib d0 d'"
| ws_role: "workspace_run env lib d0 d \<Longrightarrow>
    change_member_role c u t role d = (cr, d') \<Longrightarrow> workspace_run env lib d0 d'"
| ws_remove: "workspace_run env lib d0 d \<Longrightarrow>
    remove_channel_member c u t d = (rr, d') \<Longrightarrow> workspace_run env lib d0 d'"
| ws_login: "workspace_run env lib d0 d \<Longrightarrow>
    authenticate_and_login env f email password ua ip d = Inr (li, d') \<Longrightarrow> workspace_run env lib d0 d'"
| ws_refresh: "workspace_run env lib d0 d \<Longrightarrow> workspace_run env lib d (others d) \<Longrightarrow>
    refresh_session env f others raw d = Inr (re, d') \<Longrightarrow> workspace_run env lib d0 d'"
| ws_revoke: "workspace_run env lib d0 d \<Longrightarrow>
    revoke_session sid u now d = (ro, d') \<Longrightarrow> workspace_run env lib d0 d'"
| ws_ask_reset: "workspace_run env lib d0 d \<Longrightarrow>
    process_password_reset_request env f email d = Inr (mail, d') \<Longrightarrow> workspace_run env lib d0 d'"
| ws_issue: "workspace_run env lib d0 d \<Longrightarrow>
    issue_invite env base delivered f email admin d = (ir, mails, d') \<Longrightarrow> workspace_run env lib d0 d'"
| ws_resend: "workspace_run env lib d0 d \<Longrightarrow>
    resend_invite env base delivered f k admin d = (rs, mails, d') \<Longrightarrow> workspace_run env lib d0 d'"
| ws_revoke_invite: "workspace_run env lib d0 d \<Longrightarrow>
    revoke_invite_route k admin d = (ri, d') \<Longrightarrow> workspace_run env lib d0 d'"
| ws_register: "workspace_run env lib d0 d \<Longrightarrow> workspace_run env lib d (others d) \<Longrightarrow>
    register_user env f others body d = (ru, d') \<Longrightarrow> workspace_run env lib d0 d'"
| ws_bootstrap: "workspace_run env lib d0 d \<Longrightarrow> workspace_run env lib d (others d) \<Longrightarrow>
    ensure_system_admin_bootstrapped env bs f others d = Inr d' \<Longrightarrow> workspace_run env lib d0 d'"
| ws_deactivate: "workspace_run env lib d0 d \<Longrightarrow> workspace_run env lib d (others d) \<Longrightarrow>
    deactivate_user others now target d = (da, d') \<Longrightarrow> workspace_run env lib d0 d'"
| ws_reactivate: "workspace_run env lib d0 d \<Longrightarrow>
    reactivate_user target d = (ra, d') \<Longrightarrow> workspace_run env lib d0 d'"
| ws_patch_me: "workspace_run env lib d0 d \<Longrightarrow>
    patch_me rq current d = (pm, d') \<Longrightarrow> workspace_run env lib d0 d'"
| ws_disconnect: "workspace_run env lib d0 d \<Longrightarrow>
    handle_disconnect call up now u cs d = (ps, cs', d') \<Longrightarrow> workspace_run env lib d0 d'"
| ws_send_channel: "workspace_run env lib d0 (w_db w) \<Longrightarrow> (\<And>r k x. workspace_run env lib (w_db x) (w_db (others r k x))) \<Longrightarrow>
    send_channel_message others rd up new now c u content ids key w = (sr, w') \<Longrightarrow>
    workspace_run env lib d0 (w_db w')"
| ws_send_dm: "workspace_run env lib d0 (w_db w) \<Longrightarrow> (\<And>r k x. workspace_run env lib (w_db x) (w_db (others r k x))) \<Longrightarrow>
    send_dm_message others rd up new now t u content ids key w = (sr, w') \<Longrightarrow>
    workspace_run env lib d0 (w_db w')"
| ws_edit: "workspace_run env lib d0 (w_db w) \<Longrightarrow>
    edit_message up now k u content w = (er, w') \<Longrightarrow> workspace_run env lib d0 (w_db w')"
| ws_delete: "workspace_run env lib d0 (w_db w) \<Longrightarrow>
    delete_message up now k u w = (er, w') \<Longrightarrow> workspace_run env lib d0 (w_db w')"
| ws_upload: "workspace_run env lib d0 (mw_db m) \<Longrightarrow>
    upload_media lc lib ue parts m = (ur, m') \<Longrightarrow> workspace_run env lib d0 (mw_db m')"
| ws_sweep: "workspace_run env lib d0 (mw_db m) \<Longrightarrow> (\<And>i e. workspace_run env lib e (others i e)) \<Longrightarrow>
    sweep_orphaned_media calls others True now ttl n m = (sw, m') \<Longrightarrow> workspace_run env lib d0 (mw_db m')"
| ws_confirm_reset: "workspace_run env lib d0 (ac_db a) \<Longrightarrow> workspace_run env lib (ac_db a) (others (ac_db a)) \<Longrightarrow>
    confirm_password_reset env call others now raw p a = (cp, a') \<Longrightarrow> workspace_run env lib d0 (ac_db a')"
| ws_change_password: "workspace_run env lib d0 (ac_db a) \<Longrightarrow>
    change_password env call now old p current a = (cp, a') \<Longrightarrow> workspace_run env lib d0 (ac_db a')"

lemma send_channel_message_wf:
  "send_channel_message others rd up new now c u content ids key w = (r, w') \<Longrightarrow> db_wf lower (w_db w) \<Longrightarrow>
   (\<And>r k x. db_wf lower (w_db x) \<Longrightarrow> db_wf lower (w_db (others r k x))) \<Longrightarrow> db_wf lower (w_db w')"
  unfolding send_channel_message_def by (erule send_after_replay_wf) (simp_all add: keeps_wf_def)

lemma send_dm_message_wf:
  "send_dm_message others rd up new now c u content ids key w = (r, w') \<Longrightarrow> db_wf lower (w_db w) \<Longrightarrow>
   (\<And>r k x. db_wf lower (w_db x) \<Longrightarrow> db_wf lower (w_db (others r k x))) \<Longrightarrow> db_wf lower (w_db w')"
  unfolding send_dm_message_def by (erule send_after_replay_wf) (simp_all add: keeps_wf_def)

lemmas operations_wf =
  create_channel_wf join_public_channel_wf leave_channel_wf add_channel_member_wf
  change_member_role_wf remove_channel_member_wf authenticate_and_login_wf refresh_session_wf
  revoke_session_wf process_password_reset_request_wf issue_invite_wf resend_invite_wf
  revoke_invite_route_wf register_user_wf bootstrap_wf deactivate_user_wf reactivate_user_wf
  patch_me_wf handle_disconnect_wf send_channel_message_wf send_dm_message_wf edit_message_wf
  delete_message_wf upload_media_wf sweep_wf confirm_password_reset_wf change_password_wf

text \<open>
  C3. Every state the program can bring the database into satisfies every constraint of the schema: in any
  run of its transactions, nested and interleaved, each row passes its checks (one target per
  message, sizes within the caps, names and contents that are not blank), each key is unique and
  each reference meets a row.
\<close>

theorem database_stays_well_formed:
  assumes "workspace_run env lib d d'" "db_wf (db_lower env) d"
  shows "db_wf (db_lower env) d'"
  using assms
  by (induction rule: workspace_run.induct) (assumption | erule operations_wf; blast)+

lemma empty_wf: "db_wf lower empty_db"
  by (simp add: db_wf_def table_wf_defs empty_db_def)

lemma database_stays_well_formed_witness:
  "\<exists>c d. create_channel 10 6 (py ''general'') False 1 booted = Inr (c, d) \<and> db_wf ascii_lower d
    \<and> tb_channels d = [c] \<and> map cm_user_id (tb_members d) = [1]"
proof -
  let ?c = "\<lparr>c_id = 10, c_name = py ''general'', c_is_private = False, c_created_by = 1, c_created_at = 6\<rparr>"
  let ?d = "booted\<lparr>tb_channels := [?c], tb_members := [demo_member 10 1 ADMIN 6]\<rparr>"
  have made: "create_channel 10 6 (py ''general'') False 1 booted = Inr (?c, ?d)"
    by (simp add: create_channel_def insert_channel_def insert_member_def ck_channels_name_def
        channel_name_char_def Let_def booted_def
        bootstrap_admin_def fresh_at_def empty_db_def demo_member_def cm_key_def)
  have "workspace_run plain_invite_env no_imaging empty_db booted"
    by (rule ws_bootstrap [OF ws_idle _ first_admin_boots]) (simp add: ws_idle)
  then have "workspace_run plain_invite_env no_imaging empty_db ?d" using made by (rule ws_create)
  from database_stays_well_formed [OF this empty_wf] made show ?thesis
    by (simp add: plain_invite_env_def demo_member_def)
qed

end
