(* ===== verification/Credentials.thy ===== *)
theory Credentials
  imports Auth
begin

text \<open>
  What the credentials of the program are made of: random tokens (\<open>generate_raw_*_token\<close> of
  \<^verbatim>\<open>services/sessions.py\<close>, \<^verbatim>\<open>services/invites.py\<close>, \<^verbatim>\<open>services/password_reset.py\<close>), the hashes
  they are stored and looked up by (\<^verbatim>\<open>core/token_hash.py\<close>), passwords (\<^verbatim>\<open>core/security.py\<close>) and
  the address of the caller (\<^verbatim>\<open>core/client_ip.py\<close>).  SHA-256, bcrypt and the operating system's
  random bytes are parameters; base64, UTF-8 and Python's \<open>ipaddress\<close> are defined.
\<close>

subsection \<open>Random tokens\<close>

text \<open>\<open>secrets.token_urlsafe(n)\<close>, given the \<open>n\<close> random bytes.\<close>

definition token_urlsafe :: "nat \<Rightarrow> (nat \<Rightarrow> byte list) \<Rightarrow> pystr" where
  "token_urlsafe n random_bytes = rstrip_pad (urlsafe_b64encode (random_bytes n))"

definition generate_raw_refresh_token :: "(nat \<Rightarrow> byte list) \<Rightarrow> pystr" where
  "generate_raw_refresh_token random_bytes = token_urlsafe 32 random_bytes"

definition generate_raw_invite_token :: "(nat \<Rightarrow> byte list) \<Rightarrow> pystr" where
  "generate_raw_invite_token random_bytes = token_urlsafe 32 random_bytes"

definition generate_raw_reset_token :: "(nat \<Rightarrow> byte list) \<Rightarrow> pystr" where
  "generate_raw_reset_token random_bytes = token_urlsafe 32 random_bytes"

lemma b64_char_eq: "v < 64 \<Longrightarrow> w < 64 \<Longrightarrow> b64_char v = b64_char w \<longleftrightarrow> v = w"
  by (auto simp: b64_char_def split: if_splits)

lemma rstrip_pad_Cons: "c \<noteq> 61 \<Longrightarrow> rstrip_pad (c # s) = c # rstrip_pad s"
  by (auto simp: rstrip_pad_def dropWhile_append)

lemma b64_char_not_pad [simp]: "b64_char v \<noteq> 61" if "v < 64"
  using that by (auto simp: b64_char_def)

lemma byte_parts:
  "unat (b :: byte) div 4 < 64" "unat b div 16 < 16" "unat b div 64 < 4" "unat b mod 4 < 4" "unat b mod 16 < 16"
  "unat b mod 64 < 64"
  using unat_byte_less [of b] by (simp_all add: less_mult_imp_div_less)

lemma sextets:
  "unat (a :: byte) mod 4 * 16 + unat (b :: byte) div 16 < 64"
  "unat (b :: byte) mod 16 * 4 + unat (c :: byte) div 64 < 64"
  "unat (a :: byte) mod 4 * 16 < 64" "unat (b :: byte) mod 16 * 4 < 64"
  using byte_parts [of a] byte_parts [of b] byte_parts [of c] by linarith+

lemma two_digits:
  "p * 16 + x = q * 16 + y \<Longrightarrow> x < 16 \<Longrightarrow> y < 16 \<Longrightarrow> p = q \<and> x = y"
  "p * 4 + x = q * 4 + y \<Longrightarrow> x < 4 \<Longrightarrow> y < 4 \<Longrightarrow> p = q \<and> x = y" for p q x y :: nat
  by presburger+

lemma first_byte:
  assumes "unat (a :: byte) div 4 = unat (a' :: byte) div 4"
    "unat a mod 4 * 16 + x = unat a' mod 4 * 16 + x'" "x < 16" "x' < 16"
  shows "a = a' \<and> x = x'"
  using two_digits(1) [OF assms(2-4)] assms(1) by (metis div_mult_mod_eq word_unat_eq_iff)

lemma second_byte:
  assumes "unat (b :: byte) div 16 = unat (b' :: byte) div 16"
    "unat b mod 16 * 4 + x = unat b' mod 16 * 4 + x'" "x < 4" "x' < 4"
  shows "b = b' \<and> x = x'"
  using two_digits(2) [OF assms(2-4)] assms(1) by (metis div_mult_mod_eq word_unat_eq_iff)

lemma third_byte:
  "unat (c :: byte) div 64 = unat (c' :: byte) div 64 \<Longrightarrow> unat c mod 64 = unat c' mod 64 \<Longrightarrow> c = c'"
  by (metis div_mult_mod_eq word_unat_eq_iff)

lemma unpadded_inj:
  "rstrip_pad (urlsafe_b64encode xs) = rstrip_pad (urlsafe_b64encode ys) \<Longrightarrow> length xs = length ys \<Longrightarrow> xs = ys"
proof (induction xs arbitrary: ys rule: urlsafe_b64encode.induct)
  case (1 a b c bs)
  then obtain a' b' c' bs' where ys: "ys = a' # b' # c' # bs'" "length bs = length bs'"
    by (cases ys rule: urlsafe_b64encode.cases) auto
  have eqs: "unat a div 4 = unat a' div 4" "unat a mod 4 * 16 + unat b div 16 = unat a' mod 4 * 16 + unat b' div 16"
    "unat b mod 16 * 4 + unat c div 64 = unat b' mod 16 * 4 + unat c' div 64" "unat c mod 64 = unat c' mod 64"
    and rest: "rstrip_pad (urlsafe_b64encode bs) = rstrip_pad (urlsafe_b64encode bs')"
    using 1(2) by (simp_all add: ys rstrip_pad_Cons sextets byte_parts b64_char_eq)
  have a: "a = a'" and b16: "unat b div 16 = unat b' div 16"
    using first_byte [OF eqs(1,2)] byte_parts by auto
  have b: "b = b'" and c64: "unat c div 64 = unat c' div 64"
    using second_byte [OF b16 eqs(3)] byte_parts by auto
  show ?case using a b third_byte [OF c64 eqs(4)] 1(1) [OF rest ys(2)] by (simp add: ys)
next
  case (2 a b)
  then obtain a' b' where ys: "ys = [a', b']"
    by (cases ys rule: urlsafe_b64encode.cases) auto
  have eqs: "unat a div 4 = unat a' div 4" "unat a mod 4 * 16 + unat b div 16 = unat a' mod 4 * 16 + unat b' div 16"
    "unat b mod 16 * 4 = unat b' mod 16 * 4"
    using 2(1) by (simp_all add: ys rstrip_pad_Cons sextets byte_parts b64_char_eq)
  have a: "a = a'" and b16: "unat b div 16 = unat b' div 16"
    using first_byte [OF eqs(1,2)] byte_parts by auto
  show ?case using a second_byte [OF b16, of 0 0] eqs(3) by (simp add: ys)
next
  case (3 a)
  then obtain a' where ys: "ys = [a']" by (cases ys rule: urlsafe_b64encode.cases) auto
  have eqs: "unat a div 4 = unat a' div 4" "unat a mod 4 * 16 = unat a' mod 4 * 16"
    using 3(1) by (simp_all add: ys rstrip_pad_Cons sextets byte_parts b64_char_eq)
  then show ?case using first_byte [OF eqs(1), of 0 0] by (simp add: ys)
qed simp

subsection \<open>Hashes of tokens\<close>

text \<open>\<open>str.encode("utf-8")\<close>; a surrogate raises.\<close>

definition utf8_char :: "nat \<Rightarrow> nat list" where
  "utf8_char c =
     (if c < 0x80 then [c]
      else if c < 0x800 then [0xC0 + c div 64, 0x80 + c mod 64]
      else if c < 0x10000 then [0xE0 + c div 4096, 0x80 + c div 64 mod 64, 0x80 + c mod 64]
      else [0xF0 + c div 262144, 0x80 + c div 4096 mod 64, 0x80 + c div 64 mod 64, 0x80 + c mod 64])"

definition encode_utf8 :: "pystr \<Rightarrow> byte list option" where
  "encode_utf8 s =
     (if list_ex (\<lambda>c. 0xD800 \<le> c \<and> c \<le> 0xDFFF) s then None
      else Some (map of_nat (concat (map utf8_char s))))"

text \<open>\<open>bytes.hex\<close>, the form of \<open>hexdigest\<close>.\<close>

definition hex_of_bytes :: "byte list \<Rightarrow> pystr" where
  "hex_of_bytes bs = py (concat (map (\<lambda>b. [hex_digit (unat b div 16), hex_digit (unat b mod 16)]) bs))"

definition sha256_hex :: "(byte list \<Rightarrow> byte list) \<Rightarrow> pystr \<Rightarrow> pystr option" where
  "sha256_hex sha256 raw_token = map_option (\<lambda>bs. hex_of_bytes (sha256 bs)) (encode_utf8 raw_token)"

definition hash_refresh_token :: "(byte list \<Rightarrow> byte list) \<Rightarrow> pystr \<Rightarrow> pystr option" where
  "hash_refresh_token sha256 raw_token = sha256_hex sha256 raw_token"

definition hash_reset_token :: "(byte list \<Rightarrow> byte list) \<Rightarrow> pystr \<Rightarrow> pystr option" where
  "hash_reset_token sha256 raw_token = sha256_hex sha256 raw_token"

definition hash_invite_token :: "(byte list \<Rightarrow> byte list) \<Rightarrow> pystr \<Rightarrow> pystr option" where
  "hash_invite_token sha256 raw_token = sha256_hex sha256 raw_token"

definition hash_rate_limit_identifier :: "(byte list \<Rightarrow> byte list) \<Rightarrow> pystr \<Rightarrow> pystr option" where
  "hash_rate_limit_identifier sha256 raw_identifier = sha256_hex sha256 raw_identifier"

text \<open>Decoding, to show that nothing is lost.\<close>

fun utf8_decode :: "nat list \<Rightarrow> nat list" where
  "utf8_decode [] = []"
| "utf8_decode (b # bs) =
     (if b < 0x80 then b # utf8_decode bs
      else if b < 0xE0 then ((b - 0xC0) * 64 + (bs ! 0 - 0x80)) # utf8_decode (drop 1 bs)
      else if b < 0xF0
      then ((b - 0xE0) * 4096 + (bs ! 0 - 0x80) * 64 + (bs ! 1 - 0x80)) # utf8_decode (drop 2 bs)
      else ((b - 0xF0) * 262144 + (bs ! 0 - 0x80) * 4096 + (bs ! 1 - 0x80) * 64 + (bs ! 2 - 0x80))
             # utf8_decode (drop 3 bs))"

lemma utf8_decode_char: "c < 0x110000 \<Longrightarrow> utf8_decode (utf8_char c @ bs) = c # utf8_decode bs"
proof -
  assume "c < 0x110000"
  have quot: "c div 4096 = c div 64 div 64" "c div 262144 = c div 64 div 64 div 64"
    by (simp_all add: div_mult2_eq [symmetric])
  have step: "c div 64 * 64 + c mod 64 = c" "c div 4096 * 64 + c div 64 mod 64 = c div 64"
    "c div 262144 * 64 + c div 4096 mod 64 = c div 4096"
    unfolding quot by (rule div_mult_mod_eq)+
  have "c div 4096 * 4096 + c div 64 mod 64 * 64 + c mod 64 = c"
    "c div 262144 * 262144 + c div 4096 mod 64 * 4096 + c div 64 mod 64 * 64 + c mod 64 = c"
    using step by linarith+
  then show ?thesis using \<open>c < 0x110000\<close> by (auto simp: utf8_char_def)
qed

lemma utf8_decode_encode: "\<forall>c\<in>set s. c < 0x110000 \<Longrightarrow> utf8_decode (concat (map utf8_char s)) = s"
  by (induction s) (simp_all add: utf8_decode_char)

lemma utf8_char_bytes: "c < 0x110000 \<Longrightarrow> b \<in> set (utf8_char c) \<Longrightarrow> b < 256"
proof -
  assume "c < 0x110000" "b \<in> set (utf8_char c)"
  moreover have "c mod 64 < 64" "c div 64 mod 64 < 64" "c div 4096 mod 64 < 64" by simp_all
  ultimately show ?thesis by (auto simp: utf8_char_def split: if_splits)
qed

definition code_points :: "pystr \<Rightarrow> bool" where
  "code_points s \<longleftrightarrow> (\<forall>c\<in>set s. c < 0x110000)"

lemma encode_utf8_inj:
  assumes "encode_utf8 s = Some bs" "encode_utf8 t = Some bs" "code_points s" "code_points t"
  shows "s = t"
proof -
  have bytes: "\<forall>b\<in>set (concat (map utf8_char u)). b < 256" if "code_points u" for u
    using that utf8_char_bytes by (auto simp: code_points_def)
  have undo: "map unat bs = concat (map utf8_char u)" if "encode_utf8 u = Some bs" "code_points u" for u
    using that bytes [OF that(2)]
    by (auto simp: encode_utf8_def unat_of_nat_byte comp_def intro!: map_idI split: if_splits)
  show ?thesis
    using undo [OF assms(1,3)] undo [OF assms(2,4)] utf8_decode_encode assms(3,4) by (metis code_points_def)
qed

lemma hex_of_bytes_inj: "hex_of_bytes xs = hex_of_bytes ys \<Longrightarrow> xs = ys"
proof -
  have same: "a = b" if "hex_digit (unat a div 16) = hex_digit (unat b div 16)"
    "hex_digit (unat a mod 16) = hex_digit (unat b mod 16)" for a b :: byte
    using that by (simp add: hex_digit_eq_iff byte_parts) (metis div_mult_mod_eq word_unat_eq_iff)
  assume "hex_of_bytes xs = hex_of_bytes ys"
  then have "concat (map (\<lambda>b. [hex_digit (unat b div 16), hex_digit (unat b mod 16)]) xs)
      = concat (map (\<lambda>b. [hex_digit (unat b div 16), hex_digit (unat b mod 16)]) ys)"
    by (simp add: hex_of_bytes_def inj_map_eq_map [OF inj_of_char])
  then show ?thesis
  proof (induction xs arbitrary: ys)
    case Nil
    then show ?case by (cases ys) simp_all
  next
    case (Cons x xs)
    then show ?case by (cases ys) (auto dest: same)
  qed
qed

text \<open>Two texts whose own bytes SHA-256 maps to one digest.\<close>

definition collision :: "(byte list \<Rightarrow> byte list) \<Rightarrow> pystr \<Rightarrow> pystr \<Rightarrow> bool" where
  "collision sha256 s t \<longleftrightarrow>
     encode_utf8 s \<noteq> encode_utf8 t \<and> map_option sha256 (encode_utf8 s) = map_option sha256 (encode_utf8 t)"

lemma sha256_hex_inj:
  assumes "sha256_hex sha256 s = Some h" "sha256_hex sha256 t = Some h" "code_points s" "code_points t"
  shows "s = t \<or> collision sha256 s t"
proof -
  obtain x y where "encode_utf8 s = Some x" "encode_utf8 t = Some y" "sha256 x = sha256 y"
    using assms(1,2) by (auto simp: sha256_hex_def dest: hex_of_bytes_inj)
  then show ?thesis using encode_utf8_inj [of s x t] assms(3,4) by (auto simp: collision_def)
qed

lemma urlsafe_chars: "c \<in> set (urlsafe_b64encode bs) \<Longrightarrow> b64_alphabet c \<or> c = 61"
  by (induction bs rule: urlsafe_b64encode.induct) (auto simp: b64_alphabet_char sextets byte_parts)

lemma token_chars: "c \<in> set (token_urlsafe n r) \<Longrightarrow> c < 128"
proof -
  assume "c \<in> set (token_urlsafe n r)"
  then have "c \<in> set (urlsafe_b64encode (r n))"
    by (auto simp: token_urlsafe_def rstrip_pad_def dest: set_dropWhileD)
  from urlsafe_chars [OF this] show ?thesis by (auto simp: b64_alphabet_def)
qed

lemma token_code_points: "code_points (token_urlsafe n r)"
  by (auto simp: code_points_def dest!: token_chars)

lemma token_encodes: "encode_utf8 (token_urlsafe n r) \<noteq> None"
  by (auto simp: encode_utf8_def list_ex_iff dest!: token_chars)

text \<open>
  A stored hash identifies its token: every generated token has a hash, tokens drawn from
  different random bytes are different, and whatever text is presented, it has the hash of a
  stored token only if it is that token, unless the two collide under SHA-256.
\<close>

theorem stored_hash_identifies_token:
  assumes "length (r1 32) = 32" "length (r2 32) = 32" "code_points presented"
  shows "hash_refresh_token sha256 (generate_raw_refresh_token r1) \<noteq> None
    \<and> (generate_raw_refresh_token r1 = generate_raw_refresh_token r2 \<longrightarrow> r1 32 = r2 32)
    \<and> (hash_refresh_token sha256 presented = hash_refresh_token sha256 (generate_raw_refresh_token r1) \<longrightarrow>
         presented = generate_raw_refresh_token r1 \<or> collision sha256 presented (generate_raw_refresh_token r1))
    \<and> hash_invite_token sha256 presented = hash_refresh_token sha256 presented
    \<and> hash_reset_token sha256 presented = hash_refresh_token sha256 presented"
proof -
  obtain h where h: "hash_refresh_token sha256 (generate_raw_refresh_token r1) = Some h"
    using token_encodes [of 32 r1] by (auto simp: hash_refresh_token_def sha256_hex_def generate_raw_refresh_token_def)
  have "r1 32 = r2 32" if "generate_raw_refresh_token r1 = generate_raw_refresh_token r2"
    using that assms(1,2) by (auto simp: generate_raw_refresh_token_def token_urlsafe_def intro: unpadded_inj)
  moreover have "presented = generate_raw_refresh_token r1 \<or> collision sha256 presented (generate_raw_refresh_token r1)"
    if "hash_refresh_token sha256 presented = hash_refresh_token sha256 (generate_raw_refresh_token r1)"
    using that h assms(3) token_code_points [of 32 r1] sha256_hex_inj [of sha256 presented h "token_urlsafe 32 r1"]
    by (simp add: hash_refresh_token_def generate_raw_refresh_token_def)
  ultimately show ?thesis using h by (simp add: hash_invite_token_def hash_reset_token_def hash_refresh_token_def)
qed

subsection \<open>Passwords\<close>

text \<open>\<open>pwd_context.hash\<close> and \<open>.verify\<close>; the latter raises \<open>ValueError\<close> (\<open>Inl\<close>) on a text that is
  no hash.\<close>

definition hash_with_context :: "(pystr \<Rightarrow> pystr) \<Rightarrow> pystr \<Rightarrow> pystr" where
  "hash_with_context context_hash password = context_hash password"

definition verify_password :: "(pystr \<Rightarrow> pystr \<Rightarrow> pystr + bool) \<Rightarrow> pystr \<Rightarrow> pystr \<Rightarrow> bool" where
  "verify_password context_verify password password_hash =
     (case context_verify password password_hash of Inr b \<Rightarrow> b | Inl value_error \<Rightarrow> False)"

text \<open>A stored text that is no hash lets nobody in.\<close>

lemma corrupt_hash_fails_closed:
  assumes "verify env = verify_password context_verify"
    "find_user_by_email env email d = Some u" "context_verify password (u_hashed_password u) = Inl e"
  shows "authenticate_and_login env f email password ua ip d = Inl InvalidCredentialsError"
  using assms by (simp add: authenticate_and_login_def verify_password_def check_def)

subsection \<open>The address of the caller\<close>

text \<open>\<open>ipaddress.ip_address\<close>: an IPv4 address is four decimal octets without leading zeros.\<close>

definition ipv4_octet :: "pystr \<Rightarrow> bool" where
  "ipv4_octet t \<longleftrightarrow>
     t \<noteq> [] \<and> list_all (\<lambda>c. 48 \<le> c \<and> c \<le> 57) t \<and> length t \<le> 3 \<and> (t = [48] \<or> hd t \<noteq> 48) \<and>
     foldl (\<lambda>n c. 10 * n + (c - 48)) 0 t \<le> 255"

definition ipv4_address :: "pystr \<Rightarrow> bool" where
  "ipv4_address s \<longleftrightarrow>
     (let octets = split_on 46 s in 47 \<notin> set s \<and> length octets = 4 \<and> list_all ipv4_octet octets)"

definition ipv6_hextet :: "pystr \<Rightarrow> bool" where
  "ipv6_hextet t \<longleftrightarrow>
     t \<noteq> [] \<and> length t \<le> 4 \<and>
     list_all (\<lambda>c. (48 \<le> c \<and> c \<le> 57) \<or> (65 \<le> c \<and> c \<le> 70) \<or> (97 \<le> c \<and> c \<le> 102)) t"

text \<open>The address without its scope, unless the scope is empty or has another percent sign.\<close>

definition split_scope_id :: "pystr \<Rightarrow> pystr option" where
  "split_scope_id s =
     (case dropWhile (\<lambda>c. c \<noteq> 37) s of
        [] \<Rightarrow> Some s
      | sep # scope_id \<Rightarrow> if scope_id = [] \<or> 37 \<in> set scope_id then None else Some (takeWhile (\<lambda>c. c \<noteq> 37) s))"

text \<open>A dotted tail counts as two hextets, whose values play no part.\<close>

definition ipv6_parts :: "pystr \<Rightarrow> pystr list option" where
  "ipv6_parts addr =
     (let parts = split_on 58 addr in
      if length parts < 3 then None
      else if 46 \<in> set (last parts)
      then if ipv4_address (last parts) then Some (butlast parts @ [[48], [48]]) else None
      else Some parts)"

text \<open>With a double colon at position \<open>k\<close> the parts before and after it leave at least one out.\<close>

definition ipv6_groups :: "pystr list \<Rightarrow> bool" where
  "ipv6_groups parts \<longleftrightarrow>
     length parts \<le> 9 \<and>
     (case filter (\<lambda>i. parts ! i = []) [1..<length parts - 1] of
        [] \<Rightarrow> length parts = 8 \<and> list_all ipv6_hextet parts
      | [k] \<Rightarrow>
          (let hi = (if hd parts = [] then k - 1 else k);
               lo = (if last parts = [] then length parts - k - 2 else length parts - k - 1)
           in (hd parts = [] \<longrightarrow> hi = 0) \<and> (last parts = [] \<longrightarrow> lo = 0) \<and> hi + lo < 8 \<and>
              list_all ipv6_hextet (take hi parts) \<and> list_all ipv6_hextet (drop (length parts - lo) parts))
      | _ \<Rightarrow> False)"

definition ipv6_address :: "pystr \<Rightarrow> bool" where
  "ipv6_address s \<longleftrightarrow>
     47 \<notin> set s \<and> (case Option.bind (split_scope_id s) ipv6_parts of None \<Rightarrow> False | Some parts \<Rightarrow> ipv6_groups parts)"

definition extract_client_ip :: "pystr option \<Rightarrow> pystr option" where
  "extract_client_ip host =
     (case host of None \<Rightarrow> None | Some h \<Rightarrow> if ipv4_address h \<or> ipv6_address h then Some h else None)"

lemmas ip_defs =
  extract_client_ip_def ipv4_address_def ipv4_octet_def ipv6_address_def ipv6_parts_def ipv6_groups_def
  ipv6_hextet_def split_scope_id_def

lemma addresses:
  "extract_client_ip (Some (py ''127.0.0.1'')) = Some (py ''127.0.0.1'')"
  "extract_client_ip (Some (py ''::1'')) = Some (py ''::1'')"
  "extract_client_ip (Some (py ''2001:db8::a:1'')) = Some (py ''2001:db8::a:1'')"
  "extract_client_ip (Some (py ''::ffff:10.0.0.1'')) = Some (py ''::ffff:10.0.0.1'')"
  "extract_client_ip (Some (py ''testclient'')) = None" "extract_client_ip (Some (py ''10.0.0.01'')) = None"
  "extract_client_ip (Some (py ''1::2::3'')) = None" "extract_client_ip (Some (py ''10.0.0.256'')) = None"
  by code_simp+

text \<open>Whose bucket an attempt takes from: with hashes of one length, the address and the hash of the
  identifier as it was typed.\<close>

lemma subject_identifies:
  assumes "length (hash s) = length (hash t)"
  shows "auth_rate_limit_subject hash a s = auth_rate_limit_subject hash b t \<longleftrightarrow> a = b \<and> hash s = hash t"
  using assms by (auto simp: auth_rate_limit_subject_def)

text \<open>So every spelling of an email has a bucket of its own, but all of them try one account.\<close>

lemma spellings_share_the_account:
  assumes "py_lower env (py_strip s) = py_lower env (py_strip t)"
  shows "authenticate_and_login env f s password ua ip d = authenticate_and_login env f t password ua ip d"
  using assms by (simp add: authenticate_and_login_def find_user_by_email_def)

lemma stored_hash_identifies_token_witness:
  "hash_refresh_token id (generate_raw_refresh_token (\<lambda>n. replicate n 7)) \<noteq> None
    \<and> generate_raw_refresh_token (\<lambda>n. replicate n 7) \<noteq> generate_raw_refresh_token (\<lambda>n. replicate n 8)"
  using stored_hash_identifies_token [of "\<lambda>n. replicate n 7" "\<lambda>n. replicate n 8" "[]" id]
  by (simp add: code_points_def)

end
