(* ===== verification/Redaction.thy ===== *)
theory Redaction
  imports Values
begin

text \<open>
  What may reach a log line or the error monitor: the redaction guard (\<^verbatim>\<open>core/redact.py\<close>), the
  JSON log formatter (\<^verbatim>\<open>core/logging.py\<close>) and the scrubbing of error events
  (\<^verbatim>\<open>core/error_monitor.py\<close>).  \<open>lower\<close> is \<open>str.lower\<close> and \<open>alnum\<close> is \<open>str.isalnum\<close> outside
  ASCII; the error monitor itself is not under \<^verbatim>\<open>src\<close> and appears only as what it is handed.
\<close>

subsection \<open>Python values\<close>

datatype pyval =
    PNone
  | PBool bool
  | PInt int
  | PStr pystr
  | PList "pyval list"
  | PTuple "pyval list"
  | PDict "(pystr \<times> pyval) list"
  | POther pystr

definition REDACTED :: pystr where
  "REDACTED = py ''[REDACTED]''"

definition sensitive_keys :: "string list" where
  "sensitive_keys =
     [''password'', ''hashed_password'', ''token'', ''access_token'', ''refresh_token'',
      ''refresh_token_hash'', ''invite_token'', ''invite_token_hash'', ''reset_token'',
      ''reset_token_hash'', ''token_hash'', ''authorization'', ''jwt'', ''jwt_signing_key'',
      ''signing_key'', ''sid'', ''content'', ''message_content'', ''message_body'', ''text'',
      ''username'', ''email'', ''first_name'', ''last_name'', ''avatar_url'', ''last_seen'',
      ''recipient_id'', ''filename'', ''ip_address'', ''user_agent'']"

text \<open>An underscore goes in front of every capital but the first character.\<close>

fun normalize_key :: "(pystr \<Rightarrow> pystr) \<Rightarrow> pystr \<Rightarrow> pystr" where
  "normalize_key lower [] = lower []"
| "normalize_key lower (c # cs) =
     lower (c # concat (map (\<lambda>d. if 65 \<le> d \<and> d \<le> 90 then [95, d] else [d]) cs))"

definition is_sensitive_key :: "(pystr \<Rightarrow> pystr) \<Rightarrow> pystr \<Rightarrow> bool" where
  "is_sensitive_key lower key \<longleftrightarrow> normalize_key lower key \<in> py ` set sensitive_keys"

subsection \<open>Tokens in free text\<close>

definition token_char :: "nat \<Rightarrow> bool" where
  "token_char c \<longleftrightarrow> 65 \<le> c \<and> c \<le> 90 \<or> 97 \<le> c \<and> c \<le> 122 \<or> 48 \<le> c \<and> c \<le> 57 \<or> c = 95 \<or> c = 45"

text \<open>\<open>\w\<close> and \<open>\b\<close>.\<close>

definition word_char :: "(nat \<Rightarrow> bool) \<Rightarrow> nat \<Rightarrow> bool" where
  "word_char alnum c \<longleftrightarrow> (if c < 128 then token_char c \<and> c \<noteq> 45 else alnum c)"

definition word_boundary :: "(nat \<Rightarrow> bool) \<Rightarrow> nat option \<Rightarrow> nat option \<Rightarrow> bool" where
  "word_boundary alnum before after \<longleftrightarrow>
     (case before of None \<Rightarrow> False | Some c \<Rightarrow> word_char alnum c) \<noteq>
     (case after of None \<Rightarrow> False | Some c \<Rightarrow> word_char alnum c)"

definition first_of :: "'a list \<Rightarrow> 'a option" where
  "first_of s = (case s of [] \<Rightarrow> None | c # cs \<Rightarrow> Some c)"

text \<open>The last segment: the longest stretch of at least eight token characters that ends at a
  boundary; \<open>j\<close> counts down.\<close>

fun last_segment :: "(nat \<Rightarrow> bool) \<Rightarrow> pystr \<Rightarrow> nat \<Rightarrow> nat option" where
  "last_segment alnum s 0 = None"
| "last_segment alnum s (Suc j) =
     (if Suc j < 8 then None
      else if word_boundary alnum (Some (s ! j)) (first_of (drop (Suc j) s)) then Some (Suc j)
      else last_segment alnum s j)"

text \<open>The length of a match of the token pattern at the start of \<open>s\<close>, after the character
  \<open>before\<close>; a dot is no token character, so the first two segments are whole runs.\<close>

definition jwt_match :: "(nat \<Rightarrow> bool) \<Rightarrow> nat option \<Rightarrow> pystr \<Rightarrow> nat option" where
  "jwt_match alnum before s =
     (let n1 = length (takeWhile token_char s); s1 = drop n1 s;
          n2 = length (takeWhile token_char (tl s1)); s2 = drop n2 (tl s1) in
      if n1 < 8 \<or> first_of s1 \<noteq> Some 46 \<or> n2 < 8 \<or> first_of s2 \<noteq> Some 46 \<or>
         \<not> word_boundary alnum before (first_of s)
      then None
      else map_option (\<lambda>n3. n1 + 1 + n2 + 1 + n3)
             (last_segment alnum (tl s2) (length (takeWhile token_char (tl s2)))))"

function jwt_sub :: "(nat \<Rightarrow> bool) \<Rightarrow> nat option \<Rightarrow> pystr \<Rightarrow> pystr" where
  "jwt_sub alnum before [] = []"
| "jwt_sub alnum before (c # cs) =
     (case jwt_match alnum before (c # cs) of
        None \<Rightarrow> c # jwt_sub alnum (Some c) cs
      | Some n \<Rightarrow> REDACTED @ jwt_sub alnum (Some ((c # cs) ! (n - 1))) (drop n (c # cs)))"
  by pat_completeness auto
termination
  by (relation "measure (\<lambda>(alnum, before, s). length s)")
    (auto simp: jwt_match_def Let_def split: if_splits)

definition redact_text :: "(nat \<Rightarrow> bool) \<Rightarrow> pystr \<Rightarrow> pystr" where
  "redact_text alnum text = jwt_sub alnum None text"

subsection \<open>Redaction of values\<close>

lemma pyval_size_dict: "kv \<in> set kvs \<Longrightarrow> size (snd kv) < size (PDict kvs)"
  by (induction kvs) (auto simp: size_prod_def split: prod.split)

lemma pyval_size_list: "v \<in> set vs \<Longrightarrow> size v < size (PList vs)"
  by (induction vs) auto

function redact_value :: "(pystr \<Rightarrow> pystr) \<Rightarrow> (nat \<Rightarrow> bool) \<Rightarrow> pystr \<Rightarrow> pyval \<Rightarrow> pyval" where
  "redact_value lower alnum key value =
     (if is_sensitive_key lower key then PStr REDACTED
      else case value of
        PDict kvs \<Rightarrow> PDict (map (\<lambda>kv. (fst kv, redact_value lower alnum (fst kv) (snd kv))) kvs)
      | PList vs \<Rightarrow> PList (map (\<lambda>v. redact_value lower alnum key v) vs)
      | PTuple vs \<Rightarrow> PList (map (\<lambda>v. redact_value lower alnum key v) vs)
      | PStr s \<Rightarrow> PStr (redact_text alnum s)
      | v \<Rightarrow> v)"
  by pat_completeness auto

termination
  by (relation "measure (\<lambda>(lower, alnum, key, value). size value)")
    (auto dest: pyval_size_dict pyval_size_list)

declare redact_value.simps [simp del]

definition redact_mapping :: "(pystr \<Rightarrow> pystr) \<Rightarrow> (nat \<Rightarrow> bool) \<Rightarrow> (pystr \<times> pyval) list \<Rightarrow> (pystr \<times> pyval) list" where
  "redact_mapping lower alnum data = map (\<lambda>(key, value). (key, redact_value lower alnum key value)) data"

subsection \<open>The log line\<close>

record log_record =
  lg_level :: pystr
  lg_logger :: pystr
  lg_message :: pystr
  lg_dict :: "(pystr \<times> pyval) list"
  lg_exc :: "pystr option"

definition reserved_log_record_attrs :: "string list" where
  "reserved_log_record_attrs =
     [''name'', ''msg'', ''args'', ''levelname'', ''levelno'', ''pathname'', ''filename'', ''module'',
      ''exc_info'', ''exc_text'', ''stack_info'', ''lineno'', ''funcName'', ''created'', ''msecs'',
      ''relativeCreated'', ''thread'', ''threadName'', ''processName'', ''process'', ''taskName'']"

fun dict_put :: "pystr \<Rightarrow> pyval \<Rightarrow> (pystr \<times> pyval) list \<Rightarrow> (pystr \<times> pyval) list" where
  "dict_put k v [] = [(k, v)]"
| "dict_put k v (kv # kvs) = (if fst kv = k then (k, v) # kvs else kv # dict_put k v kvs)"

definition dict_update :: "string \<Rightarrow> (pyval \<Rightarrow> pyval) \<Rightarrow> (pystr \<times> pyval) list \<Rightarrow> (pystr \<times> pyval) list" where
  "dict_update k f = map (\<lambda>kv. if fst kv = py k then (fst kv, f (snd kv)) else kv)"

definition dict_pop :: "string \<Rightarrow> (pystr \<times> pyval) list \<Rightarrow> (pystr \<times> pyval) list" where
  "dict_pop k = filter (\<lambda>kv. fst kv \<noteq> py k)"

fun add_extras ::
  "(pystr \<Rightarrow> pystr) \<Rightarrow> (nat \<Rightarrow> bool) \<Rightarrow> (pystr \<times> pyval) list \<Rightarrow> (pystr \<times> pyval) list \<Rightarrow> (pystr \<times> pyval) list" where
  "add_extras lower alnum [] payload = payload"
| "add_extras lower alnum ((key, value) # rest) payload =
     add_extras lower alnum rest
       (if key \<in> py ` set reserved_log_record_attrs \<or> key \<in> fst ` set payload then payload
        else payload @ [(key, redact_value lower alnum key value)])"

definition format_record ::
  "(pystr \<Rightarrow> pystr) \<Rightarrow> (nat \<Rightarrow> bool) \<Rightarrow> pystr \<Rightarrow> pystr option \<Rightarrow> log_record \<Rightarrow> (pystr \<times> pyval) list" where
  "format_record lower alnum timestamp correlation_id r =
     (let payload = add_extras lower alnum (lg_dict r)
            [(py ''timestamp'', PStr timestamp), (py ''level'', PStr (lg_level r)),
             (py ''logger'', PStr (lg_logger r)), (py ''message'', PStr (redact_text alnum (lg_message r))),
             (py ''correlation_id'', case correlation_id of None \<Rightarrow> PNone | Some c \<Rightarrow> PStr c)]
      in case lg_exc r of None \<Rightarrow> payload | Some type_name \<Rightarrow> dict_put (py ''exc_type'') (PStr type_name) payload)"

subsection \<open>Events for the error monitor\<close>

fun scrub_frame :: "pyval \<Rightarrow> pyval" where
  "scrub_frame (PDict kvs) = PDict (dict_pop ''vars'' kvs)"
| "scrub_frame v = v"

fun scrub_frames :: "pyval \<Rightarrow> pyval" where
  "scrub_frames (PList frames) = PList (map scrub_frame frames)"
| "scrub_frames v = v"

fun scrub_stacktrace_frames :: "pyval \<Rightarrow> pyval" where
  "scrub_stacktrace_frames (PDict kvs) = PDict (dict_update ''frames'' scrub_frames kvs)"
| "scrub_stacktrace_frames v = v"

fun scrub_text :: "(nat \<Rightarrow> bool) \<Rightarrow> pyval \<Rightarrow> pyval" where
  "scrub_text alnum (PStr s) = PStr (redact_text alnum s)"
| "scrub_text alnum v = v"

fun scrub_exception :: "(nat \<Rightarrow> bool) \<Rightarrow> pyval \<Rightarrow> pyval" where
  "scrub_exception alnum (PDict kvs) =
     PDict (dict_update ''stacktrace'' scrub_stacktrace_frames (dict_update ''value'' (scrub_text alnum) kvs))"
| "scrub_exception alnum v = v"

fun scrub_thread :: "pyval \<Rightarrow> pyval" where
  "scrub_thread (PDict kvs) = PDict (dict_update ''stacktrace'' scrub_stacktrace_frames kvs)"
| "scrub_thread v = v"

fun scrub_each :: "(pyval \<Rightarrow> pyval) \<Rightarrow> pyval \<Rightarrow> pyval" where
  "scrub_each f (PList vs) = PList (map f vs)"
| "scrub_each f v = v"

fun scrub_values :: "(pyval \<Rightarrow> pyval) \<Rightarrow> pyval \<Rightarrow> pyval" where
  "scrub_values f (PDict kvs) = PDict (dict_update ''values'' (scrub_each f) kvs)"
| "scrub_values f v = v"

fun scrub_extra :: "(pystr \<Rightarrow> pystr) \<Rightarrow> (nat \<Rightarrow> bool) \<Rightarrow> pyval \<Rightarrow> pyval" where
  "scrub_extra lower alnum (PDict kvs) = PDict (redact_mapping lower alnum kvs)"
| "scrub_extra lower alnum v = v"

definition scrub_event :: "(pystr \<Rightarrow> pystr) \<Rightarrow> (nat \<Rightarrow> bool) \<Rightarrow> (pystr \<times> pyval) list \<Rightarrow> (pystr \<times> pyval) list" where
  "scrub_event lower alnum event =
     dict_update ''threads'' (scrub_values scrub_thread)
       (dict_update ''exception'' (scrub_values (scrub_exception alnum))
         (dict_update ''message'' (scrub_text alnum)
           (dict_update ''extra'' (scrub_extra lower alnum) (dict_pop ''request'' event))))"

text \<open>The monitor: configured exactly if a data source name is set, the package is there and
  accepts it; an exception is handed over only then.\<close>

definition configure_error_monitor :: "pystr option \<Rightarrow> bool \<Rightarrow> bool \<Rightarrow> bool" where
  "configure_error_monitor dsn installed accepts \<longleftrightarrow>
     (case dsn of None \<Rightarrow> False | Some d \<Rightarrow> py_strip d \<noteq> [] \<and> installed \<and> accepts)"

definition capture_exception :: "bool \<Rightarrow> 'e \<Rightarrow> 'e list \<Rightarrow> 'e list" where
  "capture_exception configured exc sent = (if configured then sent @ [exc] else sent)"

subsection \<open>Secrets do not reach a line\<close>

text \<open>\<open>blank\<close> forgets every value under a sensitive key.\<close>

function blank :: "(pystr \<Rightarrow> pystr) \<Rightarrow> pystr \<Rightarrow> pyval \<Rightarrow> pyval" where
  "blank lower key value =
     (if is_sensitive_key lower key then PNone
      else case value of
        PDict kvs \<Rightarrow> PDict (map (\<lambda>kv. (fst kv, blank lower (fst kv) (snd kv))) kvs)
      | PList vs \<Rightarrow> PList (map (\<lambda>v. blank lower key v) vs)
      | PTuple vs \<Rightarrow> PTuple (map (\<lambda>v. blank lower key v) vs)
      | v \<Rightarrow> v)"
  by pat_completeness auto
termination
  by (relation "measure (\<lambda>(lower, key, value). size value)")
    (auto dest: pyval_size_dict pyval_size_list)

declare blank.simps [simp del]

lemma redact_blank: "redact_value lower alnum key (blank lower key v) = redact_value lower alnum key v"
proof (induction lower key v rule: blank.induct)
  case (1 lower key v)
  show ?case
  proof (cases "is_sensitive_key lower key")
    case True
    then show ?thesis by (simp add: redact_value.simps)
  next
    case False
    then show ?thesis
      using 1 by (cases v) (auto simp: redact_value.simps [of _ _ key] blank.simps [of _ key])
  qed
qed

definition blank_record :: "(pystr \<Rightarrow> pystr) \<Rightarrow> log_record \<Rightarrow> log_record" where
  "blank_record lower r = r\<lparr>lg_dict := map (\<lambda>(key, value). (key, blank lower key value)) (lg_dict r)\<rparr>"

lemma add_extras_blank:
  "add_extras lower alnum (map (\<lambda>(key, value). (key, blank lower key value)) kvs) payload =
   add_extras lower alnum kvs payload"
  by (induction kvs arbitrary: payload) (auto simp: redact_blank)

text \<open>The same for an event: the request and the values under sensitive keys of its extra data.\<close>

fun blank_dict :: "(pystr \<Rightarrow> pystr) \<Rightarrow> pyval \<Rightarrow> pyval" where
  "blank_dict lower (PDict kvs) = PDict (map (\<lambda>(key, value). (key, blank lower key value)) kvs)"
| "blank_dict lower v = v"

definition blank_event :: "(pystr \<Rightarrow> pystr) \<Rightarrow> (pystr \<times> pyval) list \<Rightarrow> (pystr \<times> pyval) list" where
  "blank_event lower event = dict_update ''extra'' (blank_dict lower) (dict_pop ''request'' event)"

text \<open>The frames of an event, those of its exceptions and of its threads.\<close>

definition frame_in :: "(pystr \<times> pyval) list \<Rightarrow> pyval \<Rightarrow> bool" where
  "frame_in event frame \<longleftrightarrow>
     (\<exists>top\<in>{''exception'', ''threads''}. \<exists>tops values entry trace frames.
        (py top, PDict tops) \<in> set event \<and> (py ''values'', PList values) \<in> set tops \<and>
        PDict entry \<in> set values \<and> (py ''stacktrace'', PDict trace) \<in> set entry \<and>
        (py ''frames'', PList frames) \<in> set trace \<and> frame \<in> set frames)"

lemma dict_update_mem:
  "(k, v) \<in> set (dict_update k' f kvs) \<longleftrightarrow> (\<exists>v0. (k, v0) \<in> set kvs \<and> v = (if k = py k' then f v0 else v0))"
  by (force simp: dict_update_def)

lemma dict_pop_mem: "(k, v) \<in> set (dict_pop k' kvs) \<longleftrightarrow> (k, v) \<in> set kvs \<and> k \<noteq> py k'"
  by (auto simp: dict_pop_def)

lemma dict_update_twice: "dict_update k f (dict_update k g kvs) = dict_update k (f \<circ> g) kvs"
  by (auto simp: dict_update_def)

lemma dict_pop_update: "k \<noteq> k' \<Longrightarrow> dict_pop k (dict_update k' f kvs) = dict_update k' f (dict_pop k kvs)"
  by (induction kvs) (auto simp: dict_update_def dict_pop_def)

lemma scrub_extra_blank: "scrub_extra lower alnum \<circ> blank_dict lower = scrub_extra lower alnum"
proof
  show "(scrub_extra lower alnum \<circ> blank_dict lower) v = scrub_extra lower alnum v" for v
    by (cases v) (auto simp: redact_mapping_def redact_blank)
qed

lemma scrub_event_blank: "scrub_event lower alnum (blank_event lower e) = scrub_event lower alnum e"
proof -
  have "dict_pop ''request'' (dict_pop ''request'' e) = dict_pop ''request'' e" by (simp add: dict_pop_def)
  then show ?thesis
    by (simp add: scrub_event_def blank_event_def dict_pop_update dict_update_twice scrub_extra_blank)
qed

text \<open>Scrubbed frames have no local variables.\<close>

definition bare_frames :: "pyval \<Rightarrow> bool" where
  "bare_frames v \<longleftrightarrow>
     (\<forall>tops values entry trace frames kvs x. v = PDict tops \<longrightarrow> (py ''values'', PList values) \<in> set tops \<longrightarrow>
        PDict entry \<in> set values \<longrightarrow> (py ''stacktrace'', PDict trace) \<in> set entry \<longrightarrow>
        (py ''frames'', PList frames) \<in> set trace \<longrightarrow> PDict kvs \<in> set frames \<longrightarrow> (py ''vars'', x) \<notin> set kvs)"

lemma py_eq_iff: "py a = py b \<longleftrightarrow> a = b"
  by (rule inj_map_eq_map [OF inj_of_char])

lemma bare_frame: "PDict kvs = scrub_frame v \<Longrightarrow> (py ''vars'', x) \<notin> set kvs"
  by (cases v) (auto simp: dict_pop_mem)

lemma bare_frames_list: "PList frames = scrub_frames v \<Longrightarrow> PDict kvs \<in> set frames \<Longrightarrow> (py ''vars'', x) \<notin> set kvs"
  by (cases v) (auto dest: bare_frame)

lemma bare_trace:
  "PDict trace = scrub_stacktrace_frames v \<Longrightarrow> (py ''frames'', PList frames) \<in> set trace \<Longrightarrow> PDict kvs \<in> set frames \<Longrightarrow>
   (py ''vars'', x) \<notin> set kvs"
  by (cases v) (auto simp: dict_update_mem dest: bare_frames_list)

lemma bare_entry:
  assumes "PDict entry = f v" "f = scrub_exception alnum \<or> f = scrub_thread"
    "(py ''stacktrace'', PDict trace) \<in> set entry" "(py ''frames'', PList frames) \<in> set trace" "PDict kvs \<in> set frames"
  shows "(py ''vars'', x) \<notin> set kvs"
  using assms by (cases v) (auto simp: dict_update_mem py_eq_iff dest: bare_trace simp del: list.map)

lemma bare_values:
  assumes "f = scrub_exception alnum \<or> f = scrub_thread"
  shows "bare_frames (scrub_values f v)"
  unfolding bare_frames_def
proof (intro allI impI)
  fix tops vals entry trace frames kvs x
  assume v: "scrub_values f v = PDict tops" and vals: "(py ''values'', PList vals) \<in> set tops" "PDict entry \<in> set vals"
    and rest: "(py ''stacktrace'', PDict trace) \<in> set entry" "(py ''frames'', PList frames) \<in> set trace" "PDict kvs \<in> set frames"
  obtain v0 where "PList vals = scrub_each f v0" using v vals(1) by (cases v) (auto simp: dict_update_mem simp del: list.map)
  then obtain u where "PDict entry = f u" using vals(2) by (cases v0) auto
  then show "(py ''vars'', x) \<notin> set kvs" using bare_entry [OF _ assms rest] by blast
qed

lemma scrubbed_frames:
  assumes "frame_in (scrub_event lower alnum e) (PDict kvs)"
  shows "(py ''vars'', x) \<notin> set kvs"
proof -
  from assms obtain top tops vals entry trace frames where top: "top \<in> {''exception'', ''threads''}"
    "(py top, PDict tops) \<in> set (scrub_event lower alnum e)"
    and path: "(py ''values'', PList vals) \<in> set tops" "PDict entry \<in> set vals"
    "(py ''stacktrace'', PDict trace) \<in> set entry" "(py ''frames'', PList frames) \<in> set trace" "PDict kvs \<in> set frames"
    unfolding frame_in_def by (elim bexE exE conjE) (rule that)
  have "bare_frames (PDict tops)"
    using top bare_values [of "scrub_exception alnum" alnum] bare_values [of scrub_thread alnum]
    by (auto simp: scrub_event_def dict_update_mem py_eq_iff simp del: list.map)
  from this [unfolded bare_frames_def, rule_format, OF refl path] show ?thesis .
qed

text \<open>
  C40. Neither a log line nor a reported event depends on secrets: two records that differ only in
  what stands under a sensitive key, at any depth of nested mappings and lists, give the same line;
  two error events that differ only in their request and in what stands under a sensitive key of
  their extra data are reported alike; and a reported event has no request, and no frame of its
  exceptions or threads has local variables.
\<close>

theorem log_line_hides_secrets:
  assumes "blank_record lower r = blank_record lower r'" "blank_event lower e = blank_event lower e'"
  shows "format_record lower alnum timestamp cid r = format_record lower alnum timestamp cid r'
    \<and> scrub_event lower alnum e = scrub_event lower alnum e'
    \<and> (\<forall>v. (py ''request'', v) \<notin> set (scrub_event lower alnum e))
    \<and> (\<forall>kvs x. frame_in (scrub_event lower alnum e) (PDict kvs) \<longrightarrow> (py ''vars'', x) \<notin> set kvs)"
proof -
  have line: "format_record lower alnum timestamp cid r = format_record lower alnum timestamp cid (blank_record lower r)" for r
    by (simp add: format_record_def blank_record_def add_extras_blank)
  moreover have "(py ''request'', v) \<notin> set (scrub_event lower alnum e)" for v
    by (simp add: scrub_event_def dict_update_mem dict_pop_mem py_eq_iff del: list.map)
  moreover have "scrub_event lower alnum e = scrub_event lower alnum e'"
    by (metis assms(2) scrub_event_blank)
  moreover have "format_record lower alnum timestamp cid r = format_record lower alnum timestamp cid r'"
    by (metis assms(1) line)
  ultimately show ?thesis using scrubbed_frames [of lower alnum e] by blast
qed

definition demo_record :: "pystr \<Rightarrow> log_record" where
  "demo_record secret = \<lparr>lg_level = py ''INFO'', lg_logger = py ''app'', lg_message = py ''signed in'',
     lg_dict = [(py ''payload'', PDict [(py ''userId'', PInt 7), (py ''refreshToken'', PStr secret)])], lg_exc = None\<rparr>"

definition demo_event :: "pystr \<Rightarrow> (pystr \<times> pyval) list" where
  "demo_event secret =
     [(py ''request'', PStr secret), (py ''extra'', PDict [(py ''userId'', PInt 7), (py ''token'', PStr secret)])]"

lemma log_line_hides_secrets_witness:
  "format_record ascii_lower (\<lambda>_. False) [] None (demo_record (py ''s3cret'')) =
     format_record ascii_lower (\<lambda>_. False) [] None (demo_record (py ''other''))
   \<and> scrub_event ascii_lower (\<lambda>_. False) (demo_event (py ''s3cret'')) =
     scrub_event ascii_lower (\<lambda>_. False) (demo_event (py ''other''))"
proof -
  have "blank_record ascii_lower (demo_record (py ''s3cret'')) = blank_record ascii_lower (demo_record (py ''other''))"
    by (simp add: blank_record_def demo_record_def blank.simps is_sensitive_key_def sensitive_keys_def ascii_lower_def)
  moreover have "blank_event ascii_lower (demo_event (py ''s3cret'')) = blank_event ascii_lower (demo_event (py ''other''))"
    by (simp add: blank_event_def demo_event_def dict_update_def dict_pop_def blank.simps is_sensitive_key_def
        sensitive_keys_def ascii_lower_def)
  ultimately show ?thesis
    using log_line_hides_secrets [where lower = ascii_lower and alnum = "\<lambda>_. False" and timestamp = "[]" and cid = None] by blast
qed

text \<open>Neither capitals nor hyphens are recognised as separators, so these keys pass unredacted.\<close>

lemma keys_that_pass:
  "\<not> is_sensitive_key ascii_lower (py ''PASSWORD'')" "\<not> is_sensitive_key ascii_lower (py ''user-agent'')"
  "\<not> is_sensitive_key ascii_lower (py ''accessTOKEN'')"
  by (simp_all add: is_sensitive_key_def sensitive_keys_def ascii_lower_def)

subsection \<open>Tokens do not reach a line\<close>

text \<open>A character that ends every token: neither part of one, nor a dot, nor a letter.\<close>

definition delimiter :: "(nat \<Rightarrow> bool) \<Rightarrow> nat \<Rightarrow> bool" where
  "delimiter alnum d \<longleftrightarrow> \<not> token_char d \<and> d \<noteq> 46 \<and> \<not> word_char alnum d"

definition run :: "pystr \<Rightarrow> nat" where
  "run s = length (takeWhile token_char s)"

lemma run_append: "\<not> token_char d \<Longrightarrow> run (s @ d # t) = run s"
  by (induction s) (auto simp: run_def)

lemma run_le: "run s \<le> length s"
  by (simp add: run_def length_takeWhile_le)

lemma first_of_Cons [simp]: "first_of (c # s) = Some c"
  by (simp add: first_of_def)

lemma first_of_append: "first_of (s @ d # t) = (case s of [] \<Rightarrow> Some d | c # cs \<Rightarrow> Some c)"
  by (cases s) (auto simp: first_of_def)

text \<open>To the boundary test a delimiter is the end of the text.\<close>

lemma boundary_delimiter:
  "delimiter alnum d \<Longrightarrow> word_boundary alnum b (first_of (s @ d # t)) = word_boundary alnum b (first_of s)"
  by (cases s) (auto simp: word_boundary_def first_of_def delimiter_def)

lemma last_segment_append:
  assumes "delimiter alnum d" "j \<le> length s"
  shows "last_segment alnum (s @ d # t) j = last_segment alnum s j"
  using assms(2)
proof (induction j)
  case (Suc j)
  have "drop (Suc j) (s @ d # t) = drop (Suc j) s @ d # t" using Suc.prems by simp
  then have "word_boundary alnum (Some ((s @ d # t) ! j)) (first_of (drop (Suc j) (s @ d # t))) =
      word_boundary alnum (Some (s ! j)) (first_of (drop (Suc j) s))"
    using Suc.prems boundary_delimiter [OF assms(1)] by (simp add: nth_append)
  then show ?case using Suc by simp
qed simp

lemma jwt_match_append:
  assumes "delimiter alnum d"
  shows "jwt_match alnum before (s @ d # t) = jwt_match alnum before s"
proof -
  have d: "\<not> token_char d" "d \<noteq> 46" using assms by (auto simp: delimiter_def)
  let ?s1 = "drop (run s) s"
  have s1: "drop (run s) (s @ d # t) = ?s1 @ d # t" by (simp add: run_le)
  show ?thesis
  proof (cases "first_of ?s1 = Some 46")
    case False
    then have "first_of (?s1 @ d # t) \<noteq> Some 46" using d(2) by (cases ?s1) (auto simp: first_of_def)
    with False show ?thesis by (simp add: jwt_match_def Let_def run_def [symmetric] run_append [OF d(1)] s1 del: drop_append)
  next
    case True
    then obtain r1 where r1: "?s1 = 46 # r1" by (cases ?s1) (auto simp: first_of_def)
    let ?s2 = "drop (run r1) r1"
    have s2: "drop (run r1) (r1 @ d # t) = ?s2 @ d # t" by (simp add: run_le)
    show ?thesis
    proof (cases "first_of ?s2 = Some 46")
      case False
      then have "first_of (?s2 @ d # t) \<noteq> Some 46" using d(2) by (cases ?s2) (auto simp: first_of_def)
      with False show ?thesis by (simp add: jwt_match_def Let_def run_def [symmetric] run_append [OF d(1)] s1 r1 s2 del: drop_append)
    next
      case True
      then obtain r2 where r2: "?s2 = 46 # r2" by (cases ?s2) (auto simp: first_of_def)
      show ?thesis
        using boundary_delimiter [OF assms, of before s t] last_segment_append [OF assms run_le [of r2], of t]
        by (simp add: jwt_match_def Let_def run_def [symmetric] s1 r1 s2 r2 run_append [OF d(1)] del: drop_append)
    qed
  qed
qed

lemma last_segment_le: "last_segment alnum s j = Some n \<Longrightarrow> n \<le> j"
  by (induction j) (auto split: if_splits)

lemma jwt_match_le: "jwt_match alnum before s = Some n \<Longrightarrow> 0 < n \<and> n \<le> length s"
proof -
  assume m: "jwt_match alnum before s = Some n"
  let ?s1 = "drop (run s) s" let ?s2 = "drop (run (tl ?s1)) (tl ?s1)"
  obtain n3 where n: "n = run s + 1 + run (tl ?s1) + 1 + n3" and ls: "last_segment alnum (tl ?s2) (run (tl ?s2)) = Some n3"
    and ne: "first_of ?s1 = Some 46" "first_of ?s2 = Some 46"
    using m by (auto simp: jwt_match_def Let_def run_def [symmetric] split: if_splits)
  have n3: "n3 \<le> run (tl ?s2)" by (rule last_segment_le [OF ls])
  have "run (tl ?s2) \<le> length (tl ?s2)" by (rule run_le)
  moreover have "length (tl ?s2) = length ?s2 - 1" "length (tl ?s1) = length ?s1 - 1"
    "length ?s2 = length (tl ?s1) - run (tl ?s1)" "length ?s1 = length s - run s" by (simp_all only: length_tl length_drop)
  moreover have "0 < length ?s1" "0 < length ?s2"
    using ne by (auto simp: first_of_def simp del: length_drop split: list.splits)
  ultimately show "0 < n \<and> n \<le> length s" unfolding n using n3 by linarith
qed

text \<open>Text on the two sides of a delimiter is redacted independently.\<close>

lemma jwt_sub_append:
  assumes "delimiter alnum d"
  shows "jwt_sub alnum before (s @ d # t) = jwt_sub alnum before s @ d # jwt_sub alnum (Some d) t"
proof (induction s arbitrary: before rule: length_induct)
  case (1 s)
  show ?case
  proof (cases s)
    case Nil
    have "jwt_match alnum before (d # t) = None"
      using assms by (simp add: jwt_match_def Let_def delimiter_def)
    with Nil show ?thesis by simp
  next
    case (Cons c cs)
    show ?thesis
    proof (cases "jwt_match alnum before s")
      case None
      have "length cs < length s" using Cons by simp
      then have "jwt_sub alnum (Some c) (cs @ d # t) = jwt_sub alnum (Some c) cs @ d # jwt_sub alnum (Some d) t"
        using 1 by blast
      then show ?thesis using None jwt_match_append [OF assms, of before s t] Cons by simp
    next
      case (Some n)
      have n: "0 < n" "n \<le> length s" using jwt_match_le [OF Some] by auto
      then have "length (drop n s) < length s" by simp
      then have "jwt_sub alnum (Some (s ! (n - 1))) (drop n s @ d # t) =
          jwt_sub alnum (Some (s ! (n - 1))) (drop n s) @ d # jwt_sub alnum (Some d) t"
        using 1 by blast
      moreover have "jwt_match alnum before (s @ d # t) = Some n" using Some jwt_match_append [OF assms] by simp
      moreover have "(s @ d # t) ! (n - 1) = s ! (n - 1)" "drop n (s @ d # t) = drop n s @ d # t"
      proof -
        have "n - 1 < length s" using n by linarith
        then show "(s @ d # t) ! (n - 1) = s ! (n - 1)" by (simp only: nth_append if_True)
        show "drop n (s @ d # t) = drop n s @ d # t" using n by simp
      qed
      ultimately show ?thesis using Some unfolding Cons by (simp del: nth_Cons' drop_Cons')
    qed
  qed
qed

text \<open>Three segments of at least eight token characters with dots between; a letter or digit
  begins and ends the token.\<close>

definition token_shaped :: "(nat \<Rightarrow> bool) \<Rightarrow> pystr \<Rightarrow> bool" where
  "token_shaped alnum token \<longleftrightarrow>
     (\<exists>a b c. token = a @ 46 # b @ 46 # c \<and> 8 \<le> length a \<and> 8 \<le> length b \<and> 8 \<le> length c \<and>
        list_all token_char (a @ b @ c) \<and> word_char alnum (hd a) \<and> word_char alnum (last c))"

lemma run_token: "list_all token_char a \<Longrightarrow> run a = length a" "list_all token_char a \<Longrightarrow> run (a @ 46 # t) = length a"
  by (induction a) (auto simp: run_def token_char_def)

lemma jwt_sub_token:
  assumes "token_shaped alnum token" "\<not> (case before of None \<Rightarrow> False | Some d \<Rightarrow> word_char alnum d)"
  shows "jwt_sub alnum before token = REDACTED"
proof -
  from assms(1) obtain a b c where t: "token = a @ 46 # b @ 46 # c" and len: "8 \<le> length a" "8 \<le> length b" "8 \<le> length c"
    and tok: "list_all token_char a" "list_all token_char b" "list_all token_char c"
    and ends: "word_char alnum (hd a)" "word_char alnum (last c)"
    by (auto simp: token_shaped_def)
  obtain x xs where a: "a = x # xs" using len(1) by (cases a) auto
  obtain m where m: "length c = Suc m" using len(3) by (cases "length c") auto
  have "c ! m = last c" using m by (simp add: last_conv_nth flip: length_0_conv)
  then have last: "last_segment alnum c (length c) = Some (length c)"
    using len(3) ends(2) m by (simp add: word_boundary_def first_of_def)
  have start: "word_boundary alnum before (Some x)"
    using assms(2) ends(1) a by (auto simp: word_boundary_def)
  have r: "run token = length a" "run (b @ 46 # c) = length b" "run c = length c"
    using run_token tok unfolding t by simp_all
  have match: "jwt_match alnum before token = Some (length token)"
    using len start last r(2,3) a
    by (simp add: jwt_match_def Let_def run_def [symmetric] r(1)) (simp add: t r(2,3))
  show ?thesis using match a t by (cases token) simp_all
qed

text \<open>
  A token in free text never reaches a line: between characters that end a word, any text
  of the shape of a token (three segments of at least eight characters with dots between) is
  replaced, whatever stands around it, and what stands around it is redacted as if it were alone.
\<close>

theorem tokens_are_redacted:
  assumes "token_shaped alnum token" "delimiter alnum d" "delimiter alnum d'"
  shows "redact_text alnum (before @ d # token @ d' # after) =
      redact_text alnum before @ d # REDACTED @ d' # jwt_sub alnum (Some d') after
    \<and> redact_text alnum (token @ d' # after) = REDACTED @ d' # jwt_sub alnum (Some d') after
    \<and> redact_text alnum token = REDACTED"
proof -
  have "\<not> word_char alnum d" using assms(2) by (simp add: delimiter_def)
  then show ?thesis
    by (simp add: redact_text_def jwt_sub_append [OF assms(2)] jwt_sub_append [OF assms(3)] jwt_sub_token [OF assms(1)])
qed

lemma tokens_are_redacted_witness:
  "redact_text (\<lambda>_. False) (py ''got abcdefgh.ijklmnop.qrstuvwx ok'') = py ''got [REDACTED] ok''"
proof -
  have t: "token_shaped (\<lambda>_. False) (py ''abcdefgh.ijklmnop.qrstuvwx'')"
    unfolding token_shaped_def
    by (rule exI [of _ "py ''abcdefgh''"], rule exI [of _ "py ''ijklmnop''"], rule exI [of _ "py ''qrstuvwx''"])
      (simp add: token_char_def word_char_def)
  have d: "delimiter (\<lambda>_. False) 32" by (simp add: delimiter_def token_char_def word_char_def)
  have around: "redact_text (\<lambda>_. False) (py ''got'') = py ''got''" "jwt_sub (\<lambda>_. False) (Some 32) (py ''ok'') = py ''ok''"
    by (simp_all add: redact_text_def jwt_match_def token_char_def)
  show ?thesis
    using tokens_are_redacted [OF t d d, of "py ''got''" "py ''ok''"] unfolding around by (simp add: REDACTED_def)
qed

end
