(* ===== verification/Metrics.thy ===== *)
theory Metrics
  imports Values Complex_Main "HOL-Library.AList"
begin

text \<open>
  The in-process metrics registry (\<^verbatim>\<open>core/metrics.py\<close>): counters, gauges and histograms, each a
  dictionary from metric names to a dictionary from labels.  The lock makes every call one step.
  Samples are rationals; the rank of a percentile (\<open>rank p n\<close> for \<open>int(round(p * n))\<close>) is
  float arithmetic and a parameter.
\<close>

type_synonym metric_labels = "(string \<times> pystr) list"

definition label_key :: "(string \<times> pystr) list \<Rightarrow> metric_labels" where
  "label_key labels = sort_key fst labels"

definition HISTOGRAM_MAX_SAMPLES :: nat where
  "HISTOGRAM_MAX_SAMPLES = 2000"

record metrics =
  mx_counters :: "(string \<times> (metric_labels \<times> int) list) list"
  mx_gauges :: "(string \<times> (metric_labels \<times> rat) list) list"
  mx_histograms :: "(string \<times> (metric_labels \<times> rat list) list) list"

definition no_metrics :: metrics where
  "no_metrics = \<lparr>mx_counters = [], mx_gauges = [], mx_histograms = []\<rparr>"

text \<open>\<open>d.get(k, v)\<close>.\<close>

definition dict_get :: "('k \<times> 'v) list \<Rightarrow> 'k \<Rightarrow> 'v \<Rightarrow> 'v" where
  "dict_get d k dflt = (case map_of d k of None \<Rightarrow> dflt | Some v \<Rightarrow> v)"

definition increment_counter :: "string \<Rightarrow> int \<Rightarrow> (string \<times> pystr) list \<Rightarrow> metrics \<Rightarrow> metrics" where
  "increment_counter name by labels m =
     (let key = label_key labels; bucket = dict_get (mx_counters m) name []
      in m\<lparr>mx_counters :=
             AList.update name (AList.update key (dict_get bucket key 0 + by) bucket) (mx_counters m)\<rparr>)"

definition set_gauge :: "string \<Rightarrow> rat \<Rightarrow> (string \<times> pystr) list \<Rightarrow> metrics \<Rightarrow> metrics" where
  "set_gauge name v labels m =
     (let bucket = dict_get (mx_gauges m) name []
      in m\<lparr>mx_gauges := AList.update name (AList.update (label_key labels) v bucket) (mx_gauges m)\<rparr>)"

text \<open>Appending to a bounded deque drops its oldest element.\<close>

definition deque_append :: "nat \<Rightarrow> 'a list \<Rightarrow> 'a \<Rightarrow> 'a list" where
  "deque_append maxlen xs x = drop (Suc (length xs) - maxlen) (xs @ [x])"

definition observe_histogram :: "string \<Rightarrow> rat \<Rightarrow> (string \<times> pystr) list \<Rightarrow> metrics \<Rightarrow> metrics" where
  "observe_histogram name v labels m =
     (let key = label_key labels; bucket = dict_get (mx_histograms m) name [];
          samples = dict_get bucket key []
      in m\<lparr>mx_histograms :=
             AList.update name
               (AList.update key (deque_append HISTOGRAM_MAX_SAMPLES samples v) bucket)
               (mx_histograms m)\<rparr>)"

subsection \<open>The snapshot\<close>

fun join_with :: "'a list \<Rightarrow> 'a list list \<Rightarrow> 'a list" where
  "join_with sep [] = []"
| "join_with sep [x] = x"
| "join_with sep (x # y # ys) = x @ sep @ join_with sep (y # ys)"

definition format_label_key :: "metric_labels \<Rightarrow> pystr" where
  "format_label_key key =
     (if key = [] then py ''_total'' else join_with (py '','') (map (\<lambda>(name, v). py name @ py ''='' @ v) key))"

record percentile_summary =
  pc_count :: nat
  pc_p50 :: rat
  pc_p95 :: rat
  pc_p99 :: rat
  pc_max :: rat

definition pct :: "(rat \<Rightarrow> nat \<Rightarrow> nat) \<Rightarrow> rat list \<Rightarrow> rat \<Rightarrow> rat" where
  "pct rank sorted_values p =
     sorted_values ! min (length sorted_values - 1) (rank p (length sorted_values - 1))"

definition percentiles :: "(rat \<Rightarrow> nat \<Rightarrow> nat) \<Rightarrow> rat list \<Rightarrow> percentile_summary" where
  "percentiles rank sorted_values =
     (if sorted_values = []
      then \<lparr>pc_count = 0, pc_p50 = 0, pc_p95 = 0, pc_p99 = 0, pc_max = 0\<rparr>
      else \<lparr>pc_count = length sorted_values, pc_p50 = pct rank sorted_values (1/2),
            pc_p95 = pct rank sorted_values (95/100), pc_p99 = pct rank sorted_values (99/100),
            pc_max = last sorted_values\<rparr>)"

record metrics_snapshot =
  sn_counters :: "(string \<times> (pystr \<times> int) list) list"
  sn_gauges :: "(string \<times> (pystr \<times> rat) list) list"
  sn_histograms :: "(string \<times> (pystr \<times> percentile_summary) list) list"

definition map_buckets :: "('v \<Rightarrow> 'w) \<Rightarrow> (string \<times> (metric_labels \<times> 'v) list) list \<Rightarrow> (string \<times> (pystr \<times> 'w) list) list" where
  "map_buckets f = map (\<lambda>(name, bucket). (name, map (\<lambda>(key, v). (format_label_key key, f v)) bucket))"

definition snapshot :: "(rat \<Rightarrow> nat \<Rightarrow> nat) \<Rightarrow> metrics \<Rightarrow> metrics_snapshot" where
  "snapshot rank m =
     \<lparr>sn_counters = map_buckets (\<lambda>v. v) (mx_counters m), sn_gauges = map_buckets (\<lambda>v. v) (mx_gauges m),
      sn_histograms = map_buckets (\<lambda>samples. percentiles rank (sort samples)) (mx_histograms m)\<rparr>"

subsection \<open>What the registry holds\<close>

definition counter :: "string \<Rightarrow> (string \<times> pystr) list \<Rightarrow> metrics \<Rightarrow> int" where
  "counter name labels m = dict_get (dict_get (mx_counters m) name []) (label_key labels) 0"

definition histogram :: "string \<Rightarrow> (string \<times> pystr) list \<Rightarrow> metrics \<Rightarrow> rat list" where
  "histogram name labels m = dict_get (dict_get (mx_histograms m) name []) (label_key labels) []"

lemma dict_get_update: "dict_get (AList.update k v d) k' dflt = (if k = k' then v else dict_get d k' dflt)"
  by (auto simp: dict_get_def update_conv')

lemma counter_increment [simp]:
  "counter name labels (increment_counter name' by labels' m) =
   counter name labels m + (if name = name' \<and> label_key labels = label_key labels' then by else 0)"
  by (auto simp: counter_def increment_counter_def Let_def dict_get_update)

lemma counter_others [simp]:
  "counter name labels (set_gauge name' v labels' m) = counter name labels m"
  "counter name labels (observe_histogram name' v labels' m) = counter name labels m"
  by (simp_all add: counter_def set_gauge_def observe_histogram_def Let_def)

lemma histogram_observe:
  "histogram name labels (observe_histogram name' v labels' m) =
   (if name = name' \<and> label_key labels = label_key labels'
    then deque_append HISTOGRAM_MAX_SAMPLES (histogram name labels m) v else histogram name labels m)"
  by (auto simp: histogram_def observe_histogram_def Let_def dict_get_update)

text \<open>A bounded deque holds the newest elements.\<close>

lemma deque_append_newest:
  "0 < n \<Longrightarrow> deque_append n (drop (length xs - n) xs) x = drop (length (xs @ [x]) - n) (xs @ [x])"
  by (cases "n \<le> length xs") (auto simp: deque_append_def drop_append Suc_diff_le)

text \<open>Observing samples one after another keeps the last 2000.\<close>

lemma histogram_newest:
  "histogram name labels (fold (\<lambda>v. observe_histogram name v labels) vs no_metrics) =
   drop (length vs - HISTOGRAM_MAX_SAMPLES) vs"
proof (induction vs rule: rev_induct)
  case Nil
  then show ?case by (simp add: histogram_def no_metrics_def dict_get_def)
next
  case (snoc v vs)
  then show ?case
    using deque_append_newest [of HISTOGRAM_MAX_SAMPLES vs v]
    by (simp add: histogram_observe HISTOGRAM_MAX_SAMPLES_def)
qed

text \<open>Every percentile is one of the samples, at most the maximum.\<close>

lemma percentiles_bounded:
  assumes "samples \<noteq> []"
  shows "pct rank (sort samples) p \<in> set samples" "pct rank (sort samples) p \<le> pc_max (percentiles rank (sort samples))"
proof -
  let ?i = "min (length samples - 1) (rank p (length samples - 1))"
  have i: "?i < length (sort samples)" "?i \<le> length samples - 1"
    using assms by (auto simp: min_def)
  have "sort samples ! ?i \<in> set (sort samples)" by (rule nth_mem [OF i(1)])
  then show "pct rank (sort samples) p \<in> set samples" by (simp add: pct_def)
  have "sort samples ! ?i \<le> sort samples ! (length samples - 1)"
    using i assms by (intro sorted_nth_mono) auto
  moreover have "sort samples \<noteq> []" using assms by (metis length_0_conv length_sort)
  ultimately show "pct rank (sort samples) p \<le> pc_max (percentiles rank (sort samples))"
    by (simp add: pct_def percentiles_def last_conv_nth)
qed

end
