(* ===== verification/Problems.thy ===== *)
theory Problems
  imports Redaction Metrics Invites
begin

text \<open>
  What every HTTP request passes through: the correlation id (\<^verbatim>\<open>core/correlation.py\<close>,
  \<^verbatim>\<open>core/middleware.py\<close>), the ceiling on request bodies (\<^verbatim>\<open>core/body_limit.py\<close>) and the
  problem documents that exceptions become (\<^verbatim>\<open>core/errors.py\<close>, \<^verbatim>\<open>core/request_body.py\<close>).
  The application behind it is arbitrary: a program that receives the messages of the request
  body one by one and ends with a response or an exception.  The CORS middleware between them
  only adds headers and is left out, as is a handler that runs after the response has begun.
\<close>

subsection \<open>Correlation ids\<close>

definition MAX_CORRELATION_ID_LEN :: nat where
  "MAX_CORRELATION_ID_LEN = 128"

definition correlation_char :: "nat \<Rightarrow> bool" where
  "correlation_char c \<longleftrightarrow> token_char c \<or> c = 46"

text \<open>The pattern ends in \<open>$\<close>, which also matches before a final newline.\<close>

definition correlation_id_re_match :: "pystr \<Rightarrow> bool" where
  "correlation_id_re_match s \<longleftrightarrow>
     (let token = (if s \<noteq> [] \<and> last s = 10 then butlast s else s)
      in list_all correlation_char token \<and> 1 \<le> length token \<and> length token \<le> MAX_CORRELATION_ID_LEN)"

definition sanitize_correlation_id :: "uuid \<Rightarrow> pystr option \<Rightarrow> pystr" where
  "sanitize_correlation_id fresh v =
     (case v of
        Some s \<Rightarrow> if correlation_id_re_match s then s else py (uuid_hex fresh)
      | None \<Rightarrow> py (uuid_hex fresh))"

subsection \<open>Exceptions\<close>

datatype loc = Loc_Name pystr | Loc_Index nat

fun decimal :: "nat \<Rightarrow> pystr" where
  "decimal n = (if n < 10 then [48 + n] else decimal (n div 10) @ [48 + n mod 10])"

declare decimal.simps [simp del]

definition py_str_int :: "int \<Rightarrow> pystr" where
  "py_str_int i = (if i < 0 then 45 # decimal (nat (- i)) else decimal (nat i))"

fun loc_str :: "loc \<Rightarrow> pystr" where
  "loc_str (Loc_Name s) = s"
| "loc_str (Loc_Index i) = decimal i"

type_synonym field_errors = "(pystr \<times> pystr) list"

text \<open>What a route, a dependency or the framework raises.  A \<open>detail\<close> that is not a string is
  \<open>None\<close>; the last case is every exception without a handler of its own, by its type and text.\<close>

datatype app_exception =
    HTTP_Exception int "pystr option"
  | Request_Validation_Error "(loc list \<times> pystr) list"
  | Password_Policy_Exc password_policy_error
  | Must_Change_Password
  | Registration_Field_Exc "(string \<times> string) list"
  | Malformed_Body_Error field_errors
  | Pagination_Exc pagination_error
  | Rate_Limit_Exc rate_limit_error
  | Body_Too_Large
  | Other_Exception pystr pystr

text \<open>\<open>parse_body\<close>, over the schema's own validation.\<close>

definition parse_body :: "('raw \<Rightarrow> (loc list \<times> pystr) list + 'm) \<Rightarrow> 'raw \<Rightarrow> app_exception + 'm" where
  "parse_body validate raw =
     (case validate raw of
        Inr m \<Rightarrow> Inr m
      | Inl errors \<Rightarrow>
          Inl (Malformed_Body_Error
            (map (\<lambda>(loc, msg). (join_with (py ''.'') (map loc_str loc), msg)) errors)))"

subsection \<open>Problem documents\<close>

definition PROBLEM_CONTENT_TYPE :: string where
  "PROBLEM_CONTENT_TYPE = ''application/problem+json''"

definition PROBLEM_BASE_URL :: string where
  "PROBLEM_BASE_URL = ''https://chatspace.example/problems''"

definition titles_by_status :: "(int \<times> string) list" where
  "titles_by_status =
     [(400, ''Bad request''), (401, ''Authentication required''), (403, ''Forbidden''),
      (404, ''Resource not found''), (409, ''Conflict''), (410, ''Resource no longer available''),
      (413, ''Payload too large''), (415, ''Unsupported media type''), (422, ''Validation failed''),
      (429, ''Too many requests''), (500, ''Internal server error''), (503, ''Service unavailable'')]"

definition slugs_by_status :: "(int \<times> string) list" where
  "slugs_by_status =
     [(400, ''bad-request''), (401, ''unauthorized''), (403, ''forbidden''), (404, ''not-found''),
      (409, ''conflict''), (410, ''gone''), (413, ''payload-too-large''),
      (415, ''unsupported-media-type''), (422, ''validation-failed''), (429, ''rate-limited''),
      (500, ''internal-error''), (503, ''service-unavailable'')]"

definition title_for :: "int \<Rightarrow> string" where
  "title_for status_code = dict_get titles_by_status status_code ''Unexpected error''"

definition slug_for :: "int \<Rightarrow> string" where
  "slug_for status_code = dict_get slugs_by_status status_code ''error''"

record problem_document =
  pb_type :: string
  pb_title :: string
  pb_status :: int
  pb_detail :: pystr
  pb_instance :: pystr
  pb_correlation_id :: "pystr option"
  pb_errors :: "field_errors option"

text \<open>\<open>a or b\<close> for an optional string.\<close>

definition or_else :: "string option \<Rightarrow> string \<Rightarrow> string" where
  "or_else v dflt = (case v of None \<Rightarrow> dflt | Some s \<Rightarrow> if s = '''' then dflt else s)"

definition build_problem_body ::
  "pystr option \<Rightarrow> int \<Rightarrow> pystr \<Rightarrow> pystr \<Rightarrow> string option \<Rightarrow> string option \<Rightarrow> field_errors option \<Rightarrow> problem_document" where
  "build_problem_body cid status_code detail path title type_slug errors =
     \<lparr>pb_type = PROBLEM_BASE_URL @ ''/'' @ or_else type_slug (slug_for status_code),
      pb_title = or_else title (title_for status_code), pb_status = status_code, pb_detail = detail,
      pb_instance = path, pb_correlation_id = cid, pb_errors = errors\<rparr>"

datatype 'b content = Document problem_document | Payload 'b

record 'b http_response =
  rs_status :: int
  rs_media_type :: string
  rs_headers :: "(string \<times> pystr) list"
  rs_content :: "'b content"

definition set_header :: "string \<Rightarrow> pystr \<Rightarrow> 'b http_response \<Rightarrow> 'b http_response" where
  "set_header name v r = r\<lparr>rs_headers := AList.update name v (rs_headers r)\<rparr>"

definition HEADER_NAME :: string where
  "HEADER_NAME = ''x-correlation-id''"

text \<open>A header cannot be set to \<open>None\<close>: without a correlation id there is no response.\<close>

definition problem_response ::
  "pystr option \<Rightarrow> int \<Rightarrow> pystr \<Rightarrow> pystr \<Rightarrow> string option \<Rightarrow> string option \<Rightarrow> field_errors option \<Rightarrow> 'b http_response option" where
  "problem_response cid status_code detail path title type_slug errors =
     (case cid of
        None \<Rightarrow> None
      | Some c \<Rightarrow>
          Some (set_header HEADER_NAME c
            \<lparr>rs_status = status_code, rs_media_type = PROBLEM_CONTENT_TYPE, rs_headers = [],
             rs_content = Document (build_problem_body cid status_code detail path title type_slug errors)\<rparr>))"

subsection \<open>Handlers\<close>

text \<open>What a request shows of itself: path, template of the matched route and headers.\<close>

record http_request =
  hr_path :: pystr
  hr_route :: "pystr option"
  hr_headers :: "(string \<times> pystr) list"

definition endpoint_class :: "http_request \<Rightarrow> pystr" where
  "endpoint_class req = (case hr_route req of Some template \<Rightarrow> template | None \<Rightarrow> hr_path req)"

text \<open>What operators see: the metrics and the exceptions handed to the error monitor.\<close>

record operations =
  op_metrics :: metrics
  op_monitor :: bool
  op_captured :: "app_exception list"

type_synonym 'b handler = "pystr option \<Rightarrow> http_request \<Rightarrow> operations \<Rightarrow> 'b http_response option \<times> operations"

definition http_exception_handler :: "int \<Rightarrow> pystr option \<Rightarrow> 'b handler" where
  "http_exception_handler status_code detail cid req ops =
     (problem_response cid status_code
        (case detail of Some d \<Rightarrow> d | None \<Rightarrow> py ''An error occurred.'') (hr_path req) None None None, ops)"

definition validation_exception_handler :: "(loc list \<times> pystr) list \<Rightarrow> 'b handler" where
  "validation_exception_handler errors cid req ops =
     (problem_response cid 422 (py ''One or more fields failed validation.'') (hr_path req) None None
        (Some (map (\<lambda>(loc, msg).
           (join_with (py ''.'') (map loc_str (filter (\<lambda>l. l \<noteq> Loc_Name (py ''body'')) loc)), msg)) errors)), ops)"

definition field_error :: "string \<times> string \<Rightarrow> pystr \<times> pystr" where
  "field_error e = (py (fst e), py (snd e))"

definition password_policy_exception_handler :: "password_policy_error \<Rightarrow> 'b handler" where
  "password_policy_exception_handler e cid req ops =
     (problem_response cid 422 (py ''Password fails policy.'') (hr_path req) None None
        (Some (map field_error (case e of PasswordPolicyError errors \<Rightarrow> errors))), ops)"

definition must_change_password_error_handler :: "'b handler" where
  "must_change_password_error_handler cid req ops =
     (problem_response cid 403
        (py ''Your password must be changed before you can log in. Complete a password change to continue.'')
        (hr_path req) (Some ''Password change required'') (Some ''must-change-password'') None, ops)"

definition registration_field_error_handler :: "(string \<times> string) list \<Rightarrow> 'b handler" where
  "registration_field_error_handler errors cid req ops =
     (problem_response cid 422 (py ''One or more fields failed validation.'') (hr_path req) None None
        (Some (map field_error errors)), ops)"

definition malformed_body_exception_handler :: "field_errors \<Rightarrow> 'b handler" where
  "malformed_body_exception_handler errors cid req ops =
     (problem_response cid 400 (py ''Request body is malformed.'') (hr_path req) None None (Some errors), ops)"

definition pagination_error_handler :: "pagination_error \<Rightarrow> 'b handler" where
  "pagination_error_handler e cid req ops =
     (case e of PaginationError field detail \<Rightarrow>
        (problem_response cid 400 (py detail) (hr_path req) None None (Some [field_error (field, detail)]), ops))"

definition rate_limit_exceeded_handler :: "int \<Rightarrow> 'b handler" where
  "rate_limit_exceeded_handler retry_after cid req ops =
     (map_option (set_header ''retry-after'' (py_str_int retry_after))
        (problem_response cid 429 (py ''Too many requests. Please slow down and retry after the indicated delay.'')
           (hr_path req) None None None),
      ops\<lparr>op_metrics := increment_counter ''rate_limit_rejected_total'' 1
             [(''endpoint_class'', endpoint_class req)] (op_metrics ops)\<rparr>)"

definition RATE_LIMIT_UNAVAILABLE_RETRY_AFTER_SECONDS :: pystr where
  "RATE_LIMIT_UNAVAILABLE_RETRY_AFTER_SECONDS = py ''1''"

definition rate_limit_unavailable_handler :: "'b handler" where
  "rate_limit_unavailable_handler cid req ops =
     (map_option (set_header ''retry-after'' RATE_LIMIT_UNAVAILABLE_RETRY_AFTER_SECONDS)
        (problem_response cid 503 (py ''Rate limiting is temporarily unavailable; please retry shortly.'')
           (hr_path req) (Some ''Rate limiter unavailable'') (Some ''rate-limiter-unavailable'') None), ops)"

definition body_too_large_exception_handler :: "'b handler" where
  "body_too_large_exception_handler cid req ops =
     (problem_response cid 413 (py ''Request body exceeds the maximum allowed size.'') (hr_path req)
        None None None, ops)"

definition exception_type :: "app_exception \<Rightarrow> pystr" where
  "exception_type exc = (case exc of Other_Exception type_name text \<Rightarrow> type_name | _ \<Rightarrow> py ''Exception'')"

definition unhandled_exception_handler :: "app_exception \<Rightarrow> 'b handler" where
  "unhandled_exception_handler exc cid req ops =
     (problem_response cid 500
        (py ''An unexpected error occurred. Reference the correlation id for support.'') (hr_path req)
        None None None,
      ops\<lparr>op_metrics := increment_counter ''http_error_total'' 1
             [(''status_code'', py ''500''), (''endpoint_class'', endpoint_class req),
              (''exception_type'', exception_type exc)] (op_metrics ops),
          op_captured := capture_exception (op_monitor ops) exc (op_captured ops)\<rparr>)"

text \<open>The 503 of both sends (\<^verbatim>\<open>api/messages.py\<close>), built by the route itself: no correlation id makes the header fail.\<close>

definition idempotency_timeout_detail :: pystr where
  "idempotency_timeout_detail = py ''Could not confirm this send in time; retry with the same Idempotency-Key.''"

definition idempotency_timeout_response :: "pystr option \<Rightarrow> pystr \<Rightarrow> 'b http_response option" where
  "idempotency_timeout_response cid path =
     (let body = build_problem_body cid 503 idempotency_timeout_detail path None None None in
      case pb_correlation_id body of
        None \<Rightarrow> None
      | Some c \<Rightarrow>
          Some (set_header HEADER_NAME c
            \<lparr>rs_status = 503, rs_media_type = PROBLEM_CONTENT_TYPE, rs_headers = [(''Retry-After'', py ''1'')],
             rs_content = Document body\<rparr>))"

text \<open>It is the document the handlers would have built, with the retry hint.\<close>

lemma timeout_response_is_problem:
  "idempotency_timeout_response (Some c) path =
   map_option (\<lambda>r. r\<lparr>rs_headers := (''Retry-After'', py ''1'') # rs_headers r\<rparr>)
     (problem_response (Some c) 503 idempotency_timeout_detail path None None None)"
  by (simp add: idempotency_timeout_response_def problem_response_def build_problem_body_def set_header_def
      HEADER_NAME_def del: list.map)

text \<open>\<open>install_error_handlers\<close>: which exceptions have a handler of their own.\<close>

fun handler_for :: "app_exception \<Rightarrow> 'b handler option" where
  "handler_for (HTTP_Exception status_code detail) = Some (http_exception_handler status_code detail)"
| "handler_for (Request_Validation_Error errors) = Some (validation_exception_handler errors)"
| "handler_for (Password_Policy_Exc e) = Some (password_policy_exception_handler e)"
| "handler_for Must_Change_Password = Some must_change_password_error_handler"
| "handler_for (Registration_Field_Exc errors) = Some (registration_field_error_handler errors)"
| "handler_for (Malformed_Body_Error errors) = Some (malformed_body_exception_handler errors)"
| "handler_for (Pagination_Exc e) = Some (pagination_error_handler e)"
| "handler_for (Rate_Limit_Exc (RateLimitExceededError n)) = Some (rate_limit_exceeded_handler n)"
| "handler_for (Rate_Limit_Exc RateLimitUnavailableError) = Some rate_limit_unavailable_handler"
| "handler_for Body_Too_Large = Some body_too_large_exception_handler"
| "handler_for (Other_Exception type_name text) = None"

subsection \<open>The ceiling on request bodies\<close>

definition MAX_REQUEST_BODY_BYTES :: nat where
  "MAX_REQUEST_BODY_BYTES = 210 * 1024 * 1024"

text \<open>\<open>int(value)\<close> of a byte string knows ASCII only.\<close>

definition content_length :: "(string \<times> pystr) list \<Rightarrow> int option" where
  "content_length headers =
     (case map_of headers ''content-length'' of
        None \<Rightarrow> None
      | Some v \<Rightarrow> if list_all (\<lambda>c. c < 128) v then py_int 10 v else None)"

datatype asgi_message = Http_Request "pystr option" | Http_Disconnect

definition body_size :: "asgi_message \<Rightarrow> nat" where
  "body_size m = (case m of Http_Request (Some chunk) \<Rightarrow> length chunk | _ \<Rightarrow> 0)"

text \<open>A program behind the ceiling: it ends, or it asks for a message and gets it, or gets the
  \<open>BodyTooLargeError\<close> raised (\<open>None\<close>).\<close>

datatype 'r asgi_app = Ends 'r | Receives "asgi_message option \<Rightarrow> 'r asgi_app"

text \<open>One call of \<open>guarded_receive\<close>, over the bytes counted so far.\<close>

definition guarded_receive :: "nat \<Rightarrow> nat \<Rightarrow> asgi_message \<Rightarrow> asgi_message option \<times> nat" where
  "guarded_receive max_bytes bytes m =
     (case m of
        Http_Request _ \<Rightarrow>
          let bytes' = bytes + body_size m in (if bytes' > max_bytes then None else Some m, bytes')
      | Http_Disconnect \<Rightarrow> (Some m, bytes))"

text \<open>The program run on the messages of the server, after which the client is gone; also the
  messages it got.\<close>

primrec run_guarded :: "nat \<Rightarrow> 'r asgi_app \<Rightarrow> nat \<Rightarrow> asgi_message list \<Rightarrow> 'r \<times> asgi_message list" where
  "run_guarded max_bytes (Ends r) bytes ms = (r, [])"
| "run_guarded max_bytes (Receives k) bytes ms =
     (let m = (case ms of [] \<Rightarrow> Http_Disconnect | m # _ \<Rightarrow> m);
          (got, bytes') = guarded_receive max_bytes bytes m;
          (r, seen) = run_guarded max_bytes (k got) bytes' (tl ms)
      in (r, (case got of None \<Rightarrow> seen | Some m \<Rightarrow> m # seen)))"

text \<open>The response sent without entering the application.\<close>

definition send_413 :: "pystr option \<Rightarrow> http_request \<Rightarrow> 'b http_response" where
  "send_413 cid req =
     \<lparr>rs_status = 413, rs_media_type = ''application/problem+json'', rs_headers = [],
      rs_content = Document
        \<lparr>pb_type = ''https://chatspace.example/problems/payload-too-large'', pb_title = ''Payload too large'',
         pb_status = 413, pb_detail = py ''Request body exceeds the maximum allowed size.'',
         pb_instance = hr_path req, pb_correlation_id = cid, pb_errors = None\<rparr>\<rparr>"

type_synonym 'b web_app = "(app_exception + 'b http_response) asgi_app"

text \<open>Registered exceptions become responses inside the ceiling; an exception that stays open
  passes it.  A handler that fails raises in turn.\<close>

definition exception_middleware ::
  "pystr option \<Rightarrow> http_request \<Rightarrow> operations \<Rightarrow> app_exception + 'b http_response \<Rightarrow> (app_exception + 'b http_response) \<times> operations" where
  "exception_middleware cid req ops result =
     (case result of
        Inr response \<Rightarrow> (Inr response, ops)
      | Inl exc \<Rightarrow>
          (case handler_for exc of
             None \<Rightarrow> (Inl exc, ops)
           | Some handler \<Rightarrow>
               (case handler cid req ops of
                  (None, ops') \<Rightarrow> (Inl (Other_Exception (py ''AttributeError'') []), ops')
                | (Some response, ops') \<Rightarrow> (Inr response, ops'))))"

definition max_body_size ::
  "nat \<Rightarrow> pystr option \<Rightarrow> http_request \<Rightarrow> asgi_message list \<Rightarrow> 'b web_app \<Rightarrow> operations \<Rightarrow> (app_exception + 'b http_response) \<times> operations" where
  "max_body_size max_bytes cid req ms app ops =
     (if (case content_length (hr_headers req) of None \<Rightarrow> False | Some declared \<Rightarrow> declared > int max_bytes)
      then (Inr (send_413 cid req), ops)
      else exception_middleware cid req ops (fst (run_guarded max_bytes app 0 ms)))"

text \<open>The whole stack: the correlation id set for the request and echoed, everything inside, and
  the handler of last resort outside.\<close>

definition correlation_id_middleware ::
  "uuid \<Rightarrow> http_request \<Rightarrow> (pystr option \<Rightarrow> operations \<Rightarrow> (app_exception + 'b http_response) \<times> operations) \<Rightarrow> operations
    \<Rightarrow> pystr \<times> (app_exception + 'b http_response) \<times> operations" where
  "correlation_id_middleware fresh req call_next ops =
     (let correlation_id = sanitize_correlation_id fresh (map_of (hr_headers req) HEADER_NAME)
      in case call_next (Some correlation_id) ops of
           (Inr response, ops') \<Rightarrow> (correlation_id, Inr (set_header HEADER_NAME correlation_id response), ops')
         | (Inl exc, ops') \<Rightarrow> (correlation_id, Inl exc, ops'))"

definition serve_request ::
  "nat \<Rightarrow> uuid \<Rightarrow> http_request \<Rightarrow> asgi_message list \<Rightarrow> (pystr option \<Rightarrow> 'b web_app) \<Rightarrow> operations \<Rightarrow> 'b http_response option \<times> operations" where
  "serve_request max_bytes fresh req ms app ops =
     (case correlation_id_middleware fresh req (\<lambda>cid. max_body_size max_bytes cid req ms (app cid)) ops of
        (cid, Inr response, ops') \<Rightarrow> (Some response, ops')
      | (cid, Inl exc, ops') \<Rightarrow> unhandled_exception_handler exc (Some cid) req ops')"

subsection \<open>Every error is a problem document\<close>

text \<open>A safe token: letters, digits, \<open>.\<close>, \<open>_\<close> and \<open>-\<close>, but for a newline at the end.\<close>

definition safe_token :: "pystr \<Rightarrow> bool" where
  "safe_token s \<longleftrightarrow> s \<noteq> [] \<and> length s \<le> 129 \<and> list_all correlation_char (butlast s) \<and>
     (correlation_char (last s) \<or> last s = 10)"

lemma hex_digits_are_tokens: "list_all correlation_char (py (uuid_hex u))"
proof -
  have "correlation_char (of_char (hex_digit d))" if "d < 16" for d
  proof -
    have "d \<in> set [0..<16]" using that by simp
    then show ?thesis by (auto simp: hex_digit_def correlation_char_def token_char_def)
  qed
  then show ?thesis by (auto simp: uuid_hex_def list_all_iff dest: digits_be_less [rotated])
qed

lemma safe_tokenI: "list_all correlation_char s \<Longrightarrow> s \<noteq> [] \<Longrightarrow> length s \<le> 129 \<Longrightarrow> safe_token s"
  by (auto simp: safe_token_def list_all_iff dest: in_set_butlastD)

lemma sanitized_is_safe: "safe_token (sanitize_correlation_id fresh v)"
proof -
  have fresh: "safe_token (py (uuid_hex fresh))"
    by (rule safe_tokenI [OF hex_digits_are_tokens]) (auto simp: uuid_hex_def simp flip: length_greater_0_conv)
  have "safe_token s" if m: "correlation_id_re_match s" for s
  proof (cases "s \<noteq> [] \<and> last s = 10")
    case True
    then show ?thesis using m
      by (auto simp: correlation_id_re_match_def MAX_CORRELATION_ID_LEN_def Let_def safe_token_def)
  next
    case False
    then show ?thesis using m
      by (intro safe_tokenI) (auto simp: correlation_id_re_match_def MAX_CORRELATION_ID_LEN_def Let_def split: if_splits)
  qed
  with fresh show ?thesis by (auto simp: sanitize_correlation_id_def split: option.split)
qed

text \<open>The status each exception promises.\<close>

fun problem_status :: "app_exception \<Rightarrow> int" where
  "problem_status (HTTP_Exception status_code detail) = status_code"
| "problem_status (Request_Validation_Error errors) = 422"
| "problem_status (Password_Policy_Exc e) = 422"
| "problem_status Must_Change_Password = 403"
| "problem_status (Registration_Field_Exc errors) = 422"
| "problem_status (Malformed_Body_Error errors) = 400"
| "problem_status (Pagination_Exc e) = 400"
| "problem_status (Rate_Limit_Exc (RateLimitExceededError n)) = 429"
| "problem_status (Rate_Limit_Exc RateLimitUnavailableError) = 503"
| "problem_status Body_Too_Large = 413"
| "problem_status (Other_Exception type_name text) = 500"

text \<open>A response that is a problem document for \<open>req\<close>.\<close>

definition is_problem :: "pystr \<Rightarrow> http_request \<Rightarrow> int \<Rightarrow> 'b http_response \<Rightarrow> bool" where
  "is_problem cid req status_code r \<longleftrightarrow>
     rs_status r = status_code \<and> rs_media_type r = PROBLEM_CONTENT_TYPE \<and>
     map_of (rs_headers r) HEADER_NAME = Some cid \<and>
     (\<exists>doc. rs_content r = Document doc \<and> pb_status doc = status_code \<and> pb_instance doc = hr_path req \<and>
        pb_correlation_id doc = Some cid \<and> (pb_errors doc \<noteq> None \<longrightarrow> status_code = 400 \<or> status_code = 422))"

lemma set_header_simps [simp]:
  "rs_status (set_header n v r) = rs_status r" "rs_media_type (set_header n v r) = rs_media_type r"
  "rs_content (set_header n v r) = rs_content r"
  "map_of (rs_headers (set_header n v r)) = (map_of (rs_headers r))(n \<mapsto> v)"
  by (simp_all add: set_header_def update_conv')

lemma problem_response_simps [simp]:
  "problem_response (Some c) s d p t sl e = Some r \<longleftrightarrow>
   r = set_header HEADER_NAME c \<lparr>rs_status = s, rs_media_type = PROBLEM_CONTENT_TYPE, rs_headers = [],
         rs_content = Document (build_problem_body (Some c) s d p t sl e)\<rparr>"
  by (auto simp: problem_response_def)

lemmas handler_defs =
  http_exception_handler_def validation_exception_handler_def must_change_password_error_handler_def
  registration_field_error_handler_def malformed_body_exception_handler_def rate_limit_exceeded_handler_def
  rate_limit_unavailable_handler_def body_too_large_exception_handler_def unhandled_exception_handler_def
  password_policy_exception_handler_def pagination_error_handler_def

lemma problem_response_ok:
  assumes "e \<noteq> None \<longrightarrow> s = 400 \<or> s = 422"
  shows "\<exists>r. problem_response (Some c) s d (hr_path req) t sl e = Some r \<and> is_problem c req s r"
    "n \<noteq> HEADER_NAME \<Longrightarrow>
     \<exists>r. map_option (set_header n v) (problem_response (Some c) s d (hr_path req) t sl e) = Some r \<and> is_problem c req s r"
  using assms by (auto simp: is_problem_def build_problem_body_def problem_response_def)

lemma handler_gives_problem:
  assumes "handler_for exc = Some h"
  shows "\<exists>r ops'. h (Some c) req ops = (Some r, ops') \<and> is_problem c req (problem_status exc) r"
  using assms
  by (cases exc rule: handler_for.cases)
    (auto simp: handler_defs HEADER_NAME_def simp del: list.map problem_response_simps map_option_eq_Some
      intro!: problem_response_ok split: pagination_error.split)

definition declared_too_large :: "nat \<Rightarrow> http_request \<Rightarrow> bool" where
  "declared_too_large max_bytes req \<longleftrightarrow>
     (case content_length (hr_headers req) of None \<Rightarrow> False | Some declared \<Rightarrow> declared > int max_bytes)"

definition correlation_id_of :: "uuid \<Rightarrow> http_request \<Rightarrow> pystr" where
  "correlation_id_of fresh req = sanitize_correlation_id fresh (map_of (hr_headers req) HEADER_NAME)"

lemma serve_request_unfold:
  "serve_request max_bytes fresh req ms app ops =
   (let cid = correlation_id_of fresh req
    in case max_body_size max_bytes (Some cid) req ms (app (Some cid)) ops of
         (Inr r, ops') \<Rightarrow> (Some (set_header HEADER_NAME cid r), ops')
       | (Inl exc, ops') \<Rightarrow> unhandled_exception_handler exc (Some cid) req ops')"
  by (simp add: serve_request_def correlation_id_middleware_def correlation_id_of_def Let_def
      split: prod.split sum.split)

text \<open>
  C15. Whatever a request raises, the client gets a problem document: its status is the one the
  exception stands for, path and correlation id are filled in, the id is also the response's
  header and is the client's own if that is well-formed, else fresh, always a short token; field
  errors appear only with 400 and 422.  An exception without a handler gives a 500 whose text
  says nothing about it; it is counted, and handed to the error monitor only if that is on.
\<close>

theorem every_error_is_a_problem:
  assumes "fst (run_guarded max_bytes (app (Some cid)) 0 ms) = Inl exc"
    "cid = correlation_id_of fresh req" "\<not> declared_too_large max_bytes req"
  shows "\<exists>r ops'. serve_request max_bytes fresh req ms app ops = (Some r, ops')
    \<and> is_problem cid req (problem_status exc) r \<and> safe_token cid
    \<and> (\<forall>t msg. exc = Other_Exception t msg \<longrightarrow>
         rs_content r = Document (build_problem_body (Some cid) 500
           (py ''An unexpected error occurred. Reference the correlation id for support.'') (hr_path req) None None None)
         \<and> op_captured ops' = op_captured ops @ (if op_monitor ops then [exc] else [])
         \<and> op_metrics ops' = increment_counter ''http_error_total'' 1
             [(''status_code'', py ''500''), (''endpoint_class'', endpoint_class req), (''exception_type'', t)] (op_metrics ops))"
proof -
  have safe: "safe_token cid" by (simp only: assms(2) correlation_id_of_def sanitized_is_safe)
  have inner: "max_body_size max_bytes (Some cid) req ms (app (Some cid)) ops = exception_middleware (Some cid) req ops (Inl exc)"
    using assms(1,3) by (simp add: max_body_size_def declared_too_large_def)
  show ?thesis
  proof (cases "handler_for exc :: 'a handler option")
    case None
    then obtain t msg where exc: "exc = Other_Exception t msg" by (cases exc rule: handler_for.cases) auto
    show ?thesis
      using safe inner by (simp add: serve_request_unfold assms(2) [symmetric] exception_middleware_def exc
          unhandled_exception_handler_def is_problem_def build_problem_body_def exception_type_def capture_exception_def
          HEADER_NAME_def del: list.map)
  next
    case (Some h)
    then obtain r ops' where h: "h (Some cid) req ops = (Some r, ops')" and p: "is_problem cid req (problem_status exc) r"
      using handler_gives_problem [of exc h cid req ops] by blast
    have "serve_request max_bytes fresh req ms app ops = (Some (set_header HEADER_NAME cid r), ops')"
      using inner Some h by (simp add: serve_request_unfold assms(2) [symmetric] exception_middleware_def)
    moreover have "is_problem cid req (problem_status exc) (set_header HEADER_NAME cid r)"
      using p by (simp add: is_problem_def)
    moreover have "exc \<noteq> Other_Exception t msg" for t msg using Some by auto
    ultimately show ?thesis using safe by auto
  qed
qed

subsection \<open>No more bytes than the ceiling\<close>

text \<open>The program without the ceiling.\<close>

primrec run_plain :: "'r asgi_app \<Rightarrow> asgi_message list \<Rightarrow> 'r \<times> asgi_message list" where
  "run_plain (Ends r) ms = (r, [])"
| "run_plain (Receives k) ms =
     (let m = (case ms of [] \<Rightarrow> Http_Disconnect | m # _ \<Rightarrow> m); (r, seen) = run_plain (k (Some m)) (tl ms)
      in (r, m # seen))"

definition body_bytes :: "asgi_message list \<Rightarrow> nat" where
  "body_bytes ms = sum_list (map body_size ms)"

lemma body_bytes_simps [simp]: "body_bytes [] = 0" "body_bytes (m # ms) = body_size m + body_bytes ms"
  "body_size Http_Disconnect = 0"
  by (simp_all add: body_bytes_def body_size_def)

lemma run_guarded_seen:
  "bytes + body_bytes (snd (run_guarded max_bytes app bytes ms)) \<le> max_bytes \<or>
   body_bytes (snd (run_guarded max_bytes app bytes ms)) = 0"
proof (induction app arbitrary: bytes ms)
  case (Receives k)
  let ?m = "case ms of [] \<Rightarrow> Http_Disconnect | m # _ \<Rightarrow> m"
  have IH: "bytes' + body_bytes (snd (run_guarded max_bytes (k got) bytes' ms')) \<le> max_bytes \<or>
      body_bytes (snd (run_guarded max_bytes (k got) bytes' ms')) = 0" for got bytes' ms'
    using Receives [of "k got"] by simp
  show ?case
    using IH [of "bytes + body_size ?m" None "tl ms"] IH [of "bytes + body_size ?m" "Some ?m" "tl ms"]
      IH [of bytes "Some ?m" "tl ms"]
    by (auto simp: guarded_receive_def Let_def split: prod.split asgi_message.split if_splits)
qed simp

lemma run_guarded_plain:
  "bytes + body_bytes ms \<le> max_bytes \<Longrightarrow> run_guarded max_bytes app bytes ms = run_plain app ms"
proof (induction app arbitrary: bytes ms)
  case (Receives k)
  have IH: "bytes' + body_bytes ms' \<le> max_bytes \<Longrightarrow> run_guarded max_bytes (k got) bytes' ms' = run_plain (k got) ms'"
    for got bytes' ms' using Receives.IH [of "k got"] by simp
  show ?case
  proof (cases ms)
    case Nil
    then show ?thesis using IH [of bytes "[]"] Receives.prems
      by (simp add: guarded_receive_def)
  next
    case (Cons m ms')
    then show ?thesis
      using IH [of "bytes + body_size m" ms'] IH [of bytes ms'] Receives.prems
      by (cases m) (simp_all add: guarded_receive_def Let_def add.assoc)
  qed
qed simp

lemma handler_413: "fst (body_too_large_exception_handler (Some cid) req ops) = Some (set_header HEADER_NAME cid (send_413 (Some cid) req))"
  by (simp add: body_too_large_exception_handler_def problem_response_def send_413_def build_problem_body_def PROBLEM_CONTENT_TYPE_def
      PROBLEM_BASE_URL_def or_else_def slug_for_def title_for_def dict_get_def slugs_by_status_def titles_by_status_def del: list.map)

text \<open>
  C24. The body ceiling holds against every application and every client: the application never
  gets more bytes than the ceiling, whatever the headers say; a request that keeps under it and
  declares no more runs exactly as it would without; one that declares more is answered
  413 without running the application, with the very response of one that was cut off while
  streaming and raised the error.
\<close>

theorem body_ceiling:
  fixes any_app :: "pystr option \<Rightarrow> 'c web_app"
  shows "body_bytes (snd (run_guarded max_bytes app 0 ms)) \<le> max_bytes
    \<and> (body_bytes ms \<le> max_bytes \<longrightarrow> run_guarded max_bytes app 0 ms = run_plain app ms)
    \<and> (declared_too_large max_bytes req \<longrightarrow>
        serve_request max_bytes fresh req ms any_app ops =
        (Some (set_header HEADER_NAME (correlation_id_of fresh req) (send_413 (Some (correlation_id_of fresh req)) req)), ops))
    \<and> (\<not> declared_too_large max_bytes req \<and>
        fst (run_guarded max_bytes (any_app (Some (correlation_id_of fresh req))) 0 ms) = Inl Body_Too_Large \<longrightarrow>
        serve_request max_bytes fresh req ms any_app ops =
        (Some (set_header HEADER_NAME (correlation_id_of fresh req) (send_413 (Some (correlation_id_of fresh req)) req)), ops))"
proof -
  let ?cid = "correlation_id_of fresh req"
  have "set_header HEADER_NAME ?cid (set_header HEADER_NAME ?cid r) = set_header HEADER_NAME ?cid r" for r :: "'c http_response"
    by (simp add: set_header_def)
  moreover have "body_too_large_exception_handler (Some ?cid) req ops =
      (Some (set_header HEADER_NAME ?cid (send_413 (Some ?cid) req)) :: 'c http_response option, ops)"
    using handler_413 [of ?cid req ops] by (simp add: body_too_large_exception_handler_def del: list.map)
  ultimately show ?thesis
    using run_guarded_seen [of 0 max_bytes app ms] run_guarded_plain [of 0 ms max_bytes app]
    by (auto simp: serve_request_unfold max_body_size_def exception_middleware_def Let_def
        simp flip: declared_too_large_def)
qed

definition demo_http :: "(string \<times> pystr) list \<Rightarrow> http_request" where
  "demo_http headers = \<lparr>hr_path = py ''/v1/me'', hr_route = None, hr_headers = headers\<rparr>"

definition demo_ops :: operations where
  "demo_ops = \<lparr>op_metrics = no_metrics, op_monitor = True, op_captured = []\<rparr>"

definition demo_response :: "unit http_response" where
  "demo_response = \<lparr>rs_status = 200, rs_media_type = ''application/json'', rs_headers = [], rs_content = Payload ()\<rparr>"

text \<open>Reads one message; the error it may meet passes through it.\<close>

definition demo_app :: "pystr option \<Rightarrow> unit web_app" where
  "demo_app cid = Receives (\<lambda>m. Ends (case m of None \<Rightarrow> Inl Body_Too_Large | Some _ \<Rightarrow> Inr demo_response))"

lemma every_error_is_a_problem_witness:
  "\<exists>r ops'. serve_request 4 0 (demo_http [(HEADER_NAME, py ''trace-1'')]) []
      (\<lambda>cid. Ends (Inl (Other_Exception (py ''KeyError'') (py ''s3cret''))) :: unit web_app) demo_ops = (Some r, ops')
    \<and> is_problem (py ''trace-1'') (demo_http [(HEADER_NAME, py ''trace-1'')]) 500 r \<and> op_captured ops' \<noteq> []"
proof -
  let ?app = "\<lambda>cid. Ends (Inl (Other_Exception (py ''KeyError'') (py ''s3cret''))) :: unit web_app"
  have "py ''trace-1'' = correlation_id_of 0 (demo_http [(HEADER_NAME, py ''trace-1'')])"
    by (simp add: correlation_id_of_def demo_http_def sanitize_correlation_id_def correlation_id_re_match_def
        correlation_char_def token_char_def MAX_CORRELATION_ID_LEN_def)
  moreover have "\<not> declared_too_large 4 (demo_http [(HEADER_NAME, py ''trace-1'')])"
    by (simp add: declared_too_large_def content_length_def demo_http_def HEADER_NAME_def)
  ultimately show ?thesis
    using every_error_is_a_problem [of 4 ?app "py ''trace-1''" "[]" "Other_Exception (py ''KeyError'') (py ''s3cret'')" 0
        "demo_http [(HEADER_NAME, py ''trace-1'')]" demo_ops] by (fastforce simp: demo_ops_def simp del: list.map)
qed

definition chunk :: "nat \<Rightarrow> asgi_message" where
  "chunk n = Http_Request (Some (replicate n 0))"

lemma demo_413: "\<not> declared_too_large 4 (demo_http [])" "declared_too_large 4 (demo_http [(''content-length'', py ''5'')])"
  "fst (run_guarded 4 (demo_app cid) 0 [chunk 5]) = Inl Body_Too_Large" "body_bytes [chunk 3] \<le> 4"
  by (simp_all add: declared_too_large_def content_length_def demo_http_def py_int_def strip_by_def py_int_space_def
      py_isspace_def scan_unsigned_def strip_prefix16_def digit_value_def py_decimal_def decimal_zeros_def
      demo_app_def guarded_receive_def chunk_def body_size_def)

lemma body_ceiling_witness:
  "fst (run_guarded 4 (demo_app None) 0 [chunk 3]) = Inr demo_response
    \<and> rs_status (the (fst (serve_request 4 0 (demo_http [(''content-length'', py ''5'')]) [] demo_app demo_ops))) = 413
    \<and> rs_status (the (fst (serve_request 4 0 (demo_http []) [chunk 5] demo_app demo_ops))) = 413"
proof (intro conjI)
  have "run_guarded 4 (demo_app None) 0 [chunk 3] = run_plain (demo_app None) [chunk 3]"
    using body_ceiling [of 4 "demo_app None" "[chunk 3]"] demo_413(4) by blast
  then show "fst (run_guarded 4 (demo_app None) 0 [chunk 3]) = Inr demo_response"
    by (simp add: demo_app_def)
  show "rs_status (the (fst (serve_request 4 0 (demo_http [(''content-length'', py ''5'')]) [] demo_app demo_ops))) = 413"
    using body_ceiling [of 4 "demo_app None" "[]" "demo_http [(''content-length'', py ''5'')]" 0 demo_app demo_ops] demo_413(2)
    by (simp add: send_413_def del: list.map)
  show "rs_status (the (fst (serve_request 4 0 (demo_http []) [chunk 5] demo_app demo_ops))) = 413"
    using body_ceiling [of 4 "demo_app None" "[chunk 5]" "demo_http []" 0 demo_app demo_ops] demo_413(1,3)
    by (simp add: send_413_def del: list.map)
qed

text \<open>Statuses the contract documents without an entry in the tables are named \<open>error\<close>.\<close>

lemma untitled_statuses: "slug_for 502 = ''error''" "title_for 502 = ''Unexpected error''" "slug_for 405 = ''error''"
  by (simp_all add: slug_for_def title_for_def dict_get_def slugs_by_status_def titles_by_status_def)

end
