(* ===== verification/Bodies.thy ===== *)
theory Bodies
  imports Problems Channel_Api Message_Api Admin
begin

text \<open>
  The request bodies: the classes of \<^verbatim>\<open>schemas/\<close> as lists of typed fields, and the routes with a
  body as they are reached from its JSON (\<open>parse_body\<close> of \<^verbatim>\<open>core/request_body.py\<close>,
  \<open>_parse_body\<close> of \<^verbatim>\<open>api/auth.py\<close>).  \<open>model_validate\<close> is pydantic's, so it is a parameter:
  \<open>validate decls raw\<close> gives the problems found or the values of the fields.  \<open>pydantic_ok\<close>
  states what its documentation says of it.  A payload of type \<open>dict[str, Any]\<close> is the dict
  FastAPI hands over, one entry for a key.
\<close>

subsection \<open>Request classes\<close>

text \<open>\<open>str = Field(min_length=n)\<close>, \<open>bool\<close>, \<open>UUID\<close>, \<open>list[UUID]\<close>, \<open>str | None\<close>.\<close>

datatype field_type = Text nat | Flag | Uuid_Field | Uuid_List | Nullable_Text

datatype field_value = FText pystr | FFlag bool | FUuid uuid | FUuids "uuid list" | FNull

record body_field =
  bf_name :: string
  bf_type :: field_type
  bf_default :: "field_value option"

definition required :: "string \<Rightarrow> field_type \<Rightarrow> body_field" where
  "required name ty = \<lparr>bf_name = name, bf_type = ty, bf_default = None\<rparr>"

definition LoginRequest :: "body_field list" where
  "LoginRequest = [required ''email'' (Text 1), required ''password'' (Text 1)]"

definition RefreshRequest :: "body_field list" where
  "RefreshRequest = [required ''refresh_token'' (Text 1)]"

definition RegisterRequest :: "body_field list" where
  "RegisterRequest =
     [required ''invite_token'' (Text 1), required ''username'' (Text 1), required ''first_name'' (Text 1),
      required ''last_name'' (Text 1), required ''password'' (Text 1),
      \<lparr>bf_name = ''avatar_url'', bf_type = Nullable_Text, bf_default = Some FNull\<rparr>]"

definition PasswordResetRequest :: "body_field list" where
  "PasswordResetRequest = [required ''email'' (Text 1)]"

definition PasswordResetConfirmRequest :: "body_field list" where
  "PasswordResetConfirmRequest = [required ''reset_token'' (Text 1), required ''new_password'' (Text 1)]"

definition PasswordChangeRequest :: "body_field list" where
  "PasswordChangeRequest = [required ''current_password'' (Text 1), required ''new_password'' (Text 1)]"

definition InviteCreateRequest :: "body_field list" where
  "InviteCreateRequest = [required ''email'' (Text 1)]"

definition AdminActionRequest :: "body_field list" where
  "AdminActionRequest = []"

definition ChannelCreateRequest :: "body_field list" where
  "ChannelCreateRequest = [required ''name'' (Text 0), required ''is_private'' Flag]"

definition MemberAddRequest :: "body_field list" where
  "MemberAddRequest = [required ''user_id'' Uuid_Field, required ''role'' (Text 0)]"

definition MemberRoleUpdateRequest :: "body_field list" where
  "MemberRoleUpdateRequest = [required ''role'' (Text 0)]"

definition MessageSendRequest :: "body_field list" where
  "MessageSendRequest =
     [required ''content'' (Text 0),
      \<lparr>bf_name = ''media_ids'', bf_type = Uuid_List, bf_default = Some (FUuids [])\<rparr>]"

definition MessageEditRequest :: "body_field list" where
  "MessageEditRequest = [required ''content'' (Text 0)]"

definition nullable :: "string \<Rightarrow> body_field" where
  "nullable name = \<lparr>bf_name = name, bf_type = Nullable_Text, bf_default = Some FNull\<rparr>"

definition ProfileUpdateRequest :: "body_field list" where
  "ProfileUpdateRequest =
     [nullable ''first_name'', nullable ''last_name'', nullable ''avatar_url'', nullable ''email'', nullable ''username'']"

subsection \<open>Validated bodies\<close>

type_synonym field_problems = "(loc list \<times> pystr) list"

type_synonym field_values = "(string \<times> field_value) list"

type_synonym payload = "(string \<times> json) list"

text \<open>The attributes of a validated body.\<close>

definition text_of :: "field_values \<Rightarrow> string \<Rightarrow> pystr" where
  "text_of vs k = (case map_of vs k of Some (FText s) \<Rightarrow> s | _ \<Rightarrow> [])"

definition nullable_of :: "field_values \<Rightarrow> string \<Rightarrow> pystr option" where
  "nullable_of vs k = (case map_of vs k of Some (FText s) \<Rightarrow> Some s | _ \<Rightarrow> None)"

definition flag_of :: "field_values \<Rightarrow> string \<Rightarrow> bool" where
  "flag_of vs k = (map_of vs k = Some (FFlag True))"

definition uuid_of :: "field_values \<Rightarrow> string \<Rightarrow> uuid" where
  "uuid_of vs k = (case map_of vs k of Some (FUuid u) \<Rightarrow> u | _ \<Rightarrow> 0)"

definition uuids_of :: "field_values \<Rightarrow> string \<Rightarrow> uuid list" where
  "uuids_of vs k = (case map_of vs k of Some (FUuids us) \<Rightarrow> us | _ \<Rightarrow> [])"

text \<open>\<open>_parse_body\<close> reads the bytes itself: \<open>json.loads\<close> may raise \<open>JSONDecodeError\<close>, which is caught,
  or another exception (\<open>UnicodeDecodeError\<close>, \<open>RecursionError\<close>), which is not.\<close>

datatype raw_body = Not_Json | Loads_Raises pystr pystr | Json_Body json

definition parse_raw_body :: "(json \<Rightarrow> field_problems + 'm) \<Rightarrow> raw_body \<Rightarrow> app_exception + 'm" where
  "parse_raw_body validate body =
     (case body of
        Not_Json \<Rightarrow> Inl (HTTP_Exception 400 (Some (py ''Request body is not valid JSON.'')))
      | Loads_Raises ty msg \<Rightarrow> Inl (Other_Exception ty msg)
      | Json_Body raw \<Rightarrow>
          (case validate raw of
             Inl errors \<Rightarrow> Inl (HTTP_Exception 400 (Some (py ''Request body is missing or has malformed fields.'')))
           | Inr m \<Rightarrow> Inr m))"

subsection \<open>Routes from their bodies\<close>

text \<open>A route that raises before it runs leaves the state as it was.\<close>

definition from_body :: "app_exception + 'm \<Rightarrow> ('m \<Rightarrow> 's \<Rightarrow> 'r \<times> 's) \<Rightarrow> 's \<Rightarrow> (app_exception + 'r) \<times> 's" where
  "from_body parsed route w =
     (case parsed of
        Inl exc \<Rightarrow> (Inl exc, w)
      | Inr m \<Rightarrow> (case route m w of (r, w') \<Rightarrow> (Inr r, w')))"

definition post_channel where
  "post_channel validate new_id now current payload =
     from_body (parse_body (validate ChannelCreateRequest) (JObj payload)) (\<lambda>b d.
       case create_channel_route new_id now (text_of b ''name'') (flag_of b ''is_private'') current d of
         (r, d', ps) \<Rightarrow> ((r, ps), d'))"

definition post_member where
  "post_member validate redis_up others now channel_id current payload =
     from_body (parse_body (validate MemberAddRequest) (JObj payload)) (\<lambda>b d.
       case add_channel_member_route redis_up others now channel_id (uuid_of b ''user_id'') (text_of b ''role'')
              current d of (r, d', ps) \<Rightarrow> ((r, ps), d'))"

definition patch_member where
  "patch_member validate channel_id user_id current payload =
     from_body (parse_body (validate MemberRoleUpdateRequest) (JObj payload)) (\<lambda>b d.
       case update_channel_member_role_route channel_id user_id (text_of b ''role'') current d of
         (r, d', ps) \<Rightarrow> ((r, ps), d'))"

text \<open>The two sends check the header before they look into the body.\<close>

definition post_channel_message where
  "post_channel_message validate env rd publish_ok new_id now channel_id current idempotency_key payload w =
     (case parse_idempotency_key idempotency_key of
        Inl (status, detail) \<Rightarrow> (Inr (MsgProblem status detail), w)
      | Inr key \<Rightarrow>
          from_body (parse_body (validate MessageSendRequest) (JObj payload)) (\<lambda>b.
            send_channel_message_route env rd publish_ok new_id now channel_id (text_of b ''content'')
              (uuids_of b ''media_ids'') current idempotency_key) w)"

definition post_dm_message where
  "post_dm_message validate env rd publish_ok new_id now user_id current idempotency_key payload w =
     (case parse_idempotency_key idempotency_key of
        Inl (status, detail) \<Rightarrow> (Inr (MsgProblem status detail), w)
      | Inr key \<Rightarrow>
          from_body (parse_body (validate MessageSendRequest) (JObj payload)) (\<lambda>b.
            send_dm_message_route env rd publish_ok new_id now user_id (text_of b ''content'')
              (uuids_of b ''media_ids'') current idempotency_key) w)"

definition patch_message where
  "patch_message validate publish_ok now message_id current payload =
     from_body (parse_body (validate MessageEditRequest) (JObj payload)) (\<lambda>b.
       edit_message_route publish_ok now message_id (text_of b ''content'') current)"

definition post_login where
  "post_login validate env le f user_agent body =
     from_body (parse_raw_body (validate LoginRequest) body) (\<lambda>b.
       login env le f user_agent (text_of b ''email'') (text_of b ''password''))"

definition post_refresh where
  "post_refresh validate env le f others body =
     from_body (parse_raw_body (validate RefreshRequest) body) (\<lambda>b.
       refresh env le f others (text_of b ''refresh_token''))"

definition register_request_of :: "field_values \<Rightarrow> register_request" where
  "register_request_of b =
     \<lparr>rq_invite_token = text_of b ''invite_token'', rq_username = text_of b ''username'',
      rq_first_name = text_of b ''first_name'', rq_last_name = text_of b ''last_name'',
      rq_password = text_of b ''password'', rq_avatar_url = nullable_of b ''avatar_url''\<rparr>"

definition post_register where
  "post_register validate env le f others body =
     from_body (parse_raw_body (validate RegisterRequest) body) (\<lambda>b.
       register env le f others (register_request_of b))"

definition post_password_reset where
  "post_password_reset validate env le payload =
     from_body (parse_body (validate PasswordResetRequest) (JObj payload)) (\<lambda>b.
       request_password_reset env le (text_of b ''email''))"

definition post_reset_confirm where
  "post_reset_confirm validate env call others now payload =
     from_body (parse_body (validate PasswordResetConfirmRequest) (JObj payload)) (\<lambda>b.
       confirm_password_reset env call others now (text_of b ''reset_token'') (text_of b ''new_password''))"

definition post_password_change where
  "post_password_change validate env call now current payload =
     from_body (parse_body (validate PasswordChangeRequest) (JObj payload)) (\<lambda>b.
       change_password env call now (text_of b ''current_password'') (text_of b ''new_password'') current)"

text \<open>The dependency on a System Admin comes before the body.\<close>

definition post_invite where
  "post_invite validate env base delivered f admin payload d =
     (if \<not> require_system_admin admin d
      then (Inr (Problem 403 ''This action requires System Admin privileges.'', []), d)
      else from_body (parse_body (validate InviteCreateRequest) (JObj payload)) (\<lambda>b d.
        case issue_invite env base delivered f (text_of b ''email'') admin d of (r, mails, d') \<Rightarrow> ((r, mails), d')) d)"

definition post_deactivate_user where
  "post_deactivate_user validate call others now user_id admin payload w =
     (if \<not> require_system_admin admin (ac_db w)
      then (Inr (Problem 403 ''This action requires System Admin privileges.''), w)
      else from_body (parse_body (validate AdminActionRequest) (JObj payload)) (\<lambda>_.
        deactivate_user_route call others now user_id admin) w)"

definition post_reactivate_user where
  "post_reactivate_user validate user_id admin payload w =
     (if \<not> require_system_admin admin (ac_db w)
      then (Inr (Problem 403 ''This action requires System Admin privileges.''), w)
      else from_body (parse_body (validate AdminActionRequest) (JObj payload)) (\<lambda>_.
        reactivate_user_route user_id admin) w)"

lemmas request_class_defs =
  LoginRequest_def RefreshRequest_def RegisterRequest_def PasswordResetRequest_def PasswordResetConfirmRequest_def
  PasswordChangeRequest_def InviteCreateRequest_def AdminActionRequest_def ChannelCreateRequest_def MemberAddRequest_def
  MemberRoleUpdateRequest_def MessageSendRequest_def MessageEditRequest_def ProfileUpdateRequest_def required_def nullable_def

subsection \<open>What a validated body holds\<close>

fun has_type :: "field_type \<Rightarrow> field_value \<Rightarrow> bool" where
  "has_type (Text n) (FText s) = (n \<le> length s)"
| "has_type Flag (FFlag b) = True"
| "has_type Uuid_Field (FUuid u) = True"
| "has_type Uuid_List (FUuids us) = True"
| "has_type Nullable_Text v = (v = FNull \<or> (\<exists>s. v = FText s))"
| "has_type _ _ = False"

definition well_declared :: "body_field list \<Rightarrow> bool" where
  "well_declared decls \<longleftrightarrow>
     distinct (map bf_name decls) \<and> (\<forall>f\<in>set decls. \<forall>v. bf_default f = Some v \<longrightarrow> has_type (bf_type f) v)"

lemma request_classes_declared:
  "\<forall>decls\<in>{LoginRequest, RefreshRequest, RegisterRequest, PasswordResetRequest, PasswordResetConfirmRequest,
     PasswordChangeRequest, InviteCreateRequest, AdminActionRequest, ChannelCreateRequest, MemberAddRequest,
     MemberRoleUpdateRequest, MessageSendRequest, MessageEditRequest, ProfileUpdateRequest}. well_declared decls"
  by (simp add: well_declared_def request_class_defs)

text \<open>The value of a JSON text, boolean or null in a field of that type.\<close>

definition valid_text :: "pystr \<Rightarrow> bool" where
  "valid_text s \<longleftrightarrow> list_all (\<lambda>c. \<not> (0xD800 \<le> c \<and> c \<le> 0xDFFF)) s"

fun plainly :: "field_type \<Rightarrow> json \<Rightarrow> field_value option" where
  "plainly (Text n) (JStr s) = (if n \<le> length s \<and> valid_text s then Some (FText s) else None)"
| "plainly Flag (JBool b) = Some (FFlag b)"
| "plainly Nullable_Text JNull = Some FNull"
| "plainly Nullable_Text (JStr s) = (if valid_text s then Some (FText s) else None)"
| "plainly _ _ = None"

text \<open>A required field that is missing or, where \<open>min_length\<close> asks for a character, the empty string.\<close>

definition lacking :: "body_field \<Rightarrow> payload \<Rightarrow> bool" where
  "lacking f kvs \<longleftrightarrow> bf_default f = None \<and>
     (case map_of kvs (bf_name f) of
        None \<Rightarrow> True
      | Some j \<Rightarrow> j = JStr [] \<and> (case bf_type f of Text n \<Rightarrow> 0 < n | _ \<Rightarrow> False))"

text \<open>What pydantic documents: a model is validated from an object only and then has exactly its
  fields, each of its type, the default where the key is missing; JSON values of the declared
  type are accepted as they are; a required field that is missing or too short is among the errors.\<close>

definition pydantic_ok :: "(body_field list \<Rightarrow> json \<Rightarrow> field_problems + field_values) \<Rightarrow> bool" where
  "pydantic_ok validate \<longleftrightarrow> (\<forall>decls. well_declared decls \<longrightarrow>
     (\<forall>raw vs. validate decls raw = Inr vs \<longrightarrow> (\<exists>kvs. raw = JObj kvs \<and> map fst vs = map bf_name decls \<and>
        (\<forall>f\<in>set decls. \<exists>v. map_of vs (bf_name f) = Some v \<and> has_type (bf_type f) v \<and>
           (case map_of kvs (bf_name f) of
              None \<Rightarrow> bf_default f = Some v | Some j \<Rightarrow> plainly (bf_type f) j \<in> {None, Some v})))) \<and>
     (\<forall>kvs. (\<forall>f\<in>set decls. case map_of kvs (bf_name f) of
               None \<Rightarrow> bf_default f \<noteq> None | Some j \<Rightarrow> plainly (bf_type f) j \<noteq> None) \<longrightarrow>
        (\<exists>vs. validate decls (JObj kvs) = Inr vs)) \<and>
     (\<forall>kvs. \<forall>f\<in>set decls. lacking f kvs \<longrightarrow>
        (\<exists>errors msg. validate decls (JObj kvs) = Inl errors \<and> ([Loc_Name (py (bf_name f))], msg) \<in> set errors)))"

lemma missing_rejected:
  assumes "pydantic_ok validate" "well_declared decls" "f \<in> set decls" "lacking f kvs"
  shows "\<exists>errors msg. parse_body (validate decls) (JObj kvs) = Inl (Malformed_Body_Error errors) \<and> (py (bf_name f), msg) \<in> set errors"
    "parse_raw_body (validate decls) (Json_Body (JObj kvs)) =
       Inl (HTTP_Exception 400 (Some (py ''Request body is missing or has malformed fields.'')))"
proof -
  obtain errors msg where errors: "validate decls (JObj kvs) = Inl errors" "([Loc_Name (py (bf_name f))], msg) \<in> set errors"
    using assms unfolding pydantic_ok_def by blast
  let ?named = "map (\<lambda>(loc, msg). (join_with (py ''.'') (map loc_str loc), msg)) errors"
  have "(\<lambda>(loc, msg). (join_with (py ''.'') (map loc_str loc), msg)) ([Loc_Name (py (bf_name f))], msg) \<in> set ?named"
    unfolding set_map by (rule imageI [OF errors(2)])
  then have "(py (bf_name f), msg) \<in> set ?named" by simp
  moreover have "parse_body (validate decls) (JObj kvs) = Inl (Malformed_Body_Error ?named)"
    by (simp add: parse_body_def errors(1))
  ultimately show "\<exists>errors msg. parse_body (validate decls) (JObj kvs) = Inl (Malformed_Body_Error errors) \<and>
      (py (bf_name f), msg) \<in> set errors"
    by blast
  show "parse_raw_body (validate decls) (Json_Body (JObj kvs)) =
       Inl (HTTP_Exception 400 (Some (py ''Request body is missing or has malformed fields.'')))"
    by (simp add: parse_raw_body_def errors(1))
qed

lemma plain_accepted:
  assumes "pydantic_ok validate" "well_declared decls"
    and "\<forall>f\<in>set decls. case map_of kvs (bf_name f) of None \<Rightarrow> bf_default f \<noteq> None | Some j \<Rightarrow> plainly (bf_type f) j \<noteq> None"
  obtains vs where "parse_body (validate decls) (JObj kvs) = Inr vs"
    "parse_raw_body (validate decls) (Json_Body (JObj kvs)) = Inr vs"
    "\<forall>f\<in>set decls. map_of vs (bf_name f) =
       (case map_of kvs (bf_name f) of None \<Rightarrow> bf_default f | Some j \<Rightarrow> plainly (bf_type f) j)"
proof -
  obtain vs where vs: "validate decls (JObj kvs) = Inr vs"
    using assms unfolding pydantic_ok_def by blast
  then have typed: "\<forall>f\<in>set decls. \<exists>v. map_of vs (bf_name f) = Some v \<and>
      (case map_of kvs (bf_name f) of None \<Rightarrow> bf_default f = Some v | Some j \<Rightarrow> plainly (bf_type f) j \<in> {None, Some v})"
    using assms(1,2) unfolding pydantic_ok_def by fastforce
  have "map_of vs (bf_name f) = (case map_of kvs (bf_name f) of None \<Rightarrow> bf_default f | Some j \<Rightarrow> plainly (bf_type f) j)"
    if "f \<in> set decls" for f
    using bspec [OF typed that] bspec [OF assms(3) that] by (auto split: option.splits)
  then show ?thesis using vs by (intro that) (auto simp: parse_body_def parse_raw_body_def)
qed

subsection \<open>Bodies reach their routes\<close>

text \<open>The two refusals of a body without the field \<open>k\<close>, in the state left as it was.\<close>

definition reports :: "string \<Rightarrow> 's \<Rightarrow> (app_exception + 'r) \<times> 's \<Rightarrow> bool" where
  "reports k w answer \<longleftrightarrow>
     snd answer = w \<and> (\<exists>errors msg. fst answer = Inl (Malformed_Body_Error errors) \<and> (py k, msg) \<in> set errors)"

definition refused :: "'s \<Rightarrow> (app_exception + 'r) \<times> 's \<Rightarrow> bool" where
  "refused w answer \<longleftrightarrow>
     answer = (Inl (HTTP_Exception 400 (Some (py ''Request body is missing or has malformed fields.''))), w)"

definition answered :: "'r \<times> 's \<Rightarrow> (app_exception + 'r) \<times> 's" where
  "answered answer = (Inr (fst answer), snd answer)"

lemma from_body_refusals:
  "parsed = Inl (Malformed_Body_Error errors) \<Longrightarrow> (py k, msg) \<in> set errors \<Longrightarrow> reports k w (from_body parsed route w)"
  "parsed = Inl (HTTP_Exception 400 (Some (py ''Request body is missing or has malformed fields.''))) \<Longrightarrow>
   refused w (from_body parsed route w)"
  by (auto simp: from_body_def reports_def refused_def)

lemma from_body_answered: "parsed = Inr b \<Longrightarrow> from_body parsed route w = answered (route b w)"
  by (simp add: from_body_def answered_def split: prod.split)

text \<open>The required fields of a class, and those that must not be empty.\<close>

definition requires :: "body_field list \<Rightarrow> string \<Rightarrow> bool" where
  "requires decls k \<longleftrightarrow> well_declared decls \<and> (\<exists>f\<in>set decls. bf_name f = k \<and> bf_default f = None)"

definition requires_text :: "body_field list \<Rightarrow> string \<Rightarrow> bool" where
  "requires_text decls k \<longleftrightarrow>
     well_declared decls \<and> (\<exists>f\<in>set decls. bf_name f = k \<and> bf_default f = None \<and> bf_type f = Text 1)"

lemma class_requires:
  "requires ChannelCreateRequest ''name''" "requires ChannelCreateRequest ''is_private''"
  "requires MemberAddRequest ''user_id''" "requires MemberAddRequest ''role''"
  "requires MemberRoleUpdateRequest ''role''"
  "requires MessageSendRequest ''content''" "requires MessageEditRequest ''content''"
  by (simp_all add: requires_def well_declared_def request_class_defs)

lemma class_requires_text:
  "requires_text PasswordResetRequest ''email''" "requires_text InviteCreateRequest ''email''"
  "requires_text PasswordResetConfirmRequest ''reset_token''" "requires_text PasswordResetConfirmRequest ''new_password''"
  "requires_text PasswordChangeRequest ''current_password''" "requires_text PasswordChangeRequest ''new_password''"
  "requires_text LoginRequest ''email''" "requires_text LoginRequest ''password''"
  "requires_text RefreshRequest ''refresh_token''"
  "requires_text RegisterRequest ''invite_token''" "requires_text RegisterRequest ''username''"
  "requires_text RegisterRequest ''first_name''" "requires_text RegisterRequest ''last_name''"
  "requires_text RegisterRequest ''password''"
  by (simp_all add: requires_text_def well_declared_def request_class_defs)

text \<open>A body without such a field, on either path.\<close>

definition absent :: "payload \<Rightarrow> string \<Rightarrow> bool" where
  "absent p k \<longleftrightarrow> map_of p k = None"

definition absent_or_empty :: "payload \<Rightarrow> string \<Rightarrow> bool" where
  "absent_or_empty p k \<longleftrightarrow> map_of p k = None \<or> map_of p k = Some (JStr [])"

lemma lacking_field:
  "requires decls k \<and> absent p k \<or> requires_text decls k \<and> absent_or_empty p k \<Longrightarrow>
   well_declared decls \<and> (\<exists>f\<in>set decls. bf_name f = k \<and> lacking f p)"
  by (auto simp: requires_def requires_text_def absent_def absent_or_empty_def lacking_def)

lemma class_rejects:
  assumes "pydantic_ok validate" "requires decls k \<and> absent p k \<or> requires_text decls k \<and> absent_or_empty p k"
  shows "reports k w (from_body (parse_body (validate decls) (JObj p)) route w)"
    "refused w (from_body (parse_raw_body (validate decls) (Json_Body (JObj p))) route' w)"
proof -
  obtain f where f: "f \<in> set decls" "lacking f p" "bf_name f = k" and declared: "well_declared decls"
    using lacking_field [OF assms(2)] by blast
  note rejected = missing_rejected [OF assms(1) declared f(1,2)]
  obtain errors msg where "parse_body (validate decls) (JObj p) = Inl (Malformed_Body_Error errors)"
      "(py k, msg) \<in> set errors"
    using rejected(1) f(3) by blast
  then show "reports k w (from_body (parse_body (validate decls) (JObj p)) route w)"
    by (rule from_body_refusals(1))
  show "refused w (from_body (parse_raw_body (validate decls) (Json_Body (JObj p))) route' w)"
    by (rule from_body_refusals(2) [OF rejected(2)])
qed

lemma body_rejected:
  "pydantic_ok validate \<Longrightarrow> absent p k \<Longrightarrow> requires decls k \<Longrightarrow>
   reports k w (from_body (parse_body (validate decls) (JObj p)) route w)"
  "pydantic_ok validate \<Longrightarrow> absent_or_empty p k \<Longrightarrow> requires_text decls k \<Longrightarrow>
   reports k w (from_body (parse_body (validate decls) (JObj p)) route w)"
  "pydantic_ok validate \<Longrightarrow> absent_or_empty p k \<Longrightarrow> requires_text decls k \<Longrightarrow>
   refused w (from_body (parse_raw_body (validate decls) (Json_Body (JObj p))) route' w)"
  by (rule class_rejects; blast)+

lemma channel_bodies_refused:
  assumes "pydantic_ok v"
  shows "\<forall>k\<in>{''name'', ''is_private''}. absent p k \<longrightarrow> reports k d (post_channel v i now u p d)"
    "\<forall>k\<in>{''user_id'', ''role''}. absent p k \<longrightarrow> reports k d (post_member v up others now c u p d)"
    "absent p ''role'' \<longrightarrow> reports ''role'' d (patch_member v c t u p d)"
  by (simp_all only: post_channel_def post_member_def patch_member_def ball_simps(5,7) simp_thms)
     (intro conjI impI body_rejected(1) [OF assms] class_requires; assumption)+

lemma message_bodies_refused:
  assumes "pydantic_ok v" "absent p ''content''"
  shows "reports ''content'' w (patch_message v up now mid u p w)"
    "parse_idempotency_key key = Inr x \<Longrightarrow>
     reports ''content'' w (post_channel_message v env rd up i now c u key p w)"
    "parse_idempotency_key key = Inr x \<Longrightarrow>
     reports ''content'' w (post_dm_message v env rd up i now t u key p w)"
  by (simp_all only: patch_message_def post_channel_message_def post_dm_message_def sum.case)
     (intro body_rejected(1) [OF assms] class_requires)+

lemma account_bodies_refused:
  assumes "pydantic_ok v"
  shows "absent_or_empty p ''email'' \<longrightarrow> reports ''email'' a (post_password_reset v penv le p a)"
    "\<forall>k\<in>{''reset_token'', ''new_password''}. absent_or_empty p k \<longrightarrow>
       reports k a (post_reset_confirm v penv call others now p a)"
    "\<forall>k\<in>{''current_password'', ''new_password''}. absent_or_empty p k \<longrightarrow>
       reports k a (post_password_change v penv call now u p a)"
    "require_system_admin u d \<Longrightarrow> absent_or_empty p ''email'' \<longrightarrow>
       reports ''email'' d (post_invite v ienv base delivered f u p d)"
  by (simp_all only: post_password_reset_def post_reset_confirm_def post_password_change_def post_invite_def
        ball_simps(5,7) simp_thms if_False)
     (intro conjI impI body_rejected(2) [OF assms] class_requires_text; assumption)+

lemma auth_bodies_refused:
  assumes "pydantic_ok v"
  shows "\<forall>k\<in>{''email'', ''password''}. absent_or_empty p k \<longrightarrow>
       refused a (post_login v env le f ua (Json_Body (JObj p)) a)"
    "absent_or_empty p ''refresh_token'' \<longrightarrow> refused a (post_refresh v env le f others' (Json_Body (JObj p)) a)"
    "\<forall>k\<in>{''invite_token'', ''username'', ''first_name'', ''last_name'', ''password''}. absent_or_empty p k \<longrightarrow>
       refused a (post_register v renv le f others (Json_Body (JObj p)) a)"
  by (simp_all only: post_login_def post_refresh_def post_register_def ball_simps(5,7) simp_thms)
     (intro conjI impI; (rule body_rejected(3) [OF assms], assumption, rule class_requires_text))+

text \<open>The payload has these texts.\<close>

definition has_texts :: "payload \<Rightarrow> (string \<times> pystr) list \<Rightarrow> bool" where
  "has_texts p texts \<longleftrightarrow> (\<forall>(k, s)\<in>set texts. map_of p k = Some (JStr s) \<and> valid_text s)"

lemma channel_body_read:
  assumes "pydantic_ok v" "has_texts p [(''name'', n)]" "map_of p ''is_private'' = Some (JBool b)"
  shows "post_channel v i now u p d =
    (case create_channel_route i now n b u d of (r, d', ps) \<Rightarrow> (Inr (r, ps), d'))"
proof -
  have "well_declared ChannelCreateRequest" using request_classes_declared by simp
  from plain_accepted [OF assms(1) this, of p] obtain vs where
      "parse_body (v ChannelCreateRequest) (JObj p) = Inr vs"
      "map_of vs ''name'' = Some (FText n)" "map_of vs ''is_private'' = Some (FFlag b)"
    using assms(2,3) by (auto simp: ChannelCreateRequest_def required_def has_texts_def)
  then show ?thesis
    by (auto simp: post_channel_def from_body_def text_of_def flag_of_def split: prod.split)
qed

lemma message_body_read:
  assumes "pydantic_ok v" "has_texts p [(''content'', s)]"
  shows "patch_message v up now mid u p w = answered (edit_message_route up now mid s u w)"
    "map_of p ''media_ids'' = None \<Longrightarrow> parse_idempotency_key key = Inr x \<Longrightarrow>
     post_channel_message v env rd up i now c u key p w =
       answered (send_channel_message_route env rd up i now c s [] u key w) \<and>
     post_dm_message v env rd up i now t u key p w =
       answered (send_dm_message_route env rd up i now t s [] u key w)"
proof -
  have "well_declared MessageEditRequest" using request_classes_declared by simp
  from plain_accepted [OF assms(1) this, of p] obtain vs where
      "parse_body (v MessageEditRequest) (JObj p) = Inr vs" "map_of vs ''content'' = Some (FText s)"
    using assms(2) by (auto simp: MessageEditRequest_def required_def has_texts_def)
  then show "patch_message v up now mid u p w = answered (edit_message_route up now mid s u w)"
    by (simp add: patch_message_def from_body_answered text_of_def)
  assume *: "map_of p ''media_ids'' = None" "parse_idempotency_key key = Inr x"
  have "well_declared MessageSendRequest" using request_classes_declared by simp
  from plain_accepted [OF assms(1) this, of p] obtain vs where
      "parse_body (v MessageSendRequest) (JObj p) = Inr vs" "map_of vs ''content'' = Some (FText s)"
      "map_of vs ''media_ids'' = Some (FUuids [])"
    using assms(2) *(1) by (auto simp: MessageSendRequest_def required_def has_texts_def)
  then show "post_channel_message v env rd up i now c u key p w =
       answered (send_channel_message_route env rd up i now c s [] u key w) \<and>
     post_dm_message v env rd up i now t u key p w =
       answered (send_dm_message_route env rd up i now t s [] u key w)"
    by (simp add: post_channel_message_def post_dm_message_def *(2) from_body_answered text_of_def uuids_of_def)
qed

lemma auth_body_read:
  assumes "pydantic_ok v"
  shows "has_texts p [(''email'', e), (''password'', pw)] \<Longrightarrow> e \<noteq> [] \<Longrightarrow> pw \<noteq> [] \<Longrightarrow>
     post_login v env le f ua (Json_Body (JObj p)) a = answered (login env le f ua e pw a)"
    "has_texts p [(''invite_token'', tok), (''username'', un), (''first_name'', firstn), (''last_name'', lastn), (''password'', pw)] \<Longrightarrow>
     [] \<notin> {tok, un, firstn, lastn, pw} \<Longrightarrow> map_of p ''avatar_url'' = None \<Longrightarrow>
     post_register v renv le f' others (Json_Body (JObj p)) a =
       answered (register renv le f' others \<lparr>rq_invite_token = tok, rq_username = un, rq_first_name = firstn,
         rq_last_name = lastn, rq_password = pw, rq_avatar_url = None\<rparr> a)"
proof -
  assume *: "has_texts p [(''email'', e), (''password'', pw)]" "e \<noteq> []" "pw \<noteq> []"
  have "well_declared LoginRequest" using request_classes_declared by simp
  from plain_accepted [OF assms(1) this, of p] obtain vs where
      "parse_raw_body (v LoginRequest) (Json_Body (JObj p)) = Inr vs"
      "map_of vs ''email'' = Some (FText e)" "map_of vs ''password'' = Some (FText pw)"
    using * by (auto simp: LoginRequest_def required_def has_texts_def Suc_le_eq)
  then show "post_login v env le f ua (Json_Body (JObj p)) a = answered (login env le f ua e pw a)"
    by (simp add: post_login_def from_body_answered text_of_def)
next
  assume *: "has_texts p [(''invite_token'', tok), (''username'', un), (''first_name'', firstn), (''last_name'', lastn), (''password'', pw)]"
    "[] \<notin> {tok, un, firstn, lastn, pw}" "map_of p ''avatar_url'' = None"
  have filled: "tok \<noteq> [] \<and> un \<noteq> [] \<and> firstn \<noteq> [] \<and> lastn \<noteq> [] \<and> pw \<noteq> []" using *(2) by auto
  have "well_declared RegisterRequest" using request_classes_declared by simp
  from plain_accepted [OF assms(1) this, of p] obtain vs where
      "parse_raw_body (v RegisterRequest) (Json_Body (JObj p)) = Inr vs"
      "map_of vs ''invite_token'' = Some (FText tok)" "map_of vs ''username'' = Some (FText un)"
      "map_of vs ''first_name'' = Some (FText firstn)" "map_of vs ''last_name'' = Some (FText lastn)"
      "map_of vs ''password'' = Some (FText pw)" "map_of vs ''avatar_url'' = Some FNull"
    using *(1,3) filled by (auto simp: RegisterRequest_def required_def has_texts_def Suc_le_eq)
  then show "post_register v renv le f' others (Json_Body (JObj p)) a =
       answered (register renv le f' others \<lparr>rq_invite_token = tok, rq_username = un, rq_first_name = firstn,
         rq_last_name = lastn, rq_password = pw, rq_avatar_url = None\<rparr> a)"
    by (simp add: post_register_def from_body_answered text_of_def nullable_of_def register_request_of_def)
qed

text \<open>
  C16. Every route with a JSON body refuses one that lacks a required field of its class, and
  leaves the state as it was.  The channel, member and message routes (the two sends after their
  header) answer with the 400 that names the field; so do the password routes and, for a System Admin,
  the issue of an invite, also when the field is the empty string.  Login, refresh and registration
  answer with one plain 400.  A body with a text (and a boolean) in the required fields is what the
  route acts on: creating a channel, editing and sending a message (no media where none are named),
  logging in and registering (no picture where none is sent) run with exactly these values.
\<close>

theorem bodies_reach_their_routes:
  assumes "pydantic_ok v"
  shows "(\<forall>k\<in>{''name'', ''is_private''}. absent p k \<longrightarrow> reports k d (post_channel v i now u p d))
    \<and> (\<forall>k\<in>{''user_id'', ''role''}. absent p k \<longrightarrow> reports k d (post_member v up others now c u p d))
    \<and> (absent p ''role'' \<longrightarrow> reports ''role'' d (patch_member v c t u p d))
    \<and> (absent p ''content'' \<longrightarrow> reports ''content'' w (patch_message v up now mid u p w) \<and>
        (parse_idempotency_key key = Inr x \<longrightarrow>
           reports ''content'' w (post_channel_message v env rd up i now c u key p w) \<and>
           reports ''content'' w (post_dm_message v env rd up i now t u key p w)))
    \<and> (absent_or_empty p ''email'' \<longrightarrow> reports ''email'' a (post_password_reset v penv le p a))
    \<and> (\<forall>k\<in>{''reset_token'', ''new_password''}. absent_or_empty p k \<longrightarrow>
        reports k a (post_reset_confirm v penv call others' now p a))
    \<and> (\<forall>k\<in>{''current_password'', ''new_password''}. absent_or_empty p k \<longrightarrow>
        reports k a (post_password_change v penv call now cur p a))
    \<and> (absent_or_empty p ''email'' \<and> require_system_admin adm d \<longrightarrow>
        reports ''email'' d (post_invite v ienv base delivered fi adm p d))
    \<and> (\<forall>k\<in>{''email'', ''password''}. absent_or_empty p k \<longrightarrow>
        refused a (post_login v aenv le f ua (Json_Body (JObj p)) a))
    \<and> (absent_or_empty p ''refresh_token'' \<longrightarrow> refused a (post_refresh v aenv le f others' (Json_Body (JObj p)) a))
    \<and> (\<forall>k\<in>{''invite_token'', ''username'', ''first_name'', ''last_name'', ''password''}. absent_or_empty p k \<longrightarrow>
        refused a (post_register v renv le fr others'' (Json_Body (JObj p)) a))
    \<and> (has_texts p [(''name'', n)] \<and> map_of p ''is_private'' = Some (JBool b) \<longrightarrow>
        post_channel v i now u p d =
          (case create_channel_route i now n b u d of (r, d', ps) \<Rightarrow> (Inr (r, ps), d')))
    \<and> (has_texts p [(''content'', s)] \<longrightarrow>
        patch_message v up now mid u p w = answered (edit_message_route up now mid s u w) \<and>
        (map_of p ''media_ids'' = None \<and> parse_idempotency_key key = Inr x \<longrightarrow>
           post_channel_message v env rd up i now c u key p w =
             answered (send_channel_message_route env rd up i now c s [] u key w) \<and>
           post_dm_message v env rd up i now t u key p w =
             answered (send_dm_message_route env rd up i now t s [] u key w)))
    \<and> (has_texts p [(''email'', e), (''password'', pw)] \<and> e \<noteq> [] \<and> pw \<noteq> [] \<longrightarrow>
        post_login v aenv le f ua (Json_Body (JObj p)) a = answered (login aenv le f ua e pw a))
    \<and> (has_texts p [(''invite_token'', tok), (''username'', un), (''first_name'', firstn), (''last_name'', lastn),
            (''password'', pw)] \<and> [] \<notin> {tok, un, firstn, lastn, pw} \<and> map_of p ''avatar_url'' = None \<longrightarrow>
        post_register v renv le fr others'' (Json_Body (JObj p)) a =
          answered (register renv le fr others'' \<lparr>rq_invite_token = tok, rq_username = un, rq_first_name = firstn,
            rq_last_name = lastn, rq_password = pw, rq_avatar_url = None\<rparr> a))"
  by (intro conjI channel_bodies_refused account_bodies_refused(1-3) auth_bodies_refused assms)
     (blast intro: message_bodies_refused [OF assms] account_bodies_refused(4) [OF assms, rule_format]
        channel_body_read [OF assms] message_body_read(1) [OF assms] auth_body_read [OF assms]
        message_body_read(2) [OF assms, THEN conjunct1] message_body_read(2) [OF assms, THEN conjunct2])+

text \<open>A reader that takes the JSON values as they are.\<close>

definition plain_value :: "payload \<Rightarrow> body_field \<Rightarrow> field_value option" where
  "plain_value kvs f = (case map_of kvs (bf_name f) of None \<Rightarrow> bf_default f | Some j \<Rightarrow> plainly (bf_type f) j)"

definition plain_validate :: "body_field list \<Rightarrow> json \<Rightarrow> field_problems + field_values" where
  "plain_validate decls raw =
     (case raw of
        JObj kvs \<Rightarrow>
          (case filter (\<lambda>f. plain_value kvs f = None) decls of
             [] \<Rightarrow> Inr (map (\<lambda>f. (bf_name f, the (plain_value kvs f))) decls)
           | bad \<Rightarrow> Inl (map (\<lambda>f. ([Loc_Name (py (bf_name f))], py ''Field required'')) bad))
      | _ \<Rightarrow> Inl [([], py ''Input should be an object'')])"

lemma plainly_typed: "plainly ty j = Some v \<Longrightarrow> has_type ty v"
  by (induction ty j rule: plainly.induct) (auto split: if_splits)

lemma map_of_fields:
  "distinct (map bf_name decls) \<Longrightarrow> f \<in> set decls \<Longrightarrow> map_of (map (\<lambda>f. (bf_name f, g f)) decls) (bf_name f) = Some (g f)"
  by (induction decls) (auto intro: rev_image_eqI)

lemma plain_validate_Inr:
  "plain_validate decls raw = Inr vs \<longleftrightarrow> (\<exists>kvs. raw = JObj kvs \<and> (\<forall>f\<in>set decls. plain_value kvs f \<noteq> None) \<and>
     vs = map (\<lambda>f. (bf_name f, the (plain_value kvs f))) decls)"
  by (auto simp: plain_validate_def filter_empty_conv split: json.splits list.splits)

lemma plain_validate_Inl:
  assumes "f \<in> set decls" "plain_value kvs f = None"
  shows "\<exists>errors msg. plain_validate decls (JObj kvs) = Inl errors \<and> ([Loc_Name (py (bf_name f))], msg) \<in> set errors"
proof -
  let ?bad = "filter (\<lambda>f. plain_value kvs f = None) decls"
  have f: "f \<in> set ?bad" using assms by simp
  then have "plain_validate decls (JObj kvs) = Inl (map (\<lambda>f. ([Loc_Name (py (bf_name f))], py ''Field required'')) ?bad)"
    by (cases ?bad) (auto simp: plain_validate_def)
  then show ?thesis using f by (fastforce simp: image_iff)
qed

lemma plain_validate_ok: "pydantic_ok plain_validate"
  unfolding pydantic_ok_def
proof (intro allI impI conjI ballI)
  fix decls :: "body_field list" and raw vs
  assume "well_declared decls" "plain_validate decls raw = Inr vs"
  then obtain kvs where kvs: "raw = JObj kvs" "\<forall>f\<in>set decls. plain_value kvs f \<noteq> None"
      "vs = map (\<lambda>f. (bf_name f, the (plain_value kvs f))) decls"
    and decls: "distinct (map bf_name decls)" "\<forall>f\<in>set decls. \<forall>v. bf_default f = Some v \<longrightarrow> has_type (bf_type f) v"
    by (auto simp: plain_validate_Inr well_declared_def)
  have "\<exists>v. map_of vs (bf_name f) = Some v \<and> has_type (bf_type f) v \<and>
      (case map_of kvs (bf_name f) of
         None \<Rightarrow> bf_default f = Some v | Some j \<Rightarrow> plainly (bf_type f) j \<in> {None, Some v})" if f: "f \<in> set decls" for f
  proof -
    obtain v where v: "plain_value kvs f = Some v" using kvs(2) f by blast
    moreover have "map_of vs (bf_name f) = Some v" 
      using map_of_fields [OF decls(1) f, of "\<lambda>f. the (plain_value kvs f)"] v by (simp add: kvs(3))
    ultimately show ?thesis using f decls(2)
      by (auto simp: plain_value_def dest: plainly_typed split: option.splits)
  qed
  moreover have "map fst vs = map bf_name decls" by (simp add: kvs(3))
  ultimately show "\<exists>kvs. raw = JObj kvs \<and> map fst vs = map bf_name decls \<and>
      (\<forall>f\<in>set decls. \<exists>v. map_of vs (bf_name f) = Some v \<and> has_type (bf_type f) v \<and>
        (case map_of kvs (bf_name f) of
           None \<Rightarrow> bf_default f = Some v | Some j \<Rightarrow> plainly (bf_type f) j \<in> {None, Some v}))"
    using kvs(1) by blast
next
  fix decls :: "body_field list" and kvs
  assume "\<forall>f\<in>set decls. case map_of kvs (bf_name f) of
      None \<Rightarrow> bf_default f \<noteq> None | Some j \<Rightarrow> plainly (bf_type f) j \<noteq> None"
  then have "\<forall>f\<in>set decls. plain_value kvs f \<noteq> None" by (auto simp: plain_value_def split: option.splits)
  then show "\<exists>vs. plain_validate decls (JObj kvs) = Inr vs" by (auto simp: plain_validate_Inr)
next
  fix decls :: "body_field list" and kvs f
  assume "f \<in> set decls" "lacking f kvs"
  moreover from this have "plain_value kvs f = None"
    by (auto simp: lacking_def plain_value_def split: option.splits field_type.splits)
  ultimately show "\<exists>errors msg. plain_validate decls (JObj kvs) = Inl errors \<and> ([Loc_Name (py (bf_name f))], msg) \<in> set errors"
    by (intro plain_validate_Inl)
qed

lemma bodies_reach_their_routes_witness:
  "reports ''is_private'' demo_db (post_channel plain_validate 12 9 1 [(''name'', JStr [111, 112, 115])] demo_db)
   \<and> post_channel plain_validate 12 9 1 [(''is_private'', JBool True), (''name'', JStr [111, 112, 115])] demo_db =
      (case create_channel_route 12 9 [111, 112, 115] True 1 demo_db of (r, d', ps) \<Rightarrow> (Inr (r, ps), d'))"
proof (rule conjI)
  let ?p = "[(''name'', JStr [111, 112, 115])]" and ?q = "[(''is_private'', JBool True), (''name'', JStr [111, 112, 115])]"
  have "absent ?p ''is_private''" by (simp add: absent_def)
  then show "reports ''is_private'' demo_db (post_channel plain_validate 12 9 1 ?p demo_db)"
    by (rule bodies_reach_their_routes [OF plain_validate_ok, THEN conjunct1, rule_format, rotated]) simp
  have "has_texts ?q [(''name'', [111, 112, 115])] \<and> map_of ?q ''is_private'' = Some (JBool True)"
    by (simp add: has_texts_def valid_text_def)
  then show "post_channel plain_validate 12 9 1 ?q demo_db =
      (case create_channel_route 12 9 [111, 112, 115] True 1 demo_db of (r, d', ps) \<Rightarrow> (Inr (r, ps), d'))"
    by (rule bodies_reach_their_routes [OF plain_validate_ok, THEN conjunct2, THEN conjunct2, THEN conjunct2,
          THEN conjunct2, THEN conjunct2, THEN conjunct2, THEN conjunct2, THEN conjunct2, THEN conjunct2, THEN conjunct2,
          THEN conjunct2, THEN conjunct1, THEN mp])
qed

text \<open>An exception of \<open>json.loads\<close> that is not \<open>JSONDecodeError\<close> is nobody's: the client's bytes
  are answered with a 500.\<close>

lemma undecodable_body_is_500:
  "problem_status (Other_Exception ty msg) = 500 \<and>
   from_body (parse_raw_body validate (Loads_Raises ty msg)) route w = (Inl (Other_Exception ty msg), w)"
  by (simp add: parse_raw_body_def from_body_def)

end
