(* ===== verification/Email.thy ===== *)
theory Email
  imports Metrics
begin

text \<open>
  Mail for invites and password resets (\<^verbatim>\<open>services/email.py\<close>): the templates, the check of the
  configuration at start-up and the inline delivery with its bounded retries.  The SMTP client
  is not under \<^verbatim>\<open>src\<close>: what each attempt meets is a parameter.
\<close>

datatype email_message_type = INVITE | PASSWORD_RESET

fun email_message_type_value :: "email_message_type \<Rightarrow> string" where
  "email_message_type_value INVITE = ''invite''"
| "email_message_type_value PASSWORD_RESET = ''password_reset''"

record rendered_email =
  re_subject :: pystr
  re_body :: pystr

definition NL :: pystr where "NL = [10, 10]"

definition render_invite_email :: "pystr \<Rightarrow> datetime \<Rightarrow> rendered_email" where
  "render_invite_email invite_link expires_at =
     \<lparr>re_subject = py ''You'' @ [39] @ py ''re invited to chatspace'',
      re_body = py ''You have been invited to join a chatspace workspace.'' @ NL @
        py ''Accept your invite: '' @ invite_link @ NL @
        py ''This invite link expires at '' @ isoformat expires_at @ py ''.'' @ NL @
        py ''If you were not expecting this invite, you can ignore this email.''\<rparr>"

definition render_password_reset_email :: "pystr \<Rightarrow> datetime \<Rightarrow> rendered_email" where
  "render_password_reset_email reset_link expires_at =
     \<lparr>re_subject = py ''Reset your chatspace password'',
      re_body = py ''A password reset was requested for your chatspace account.'' @ NL @
        py ''Reset your password: '' @ reset_link @ NL @
        py ''This reset link expires at '' @ isoformat expires_at @ py ''.'' @ NL @
        py ''If you did not request this, you can safely ignore this email -- your password will not be changed.''\<rparr>"

subsection \<open>Configuration\<close>

record smtp_settings =
  sm_host :: pystr
  sm_port :: int
  sm_username :: pystr
  sm_password :: pystr
  sm_from_address :: pystr
  sm_use_tls :: bool
  sm_start_tls :: bool
  sm_max_attempts :: int
  sm_retry_backoff_seconds :: rat
  sm_send_timeout_seconds :: rat

datatype email_config_error = EmailConfigError "string list"

definition verify_email_config :: "'a smtp_settings_scheme \<Rightarrow> email_config_error + unit" where
  "verify_email_config s =
     (let problems =
        (if py_strip (sm_host s) = [] then [''SMTP_HOST is blank''] else []) @
        (if py_strip (sm_username s) = [] then [''SMTP_USERNAME is blank''] else []) @
        (if py_strip (sm_password s) = [] then [''SMTP_PASSWORD is blank''] else []) @
        (if 64 \<notin> set (sm_from_address s) then [''SMTP_FROM_ADDRESS is not a valid email address''] else [])
      in check (problems = []) (EmailConfigError problems))"

subsection \<open>Construction of a message\<close>

text \<open>\<open>str.splitlines\<close>.\<close>

definition line_break :: "nat \<Rightarrow> bool" where
  "line_break c \<longleftrightarrow> c \<in> set [10, 11, 12, 13, 28, 29, 30, 133, 8232, 8233]"

fun splitlines :: "pystr \<Rightarrow> pystr list" where
  "splitlines [] = []"
| "splitlines (c # cs) =
     (if c = 13 \<and> cs \<noteq> [] \<and> hd cs = 10 then [] # splitlines (tl cs)
      else if line_break c then [] # splitlines cs
      else case splitlines cs of [] \<Rightarrow> [[c]]
           | w # ws \<Rightarrow> (c # w) # ws)"

text \<open>A header of \<open>EmailMessage\<close> rejects a value of more than one line, its content one that
  cannot be encoded.  Defects of addresses do not raise.\<close>

definition header_ok :: "pystr \<Rightarrow> bool" where
  "header_ok v \<longleftrightarrow> length (splitlines v) \<le> 1"

definition encodable :: "pystr \<Rightarrow> bool" where
  "encodable s \<longleftrightarrow> list_all (\<lambda>c. \<not> (55296 \<le> c \<and> c \<le> 57343)) s"

record email_message =
  em_from :: pystr
  em_to :: pystr
  em_subject :: pystr
  em_content :: pystr

definition build_message :: "'a smtp_settings_scheme \<Rightarrow> pystr \<Rightarrow> rendered_email \<Rightarrow> email_message option" where
  "build_message s to_email rendered =
     (if header_ok (sm_from_address s) \<and> header_ok to_email \<and> header_ok (re_subject rendered) \<and>
         encodable (re_body rendered)
      then Some \<lparr>em_from = sm_from_address s, em_to = to_email, em_subject = re_subject rendered,
                 em_content = re_body rendered\<rparr>
      else None)"

subsection \<open>Delivery\<close>

text \<open>An attempt is accepted by the server, fails in a way that is retried (an SMTP error, an
  \<open>OSError\<close> or the time-out), or raises something else.\<close>

datatype smtp_attempt = Accepted | Retryable | Raises pystr

datatype delivery = Delivered | EmailDeliveryError email_message_type int | Raised pystr

text \<open>What was done on the way: messages put on the wire, seconds slept, metrics.\<close>

record mail_run =
  mr_sent :: "email_message list"
  mr_slept :: rat
  mr_metrics :: metrics

definition count_mail :: "string \<Rightarrow> email_message_type \<Rightarrow> mail_run \<Rightarrow> mail_run" where
  "count_mail name message_type w =
     w\<lparr>mr_metrics := increment_counter name 1
         [(''message_type'', py (email_message_type_value message_type))] (mr_metrics w)\<rparr>"

fun attempt_loop ::
  "(int \<Rightarrow> smtp_attempt) \<Rightarrow> 'a smtp_settings_scheme \<Rightarrow> email_message_type \<Rightarrow> email_message \<Rightarrow> int list \<Rightarrow>
   mail_run \<Rightarrow> delivery \<times> mail_run" where
  "attempt_loop smtp s message_type m [] w =
     (EmailDeliveryError message_type (sm_max_attempts s), count_mail ''email_send_failure_total'' message_type w)"
| "attempt_loop smtp s message_type m (attempt # rest) w =
     (let w = w\<lparr>mr_sent := mr_sent w @ [m]\<rparr> in
      case smtp attempt of
        Accepted \<Rightarrow> (Delivered, count_mail ''email_send_success_total'' message_type w)
      | Raises e \<Rightarrow> (Raised e, w)
      | Retryable \<Rightarrow>
          attempt_loop smtp s message_type m rest
            (if attempt < sm_max_attempts s
             then w\<lparr>mr_slept := mr_slept w + sm_retry_backoff_seconds s * of_int attempt\<rparr> else w))"

definition send_with_retry ::
  "(int \<Rightarrow> smtp_attempt) \<Rightarrow> 'a smtp_settings_scheme \<Rightarrow> pystr \<Rightarrow> rendered_email \<Rightarrow> email_message_type \<Rightarrow>
   mail_run \<Rightarrow> delivery \<times> mail_run" where
  "send_with_retry smtp s to_email rendered message_type w =
     (case build_message s to_email rendered of
        None \<Rightarrow> (EmailDeliveryError message_type 0, count_mail ''email_send_failure_total'' message_type w)
      | Some m \<Rightarrow> attempt_loop smtp s message_type m [1..sm_max_attempts s] w)"

definition send_invite_email ::
  "(int \<Rightarrow> smtp_attempt) \<Rightarrow> 'a smtp_settings_scheme \<Rightarrow> pystr \<Rightarrow> pystr \<Rightarrow> datetime \<Rightarrow> mail_run \<Rightarrow> delivery \<times> mail_run" where
  "send_invite_email smtp s to_email invite_link expires_at =
     send_with_retry smtp s to_email (render_invite_email invite_link expires_at) INVITE"

definition send_password_reset_email ::
  "(int \<Rightarrow> smtp_attempt) \<Rightarrow> 'a smtp_settings_scheme \<Rightarrow> pystr \<Rightarrow> pystr \<Rightarrow> datetime \<Rightarrow> mail_run \<Rightarrow> delivery \<times> mail_run" where
  "send_password_reset_email smtp s to_email reset_link expires_at =
     send_with_retry smtp s to_email (render_password_reset_email reset_link expires_at) PASSWORD_RESET"

subsection \<open>Delivery is bounded and loud\<close>




text \<open>A header that is accepted is one line, but for a line break at its very end.\<close>

lemma splitlines_nonempty: "cs \<noteq> [] \<Longrightarrow> splitlines cs \<noteq> []"
  by (cases cs) (auto split: list.split)

lemma header_ok_one_line:
  assumes "header_ok v"
  shows "\<exists>line end. v = line @ end \<and> list_all (\<lambda>c. \<not> line_break c) line \<and>
    (end = [] \<or> end = [13, 10] \<or> (\<exists>c. line_break c \<and> end = [c]))"
  using assms unfolding header_ok_def
proof (induction v rule: splitlines.induct)
  case (2 c cs)
  show ?case
  proof (cases "c = 13 \<and> cs \<noteq> [] \<and> hd cs = 10")
    case True
    then have "tl cs = []" using 2(4) splitlines_nonempty [of "tl cs"] by (cases "splitlines (tl cs)") auto
    then have "c # cs = [13, 10]" using True by (cases cs) auto
    then show ?thesis by (intro exI [of _ "[]"] exI [of _ "[13, 10]"]) auto
  next
    case False
    note F = False
    show ?thesis
    proof (cases "line_break c")
      case True
      then have "cs = []" using 2(4) F splitlines_nonempty [of cs] by (cases "splitlines cs") (auto split: if_splits)
      then show ?thesis using True by (intro exI [of _ "[]"] exI [of _ "[c]"]) auto
    next
      case noeol: False
      have "length (splitlines cs) \<le> 1" using 2(4) noeol F by (auto split: list.splits if_splits)
      then obtain line ending where "cs = line @ ending" "list_all (\<lambda>c. \<not> line_break c) line"
        "ending = [] \<or> ending = [13, 10] \<or> (\<exists>c. line_break c \<and> ending = [c])"
        using 2(3) [OF F noeol] by blast
      then show ?thesis using noeol by (intro exI [of _ "c # line"] exI [of _ ending]) auto
    qed
  qed
qed simp






end
