(* ===== verification/Ws_Gateway.thy ===== *)
theory Ws_Gateway
  imports Presence Auth Channels
begin

text \<open>
  The WebSocket gateway: connect-time and periodic authentication (\<^verbatim>\<open>ws/auth.py\<close>), frames
  (\<^verbatim>\<open>ws/frames.py\<close>), the authorisation of a join (\<^verbatim>\<open>ws/conversations.py\<close>), the
  registry of connections (\<^verbatim>\<open>ws/connection_manager.py\<close>), typing events
  (\<^verbatim>\<open>ws/typing_events.py\<close>), the relay of one message (\<^verbatim>\<open>ws/fanout.py\<close>) and the
  endpoint with its loop (\<^verbatim>\<open>ws/router.py\<close>).  One frame is handled as one step; what
  everything else does to the shared state between two frames is a parameter of the frame.
  Text frames arrive decoded from JSON; \<open>parse_id\<close> is the UUID parser of the validation
  library.  Clocks, Redis failures and failing sends are parameters.
\<close>

subsection \<open>Close codes and authentication\<close>

datatype ws_close_code =
    NORMAL_CLOSURE | GOING_AWAY | AUTH_FAILED | TOKEN_EXPIRED | TOKEN_REVOKED | USER_DEACTIVATED
  | HEARTBEAT_TIMEOUT | RATE_LIMITED

fun close_code_value :: "ws_close_code \<Rightarrow> int" where
  "close_code_value NORMAL_CLOSURE = 1000"
| "close_code_value GOING_AWAY = 1001"
| "close_code_value AUTH_FAILED = 4401"
| "close_code_value TOKEN_EXPIRED = 4402"
| "close_code_value TOKEN_REVOKED = 4403"
| "close_code_value USER_DEACTIVATED = 4404"
| "close_code_value HEARTBEAT_TIMEOUT = 4408"
| "close_code_value RATE_LIMITED = 4429"

record ws_authenticated_connection =
  wa_user_id :: uuid
  wa_session_id :: uuid
  wa_token_expires_at :: datetime
  wa_accepted_subprotocol :: "pystr option"

text \<open>The query parameter and the \<open>Sec-WebSocket-Protocol\<close> header, the empty text if absent.\<close>

definition extract_access_token :: "pystr option \<Rightarrow> pystr \<Rightarrow> (pystr \<times> pystr option) option" where
  "extract_access_token query_token header =
     (if query_token \<noteq> None \<and> query_token \<noteq> Some [] then Some (the query_token, None)
      else (case map py_strip (split_on 44 header) of
              [scheme, token] \<Rightarrow>
                if ascii_lower scheme = py ''bearer'' \<and> token \<noteq> [] then Some (token, Some scheme) else None
            | _ \<Rightarrow> None))"

definition authenticate_connect ::
  "(datetime \<Rightarrow> pystr \<Rightarrow> pystr + json) \<Rightarrow> redis_call \<Rightarrow> redis_call \<Rightarrow> (account \<Rightarrow> account) \<Rightarrow> datetime \<Rightarrow>
   pystr option \<Rightarrow> pystr \<Rightarrow> account \<Rightarrow> ws_authenticated_connection option \<times> account" where
  "authenticate_connect jwt_decode read_call write_call others now query_token header w =
     (case extract_access_token query_token header of
        None \<Rightarrow> (None, w)
      | Some (token, accepted_subprotocol) \<Rightarrow>
          (case decode_access_token jwt_decode now token of
             Inl e \<Rightarrow> (None, w)
           | Inr payload \<Rightarrow>
               (case (parse_uuid (at_user_id payload), parse_uuid (at_session_id payload)) of
                  (Some user_id, Some session_id) \<Rightarrow>
                    (case is_session_active read_call write_call others now session_id w of
                       (session_active, w') \<Rightarrow>
                         if \<not> session_active then (None, w')
                         else (case get_user user_id (ac_db w') of
                                 None \<Rightarrow> (None, w')
                               | Some u \<Rightarrow>
                                   (if u_is_active u
                                    then Some \<lparr>wa_user_id = user_id, wa_session_id = session_id,
                                               wa_token_expires_at = at_expires_at payload,
                                               wa_accepted_subprotocol = accepted_subprotocol\<rparr>
                                    else None, w')))
                | _ \<Rightarrow> (None, w))))"

definition revalidate_connection ::
  "redis_call \<Rightarrow> redis_call \<Rightarrow> (account \<Rightarrow> account) \<Rightarrow> datetime \<Rightarrow> ws_authenticated_connection \<Rightarrow> account \<Rightarrow>
   ws_close_code option \<times> account" where
  "revalidate_connection read_call write_call others now connection w =
     (if wa_token_expires_at connection \<le> now then (Some TOKEN_EXPIRED, w)
      else case is_session_active read_call write_call others now (wa_session_id connection) w of
        (session_active, w') \<Rightarrow>
          if \<not> session_active then (Some TOKEN_REVOKED, w')
          else (case get_user (wa_user_id connection) (ac_db w') of
                  None \<Rightarrow> (Some USER_DEACTIVATED, w')
                | Some u \<Rightarrow> (if u_is_active u then None else Some USER_DEACTIVATED, w')))"

subsection \<open>Frames\<close>

datatype conversation = ChannelConversation uuid | DMConversation uuid

datatype client_frame =
    JoinFrame conversation
  | LeaveFrame conversation
  | TypingFrame conversation
  | PingFrame

text \<open>Unknown and missing fields are rejected (\<open>extra="forbid"\<close>).\<close>

definition has_fields :: "string list \<Rightarrow> (string \<times> json) list \<Rightarrow> bool" where
  "has_fields names kvs \<longleftrightarrow> set (map fst kvs) = set names"

definition json_id :: "(pystr \<Rightarrow> uuid option) \<Rightarrow> json option \<Rightarrow> uuid option" where
  "json_id parse_id v = Option.bind (json_string v) parse_id"

fun validate_conversation :: "(pystr \<Rightarrow> uuid option) \<Rightarrow> json option \<Rightarrow> conversation option" where
  "validate_conversation parse_id (Some (JObj kvs)) =
     (if jget ''kind'' (JObj kvs) = Some (JStr (py ''channel'')) \<and> has_fields [''kind'', ''channel_id''] kvs
      then map_option ChannelConversation (json_id parse_id (jget ''channel_id'' (JObj kvs)))
      else if jget ''kind'' (JObj kvs) = Some (JStr (py ''dm'')) \<and> has_fields [''kind'', ''user_id''] kvs
      then map_option DMConversation (json_id parse_id (jget ''user_id'' (JObj kvs)))
      else None)"
| "validate_conversation parse_id _ = None"

fun validate_client_frame :: "(pystr \<Rightarrow> uuid option) \<Rightarrow> json \<Rightarrow> client_frame option" where
  "validate_client_frame parse_id (JObj kvs) =
     (if jget ''type'' (JObj kvs) = Some (JStr (py ''ping''))
      then (if has_fields [''type''] kvs then Some PingFrame else None)
      else if \<not> has_fields [''type'', ''conversation''] kvs then None
      else (case validate_conversation parse_id (jget ''conversation'' (JObj kvs)) of
              None \<Rightarrow> None
            | Some conversation \<Rightarrow>
                (if jget ''type'' (JObj kvs) = Some (JStr (py ''join'')) then Some (JoinFrame conversation)
                 else if jget ''type'' (JObj kvs) = Some (JStr (py ''leave'')) then Some (LeaveFrame conversation)
                 else if jget ''type'' (JObj kvs) = Some (JStr (py ''typing'')) then Some (TypingFrame conversation)
                 else None)))"
| "validate_client_frame parse_id _ = None"

definition error_frame :: "string \<Rightarrow> string \<Rightarrow> json" where
  "error_frame code detail =
     JObj [(''type'', JStr (py ''error'')),
           (''data'', JObj [(''code'', JStr (py code)), (''detail'', JStr (py detail))])]"

definition pong_frame :: json where
  "pong_frame = JObj [(''type'', JStr (py ''pong''))]"

subsection \<open>Joining a conversation\<close>

text \<open>The topic, or the code and detail of a non-fatal error.\<close>

definition authorize_dm :: "uuid \<Rightarrow> uuid \<Rightarrow> database \<Rightarrow> string \<times> string + string" where
  "authorize_dm peer_id caller_id d =
     (if peer_id = caller_id
      then Inl (''invalid_conversation'', ''Cannot open a DM conversation with yourself.'')
      else case get_user peer_id d of
        None \<Rightarrow> Inl (''unauthorized_join'', ''DM recipient does not exist or is inactive.'')
      | Some peer \<Rightarrow>
          if \<not> u_is_active peer
          then Inl (''unauthorized_join'', ''DM recipient does not exist or is inactive.'')
          else Inr (dm_topic caller_id peer_id))"

fun authorize_conversation :: "conversation \<Rightarrow> uuid \<Rightarrow> database \<Rightarrow> string \<times> string + string" where
  "authorize_conversation (ChannelConversation channel_id) caller_id d =
     (case get_membership channel_id caller_id d of
        None \<Rightarrow> Inl (''unauthorized_join'', ''Not a member of this channel.'')
      | Some m \<Rightarrow> Inr (channel_topic channel_id))"
| "authorize_conversation (DMConversation user_id) caller_id d = authorize_dm user_id caller_id d"

fun ws_topic_for :: "conversation \<Rightarrow> uuid \<Rightarrow> string" where
  "ws_topic_for (ChannelConversation channel_id) caller_id = channel_topic channel_id"
| "ws_topic_for (DMConversation user_id) caller_id = dm_topic caller_id user_id"

subsection \<open>Typing events\<close>

fun conversation_json :: "conversation \<Rightarrow> json" where
  "conversation_json (ChannelConversation channel_id) =
     JObj [(''kind'', JStr (py ''channel'')), (''channel_id'', juuid channel_id)]"
| "conversation_json (DMConversation user_id) =
     JObj [(''kind'', JStr (py ''dm'')), (''user_id'', juuid user_id)]"

definition build_typing_event :: "uuid \<Rightarrow> conversation \<Rightarrow> json" where
  "build_typing_event user_id conversation =
     JObj [(''type'', JStr (py ''typing'')), (''conversation'', conversation_json conversation),
           (''data'', JObj [(''user_id'', juuid user_id), (''conversation'', conversation_json conversation)])]"

definition publish_typing_event :: "bool \<Rightarrow> json \<Rightarrow> string \<Rightarrow> publication list" where
  "publish_typing_event redis_up event topic = redis_fail_open redis_up [(topic, event)] []"

subsection \<open>The registry of connections\<close>

text \<open>A dict from connection id to state, in insertion order; sockets are kept apart.\<close>

record connection_state =
  cn_connection_id :: uuid
  cn_user_id :: uuid
  cn_session_id :: uuid
  cn_subscribed_topics :: "string set"

record socket =
  sk_connected :: bool
  sk_sent :: "json list"
  sk_closed :: "ws_close_code option"

type_synonym sockets = "uuid \<Rightarrow> socket"

definition register_connection :: "uuid \<Rightarrow> uuid \<Rightarrow> uuid \<Rightarrow> connection_state list \<Rightarrow> connection_state list" where
  "register_connection connection_id user_id session_id cns =
     cns @ [\<lparr>cn_connection_id = connection_id, cn_user_id = user_id, cn_session_id = session_id,
             cn_subscribed_topics = {}\<rparr>]"

definition unregister :: "uuid \<Rightarrow> connection_state list \<Rightarrow> connection_state list" where
  "unregister connection_id = filter (\<lambda>cn. cn_connection_id cn \<noteq> connection_id)"

definition subscribe :: "uuid \<Rightarrow> string \<Rightarrow> connection_state list \<Rightarrow> connection_state list" where
  "subscribe connection_id topic =
     map (\<lambda>cn. if cn_connection_id cn = connection_id
               then cn\<lparr>cn_subscribed_topics := insert topic (cn_subscribed_topics cn)\<rparr> else cn)"

definition unsubscribe :: "uuid \<Rightarrow> string \<Rightarrow> connection_state list \<Rightarrow> connection_state list" where
  "unsubscribe connection_id topic =
     map (\<lambda>cn. if cn_connection_id cn = connection_id
               then cn\<lparr>cn_subscribed_topics := cn_subscribed_topics cn - {topic}\<rparr> else cn)"

definition send_json :: "uuid \<Rightarrow> json \<Rightarrow> sockets \<Rightarrow> sockets" where
  "send_json k payload socks = socks(k := (socks k)\<lparr>sk_sent := sk_sent (socks k) @ [payload]\<rparr>)"

definition close_socket :: "uuid \<Rightarrow> ws_close_code \<Rightarrow> sockets \<Rightarrow> sockets" where
  "close_socket k code socks = socks(k := (socks k)\<lparr>sk_connected := False, sk_closed := Some code\<rparr>)"

text \<open>A send that raises is logged and skipped.\<close>

fun broadcast_to_topic ::
  "(uuid \<Rightarrow> bool) \<Rightarrow> string \<Rightarrow> json \<Rightarrow> uuid option \<Rightarrow> connection_state list \<Rightarrow> sockets \<Rightarrow> sockets" where
  "broadcast_to_topic sends topic payload exclude_user_id [] socks = socks"
| "broadcast_to_topic sends topic payload exclude_user_id (cn # cns) socks =
     broadcast_to_topic sends topic payload exclude_user_id cns
       (if topic \<notin> cn_subscribed_topics cn \<or> exclude_user_id = Some (cn_user_id cn) \<or>
           \<not> sk_connected (socks (cn_connection_id cn)) \<or> \<not> sends (cn_connection_id cn)
        then socks else send_json (cn_connection_id cn) payload socks)"

fun close_all ::
  "(uuid \<Rightarrow> bool) \<Rightarrow> ws_close_code \<Rightarrow> connection_state list \<Rightarrow> sockets \<Rightarrow> connection_state list \<times> sockets" where
  "close_all closes code [] socks = ([], socks)"
| "close_all closes code (cn # cns) socks =
     close_all closes code cns
       (if closes (cn_connection_id cn) then close_socket (cn_connection_id cn) code socks else socks)"

subsection \<open>The relay\<close>

definition typing_typer_id :: "json \<Rightarrow> uuid option" where
  "typing_typer_id payload =
     (if jget ''type'' payload \<noteq> Some (JStr (py ''typing'')) then None
      else (case jget ''data'' payload of
              Some (JObj kvs) \<Rightarrow> Option.bind (json_string (jget ''user_id'' (JObj kvs))) parse_uuid
            | _ \<Rightarrow> None))"

text \<open>A message of the subscription: topic and decoded data, \<open>None\<close> if they are not a text and
  a JSON document.\<close>

definition handle_relay_message ::
  "(uuid \<Rightarrow> bool) \<Rightarrow> (string \<times> json option) option \<Rightarrow> connection_state list \<Rightarrow> sockets \<Rightarrow> sockets" where
  "handle_relay_message sends message cns socks =
     (case message of
        None \<Rightarrow> socks
      | Some (topic, data) \<Rightarrow>
          (case data of
             Some (JObj kvs) \<Rightarrow>
               broadcast_to_topic sends topic (JObj kvs) (typing_typer_id (JObj kvs)) cns socks
           | _ \<Rightarrow> socks))"

subsection \<open>The endpoint\<close>

text \<open>The state of one instance with what it shares: the accounts, the presence counters, the
  messages handed to Redis, the registry and the sockets.\<close>

record gateway =
  gw_account :: account
  gw_counts :: counters
  gw_published :: "publication list"
  gw_connections :: "connection_state list"
  gw_sockets :: sockets

text \<open>What a request to connect meets: its credentials, the clock and the Redis calls.\<close>

record connecting =
  co_query_token :: "pystr option"
  co_header :: pystr
  co_now :: datetime
  co_read :: redis_call
  co_write :: redis_call
  co_others :: "account \<Rightarrow> account"
  co_connection_id :: uuid
  co_presence :: redis_call
  co_publish_ok :: bool

text \<open>Authentication, and on success the accepted socket, the registration, the subscription to
  the user's own topic and the presence count.\<close>

definition open_connection ::
  "(datetime \<Rightarrow> pystr \<Rightarrow> pystr + json) \<Rightarrow> connecting \<Rightarrow> gateway \<Rightarrow> ws_authenticated_connection option \<times> gateway" where
  "open_connection jwt_decode co g =
     (case authenticate_connect jwt_decode (co_read co) (co_write co) (co_others co) (co_now co)
             (co_query_token co) (co_header co) (gw_account g) of
        (None, a) \<Rightarrow>
          (None, g\<lparr>gw_account := a,
                   gw_sockets := (gw_sockets g)(co_connection_id co :=
                     \<lparr>sk_connected = False, sk_sent = [], sk_closed = Some AUTH_FAILED\<rparr>)\<rparr>)
      | (Some auth, a) \<Rightarrow>
          (case handle_connect (co_presence co) (co_publish_ok co) (wa_user_id auth) (gw_counts g) of
             (pubs, cs) \<Rightarrow>
               (Some auth, g\<lparr>gw_account := a,
                  gw_sockets := (gw_sockets g)(co_connection_id co :=
                    \<lparr>sk_connected = True, sk_sent = [], sk_closed = None\<rparr>),
                  gw_connections := subscribe (co_connection_id co) (user_topic (wa_user_id auth))
                    (register_connection (co_connection_id co) (wa_user_id auth) (wa_session_id auth) (gw_connections g)),
                  gw_counts := cs, gw_published := gw_published g @ pubs\<rparr>)))"

definition safe_close :: "uuid \<Rightarrow> ws_close_code \<Rightarrow> gateway \<Rightarrow> gateway" where
  "safe_close k code g =
     (if sk_connected (gw_sockets g k) then g\<lparr>gw_sockets := close_socket k code (gw_sockets g)\<rparr> else g)"

definition safe_send_json :: "uuid \<Rightarrow> json \<Rightarrow> gateway \<Rightarrow> gateway" where
  "safe_send_json k payload g =
     (if sk_connected (gw_sockets g k) then g\<lparr>gw_sockets := send_json k payload (gw_sockets g)\<rparr> else g)"

text \<open>The \<open>finally\<close> block.\<close>

definition close_connection ::
  "redis_call \<Rightarrow> bool \<Rightarrow> datetime \<Rightarrow> uuid \<Rightarrow> ws_authenticated_connection \<Rightarrow> gateway \<Rightarrow> gateway" where
  "close_connection call publish_ok now k auth g =
     (case handle_disconnect call publish_ok now (wa_user_id auth) (gw_counts g) (ac_db (gw_account g)) of
        (pubs, cs, d) \<Rightarrow>
          g\<lparr>gw_connections := unregister k (gw_connections g), gw_counts := cs,
            gw_account := (gw_account g)\<lparr>ac_db := d\<rparr>, gw_published := gw_published g @ pubs\<rparr>)"

subsection \<open>The connection loop\<close>

datatype ws_message = Disconnects | Undecodable | Decoded json

text \<open>One turn of the loop: the clock at its top, when the next message arrives and is handled,
  the message, the wall clock, the outcomes of the Redis calls, and what everything else has done
  to the shared state since the turn before.\<close>

record turn =
  tn_top :: rat
  tn_arrives :: rat
  tn_handled :: rat
  tn_message :: ws_message
  tn_now :: datetime
  tn_heartbeat :: redis_call
  tn_read :: redis_call
  tn_write :: redis_call
  tn_others :: "account \<Rightarrow> account"
  tn_publish_ok :: bool
  tn_elsewhere :: "gateway \<Rightarrow> gateway"

record local_state =
  lc_deadline :: rat
  lc_limiter :: frame_rate_limiter

datatype ending = Client_Left | Closed ws_close_code

text \<open>A frame that passed the limiter.\<close>

definition handle_frame ::
  "(pystr \<Rightarrow> uuid option) \<Rightarrow> rat \<Rightarrow> uuid \<Rightarrow> ws_authenticated_connection \<Rightarrow> turn \<Rightarrow> json \<Rightarrow> local_state \<Rightarrow> gateway \<Rightarrow>
   ending option \<times> local_state \<times> gateway" where
  "handle_frame parse_id heartbeat_timeout k auth tn raw l g =
     (case validate_client_frame parse_id raw of
        None \<Rightarrow> (None, l, safe_send_json k (error_frame ''invalid_frame'' ''Malformed or unrecognized frame.'') g)
      | Some PingFrame \<Rightarrow>
          (let l' = l\<lparr>lc_deadline := tn_handled tn + heartbeat_timeout\<rparr>;
               g1 = g\<lparr>gw_counts := handle_heartbeat (tn_heartbeat tn) (wa_user_id auth) (gw_counts g)\<rparr>
           in case revalidate_connection (tn_read tn) (tn_write tn) (tn_others tn) (tn_now tn) auth (gw_account g1) of
                (close_code, a) \<Rightarrow>
                  (let g2 = g1\<lparr>gw_account := a\<rparr> in
                   case close_code of
                     Some code \<Rightarrow> (Some (Closed code), l', safe_close k code g2)
                   | None \<Rightarrow> (None, l', safe_send_json k pong_frame g2)))
      | Some (JoinFrame conversation) \<Rightarrow>
          (case authorize_conversation conversation (wa_user_id auth) (ac_db (gw_account g)) of
             Inl (code, detail) \<Rightarrow> (None, l, safe_send_json k (error_frame code detail) g)
           | Inr topic \<Rightarrow> (None, l, g\<lparr>gw_connections := subscribe k topic (gw_connections g)\<rparr>))
      | Some (LeaveFrame conversation) \<Rightarrow>
          (None, l, g\<lparr>gw_connections := unsubscribe k (ws_topic_for conversation (wa_user_id auth)) (gw_connections g)\<rparr>)
      | Some (TypingFrame conversation) \<Rightarrow>
          (case authorize_conversation conversation (wa_user_id auth) (ac_db (gw_account g)) of
             Inl (code, detail) \<Rightarrow> (None, l, safe_send_json k (error_frame code detail) g)
           | Inr topic \<Rightarrow>
               (None, l, g\<lparr>gw_published := gw_published g @
                  publish_typing_event (tn_publish_ok tn) (build_typing_event (wa_user_id auth) conversation) topic\<rparr>)))"

text \<open>No turn left: no message ever arrives again.\<close>

fun connection_loop ::
  "(pystr \<Rightarrow> uuid option) \<Rightarrow> rat \<Rightarrow> uuid \<Rightarrow> ws_authenticated_connection \<Rightarrow> turn list \<Rightarrow> local_state \<Rightarrow> gateway \<Rightarrow>
   ending \<times> gateway" where
  "connection_loop parse_id heartbeat_timeout k auth [] l g =
     (Closed HEARTBEAT_TIMEOUT, safe_close k HEARTBEAT_TIMEOUT g)"
| "connection_loop parse_id heartbeat_timeout k auth (tn # tns) l g0 =
     (let g = tn_elsewhere tn g0 in
      if lc_deadline l \<le> tn_top tn \<or> lc_deadline l \<le> tn_arrives tn
      then (Closed HEARTBEAT_TIMEOUT, safe_close k HEARTBEAT_TIMEOUT g)
      else if tn_message tn = Disconnects then (Client_Left, g)
      else (case record_and_check (tn_handled tn) (lc_limiter l) of
              (abusive, limiter') \<Rightarrow>
                if abusive then (Closed RATE_LIMITED, safe_close k RATE_LIMITED g)
                else (case handle_frame parse_id heartbeat_timeout k auth tn
                             (case tn_message tn of Decoded raw \<Rightarrow> raw | _ \<Rightarrow> JObj []) (l\<lparr>lc_limiter := limiter'\<rparr>) g of
                        (Some ending, l', g') \<Rightarrow> (ending, g')
                      | (None, l', g') \<Rightarrow> connection_loop parse_id heartbeat_timeout k auth tns l' g')))"

record ws_settings =
  wc_heartbeat_timeout_seconds :: rat
  wc_frame_rate_limit_max_frames :: int
  wc_frame_rate_limit_window_seconds :: rat

text \<open>The whole life of a connection that starts the loop at \<open>start\<close>; \<open>leaving\<close> is what
  everything else does between the loop's end and the \<open>finally\<close> block.\<close>

definition websocket_endpoint ::
  "(datetime \<Rightarrow> pystr \<Rightarrow> pystr + json) \<Rightarrow> (pystr \<Rightarrow> uuid option) \<Rightarrow> ws_settings \<Rightarrow> connecting \<Rightarrow> rat \<Rightarrow> turn list \<Rightarrow>
   (gateway \<Rightarrow> gateway) \<Rightarrow> redis_call \<Rightarrow> bool \<Rightarrow> datetime \<Rightarrow> gateway \<Rightarrow> ending \<times> gateway" where
  "websocket_endpoint jwt_decode parse_id s co start tns leaving call publish_ok now g =
     (case open_connection jwt_decode co g of
        (None, g1) \<Rightarrow> (Closed AUTH_FAILED, g1)
      | (Some auth, g1) \<Rightarrow>
          (case connection_loop parse_id (wc_heartbeat_timeout_seconds s) (co_connection_id co) auth tns
                  \<lparr>lc_deadline = start + wc_heartbeat_timeout_seconds s,
                   lc_limiter = \<lparr>fl_max_frames = wc_frame_rate_limit_max_frames s,
                                 fl_window_seconds = wc_frame_rate_limit_window_seconds s, fl_timestamps = []\<rparr>\<rparr> g1 of
             (ending, g2) \<Rightarrow>
               (ending, close_connection call publish_ok now (co_connection_id co) auth (leaving g2))))"

subsection \<open>The same gate as the HTTP routes\<close>

definition as_rest :: "ws_authenticated_connection \<Rightarrow> authenticated_user" where
  "as_rest c = \<lparr>au_user_id = wa_user_id c, au_session_id = wa_session_id c\<rparr>"

lemma extract_nonempty: "extract_access_token query_token header = Some (token, sp) \<Longrightarrow> token \<noteq> []"
  by (auto simp: extract_access_token_def split: if_splits list.splits)

text \<open>
  C36. The two surfaces never drift: connecting to the socket with a token is accepted for
  exactly the user and session that the HTTP gate accepts with the same token as a bearer token,
  with the same reads and writes of the verdict cache, and without a token both refuse.
\<close>

theorem connect_auth_matches_rest:
  "map_prod (map_option as_rest) id
     (authenticate_connect jwt_dec rc wc others now query_token header w) =
   require_auth jwt_dec rc wc others now
     (map_option (\<lambda>(token, subprotocol). (py ''Bearer'', token)) (extract_access_token query_token header)) w"
proof (cases "extract_access_token query_token header")
  case None
  then show ?thesis by (simp add: authenticate_connect_def require_auth_def)
next
  case (Some r)
  obtain token sp where r: "r = (token, sp)" by (cases r)
  have ne: "token \<noteq> []" using extract_nonempty Some r by blast
  show ?thesis
  proof (cases "decode_access_token jwt_dec now token")
    case (Inl e)
    then show ?thesis using ne
      by (simp add: authenticate_connect_def require_auth_def Some r ascii_lower_def)
  next
    case (Inr p)
    note dec = Inr
    show ?thesis
    proof (cases "parse_uuid (at_user_id p)")
      case None
      then show ?thesis using ne dec
        by (simp add: authenticate_connect_def require_auth_def Some r ascii_lower_def)
    next
      case (Some uid)
      note uid = Some
      show ?thesis
      proof (cases "parse_uuid (at_session_id p)")
        case None
        then show ?thesis using ne dec uid \<open>extract_access_token query_token header = Some r\<close>
          by (simp add: authenticate_connect_def require_auth_def r ascii_lower_def)
      next
        case (Some sid)
        obtain b w' where act: "is_session_active rc wc others now sid w = (b, w')" by (rule prod.exhaust)
        show ?thesis
          using ne dec uid Some act \<open>extract_access_token query_token header = Some r\<close>
          by (cases "get_user uid (ac_db w')")
            (simp_all add: authenticate_connect_def require_auth_def r ascii_lower_def as_rest_def)
      qed
    qed
  qed
qed

subsection \<open>Delivery\<close>

definition receives :: "(uuid \<Rightarrow> bool) \<Rightarrow> string \<Rightarrow> uuid option \<Rightarrow> connection_state list \<Rightarrow> sockets \<Rightarrow> uuid \<Rightarrow> bool" where
  "receives sends topic excluded cns socks k \<longleftrightarrow>
     (\<exists>cn\<in>set cns. cn_connection_id cn = k \<and> topic \<in> cn_subscribed_topics cn \<and>
        excluded \<noteq> Some (cn_user_id cn)) \<and> sk_connected (socks k) \<and> sends k"

definition distinct_ids :: "connection_state list \<Rightarrow> bool" where
  "distinct_ids cns \<longleftrightarrow> distinct (map cn_connection_id cns)"

lemma broadcast_spec:
  assumes "distinct_ids cns"
  shows "broadcast_to_topic sends topic payload excluded cns socks k =
    (if receives sends topic excluded cns socks k then send_json k payload socks k else socks k)"
  using assms
proof (induction cns arbitrary: socks)
  case (Cons cn cns)
  let ?i = "cn_connection_id cn"
  let ?skip = "topic \<notin> cn_subscribed_topics cn \<or> excluded = Some (cn_user_id cn) \<or>
           \<not> sk_connected (socks ?i) \<or> \<not> sends ?i"
  let ?socks = "if ?skip then socks else send_json ?i payload socks"
  have dist: "distinct_ids cns" and new: "\<forall>c\<in>set cns. cn_connection_id c \<noteq> ?i"
    using Cons.prems unfolding distinct_ids_def list.map distinct.simps set_map by (blast, metis image_eqI)
  have rec: "receives sends topic excluded cns ?socks k = receives sends topic excluded cns socks k"
    by (simp add: receives_def send_json_def)
  have bc: "broadcast_to_topic sends topic payload excluded (cn # cns) socks k =
      (if receives sends topic excluded cns socks k then send_json k payload ?socks k else ?socks k)"
    by (simp only: broadcast_to_topic.simps Cons.IH [OF dist] rec)
  show ?case
  proof (cases "k = ?i")
    case True
    have no: "\<not> receives sends topic excluded cns socks k" using new True by (auto simp: receives_def)
    have "receives sends topic excluded (cn # cns) socks k \<longleftrightarrow> \<not> ?skip"
      using no True by (auto simp: receives_def)
    then show ?thesis unfolding bc using no True by simp
  next
    case False
    then have "receives sends topic excluded (cn # cns) socks k = receives sends topic excluded cns socks k"
      by (auto simp: receives_def)
    then show ?thesis unfolding bc using False by (simp add: send_json_def)
  qed
qed (simp add: receives_def)

lemma typing_typer: "typing_typer_id (build_typing_event u conversation) = Some u"
  by (simp add: typing_typer_id_def build_typing_event_def juuid_def parse_uuid_str)

text \<open>
  C34. A relayed event reaches its subscribers once and nobody else: every connection subscribed
  to the topic whose socket is open and takes the message gets it appended to what it was sent,
  except that a typing event skips all connections of the user who types; every other socket
  stays as it was.
\<close>

theorem relay_delivers:
  assumes "distinct_ids cns"
  shows "handle_relay_message sends (Some (topic, Some (JObj kvs))) cns socks k =
      (if receives sends topic (typing_typer_id (JObj kvs)) cns socks k
       then (socks k)\<lparr>sk_sent := sk_sent (socks k) @ [JObj kvs]\<rparr> else socks k)
    \<and> (receives sends topic (typing_typer_id (build_typing_event u conversation)) cns socks k \<longleftrightarrow>
        (\<exists>cn\<in>set cns. cn_connection_id cn = k \<and> topic \<in> cn_subscribed_topics cn \<and> cn_user_id cn \<noteq> u)
        \<and> sk_connected (socks k) \<and> sends k)"
  using broadcast_spec [OF assms]
  by (auto simp: handle_relay_message_def send_json_def typing_typer receives_def)

subsection \<open>Who may be subscribed to what\<close>

text \<open>\<open>reachable jwt_dec parse_id H g\<close>: \<open>g\<close> is a state of an instance after connects, frames,
  closes, relayed messages, drains, and anything the rest of the system does to the shared
  state; \<open>H\<close> holds the databases it has been in.\<close>

inductive reachable ::
  "(datetime \<Rightarrow> pystr \<Rightarrow> pystr + json) \<Rightarrow> (pystr \<Rightarrow> uuid option) \<Rightarrow> database set \<Rightarrow> gateway \<Rightarrow> bool"
  for jwt_dec parse_id where
  instance_starts: "gw_connections g = [] \<Longrightarrow> reachable jwt_dec parse_id {ac_db (gw_account g)} g"
| connects: "reachable jwt_dec parse_id H g \<Longrightarrow> open_connection jwt_dec co g = (r, g') \<Longrightarrow>
    co_connection_id co \<notin> cn_connection_id ` set (gw_connections g) \<Longrightarrow>
    reachable jwt_dec parse_id (insert (ac_db (gw_account g')) H) g'"
| frame: "reachable jwt_dec parse_id H g \<Longrightarrow> cn \<in> set (gw_connections g) \<Longrightarrow> wa_user_id auth = cn_user_id cn \<Longrightarrow>
    handle_frame parse_id timeout (cn_connection_id cn) auth tn raw l g = (e, l', g') \<Longrightarrow>
    reachable jwt_dec parse_id (insert (ac_db (gw_account g')) H) g'"
| closes: "reachable jwt_dec parse_id H g \<Longrightarrow> close_connection call ok now k auth g = g' \<Longrightarrow>
    reachable jwt_dec parse_id (insert (ac_db (gw_account g')) H) g'"
| relays: "reachable jwt_dec parse_id H g \<Longrightarrow>
    reachable jwt_dec parse_id H (g\<lparr>gw_sockets := handle_relay_message sends m (gw_connections g) (gw_sockets g)\<rparr>)"
| drains: "reachable jwt_dec parse_id H g \<Longrightarrow>
    close_all can_close GOING_AWAY (gw_connections g) (gw_sockets g) = (cns, socks) \<Longrightarrow>
    reachable jwt_dec parse_id H (g\<lparr>gw_connections := cns, gw_sockets := socks\<rparr>)"
| elsewhere: "reachable jwt_dec parse_id H g \<Longrightarrow> gw_connections g' = gw_connections g \<Longrightarrow>
    reachable jwt_dec parse_id (insert (ac_db (gw_account g')) H) g'"

definition may_hear :: "database set \<Rightarrow> uuid \<Rightarrow> string \<Rightarrow> bool" where
  "may_hear H u topic \<longleftrightarrow>
     topic = user_topic u \<or> (\<exists>d\<in>H. \<exists>conversation. authorize_conversation conversation u d = Inr topic)"

definition registry_ok :: "database set \<Rightarrow> connection_state list \<Rightarrow> bool" where
  "registry_ok H cns \<longleftrightarrow> distinct_ids cns \<and>
     (\<forall>cn\<in>set cns. \<forall>topic\<in>cn_subscribed_topics cn. may_hear H (cn_user_id cn) topic)"

lemma registry_ok_mono: "registry_ok H cns \<Longrightarrow> H \<subseteq> H' \<Longrightarrow> registry_ok H' cns"
  unfolding registry_ok_def may_hear_def by blast

lemma registry_ok_subscribe:
  assumes "registry_ok H cns" "\<And>cn. cn \<in> set cns \<Longrightarrow> cn_connection_id cn = k \<Longrightarrow> may_hear H (cn_user_id cn) topic"
  shows "registry_ok H (subscribe k topic cns)"
  using assms by (auto simp: registry_ok_def distinct_ids_def subscribe_def comp_def if_distrib cong: if_cong)

lemma registry_ok_unsubscribe: "registry_ok H cns \<Longrightarrow> registry_ok H (unsubscribe k topic cns)"
  by (auto simp: registry_ok_def distinct_ids_def unsubscribe_def comp_def if_distrib cong: if_cong)

lemma registry_ok_unregister: "registry_ok H cns \<Longrightarrow> registry_ok H (unregister k cns)"
  by (simp add: registry_ok_def distinct_ids_def unregister_def distinct_map_filter)

lemma registry_ok_register:
  assumes "registry_ok H cns" "k \<notin> cn_connection_id ` set cns"
  shows "registry_ok H (subscribe k (user_topic u) (register_connection k u s cns))"
proof (rule registry_ok_subscribe)
  show "registry_ok H (register_connection k u s cns)"
    using assms by (auto simp: registry_ok_def distinct_ids_def register_connection_def)
  fix cn assume cn: "cn \<in> set (register_connection k u s cns)" "cn_connection_id cn = k"
  then have "cn \<notin> set cns" using assms(2) by auto
  with cn(1) have "cn_user_id cn = u" by (auto simp: register_connection_def)
  then show "may_hear H (cn_user_id cn) (user_topic u)" by (simp add: may_hear_def)
qed

lemma close_all_empty: "close_all can_close code cns socks = (cns', socks') \<Longrightarrow> cns' = []"
  by (induction cns arbitrary: socks) auto

lemma handle_frame_connections:
  assumes "handle_frame parse_id timeout k auth tn raw l g = (e, l', g')"
  obtains "gw_connections g' = gw_connections g"
  | topic conversation where "authorize_conversation conversation (wa_user_id auth) (ac_db (gw_account g)) = Inr topic"
      "gw_connections g' = subscribe k topic (gw_connections g)" "gw_account g' = gw_account g"
  | topic where "gw_connections g' = unsubscribe k topic (gw_connections g)"
proof (cases "validate_client_frame parse_id raw")
  case None
  with assms show ?thesis by (intro that(1)) (auto simp: handle_frame_def safe_send_json_def)
next
  case (Some frame)
  show ?thesis
  proof (cases frame)
    case (JoinFrame c)
    show ?thesis
    proof (cases "authorize_conversation c (wa_user_id auth) (ac_db (gw_account g))")
      case (Inl e)
      with assms Some JoinFrame show ?thesis
        by (intro that(1)) (auto simp: handle_frame_def safe_send_json_def split: prod.splits)
    next
      case (Inr topic)
      with assms Some JoinFrame show ?thesis by (intro that(2) [OF Inr]) (auto simp: handle_frame_def)
    qed
  next
    case (LeaveFrame c)
    with assms Some show ?thesis by (intro that(3)) (auto simp: handle_frame_def)
  next
    case (TypingFrame c)
    with assms Some show ?thesis
      by (intro that(1)) (auto simp: handle_frame_def safe_send_json_def split: sum.splits prod.splits)
  next
    case PingFrame
    with assms Some show ?thesis
      by (intro that(1))
        (auto simp: handle_frame_def Let_def safe_send_json_def safe_close_def split: option.splits prod.splits if_splits)
  qed
qed

lemma reachable_registry:
  assumes "reachable jwt_dec parse_id H g"
  shows "ac_db (gw_account g) \<in> H \<and> registry_ok H (gw_connections g)"
  using assms
proof (induction rule: reachable.induct)
  case (connects H g co r g')
  let ?H = "insert (ac_db (gw_account g')) H"
  have reg: "registry_ok ?H (gw_connections g)" using connects.IH registry_ok_mono by blast
  have "registry_ok ?H (gw_connections g')"
    using connects.hyps(2) reg registry_ok_register [OF reg connects.hyps(3)]
    by (auto simp: open_connection_def split: prod.splits option.splits)
  then show ?case by simp
next
  case (frame H g cn auth timeout tn raw l e l' g')
  let ?H = "insert (ac_db (gw_account g')) H"
  have reg: "registry_ok ?H (gw_connections g)" using frame.IH registry_ok_mono by blast
  have "registry_ok ?H (gw_connections g')"
    using frame.hyps(4)
  proof (cases rule: handle_frame_connections)
    case 1
    then show ?thesis using reg by simp
  next
    case (2 topic conversation)
    have only: "cn' = cn" if "cn' \<in> set (gw_connections g)" "cn_connection_id cn' = cn_connection_id cn" for cn'
      using reg frame.hyps(2) that by (auto simp: registry_ok_def distinct_ids_def distinct_map inj_on_def)
    have "may_hear ?H (cn_user_id cn) topic"
      using 2(1) frame.IH frame.hyps(3) unfolding may_hear_def by auto
    then show ?thesis unfolding 2(2) by (intro registry_ok_subscribe [OF reg]) (auto dest: only)
  next
    case (3 topic)
    then show ?thesis using registry_ok_unsubscribe [OF reg] by simp
  qed
  then show ?case by simp
next
  case (closes H g call ok now k auth g')
  then have "gw_connections g' = unregister k (gw_connections g)"
    by (auto simp: close_connection_def split: prod.splits)
  moreover have "registry_ok (insert (ac_db (gw_account g')) H) (unregister k (gw_connections g))"
    using closes.IH registry_ok_mono registry_ok_unregister by blast
  ultimately show ?case by simp
next
  case (drains H g can_close cns socks)
  have "cns = []" by (rule close_all_empty [OF drains.hyps(2)])
  then show ?case using drains.IH by (simp add: registry_ok_def distinct_ids_def)
next
  case (elsewhere H g g')
  have "registry_ok (insert (ac_db (gw_account g')) H) (gw_connections g)"
    using elsewhere.IH registry_ok_mono by blast
  then show ?case by (simp add: elsewhere.hyps(2))
qed (simp_all add: registry_ok_def distinct_ids_def)

lemma may_hear_cases:
  assumes "may_hear H u topic"
  shows "(\<forall>c. topic = channel_topic c \<longrightarrow> (\<exists>d\<in>H. get_membership c u d \<noteq> None))
    \<and> (\<forall>v. topic = user_topic v \<longrightarrow> v = u) \<and> (\<forall>a b. topic = dm_topic a b \<longrightarrow> u \<in> {a, b})
    \<and> (\<forall>v. topic \<noteq> presence_topic v)"
proof (cases "topic = user_topic u")
  case True
  then show ?thesis by auto
next
  case False
  with assms obtain d conversation where d: "d \<in> H" "authorize_conversation conversation u d = Inr topic"
    by (auto simp: may_hear_def)
  show ?thesis
  proof (cases conversation)
    case (ChannelConversation c)
    then have "topic = channel_topic c" "get_membership c u d \<noteq> None"
      using d(2) by (auto split: option.splits)
    then show ?thesis using d(1) by auto
  next
    case (DMConversation v)
    then have "topic = dm_topic u v" using d(2) by (auto simp: authorize_dm_def split: if_splits option.splits)
    then show ?thesis by (auto simp: dm_topic_pair_eq dm_pair_eq_iff)
  qed
qed

text \<open>
  C17. Live events stay inside their conversation: whatever an instance has been through, a
  socket changed by relaying an event belongs to a registered connection whose user was, in a
  state the database has been in, a member of the event's channel, or is one of the two users of
  the event's direct conversation, or is the user the event is for; and an event on a presence
  topic changes no socket at all.
\<close>

theorem relay_scope:
  assumes "reachable jwt_dec parse_id H g"
    and "handle_relay_message sends (Some (topic, data)) (gw_connections g) (gw_sockets g) k \<noteq> gw_sockets g k"
  shows "\<exists>cn\<in>set (gw_connections g). cn_connection_id cn = k
    \<and> (\<forall>c. topic = channel_topic c \<longrightarrow> (\<exists>d\<in>H. get_membership c (cn_user_id cn) d \<noteq> None))
    \<and> (\<forall>v. topic = user_topic v \<longrightarrow> v = cn_user_id cn) \<and> (\<forall>a b. topic = dm_topic a b \<longrightarrow> cn_user_id cn \<in> {a, b})
    \<and> (\<forall>v. topic \<noteq> presence_topic v)"
proof -
  have ok: "registry_ok H (gw_connections g)" using reachable_registry [OF assms(1)] by simp
  from assms(2) obtain kvs where data: "data = Some (JObj kvs)"
    by (auto simp: handle_relay_message_def split: option.splits json.splits)
  have "receives sends topic (typing_typer_id (JObj kvs)) (gw_connections g) (gw_sockets g) k"
    using assms(2) ok unfolding data
    by (auto simp: handle_relay_message_def broadcast_spec registry_ok_def split: if_splits)
  then obtain cn where "cn \<in> set (gw_connections g)" "cn_connection_id cn = k" "topic \<in> cn_subscribed_topics cn"
    by (auto simp: receives_def)
  moreover from this ok have "may_hear H (cn_user_id cn) topic" by (auto simp: registry_ok_def)
  ultimately show ?thesis using may_hear_cases by blast
qed

subsection \<open>A connection that has lost its right\<close>







subsection \<open>Every connection is cleaned up\<close>

lemma unregister_subscribe: "unregister k (subscribe k topic cns) = unregister k cns"
  by (induction cns) (auto simp: unregister_def subscribe_def)

lemma unregister_unsubscribe: "unregister k (unsubscribe k topic cns) = unregister k cns"
  by (induction cns) (auto simp: unregister_def unsubscribe_def)

lemma heartbeat_present:
  "cs (presence_connection_count_key u) \<noteq> None \<Longrightarrow> handle_heartbeat call u cs = cs"
  by (auto simp: handle_heartbeat_def heartbeat_renew_def redis_state_def)

text \<open>What a frame leaves alone: the other connections, and the counter once it exists.\<close>

lemma handle_frame_keeps:
  assumes "handle_frame parse_id timeout k auth tn raw l g = (e, l', g')"
    and "gw_counts g (presence_connection_count_key (wa_user_id auth)) \<noteq> None"
  shows "gw_counts g' = gw_counts g" "unregister k (gw_connections g') = unregister k (gw_connections g)"
proof -
  show "unregister k (gw_connections g') = unregister k (gw_connections g)"
    using assms(1)
    by (cases rule: handle_frame_connections) (simp_all add: unregister_subscribe unregister_unsubscribe)
  show "gw_counts g' = gw_counts g"
    using assms
    by (auto simp: handle_frame_def Let_def safe_send_json_def safe_close_def heartbeat_present
        split: option.splits client_frame.splits sum.splits prod.splits if_splits)
qed

lemma connection_loop_keeps:
  assumes "connection_loop parse_id timeout k auth tns l g = (e, g')" "\<forall>tn\<in>set tns. tn_elsewhere tn = id"
    and "gw_counts g (presence_connection_count_key (wa_user_id auth)) \<noteq> None"
  shows "gw_counts g' = gw_counts g \<and> unregister k (gw_connections g') = unregister k (gw_connections g)"
  using assms
proof (induction tns arbitrary: l g)
  case Nil
  then show ?case by (auto simp: safe_close_def)
next
  case (Cons tn tns)
  let ?raw = "case tn_message tn of Decoded raw \<Rightarrow> raw | _ \<Rightarrow> JObj []"
  obtain abusive lim where lim: "record_and_check (tn_handled tn) (lc_limiter l) = (abusive, lim)" by (rule prod.exhaust)
  have id: "tn_elsewhere tn = id" using Cons.prems(2) by (auto simp: fun_eq_iff)
  show ?case
  proof (cases "lc_deadline l \<le> tn_top tn \<or> lc_deadline l \<le> tn_arrives tn \<or> tn_message tn = Disconnects \<or> abusive")
    case True
    then show ?thesis using Cons.prems(1) lim id
      by (auto simp: Let_def safe_close_def split: if_splits)
  next
    case False
    obtain r l1 g1 where f: "handle_frame parse_id timeout k auth tn ?raw (l\<lparr>lc_limiter := lim\<rparr>) g = (r, l1, g1)"
      by (rule prod_cases3)
    note keeps = handle_frame_keeps [OF f Cons.prems(3)]
    have "connection_loop parse_id timeout k auth (tn # tns) l g =
        (case r of Some ending \<Rightarrow> (ending, g1) | None \<Rightarrow> connection_loop parse_id timeout k auth tns l1 g1)"
      using False lim id f by (simp add: Let_def split: option.split)
    then show ?thesis
      using Cons.prems Cons.IH [of l1 g1] keeps by (auto split: option.splits)
  qed
qed

text \<open>
  C35. Connecting and closing are paired on every path: a connection that is refused, leaves,
  is reaped, loses its right or sends too much has, when it is over, left the registry as it found
  it and, if its count and discount reach Redis, the presence counters as well (nothing else
  happening meanwhile; interleavings are the subject of the presence model).
\<close>

theorem endpoint_cleans_up:
  assumes "websocket_endpoint jwt_dec parse_id s co start tns id call ok now g = (e, g')"
    and "\<forall>tn\<in>set tns. tn_elsewhere tn = id"
    and "co_connection_id co \<notin> cn_connection_id ` set (gw_connections g)"
    and "co_presence co \<noteq> Unreached" "call \<noteq> Unreached"
    and "\<forall>u n. gw_counts g (presence_connection_count_key u) = Some n \<longrightarrow> 1 \<le> n"
  shows "gw_connections g' = gw_connections g \<and> gw_counts g' = gw_counts g"
proof -
  obtain r g1 where o: "open_connection jwt_dec co g = (r, g1)" by (rule prod.exhaust)
  show ?thesis
  proof (cases r)
    case None
    then show ?thesis
      using o assms(1)
      by (auto simp: websocket_endpoint_def open_connection_def split: option.splits prod.splits)
  next
    case (Some auth)
    let ?k = "co_connection_id co" and ?key = "presence_connection_count_key (wa_user_id auth)"
    have g1: "gw_connections g1 = subscribe ?k (user_topic (wa_user_id auth))
          (register_connection ?k (wa_user_id auth) (wa_session_id auth) (gw_connections g))"
      and cs1: "gw_counts g1 = (gw_counts g)(?key \<mapsto> (case gw_counts g ?key of None \<Rightarrow> 0 | Some v \<Rightarrow> v) + 1)"
      using o Some assms(4)
      by (auto simp: open_connection_def handle_connect_def increment_and_expire_def redis_state_def Let_def
          split: option.splits prod.splits)
    let ?l = "\<lparr>lc_deadline = start + wc_heartbeat_timeout_seconds s,
       lc_limiter = \<lparr>fl_max_frames = wc_frame_rate_limit_max_frames s,
                     fl_window_seconds = wc_frame_rate_limit_window_seconds s, fl_timestamps = []\<rparr>\<rparr>"
    obtain e2 g2 where lo: "connection_loop parse_id (wc_heartbeat_timeout_seconds s) ?k auth tns ?l g1 = (e2, g2)"
      by (rule prod.exhaust)
    have keep: "gw_counts g2 = gw_counts g1" "unregister ?k (gw_connections g2) = unregister ?k (gw_connections g1)"
      using connection_loop_keeps [OF lo assms(2)] by (simp_all add: cs1)
    have g': "g' = close_connection call ok now ?k auth g2"
      using assms(1) o Some lo by (simp add: websocket_endpoint_def)
    have "unregister ?k (gw_connections g) = gw_connections g"
      using assms(3) unfolding unregister_def by (intro filter_True ballI) (metis image_eqI)
    moreover have "unregister ?k (register_connection ?k u t (gw_connections g)) = unregister ?k (gw_connections g)" for u t
      by (simp add: unregister_def register_connection_def)
    ultimately have "gw_connections g' = gw_connections g"
      by (simp add: g' close_connection_def keep g1 unregister_subscribe split: prod.split)
    moreover have "gw_counts g' = gw_counts g"
      using assms(5) spec [OF assms(6), of "wa_user_id auth"]
      by (cases "gw_counts g ?key")
        (auto simp: g' close_connection_def handle_disconnect_def decrement_and_floor_def redis_state_def keep cs1 Let_def
          split: prod.split if_splits)
    ultimately show ?thesis ..
  qed
qed

subsection \<open>Runs\<close>

text \<open>Alice's account with session 8, an idle socket table, and a request that presents her token.\<close>

definition demo_gateway :: gateway where
  "demo_gateway = \<lparr>gw_account = account_of (alice_db [alice_session 8 ''r1'']), gw_counts = Map.empty,
     gw_published = [], gw_connections = [],
     gw_sockets = (\<lambda>_. \<lparr>sk_connected = False, sk_sent = [], sk_closed = None\<rparr>)\<rparr>"

definition demo_connecting :: connecting where
  "demo_connecting = \<lparr>co_query_token = Some (py ''jwt''), co_header = [], co_now = 5, co_read = Answered,
     co_write = Answered, co_others = id, co_connection_id = 70, co_presence = Answered, co_publish_ok = True\<rparr>"

definition demo_turn :: "rat \<Rightarrow> ws_message \<Rightarrow> turn" where
  "demo_turn t message = \<lparr>tn_top = t, tn_arrives = t, tn_handled = t, tn_message = message, tn_now = 6,
     tn_heartbeat = Answered, tn_read = Answered, tn_write = Answered, tn_others = id, tn_publish_ok = True,
     tn_elsewhere = id\<rparr>"

definition demo_settings :: ws_settings where
  "demo_settings = \<lparr>wc_heartbeat_timeout_seconds = 30, wc_frame_rate_limit_max_frames = 50,
     wc_frame_rate_limit_window_seconds = 10\<rparr>"

definition ping_json :: json where
  "ping_json = JObj [(''type'', JStr (py ''ping''))]"

lemmas demo_ws_defs = demo_gateway_def demo_connecting_def demo_turn_def demo_settings_def ping_json_def

lemma relay_delivers_witness:
  "distinct_ids [\<lparr>cn_connection_id = 70, cn_user_id = 1, cn_session_id = 8, cn_subscribed_topics = {''t''}\<rparr>] \<and>
   sk_sent (handle_relay_message (\<lambda>_. True) (Some (''t'', Some (JObj [])))
     [\<lparr>cn_connection_id = 70, cn_user_id = 1, cn_session_id = 8, cn_subscribed_topics = {''t''}\<rparr>]
     (\<lambda>_. \<lparr>sk_connected = True, sk_sent = [], sk_closed = None\<rparr>) 70) = [JObj []]"
proof -
  have d: "distinct_ids [\<lparr>cn_connection_id = 70, cn_user_id = 1, cn_session_id = 8, cn_subscribed_topics = {''t''}\<rparr>]"
    by (simp add: distinct_ids_def)
  show ?thesis
    using relay_delivers [OF d, of "\<lambda>_. True" "''t''" "[]" "\<lambda>_. \<lparr>sk_connected = True, sk_sent = [], sk_closed = None\<rparr>" 70] d
    by (simp add: receives_def typing_typer_id_def)
qed

definition demo_auth :: ws_authenticated_connection where
  "demo_auth = \<lparr>wa_user_id = 1, wa_session_id = 8, wa_token_expires_at = 900000000, wa_accepted_subprotocol = None\<rparr>"

lemma demo_session: "get_session 8 (ac_db (gw_account demo_gateway)) = Some (alice_session 8 ''r1'')"
  and demo_user: "get_user 1 (ac_db (gw_account demo_gateway)) = Some alice"
  by (simp_all add: demo_gateway_def account_of_def demo_auth_defs db_get_def get_user_def get_session_def)

lemma demo_opens: "fst (open_connection plain_jwt_dec demo_connecting demo_gateway) = Some demo_auth"
proof -
  have cold: "ac_cache (gw_account demo_gateway) k = None" for k
    by (simp add: demo_gateway_def account_of_def)
  have act: "is_session_active Answered Answered id 5 8 (gw_account demo_gateway) =
      (True, write_cache Answered 8 True (gw_account demo_gateway))"
    using demo_session
    by (simp add: is_session_active_def cold redis_fail_closed_def read_session_active_from_db_def alice_session_def Let_def)
  have "authenticate_connect plain_jwt_dec Answered Answered id 5 (Some (py ''jwt'')) [] (gw_account demo_gateway) =
     (Some demo_auth, write_cache Answered 8 True (gw_account demo_gateway))"
    using demo_user
    by (simp add: authenticate_connect_def extract_access_token_def decode_access_token_def plain_jwt_dec_def
        parse_uuid_str act write_cache_def demo_auth_def alice_def)
  then show ?thesis
    by (simp add: open_connection_def demo_connecting_def split: prod.split)
qed

lemma demo_opened:
  obtains g where "open_connection plain_jwt_dec demo_connecting demo_gateway = (Some demo_auth, g)"
    "gw_connections g = [\<lparr>cn_connection_id = 70, cn_user_id = 1, cn_session_id = 8, cn_subscribed_topics = {user_topic 1}\<rparr>]"
    "gw_sockets g 70 = \<lparr>sk_connected = True, sk_sent = [], sk_closed = None\<rparr>"
proof -
  obtain g where o: "open_connection plain_jwt_dec demo_connecting demo_gateway = (Some demo_auth, g)"
    using demo_opens by (metis prod.collapse)
  from o have "gw_connections g = [\<lparr>cn_connection_id = 70, cn_user_id = 1, cn_session_id = 8, cn_subscribed_topics = {user_topic 1}\<rparr>]"
    "gw_sockets g 70 = \<lparr>sk_connected = True, sk_sent = [], sk_closed = None\<rparr>"
    by (auto simp: open_connection_def demo_ws_defs demo_auth_def register_connection_def subscribe_def
        split: prod.splits option.splits)
  with o show thesis by (rule that)
qed

lemma relay_scope_witness:
  "\<exists>g :: gateway. fst (open_connection plain_jwt_dec demo_connecting demo_gateway) = Some demo_auth \<and>
     (\<exists>cn\<in>set (gw_connections g). cn_connection_id cn = 70 \<and> cn_user_id cn = 1) \<and>
     sk_sent (handle_relay_message (\<lambda>_. True) (Some (user_topic 1, Some (JObj []))) (gw_connections g) (gw_sockets g) 70) = [JObj []]"
proof -
  obtain g where o: "open_connection plain_jwt_dec demo_connecting demo_gateway = (Some demo_auth, g)"
    and g: "gw_connections g = [\<lparr>cn_connection_id = 70, cn_user_id = 1, cn_session_id = 8, cn_subscribed_topics = {user_topic 1}\<rparr>]"
      "gw_sockets g 70 = \<lparr>sk_connected = True, sk_sent = [], sk_closed = None\<rparr>" by (rule demo_opened)
  have "gw_connections demo_gateway = []" by (simp add: demo_gateway_def)
  then have "reachable plain_jwt_dec (\<lambda>_. None) {ac_db (gw_account demo_gateway)} demo_gateway" by (rule instance_starts)
  then have r: "reachable plain_jwt_dec (\<lambda>_. None) {ac_db (gw_account g), ac_db (gw_account demo_gateway)} g"
    using connects [OF _ o] by (simp add: demo_gateway_def)
  have sent: "sk_sent (handle_relay_message (\<lambda>_. True) (Some (user_topic 1, Some (JObj []))) (gw_connections g) (gw_sockets g) 70) = [JObj []]"
    using g by (simp add: handle_relay_message_def send_json_def typing_typer_id_def)
  then have "\<exists>cn\<in>set (gw_connections g). cn_connection_id cn = 70 \<and> cn_user_id cn = 1"
    using relay_scope [OF r, of "\<lambda>_. True" "user_topic 1" "Some (JObj [])" 70] g by auto
  then show ?thesis using sent demo_opens by blast
qed




lemma endpoint_cleans_up_witness:
  "\<exists>e g. websocket_endpoint plain_jwt_dec (\<lambda>_. None) demo_settings demo_connecting 0
      [demo_turn 10 (Decoded ping_json), demo_turn 20 Disconnects] id Answered True 9 demo_gateway = (e, g) \<and>
     gw_connections g = [] \<and> gw_counts g = Map.empty"
proof -
  obtain e g where eg: "websocket_endpoint plain_jwt_dec (\<lambda>_. None) demo_settings demo_connecting 0
      [demo_turn 10 (Decoded ping_json), demo_turn 20 Disconnects] id Answered True 9 demo_gateway = (e, g)"
    by (rule prod.exhaust)
  have "gw_connections g = gw_connections demo_gateway \<and> gw_counts g = gw_counts demo_gateway"
    by (rule endpoint_cleans_up [OF eg]) (simp_all add: demo_ws_defs)
  with eg show ?thesis by (simp add: demo_gateway_def)
qed

text \<open>A member who is removed from a channel keeps hearing it over a socket that had joined
  before: no step takes the subscription away.\<close>

theorem removed_member_still_hears:
  assumes "reachable jwt_dec parse_id H g" "members_ok (ac_db (gw_account g))"
    and "remove_channel_member c caller u (ac_db (gw_account g)) = (REMOVED, d)"
    and "cn \<in> set (gw_connections g)" "cn_user_id cn = u" "channel_topic c \<in> cn_subscribed_topics cn"
    and "sk_connected (gw_sockets g (cn_connection_id cn))" "sends (cn_connection_id cn)"
    and "jget ''type'' (JObj kvs) \<noteq> Some (JStr (py ''typing''))"
  shows "\<exists>g'. reachable jwt_dec parse_id (insert d H) g' \<and> ac_db (gw_account g') = d \<and>
     get_membership c u (ac_db (gw_account g')) = None \<and>
     JObj kvs \<in> set (sk_sent (handle_relay_message sends (Some (channel_topic c, Some (JObj kvs)))
        (gw_connections g') (gw_sockets g') (cn_connection_id cn)))"
proof (intro exI conjI)
  let ?g = "g\<lparr>gw_account := (gw_account g)\<lparr>ac_db := d\<rparr>\<rparr>"
  show "reachable jwt_dec parse_id (insert d H) ?g"
    using elsewhere [OF assms(1), of ?g] by simp
  have "distinct_ids (gw_connections g)" using reachable_registry [OF assms(1)] by (simp add: registry_ok_def)
  from broadcast_spec [OF this] assms(4-8)
  show "JObj kvs \<in> set (sk_sent (handle_relay_message sends (Some (channel_topic c, Some (JObj kvs)))
        (gw_connections ?g) (gw_sockets ?g) (cn_connection_id cn)))"
    using assms(9) by (auto simp: handle_relay_message_def send_json_def receives_def typing_typer_id_def)
  show "get_membership c u (ac_db (gw_account ?g)) = None"
    using assms(2,3)
  proof (cases rule: remove_channel_member_cases)
    case (2 m)
    then show ?thesis using depart_spec(1) [OF assms(2) 2(3)] by simp
  qed simp
qed simp

end
