(* ===== verification/Relay.thy ===== *)
theory Relay
  imports Ws_Gateway Metrics "HOL-Library.Sublist"
begin

text \<open>
  The pub/sub subscriber of an instance (\<^verbatim>\<open>ws/fanout.py\<close>): its subscription, the background
  task that reads it, and the delivery-lag metric.  The subscription of Redis is the queue of
  what was published on a matching topic since it was made and not yet read; a failed read loses
  what is queued, and the client library subscribes again.  \<open>parse_iso\<close> is
  \<open>datetime.fromisoformat\<close>, with UTC where the text names no zone.
\<close>

definition MESSAGE_CREATED_TYPE :: string where "MESSAGE_CREATED_TYPE = ''message.created''"

definition delivery_lag_ms :: "(pystr \<Rightarrow> datetime option) \<Rightarrow> datetime \<Rightarrow> json \<Rightarrow> rat option" where
  "delivery_lag_ms parse_iso now payload =
     (if jget ''type'' payload \<noteq> Some (JStr (py MESSAGE_CREATED_TYPE)) then None
      else (case jget ''data'' payload of
              Some (JObj kvs) \<Rightarrow>
                map_option (\<lambda>created_at. max 0 (of_int (now - created_at) / 1000))
                  (Option.bind (json_string (jget ''created_at'' (JObj kvs))) parse_iso)
            | _ \<Rightarrow> None))"

subsection \<open>Patterns\<close>

definition relay_patterns :: "string list" where
  "relay_patterns = [''chan:*'', ''dm:*'', ''presence:*'', ''user:*'']"

text \<open>A Redis pattern of literal characters and \<open>*\<close>.\<close>

fun glob :: "string \<Rightarrow> string \<Rightarrow> bool" where
  "glob [] s = (s = [])"
| "glob (p # ps) [] = (p = CHR ''*'' \<and> glob ps [])"
| "glob (p # ps) (c # cs) =
     (if p = CHR ''*'' then glob ps (c # cs) \<or> glob (p # ps) cs else p = c \<and> glob ps cs)"

lemma glob_star: "glob ''*'' s"
  by (induction s) auto

lemma topics_are_covered:
  "\<exists>p\<in>set relay_patterns. glob p (channel_topic c)" "\<exists>p\<in>set relay_patterns. glob p (dm_topic a b)"
  "\<exists>p\<in>set relay_patterns. glob p (presence_topic u)" "\<exists>p\<in>set relay_patterns. glob p (user_topic u)"
  by (simp_all add: relay_patterns_def topic_defs glob_star)

subsection \<open>The relay\<close>

datatype relay_task = Run_Until_Subscribed | Run

type_synonym relay_message = "string \<times> json option"

record relay =
  rl_pubsub :: "(string list \<times> relay_message list) option"
  rl_task :: "relay_task option"

definition no_relay :: relay where
  "no_relay = \<lparr>rl_pubsub = None, rl_task = None\<rparr>"

definition try_subscribe :: "bool \<Rightarrow> relay \<Rightarrow> bool \<times> relay" where
  "try_subscribe redis_up r = (redis_up, r\<lparr>rl_pubsub := if redis_up then Some (relay_patterns, []) else None\<rparr>)"

definition relay_start :: "bool \<Rightarrow> relay \<Rightarrow> relay" where
  "relay_start redis_up r =
     (if rl_task r \<noteq> None then r
      else case try_subscribe redis_up r of
             (True, r') \<Rightarrow> r'\<lparr>rl_task := Some Run\<rparr>
           | (False, r') \<Rightarrow> r'\<lparr>rl_task := Some Run_Until_Subscribed\<rparr>)"

definition relay_stop :: "relay \<Rightarrow> relay" where
  "relay_stop r = r\<lparr>rl_task := None, rl_pubsub := None\<rparr>"

text \<open>Redis hands a message to the subscription if one of its patterns matches the topic.\<close>

definition redis_publish :: "relay_message list \<Rightarrow> relay \<Rightarrow> relay" where
  "redis_publish ms r =
     r\<lparr>rl_pubsub := map_option (\<lambda>(patterns, queue).
         (patterns, queue @ filter (\<lambda>m. \<exists>p\<in>set patterns. glob p (fst m)) ms)) (rl_pubsub r)\<rparr>"

text \<open>What one round of the task meets: what is published before it, whether Redis answers,
  the clock, which sends succeed, and what else happens on the instance before it.\<close>

record relay_turn =
  rt_published :: "relay_message list"
  rt_redis_up :: bool
  rt_now :: datetime
  rt_sends :: "uuid \<Rightarrow> bool"
  rt_elsewhere :: "gateway \<Rightarrow> gateway"

definition handle_message ::
  "(pystr \<Rightarrow> datetime option) \<Rightarrow> relay_turn \<Rightarrow> relay_message \<Rightarrow> gateway \<times> metrics \<Rightarrow> gateway \<times> metrics" where
  "handle_message parse_iso t m w =
     (case w of (g, mx) \<Rightarrow>
       (g\<lparr>gw_sockets := handle_relay_message (rt_sends t) (Some m) (gw_connections g) (gw_sockets g)\<rparr>,
        case snd m of
          Some (JObj kvs) \<Rightarrow>
            (case delivery_lag_ms parse_iso (rt_now t) (JObj kvs) of
               None \<Rightarrow> mx | Some lag_ms \<Rightarrow> observe_histogram ''message_delivery_lag_ms'' lag_ms [] mx)
        | _ \<Rightarrow> mx))"

text \<open>One round: of the retry loop, an attempt to subscribe; of the reading loop, one read, which
  finds nothing, fails, or gets a message.  Also the message handled, if any.\<close>

definition relay_round ::
  "(pystr \<Rightarrow> datetime option) \<Rightarrow> relay_turn \<Rightarrow> relay \<times> gateway \<times> metrics \<Rightarrow>
   relay_message list \<times> relay \<times> gateway \<times> metrics" where
  "relay_round parse_iso t st =
     (case st of (r0, g0, mx) \<Rightarrow>
       let g = rt_elsewhere t g0; r = redis_publish (rt_published t) r0 in
       case rl_task r of
         None \<Rightarrow> ([], r, g, mx)
       | Some Run_Until_Subscribed \<Rightarrow>
           (case try_subscribe (rt_redis_up t) r of
              (subscribed, r') \<Rightarrow> ([], if subscribed then r'\<lparr>rl_task := Some Run\<rparr> else r', g, mx))
       | Some Run \<Rightarrow>
           (case rl_pubsub r of
              None \<Rightarrow> ([], r, g, mx)
            | Some (patterns, queue) \<Rightarrow>
                if \<not> rt_redis_up t then ([], r\<lparr>rl_pubsub := Some (patterns, [])\<rparr>, g, mx)
                else (case queue of
                        [] \<Rightarrow> ([], r, g, mx)
                      | m # queue' \<Rightarrow>
                          ([m], r\<lparr>rl_pubsub := Some (patterns, queue')\<rparr>, handle_message parse_iso t m (g, mx)))))"

fun relay_rounds ::
  "(pystr \<Rightarrow> datetime option) \<Rightarrow> relay_turn list \<Rightarrow> relay \<times> gateway \<times> metrics \<Rightarrow>
   relay_message list \<times> relay \<times> gateway \<times> metrics" where
  "relay_rounds parse_iso [] st = ([], st)"
| "relay_rounds parse_iso (t # ts) st =
     (case relay_round parse_iso t st of
        (ms, st') \<Rightarrow> (case relay_rounds parse_iso ts st' of (ms', st'') \<Rightarrow> (ms @ ms', st'')))"

subsection \<open>The relay never gives up and never reorders\<close>

text \<open>A relay between rounds: it retries without a subscription or reads one on all patterns.\<close>

definition relay_ok :: "relay \<Rightarrow> bool" where
  "relay_ok r \<longleftrightarrow>
     rl_task r = Some Run_Until_Subscribed \<and> rl_pubsub r = None \<or>
     rl_task r = Some Run \<and> (\<exists>queue. rl_pubsub r = Some (relay_patterns, queue))"

definition relay_queue :: "relay \<Rightarrow> relay_message list" where
  "relay_queue r = (case rl_pubsub r of None \<Rightarrow> [] | Some (patterns, queue) \<Rightarrow> queue)"

definition matching :: "relay_message list \<Rightarrow> relay_message list" where
  "matching = filter (\<lambda>m. \<exists>p\<in>set relay_patterns. glob p (fst m))"

lemma relay_start_ok: "rl_task r = None \<Longrightarrow> relay_ok (relay_start up r) \<and> relay_queue (relay_start up r) = [] \<and>
    (rl_task (relay_start up r) = Some Run \<longleftrightarrow> up)"
  by (cases up) (auto simp: relay_start_def try_subscribe_def relay_ok_def relay_queue_def)

lemma relay_round_ok:
  assumes "relay_ok r" "relay_round parse_iso t (r, g, mx) = (ms, r', g', mx')"
  shows "relay_ok r'" "rl_task r' = Some Run \<longleftrightarrow> rl_task r = Some Run \<or> rt_redis_up t"
    "subseq (ms @ relay_queue r') (relay_queue r @ matching (rt_published t))"
    "rl_task r = Some Run \<Longrightarrow> rt_redis_up t \<Longrightarrow> ms @ relay_queue r' = relay_queue r @ matching (rt_published t)"
    "rl_task r = Some Run \<Longrightarrow> rt_redis_up t \<Longrightarrow> ms = [] \<Longrightarrow> relay_queue r @ matching (rt_published t) = []"
  using assms
  by (auto simp: relay_ok_def relay_round_def redis_publish_def try_subscribe_def relay_queue_def matching_def Let_def
      split: if_splits list.splits prod.splits)

lemma subseq_rounds:
  assumes "subseq (ms @ q') (q @ p)" "subseq (ms' @ q'') (q' @ p')"
  shows "subseq ((ms @ ms') @ q'') (q @ p @ p')"
proof -
  have "subseq (ms @ ms' @ q'') (ms @ q' @ p')" using list_emb_append_mono [OF subseq_order.order_refl assms(2)] .
  moreover have "subseq ((ms @ q') @ p') ((q @ p) @ p')" by (rule list_emb_append_mono [OF assms(1)]) simp
  ultimately show ?thesis using subseq_order.order_trans [of "ms @ ms' @ q''"] by simp
qed

lemma relay_rounds_ok:
  assumes "relay_ok r" "relay_rounds parse_iso ts (r, g, mx) = (ms, r', g', mx')"
  shows "relay_ok r'" "rl_task r' = Some Run \<longleftrightarrow> rl_task r = Some Run \<or> (\<exists>t\<in>set ts. rt_redis_up t)"
    "subseq (ms @ relay_queue r') (relay_queue r @ concat (map (\<lambda>t. matching (rt_published t)) ts))"
    "rl_task r = Some Run \<Longrightarrow> \<forall>t\<in>set ts. rt_redis_up t \<Longrightarrow>
       ms @ relay_queue r' = relay_queue r @ concat (map (\<lambda>t. matching (rt_published t)) ts)"
proof -
  have "relay_ok r' \<and> (rl_task r' = Some Run \<longleftrightarrow> rl_task r = Some Run \<or> (\<exists>t\<in>set ts. rt_redis_up t)) \<and>
    subseq (ms @ relay_queue r') (relay_queue r @ concat (map (\<lambda>t. matching (rt_published t)) ts)) \<and>
    (rl_task r = Some Run \<and> (\<forall>t\<in>set ts. rt_redis_up t) \<longrightarrow>
       ms @ relay_queue r' = relay_queue r @ concat (map (\<lambda>t. matching (rt_published t)) ts))"
    using assms
  proof (induction ts arbitrary: r g mx ms)
    case (Cons t ts)
    obtain ms1 r1 g1 mx1 where one: "relay_round parse_iso t (r, g, mx) = (ms1, r1, g1, mx1)" by (metis prod.exhaust)
    obtain ms2 where two: "relay_rounds parse_iso ts (r1, g1, mx1) = (ms2, r', g', mx')" and ms: "ms = ms1 @ ms2"
      using Cons.prems(2) one by (auto split: prod.splits)
    note R = relay_round_ok [OF Cons.prems(1) one]
    note I = Cons.IH [OF R(1) two]
    have "subseq (ms @ relay_queue r') (relay_queue r @ matching (rt_published t) @ concat (map (\<lambda>t. matching (rt_published t)) ts))"
      unfolding ms by (rule subseq_rounds [OF R(3)]) (use I in blast)
    moreover have "ms @ relay_queue r' = relay_queue r @ matching (rt_published t) @ concat (map (\<lambda>t. matching (rt_published t)) ts)"
      if "rl_task r = Some Run" "\<forall>t\<in>set (t # ts). rt_redis_up t"
    proof -
      have "ms1 @ relay_queue r1 = relay_queue r @ matching (rt_published t)" using R(4) that by simp
      moreover have "ms2 @ relay_queue r' = relay_queue r1 @ concat (map (\<lambda>t. matching (rt_published t)) ts)"
        using I R(2) that by simp
      ultimately show ?thesis unfolding ms by (metis append.assoc)
    qed
    ultimately show ?case using I R(2) by auto
  qed simp
  then show "relay_ok r'" "rl_task r' = Some Run \<longleftrightarrow> rl_task r = Some Run \<or> (\<exists>t\<in>set ts. rt_redis_up t)"
    "subseq (ms @ relay_queue r') (relay_queue r @ concat (map (\<lambda>t. matching (rt_published t)) ts))"
    "rl_task r = Some Run \<Longrightarrow> \<forall>t\<in>set ts. rt_redis_up t \<Longrightarrow>
       ms @ relay_queue r' = relay_queue r @ concat (map (\<lambda>t. matching (rt_published t)) ts)"
    by blast+
qed

lemma relay_rounds_append:
  "relay_rounds parse_iso (ts @ ts') st =
   (case relay_rounds parse_iso ts st of
      (ms, st') \<Rightarrow> (case relay_rounds parse_iso ts' st' of (ms', st'') \<Rightarrow> (ms @ ms', st'')))"
  by (induction ts arbitrary: st) (auto split: prod.split)

text \<open>A reading relay that Redis answers handles one message a round until none is left.\<close>

lemma relay_round_reads:
  assumes "relay_ok r" "rl_task r = Some Run" "rt_redis_up t" "rt_published t = []"
    "relay_round parse_iso t (r, g, mx) = (ms, r', g', mx')"
  shows "relay_queue r' = tl (relay_queue r)" "ms = take 1 (relay_queue r)"
  using assms
  by (auto simp: relay_ok_def relay_round_def redis_publish_def relay_queue_def Let_def split: list.splits)

lemma relay_drains:
  assumes "relay_ok r" "rl_task r = Some Run" "\<forall>t\<in>set ts. rt_redis_up t \<and> rt_published t = []"
    "length (relay_queue r) \<le> length ts" "relay_rounds parse_iso ts (r, g, mx) = (ms, r', g', mx')"
  shows "ms = relay_queue r"
  using assms
proof (induction ts arbitrary: r g mx ms)
  case (Cons t ts)
  note prems = Cons.prems
  obtain ms1 r1 g1 mx1 where one: "relay_round parse_iso t (r, g, mx) = (ms1, r1, g1, mx1)" by (metis prod.exhaust)
  obtain ms2 where two: "relay_rounds parse_iso ts (r1, g1, mx1) = (ms2, r', g', mx')" and ms: "ms = ms1 @ ms2"
    using prems(5) one by (auto split: prod.splits)
  have t: "rt_redis_up t" "rt_published t = []" using prems(3) by auto
  note reads = relay_round_reads [OF prems(1,2) t one]
  have "ms2 = relay_queue r1"
  proof (rule Cons.IH [OF relay_round_ok(1) [OF prems(1) one] _ _ _ two])
    show "rl_task r1 = Some Run" using relay_round_ok(2) [OF prems(1) one] prems(2) by blast
    show "\<forall>t\<in>set ts. rt_redis_up t \<and> rt_published t = []" using prems(3) by simp
    show "length (relay_queue r1) \<le> length ts" using reads(1) prems(4) by simp
  qed
  then show ?case using reads unfolding ms by (cases "relay_queue r") auto
qed simp

text \<open>What a handled message does to the sockets, when nothing else happens on the instance.\<close>

lemma relay_rounds_sockets:
  assumes "\<forall>t\<in>set ts. rt_elsewhere t = id \<and> rt_sends t = sends"
    "relay_rounds parse_iso ts (r, g, mx) = (ms, r', g', mx')"
  shows "gw_connections g' = gw_connections g \<and>
    gw_sockets g' = fold (\<lambda>m. handle_relay_message sends (Some m) (gw_connections g)) ms (gw_sockets g)"
  using assms
proof (induction ts arbitrary: r g mx ms)
  case (Cons t ts)
  note prems = Cons.prems
  obtain ms1 r1 g1 mx1 where one: "relay_round parse_iso t (r, g, mx) = (ms1, r1, g1, mx1)" by (metis prod.exhaust)
  obtain ms2 where two: "relay_rounds parse_iso ts (r1, g1, mx1) = (ms2, r', g', mx')" and ms: "ms = ms1 @ ms2"
    using prems(2) one by (auto split: prod.splits)
  have "rt_elsewhere t = id" "rt_sends t = sends" using prems(1) by auto
  then have "gw_connections g1 = gw_connections g \<and>
      gw_sockets g1 = fold (\<lambda>m. handle_relay_message sends (Some m) (gw_connections g)) ms1 (gw_sockets g)"
    using one by (auto simp: relay_round_def Let_def try_subscribe_def handle_message_def
        split: option.splits relay_task.splits if_splits list.splits prod.splits)
  moreover have "gw_connections g' = gw_connections g1 \<and>
      gw_sockets g' = fold (\<lambda>m. handle_relay_message sends (Some m) (gw_connections g1)) ms2 (gw_sockets g1)"
    using Cons.IH [OF _ two] prems(1) by simp
  ultimately show ?case unfolding ms by simp
qed simp

text \<open>
  C18. The relay never gives up: however often Redis fails, from its start on its task runs; it
  reads as soon as Redis has answered once.  What it hands to the sockets is, in order and each
  at most once, what was published on the four kinds of topics; while Redis answers nothing is
  lost, and after as many quiet rounds as there were messages all have been handed over.
\<close>

theorem relay_keeps_listening:
  assumes "rl_task r0 = None" "relay_rounds parse_iso (ts @ quiet) (relay_start up r0, g, mx) = (ms, r', g', mx')"
  shows "rl_task r' = (if up \<or> (\<exists>t\<in>set (ts @ quiet). rt_redis_up t) then Some Run else Some Run_Until_Subscribed)
    \<and> subseq ms (concat (map (\<lambda>t. matching (rt_published t)) (ts @ quiet)))
    \<and> (up \<and> (\<forall>t\<in>set (ts @ quiet). rt_redis_up t) \<and> (\<forall>t\<in>set quiet. rt_published t = []) \<and>
         length (concat (map rt_published ts)) \<le> length quiet
       \<longrightarrow> ms = concat (map (\<lambda>t. matching (rt_published t)) ts))
    \<and> ((\<forall>t\<in>set (ts @ quiet). rt_elsewhere t = id \<and> rt_sends t = sends) \<longrightarrow>
         gw_sockets g' = fold (\<lambda>m. handle_relay_message sends (Some m) (gw_connections g)) ms (gw_sockets g))"
proof -
  let ?r = "relay_start up r0"
  have start: "relay_ok ?r" "relay_queue ?r = []" "rl_task ?r = Some Run \<longleftrightarrow> up"
    using relay_start_ok [OF assms(1), of up] by auto
  note R = relay_rounds_ok [OF start(1) assms(2)]
  have "subseq ms (ms @ relay_queue r')" by (rule subseq_rev_drop_many) (rule subseq_order.order_refl)
  then have sub: "subseq ms (concat (map (\<lambda>t. matching (rt_published t)) (ts @ quiet)))"
    using R(3) start(2) by (metis append_Nil subseq_order.order_trans)
  have task: "rl_task r' = (if up \<or> (\<exists>t\<in>set (ts @ quiet). rt_redis_up t) then Some Run else Some Run_Until_Subscribed)"
    using R(1,2) start(3) by (auto simp: relay_ok_def)
  have all: "ms = concat (map (\<lambda>t. matching (rt_published t)) ts)"
    if up: "up" "\<forall>t\<in>set (ts @ quiet). rt_redis_up t" "\<forall>t\<in>set quiet. rt_published t = []"
      "length (concat (map rt_published ts)) \<le> length quiet"
  proof -
    obtain ms1 r1 g1 mx1 where one: "relay_rounds parse_iso ts (?r, g, mx) = (ms1, r1, g1, mx1)" by (metis prod.exhaust)
    obtain ms2 where two: "relay_rounds parse_iso quiet (r1, g1, mx1) = (ms2, r', g', mx')" and ms: "ms = ms1 @ ms2"
      using assms(2) one by (auto simp: relay_rounds_append split: prod.splits)
    note O = relay_rounds_ok [OF start(1) one]
    have eq: "ms1 @ relay_queue r1 = concat (map (\<lambda>t. matching (rt_published t)) ts)"
      using O(4) start up by simp
    have "length (relay_queue r1) \<le> length (ms1 @ relay_queue r1)" by simp
    also have "\<dots> = length (filter (\<lambda>m. \<exists>p\<in>set relay_patterns. glob p (fst m)) (concat (map rt_published ts)))"
      unfolding eq by (simp add: matching_def filter_concat comp_def)
    also have "\<dots> \<le> length quiet" using up(4) length_filter_le le_trans by blast
    finally have "ms2 = relay_queue r1"
      using relay_drains [OF O(1) _ _ _ two] O(2) start(3) up by simp
    then show ?thesis using eq ms by simp
  qed
  show ?thesis using task sub all relay_rounds_sockets [OF _ assms(2), of sends] by blast
qed

definition demo_round :: "relay_message list \<Rightarrow> bool \<Rightarrow> relay_turn" where
  "demo_round ms up = \<lparr>rt_published = ms, rt_redis_up = up, rt_now = 0, rt_sends = (\<lambda>_. True), rt_elsewhere = id\<rparr>"

text \<open>Redis is down at the start, then comes up; one event and one message on a foreign topic
  follow.\<close>

lemma relay_keeps_listening_witness:
  "\<exists>ms r' g' mx'. relay_rounds (\<lambda>_. None)
      ([demo_round [(channel_topic 1, Some JNull)] False, demo_round [] True, demo_round [(''x'', None), (user_topic 1, None)] True] @ [])
      (relay_start False no_relay, demo_gateway, no_metrics) = (ms, r', g', mx')
    \<and> rl_task r' = Some Run \<and> ms = [(user_topic 1, None)]
    \<and> rl_task (fst (snd (relay_rounds (\<lambda>_. None) ([demo_round [(''x'', None)] True] @ [demo_round [] True])
        (relay_start True no_relay, demo_gateway, no_metrics)))) = Some Run"
proof -
  let ?ts = "[demo_round [(channel_topic 1, Some JNull)] False, demo_round [] True, demo_round [(''x'', None), (user_topic 1, None)] True]"
  let ?st = "(relay_start False no_relay, demo_gateway, no_metrics)"
  let ?ts' = "[demo_round [(''x'', None)] True]" and ?st' = "(relay_start True no_relay, demo_gateway, no_metrics)"
  obtain ms r' g' mx' where run: "relay_rounds (\<lambda>_. None) (?ts @ []) ?st = (ms, r', g', mx')" by (metis prod.exhaust)
  obtain ms2 r2 g2 mx2 where run': "relay_rounds (\<lambda>_. None) (?ts' @ [demo_round [] True]) ?st' = (ms2, r2, g2, mx2)"
    by (metis prod.exhaust)
  have "rl_task no_relay = None" by (simp add: no_relay_def)
  note T = relay_keeps_listening [OF this run] relay_keeps_listening [OF this run']
  have "rl_task r' = Some Run" "rl_task r2 = Some Run" using T by (simp_all add: demo_round_def)
  moreover have "ms = [(user_topic 1, None)]"
    using run by (auto simp: demo_round_def relay_round_def relay_start_def try_subscribe_def no_relay_def redis_publish_def
        handle_message_def relay_patterns_def channel_topic_def user_topic_def glob_star)
  ultimately show ?thesis using run run' by auto
qed

end
