(* ===== verification/Startup.thy ===== *)
theory Startup
  imports Admin Email Redaction Relay
begin

text \<open>
  From the environment to a serving process: the settings and their validators
  (\<^verbatim>\<open>core/config.py\<close>), what the clients of the stores are built with (\<^verbatim>\<open>db/\<close>), the order of
  start-up and shutdown (\<^verbatim>\<open>main.py\<close>), the probes and the operators' snapshot
  (\<^verbatim>\<open>services/readiness.py\<close>, \<^verbatim>\<open>api/health.py\<close>, \<^verbatim>\<open>api/metrics.py\<close>).  pydantic's conversion
  of the environment's text to numbers and booleans comes before; floats are rationals.
\<close>

subsection \<open>Settings\<close>

record settings = smtp_settings +
  st_app_env :: pystr
  st_log_level :: pystr
  st_cors_allowed_origins :: "pystr list"
  st_database_url :: pystr
  st_db_pool_size :: int
  st_db_max_overflow :: int
  st_db_pool_timeout_seconds :: rat
  st_db_statement_timeout_ms :: int
  st_db_connect_timeout_seconds :: rat
  st_redis_url :: pystr
  st_redis_connect_timeout_seconds :: rat
  st_jwt_signing_key :: pystr
  st_jwt_algorithm :: pystr
  st_jwt_access_token_ttl_minutes :: int
  st_session_ttl_days :: int
  st_session_revocation_cache_ttl_seconds :: int
  st_ws :: ws_settings
  st_presence_ttl_seconds :: int
  st_password_reset_url_base :: pystr
  st_invite_url_base :: pystr
  st_s3_endpoint_url :: pystr
  st_s3_bucket_name :: pystr
  st_s3_access_key_id :: pystr
  st_s3_secret_access_key :: pystr
  st_s3_region :: pystr
  st_bootstrap :: bootstrap_settings
  st_error_monitor_dsn :: "pystr option"
  st_error_monitor_traces_sample_rate :: rat

definition postgres_fields_ok :: "settings \<Rightarrow> bool" where
  "postgres_fields_ok s \<longleftrightarrow>
     1 \<le> st_db_pool_size s \<and> 0 \<le> st_db_max_overflow s \<and> 0 < st_db_pool_timeout_seconds s \<and>
     0 < st_db_statement_timeout_ms s \<and> 0 < st_db_connect_timeout_seconds s"

definition redis_fields_ok :: "settings \<Rightarrow> bool" where
  "redis_fields_ok s \<longleftrightarrow> 0 < st_redis_connect_timeout_seconds s"

definition session_fields_ok :: "settings \<Rightarrow> bool" where
  "session_fields_ok s \<longleftrightarrow> 0 < st_session_ttl_days s \<and> 0 < st_session_revocation_cache_ttl_seconds s"

definition ws_fields_ok :: "settings \<Rightarrow> bool" where
  "ws_fields_ok s \<longleftrightarrow>
     0 < wc_heartbeat_timeout_seconds (st_ws s) \<and> 0 < wc_frame_rate_limit_max_frames (st_ws s) \<and>
     0 < wc_frame_rate_limit_window_seconds (st_ws s)"

definition presence_fields_ok :: "settings \<Rightarrow> bool" where
  "presence_fields_ok s \<longleftrightarrow> 0 < st_presence_ttl_seconds s"

definition smtp_fields_ok :: "settings \<Rightarrow> bool" where
  "smtp_fields_ok s \<longleftrightarrow>
     0 < sm_port s \<and> sm_port s \<le> 65535 \<and> 1 \<le> sm_max_attempts s \<and> 0 \<le> sm_retry_backoff_seconds s \<and>
     0 < sm_send_timeout_seconds s"

definition monitor_fields_ok :: "settings \<Rightarrow> bool" where
  "monitor_fields_ok s \<longleftrightarrow>
     0 \<le> st_error_monitor_traces_sample_rate s \<and> st_error_monitor_traces_sample_rate s \<le> 1"

definition split_csv :: "pystr \<Rightarrow> pystr list" where
  "split_csv v = filter (\<lambda>origin. origin \<noteq> []) (map py_strip (split_on 44 v))"

definition reject_wildcard_origin_in_production :: "pystr \<Rightarrow> pystr list \<Rightarrow> bool" where
  "reject_wildcard_origin_in_production app_env v \<longleftrightarrow> app_env = py ''production'' \<and> py ''*'' \<in> set v"

definition reject_conflicting_tls_modes :: "'a smtp_settings_scheme \<Rightarrow> bool" where
  "reject_conflicting_tls_modes s \<longleftrightarrow> sm_use_tls s \<and> sm_start_tls s"

text \<open>The settings from the typed fields and the text of the origins, if that is set; \<open>None\<close>
  is a validation error, which ends the process.\<close>

definition load_settings :: "pystr option \<Rightarrow> settings \<Rightarrow> settings option" where
  "load_settings cors raw =
     (let s = raw\<lparr>st_cors_allowed_origins := (case cors of None \<Rightarrow> [] | Some v \<Rightarrow> split_csv v)\<rparr> in
      if postgres_fields_ok s \<and> redis_fields_ok s \<and> session_fields_ok s \<and> ws_fields_ok s \<and>
         presence_fields_ok s \<and> smtp_fields_ok s \<and> monitor_fields_ok s \<and>
         \<not> reject_wildcard_origin_in_production (st_app_env s) (st_cors_allowed_origins s) \<and>
         \<not> reject_conflicting_tls_modes s
      then Some s else None)"

subsection \<open>Clients\<close>

record engine_kwargs =
  ek_pool_size :: int
  ek_max_overflow :: int
  ek_pool_timeout :: rat
  ek_pool_recycle :: int
  ek_pool_pre_ping :: bool
  ek_connect_timeout :: rat
  ek_statement_timeout :: int
  ek_timezone :: string

definition build_engine_kwargs :: "settings \<Rightarrow> engine_kwargs" where
  "build_engine_kwargs s =
     \<lparr>ek_pool_size = st_db_pool_size s, ek_max_overflow = st_db_max_overflow s,
      ek_pool_timeout = st_db_pool_timeout_seconds s, ek_pool_recycle = 1800, ek_pool_pre_ping = True,
      ek_connect_timeout = st_db_connect_timeout_seconds s,
      ek_statement_timeout = st_db_statement_timeout_ms s, ek_timezone = ''UTC''\<rparr>"

text \<open>The session of a request: committed if the request ends normally, rolled back if it raises.\<close>

definition get_db_session :: "(database \<Rightarrow> ('e + 'r) \<times> database) \<Rightarrow> database \<Rightarrow> ('e + 'r) \<times> database" where
  "get_db_session request d =
     (case request d of
        (Inl e, d') \<Rightarrow> (Inl e, d)
      | (Inr r, d') \<Rightarrow> (Inr r, d'))"

subsection \<open>Start-up and shutdown\<close>

record process =
  pr_settings :: settings
  pr_error_monitor :: bool
  pr_allow_origins :: "pystr list"
  pr_allow_credentials :: bool
  pr_db :: database
  pr_relay :: relay

datatype start_failure =
    Invalid_Settings
  | Email_Unusable email_config_error
  | Bootstrap_Failed bootstrap_error

text \<open>\<open>create_app\<close>, before the database is touched.\<close>

definition create_app :: "bool \<Rightarrow> bool \<Rightarrow> settings option \<Rightarrow> database \<Rightarrow> start_failure + process" where
  "create_app sentry_installed sentry_accepts loaded d =
     (case loaded of
        None \<Rightarrow> Inl Invalid_Settings
      | Some s \<Rightarrow>
          (case verify_email_config s of
             Inl e \<Rightarrow> Inl (Email_Unusable e)
           | Inr _ \<Rightarrow>
               (let allowed_origins = st_cors_allowed_origins s in
                Inr \<lparr>pr_settings = s,
                     pr_error_monitor =
                       configure_error_monitor (st_error_monitor_dsn s) sentry_installed sentry_accepts,
                     pr_allow_origins = allowed_origins,
                     pr_allow_credentials = (allowed_origins \<noteq> [] \<and> py ''*'' \<notin> set allowed_origins),
                     pr_db = d, pr_relay = no_relay\<rparr>)))"

text \<open>The lifespan up to serving: the bootstrap in its transaction, then the relay.\<close>

definition lifespan_start ::
  "'a password_env_scheme \<Rightarrow> fresh \<Rightarrow> (database \<Rightarrow> database) \<Rightarrow> bool \<Rightarrow> process \<Rightarrow> start_failure + process" where
  "lifespan_start env f others redis_up p =
     (case ensure_system_admin_bootstrapped env (st_bootstrap (pr_settings p)) f others (pr_db p) of
        Inl e \<Rightarrow> Inl (Bootstrap_Failed e)
      | Inr d' \<Rightarrow> Inr (p\<lparr>pr_db := d', pr_relay := relay_start redis_up (pr_relay p)\<rparr>))"

definition start_process ::
  "'a password_env_scheme \<Rightarrow> fresh \<Rightarrow> (database \<Rightarrow> database) \<Rightarrow> bool \<Rightarrow> bool \<Rightarrow> bool \<Rightarrow>
   pystr option \<Rightarrow> settings \<Rightarrow> database \<Rightarrow> start_failure + process" where
  "start_process env f others sentry_installed sentry_accepts redis_up cors raw d =
     and_then (create_app sentry_installed sentry_accepts (load_settings cors raw) d)
       (lifespan_start env f others redis_up)"

definition shutdown :: "(uuid \<Rightarrow> bool) \<Rightarrow> process \<Rightarrow> gateway \<Rightarrow> process \<times> gateway" where
  "shutdown closes p g =
     (case close_all closes GOING_AWAY (gw_connections g) (gw_sockets g) of
        (cns, socks) \<Rightarrow>
          (p\<lparr>pr_relay := relay_stop (pr_relay p)\<rparr>, g\<lparr>gw_connections := cns, gw_sockets := socks\<rparr>))"

subsection \<open>Probes\<close>

datatype readiness_status = OK | STUBBED | UNAVAILABLE

fun readiness_value :: "readiness_status \<Rightarrow> string" where
  "readiness_value OK = ''ok''"
| "readiness_value STUBBED = ''stubbed''"
| "readiness_value UNAVAILABLE = ''unavailable''"

record readiness_check =
  rc_name :: string
  rc_status :: readiness_status
  rc_detail :: string

text \<open>What a probe meets: an answer, the time-out, an error of the driver or the transport, or
  any other exception.\<close>

datatype probe = Probe_Answers | Probe_Times_Out | Probe_Fails | Probe_Raises pystr

definition check_database :: "probe \<Rightarrow> pystr + readiness_check" where
  "check_database p =
     (case p of
        Probe_Answers \<Rightarrow> Inr \<lparr>rc_name = ''database'', rc_status = OK, rc_detail = ''Postgres reachable.''\<rparr>
      | Probe_Times_Out \<Rightarrow>
          Inr \<lparr>rc_name = ''database'', rc_status = UNAVAILABLE,
               rc_detail = ''Postgres did not respond within the probe timeout.''\<rparr>
      | Probe_Fails \<Rightarrow>
          Inr \<lparr>rc_name = ''database'', rc_status = UNAVAILABLE, rc_detail = ''Postgres is unreachable.''\<rparr>
      | Probe_Raises e \<Rightarrow> Inl e)"

definition check_redis :: "probe \<Rightarrow> pystr + readiness_check" where
  "check_redis p =
     (case p of
        Probe_Answers \<Rightarrow> Inr \<lparr>rc_name = ''redis'', rc_status = OK, rc_detail = ''Redis reachable.''\<rparr>
      | Probe_Times_Out \<Rightarrow>
          Inr \<lparr>rc_name = ''redis'', rc_status = UNAVAILABLE,
               rc_detail = ''Redis did not respond within the probe timeout.''\<rparr>
      | Probe_Fails \<Rightarrow>
          Inr \<lparr>rc_name = ''redis'', rc_status = UNAVAILABLE, rc_detail = ''Redis is unreachable.''\<rparr>
      | Probe_Raises e \<Rightarrow> Inl e)"

definition healthz :: "string http" where
  "healthz = Response 200 ''ok''"

text \<open>An \<open>Inl\<close> is an exception, which becomes a 500.\<close>

definition readyz :: "probe \<Rightarrow> probe \<Rightarrow> pystr + (string \<times> (string \<times> string \<times> string) list) http" where
  "readyz database redis =
     and_then (check_database database) (\<lambda>c1. and_then (check_redis redis) (\<lambda>c2.
       let checks = [c1, c2]; overall_ok = list_all (\<lambda>c. rc_status c \<noteq> UNAVAILABLE) checks in
       Inr (Response (if overall_ok then 200 else 503)
              (if overall_ok then ''ok'' else ''unavailable'',
               map (\<lambda>c. (rc_name c, readiness_value (rc_status c), rc_detail c)) checks))))"

record db_pool_snapshot =
  po_size :: int
  po_checked_out :: int
  po_overflow :: int

definition get_metrics ::
  "(rat \<Rightarrow> nat \<Rightarrow> nat) \<Rightarrow> metrics \<Rightarrow> db_pool_snapshot \<Rightarrow> probe \<Rightarrow> authenticated_user \<Rightarrow> database \<Rightarrow>
   pystr + (metrics_snapshot \<times> db_pool_snapshot \<times> bool) http" where
  "get_metrics rank mx pool redis admin d =
     (if \<not> require_system_admin admin d
      then Inr (Problem 403 ''This action requires System Admin privileges.'')
      else and_then (check_redis redis) (\<lambda>redis_check.
        Inr (Response 200 (snapshot rank mx, pool, rc_status redis_check = OK))))"

subsection \<open>A process that serves is ready\<close>

lemma split_csv_origins: "v \<in> set (split_csv text) \<Longrightarrow> v \<noteq> [] \<and> 44 \<notin> set v"
  using split_on_parts set_strip_by by (fastforce simp: split_csv_def py_strip_def)

lemma email_config_iff:
  "verify_email_config s = Inr u \<longleftrightarrow>
   py_strip (sm_host s) \<noteq> [] \<and> py_strip (sm_username s) \<noteq> [] \<and> py_strip (sm_password s) \<noteq> [] \<and>
   64 \<in> set (sm_from_address s)"
  by (simp add: verify_email_config_def Let_def)

lemmas fields_ok_defs =
  postgres_fields_ok_def redis_fields_ok_def session_fields_ok_def ws_fields_ok_def presence_fields_ok_def
  smtp_fields_ok_def monitor_fields_ok_def

lemma load_settings_Some:
  assumes "load_settings cors raw = Some s"
  shows "postgres_fields_ok s" "redis_fields_ok s" "session_fields_ok s" "ws_fields_ok s" "presence_fields_ok s"
    "smtp_fields_ok s" "monitor_fields_ok s" "\<not> (sm_use_tls s \<and> sm_start_tls s)"
    "st_app_env s = py ''production'' \<longrightarrow> py ''*'' \<notin> set (st_cors_allowed_origins s)"
    "v \<in> set (st_cors_allowed_origins s) \<Longrightarrow> v \<noteq> [] \<and> 44 \<notin> set v"
  using assms
  by (auto simp: load_settings_def Let_def reject_wildcard_origin_in_production_def
      reject_conflicting_tls_modes_def dest: split_csv_origins split: if_splits option.splits)

lemma bootstrap_Inr:
  assumes "ensure_system_admin_bootstrapped env b f others d = Inr d'"
  shows "active_system_admin_exists d'" "tb_users d \<noteq> [] \<Longrightarrow> d' = d"
  using assms by (auto simp: ensure_system_admin_bootstrapped_def split: if_splits)

lemma start_process_Inr:
  assumes "start_process env f others installed accepts up cors raw d = Inr p"
  obtains s d' where "load_settings cors raw = Some s" "verify_email_config s = Inr ()"
    "ensure_system_admin_bootstrapped env (st_bootstrap s) f others d = Inr d'"
    "p = \<lparr>pr_settings = s, pr_error_monitor = configure_error_monitor (st_error_monitor_dsn s) installed accepts,
          pr_allow_origins = st_cors_allowed_origins s,
          pr_allow_credentials = (st_cors_allowed_origins s \<noteq> [] \<and> py ''*'' \<notin> set (st_cors_allowed_origins s)),
          pr_db = d', pr_relay = relay_start up no_relay\<rparr>"
  using assms
  by (auto simp: start_process_def create_app_def lifespan_start_def Let_def split: option.splits sum.splits)

text \<open>
  C39. A process serves only if it is fit to: its mail configuration is usable and asks for one
  TLS mode at most, every setting with a bound is within it, credentials are allowed only for
  explicit origins and production has no wildcard at all, an active System Admin exists, and the
  relay's task runs.  Starting over a database with users writes nothing, the error monitor is
  on only with a data source name, and any other outcome is a refusal to start.
\<close>

theorem process_serves_only_when_ready:
  assumes "start_process env f others installed accepts up cors raw d = Inr p"
  shows "(let s = pr_settings p in
       py_strip (sm_host s) \<noteq> [] \<and> py_strip (sm_username s) \<noteq> [] \<and> py_strip (sm_password s) \<noteq> []
       \<and> 64 \<in> set (sm_from_address s) \<and> \<not> (sm_use_tls s \<and> sm_start_tls s)
       \<and> 0 < sm_port s \<and> sm_port s \<le> 65535 \<and> 1 \<le> sm_max_attempts s \<and> 0 \<le> sm_retry_backoff_seconds s
       \<and> 0 < sm_send_timeout_seconds s
       \<and> 1 \<le> st_db_pool_size s \<and> 0 \<le> st_db_max_overflow s \<and> 0 < st_db_pool_timeout_seconds s
       \<and> 0 < st_db_statement_timeout_ms s \<and> 0 < st_db_connect_timeout_seconds s
       \<and> 0 < st_redis_connect_timeout_seconds s \<and> 0 < st_session_ttl_days s
       \<and> 0 < st_session_revocation_cache_ttl_seconds s \<and> 0 < st_presence_ttl_seconds s
       \<and> 0 < wc_heartbeat_timeout_seconds (st_ws s) \<and> 0 < wc_frame_rate_limit_max_frames (st_ws s)
       \<and> 0 < wc_frame_rate_limit_window_seconds (st_ws s)
       \<and> 0 \<le> st_error_monitor_traces_sample_rate s \<and> st_error_monitor_traces_sample_rate s \<le> 1
       \<and> (st_app_env s = py ''production'' \<longrightarrow> py ''*'' \<notin> set (pr_allow_origins p)))
    \<and> (pr_allow_credentials p \<longrightarrow> pr_allow_origins p \<noteq> [] \<and> py ''*'' \<notin> set (pr_allow_origins p))
    \<and> (\<forall>origin\<in>set (pr_allow_origins p). origin \<noteq> [] \<and> 44 \<notin> set origin)
    \<and> active_system_admin_exists (pr_db p) \<and> (tb_users d \<noteq> [] \<longrightarrow> pr_db p = d)
    \<and> relay_ok (pr_relay p)
    \<and> (pr_error_monitor p \<longrightarrow> st_error_monitor_dsn (pr_settings p) \<noteq> None)"
proof -
  obtain s d' where s: "load_settings cors raw = Some s" "verify_email_config s = Inr ()"
    and b: "ensure_system_admin_bootstrapped env (st_bootstrap s) f others d = Inr d'"
    and p: "p = \<lparr>pr_settings = s, pr_error_monitor = configure_error_monitor (st_error_monitor_dsn s) installed accepts,
          pr_allow_origins = st_cors_allowed_origins s,
          pr_allow_credentials = (st_cors_allowed_origins s \<noteq> [] \<and> py ''*'' \<notin> set (st_cors_allowed_origins s)),
          pr_db = d', pr_relay = relay_start up no_relay\<rparr>"
    using assms by (rule start_process_Inr)
  have r: "relay_ok (relay_start up no_relay)" using relay_start_ok [of no_relay up] by (simp add: no_relay_def)
  have m: "configure_error_monitor (st_error_monitor_dsn s) installed accepts \<longrightarrow> st_error_monitor_dsn s \<noteq> None"
    by (simp add: configure_error_monitor_def split: option.split)
  show ?thesis
    unfolding p Let_def process.select_convs
    using load_settings_Some [OF s(1), unfolded fields_ok_defs] s(2) [unfolded email_config_iff] bootstrap_Inr [OF b] r m
    by blast
qed

definition demo_settings_raw :: settings where
  "demo_settings_raw = \<lparr>sm_host = py ''mail'', sm_port = 587, sm_username = py ''u'', sm_password = py ''p'',
     sm_from_address = py ''a@b'', sm_use_tls = False, sm_start_tls = True, sm_max_attempts = 3,
     sm_retry_backoff_seconds = 1 / 2, sm_send_timeout_seconds = 10,
     st_app_env = py ''production'', st_log_level = py ''INFO'', st_cors_allowed_origins = [],
     st_database_url = py ''pg'', st_db_pool_size = 10, st_db_max_overflow = 5, st_db_pool_timeout_seconds = 5,
     st_db_statement_timeout_ms = 5000, st_db_connect_timeout_seconds = 3, st_redis_url = py ''redis'',
     st_redis_connect_timeout_seconds = 2, st_jwt_signing_key = py ''k'', st_jwt_algorithm = py ''HS256'',
     st_jwt_access_token_ttl_minutes = 15, st_session_ttl_days = 30, st_session_revocation_cache_ttl_seconds = 30,
     st_ws = demo_settings, st_presence_ttl_seconds = 120, st_password_reset_url_base = [], st_invite_url_base = [],
     st_s3_endpoint_url = [], st_s3_bucket_name = [], st_s3_access_key_id = [], st_s3_secret_access_key = [],
     st_s3_region = py ''auto'', st_bootstrap = first_admin, st_error_monitor_dsn = None,
     st_error_monitor_traces_sample_rate = 0\<rparr>"

lemma demo_origins: "split_csv (py ''https://a, *.b'') = [py ''https://a'', py ''*.b'']"
  by (simp add: split_csv_def py_strip_def strip_by_def py_isspace_def)

lemma demo_loads:
  "load_settings (Some (py ''https://a, *.b'')) demo_settings_raw =
   Some (demo_settings_raw\<lparr>st_cors_allowed_origins := [py ''https://a'', py ''*.b'']\<rparr>)"
proof -
  have "py ''*'' \<notin> set [py ''https://a'', py ''*.b'']" by simp
  then have "\<not> reject_wildcard_origin_in_production e [py ''https://a'', py ''*.b'']" for e
    by (simp add: reject_wildcard_origin_in_production_def del: list.map)
  then show ?thesis
    unfolding load_settings_def Let_def option.case demo_origins
    by (simp add: fields_ok_defs demo_settings_raw_def demo_settings_def reject_conflicting_tls_modes_def del: list.map)
qed

lemma demo_email: "verify_email_config demo_settings_raw = Inr ()"
  unfolding email_config_iff
  by (simp add: demo_settings_raw_def py_strip_def py_isspace_def)

lemma process_serves_only_when_ready_witness:
  "\<exists>p. start_process plain_invite_env (fresh_at 5 1 ''x'') id False False False
        (Some (py ''https://a, *.b'')) demo_settings_raw empty_db = Inr p
    \<and> active_system_admin_exists (pr_db p) \<and> pr_allow_credentials p"
proof -
  let ?s = "demo_settings_raw\<lparr>st_cors_allowed_origins := [py ''https://a'', py ''*.b'']\<rparr>"
  have e: "verify_email_config ?s = Inr ()"
    using demo_email unfolding email_config_iff by (simp del: list.map)
  have b: "st_bootstrap ?s = first_admin" by (simp add: demo_settings_raw_def del: list.map)
  have star: "py ''*'' \<notin> set [py ''https://a'', py ''*.b'']" by simp
  obtain p where p: "start_process plain_invite_env (fresh_at 5 1 ''x'') id False False False
        (Some (py ''https://a, *.b'')) demo_settings_raw empty_db = Inr p" "pr_allow_credentials p"
    unfolding start_process_def demo_loads create_app_def lifespan_start_def option.case e sum.case Let_def
      and_then.simps process.select_convs b first_admin_boots
    using star by (simp del: list.map)
  with process_serves_only_when_ready [OF p(1)] show ?thesis by blast
qed

subsection \<open>Transactions, shutdown and probes\<close>

text \<open>A request's transaction is all or nothing.\<close>

lemma session_all_or_nothing:
  "get_db_session request d = (Inl e, d') \<Longrightarrow> d' = d"
  "get_db_session request d = (Inr r, d') \<Longrightarrow> request d = (Inr r, d')"
  by (auto simp: get_db_session_def split: prod.splits sum.splits)

text \<open>After a shutdown nothing is registered and the relay is stopped; starting it again works.\<close>

lemma shutdown_clears:
  assumes "shutdown closes p g = (p', g')"
  shows "gw_connections g' = []" "rl_task (pr_relay p') = None" "relay_ok (relay_start up (pr_relay p'))"
proof -
  show "gw_connections g' = []"
    using assms close_all_empty by (auto simp: shutdown_def split: prod.splits)
  show "rl_task (pr_relay p') = None"
    using assms by (auto simp: shutdown_def relay_stop_def split: prod.splits)
  then show "relay_ok (relay_start up (pr_relay p'))" using relay_start_ok by blast
qed

text \<open>
  The readiness probe tells the truth: it answers 200 exactly if both stores answered, 503
  if one of them did not, with the verdict on each; only an exception that is neither a time-out
  nor an error of driver or transport escapes it.  The text never depends on the error.
\<close>

theorem readyz_tells_the_truth:
  shows "((\<exists>body. readyz database redis = Inr (Response 200 body)) \<longleftrightarrow> database = Probe_Answers \<and> redis = Probe_Answers)
    \<and> ((\<exists>body. readyz database redis = Inr (Response 503 body)) \<longleftrightarrow>
         (database = Probe_Times_Out \<or> database = Probe_Fails \<or> redis = Probe_Times_Out \<or> redis = Probe_Fails)
         \<and> (\<forall>e. database \<noteq> Probe_Raises e \<and> redis \<noteq> Probe_Raises e))
    \<and> ((\<exists>e. readyz database redis = Inl e) \<longleftrightarrow> (\<exists>e. database = Probe_Raises e \<or> redis = Probe_Raises e))"
  by (cases database; cases redis) (auto simp: readyz_def check_database_def check_redis_def)

end
