(* ===== verification/Clients.thy ===== *)
theory Clients
  imports Startup
begin

text \<open>
  The process-wide clients of the stores (\<^verbatim>\<open>db/engine.py\<close>, \<^verbatim>\<open>db/session.py\<close>, \<^verbatim>\<open>db/redis.py\<close>,
  \<^verbatim>\<open>db/storage.py\<close>): what each is built with, and the cells of \<open>lru_cache\<close> that hold them.  A
  client is a number and the arguments it was built with; whether closing it raises is a
  parameter.  The getters and disposals are shown never to lose an open client.
\<close>

subsection \<open>What the clients are built with\<close>

record redis_kwargs =
  rk_socket_connect_timeout :: rat
  rk_socket_timeout :: rat
  rk_decode_responses :: bool
  rk_health_check_interval :: int

definition build_client_kwargs :: "settings \<Rightarrow> redis_kwargs" where
  "build_client_kwargs s =
     \<lparr>rk_socket_connect_timeout = 2, rk_socket_timeout = 2, rk_decode_responses = True,
      rk_health_check_interval = 30\<rparr>"

record s3_kwargs =
  sk_endpoint_url :: pystr
  sk_access_key_id :: pystr
  sk_secret_access_key :: pystr
  sk_region_name :: pystr
  sk_connect_timeout :: rat
  sk_read_timeout :: rat
  sk_max_attempts :: int
  sk_retry_mode :: string
  sk_addressing_style :: string

text \<open>A client of one of the three libraries, as the call that makes it.\<close>

datatype client =
    Engine pystr engine_kwargs
  | Redis_Client pystr redis_kwargs
  | S3_Client s3_kwargs

definition create_engine :: "settings \<Rightarrow> client" where
  "create_engine s = Engine (st_database_url s) (build_engine_kwargs s)"

definition create_redis_client :: "settings \<Rightarrow> client" where
  "create_redis_client s = Redis_Client (st_redis_url s) (build_client_kwargs s)"

definition create_s3_client :: "settings \<Rightarrow> client" where
  "create_s3_client s =
     S3_Client \<lparr>sk_endpoint_url = st_s3_endpoint_url s, sk_access_key_id = st_s3_access_key_id s,
       sk_secret_access_key = st_s3_secret_access_key s, sk_region_name = st_s3_region s,
       sk_connect_timeout = 5, sk_read_timeout = 20, sk_max_attempts = 2, sk_retry_mode = ''standard'',
       sk_addressing_style = ''path''\<rparr>"

subsection \<open>The cached clients of a process\<close>

text \<open>\<open>cl_open\<close> lists the clients made and not closed; the other fields are the cells of
  \<open>lru_cache\<close>.  The session factory is the number of the engine it is bound to.\<close>

record clients =
  cl_made :: nat
  cl_open :: "(nat \<times> client) list"
  cl_engine :: "nat option"
  cl_sessionmaker :: "nat option"
  cl_redis :: "nat option"
  cl_s3 :: "nat option"

definition no_clients :: clients where
  "no_clients = \<lparr>cl_made = 0, cl_open = [], cl_engine = None, cl_sessionmaker = None, cl_redis = None, cl_s3 = None\<rparr>"

definition make_client :: "client \<Rightarrow> clients \<Rightarrow> nat \<times> clients" where
  "make_client x c = (cl_made c, c\<lparr>cl_made := cl_made c + 1, cl_open := cl_open c @ [(cl_made c, x)]\<rparr>)"

definition close_client :: "nat \<Rightarrow> clients \<Rightarrow> clients" where
  "close_client k c = c\<lparr>cl_open := filter (\<lambda>(i, x). i \<noteq> k) (cl_open c)\<rparr>"

definition get_engine :: "settings \<Rightarrow> clients \<Rightarrow> nat \<times> clients" where
  "get_engine s c =
     (case cl_engine c of
        Some e \<Rightarrow> (e, c)
      | None \<Rightarrow> (case make_client (create_engine s) c of (e, c') \<Rightarrow> (e, c'\<lparr>cl_engine := Some e\<rparr>)))"

definition get_sessionmaker :: "settings \<Rightarrow> clients \<Rightarrow> nat \<times> clients" where
  "get_sessionmaker s c =
     (case cl_sessionmaker c of
        Some m \<Rightarrow> (m, c)
      | None \<Rightarrow> (case get_engine s c of (e, c') \<Rightarrow> (e, c'\<lparr>cl_sessionmaker := Some e\<rparr>)))"

text \<open>A disposal returns whether it ended normally.  The second \<open>get_engine()\<close> is a hit.\<close>

definition dispose_engine :: "settings \<Rightarrow> bool \<Rightarrow> clients \<Rightarrow> bool \<times> clients" where
  "dispose_engine s closes c =
     (if cl_engine c \<noteq> None
      then (case get_engine s c of (e, c') \<Rightarrow>
              if closes then (True, (close_client e c')\<lparr>cl_engine := None, cl_sessionmaker := None\<rparr>)
              else (False, c'))
      else (True, c\<lparr>cl_engine := None, cl_sessionmaker := None\<rparr>))"

definition get_redis_client :: "settings \<Rightarrow> clients \<Rightarrow> nat \<times> clients" where
  "get_redis_client s c =
     (case cl_redis c of
        Some r \<Rightarrow> (r, c)
      | None \<Rightarrow> (case make_client (create_redis_client s) c of (r, c') \<Rightarrow> (r, c'\<lparr>cl_redis := Some r\<rparr>)))"

definition dispose_redis_client :: "settings \<Rightarrow> bool \<Rightarrow> clients \<Rightarrow> bool \<times> clients" where
  "dispose_redis_client s closes c =
     (if cl_redis c \<noteq> None
      then (case get_redis_client s c of (r, c') \<Rightarrow>
              if closes then (True, (close_client r c')\<lparr>cl_redis := None\<rparr>) else (False, c'))
      else (True, c\<lparr>cl_redis := None\<rparr>))"

definition get_s3_client :: "settings \<Rightarrow> clients \<Rightarrow> nat \<times> clients" where
  "get_s3_client s c =
     (case cl_s3 c of
        Some h \<Rightarrow> (h, c)
      | None \<Rightarrow> (case make_client (create_s3_client s) c of (h, c') \<Rightarrow> (h, c'\<lparr>cl_s3 := Some h\<rparr>)))"

text \<open>The end of the lifespan: a disposal that raises ends it.\<close>

definition dispose_clients :: "settings \<Rightarrow> bool \<Rightarrow> bool \<Rightarrow> clients \<Rightarrow> bool \<times> clients" where
  "dispose_clients s engine_closes redis_closes c =
     (case dispose_engine s engine_closes c of
        (False, c') \<Rightarrow> (False, c')
      | (True, c') \<Rightarrow> dispose_redis_client s redis_closes c')"

lemmas client_defs =
  make_client_def close_client_def get_engine_def get_sessionmaker_def dispose_engine_def
  get_redis_client_def dispose_redis_client_def get_s3_client_def

subsection \<open>Lazy singletons\<close>

text \<open>What a cached getter owes its callers: a hit changes nothing, a miss fills the cell.\<close>

locale lazy_client =
  fixes get :: "'s \<Rightarrow> 'h \<times> 's" and cell :: "'s \<Rightarrow> 'h option"
  assumes hit: "cell s = Some h \<Longrightarrow> get s = (h, s)"
    and miss: "cell s = None \<Longrightarrow> cell (snd (get s)) = Some (fst (get s))"
begin

lemma filled: "cell (snd (get s)) = Some (fst (get s))"
  by (cases "cell s") (simp_all add: hit miss)

lemma again: "get (snd (get s)) = get s"
  by (simp add: hit [OF filled])

end

interpretation engine: lazy_client "get_engine s" cl_engine for s
  by unfold_locales (auto simp: get_engine_def split: prod.split)

interpretation sessionmaker: lazy_client "get_sessionmaker s" cl_sessionmaker for s
  by unfold_locales (auto simp: get_sessionmaker_def split: prod.split)

interpretation redis_client: lazy_client "get_redis_client s" cl_redis for s
  by unfold_locales (auto simp: get_redis_client_def split: prod.split)

interpretation s3_client: lazy_client "get_s3_client s" cl_s3 for s
  by unfold_locales (auto simp: get_s3_client_def split: prod.split)

subsection \<open>No client is lost\<close>

inductive client_step :: "settings \<Rightarrow> clients \<Rightarrow> clients \<Rightarrow> bool" for s where
  step_engine: "get_engine s c = (h, c') \<Longrightarrow> client_step s c c'"
| step_sessionmaker: "get_sessionmaker s c = (h, c') \<Longrightarrow> client_step s c c'"
| step_redis: "get_redis_client s c = (h, c') \<Longrightarrow> client_step s c c'"
| step_s3: "get_s3_client s c = (h, c') \<Longrightarrow> client_step s c c'"
| step_dispose_engine: "dispose_engine s closes c = (r, c') \<Longrightarrow> client_step s c c'"
| step_dispose_redis: "dispose_redis_client s closes c = (r, c') \<Longrightarrow> client_step s c c'"

text \<open>The open clients are those in the cells, one of each kind, built as the settings say; a
  session factory is bound to the open engine.\<close>

definition cached_clients :: "settings \<Rightarrow> clients \<Rightarrow> (nat \<times> client) set" where
  "cached_clients s c =
     {(e, create_engine s) | e. cl_engine c = Some e} \<union> {(r, create_redis_client s) | r. cl_redis c = Some r}
     \<union> {(h, create_s3_client s) | h. cl_s3 c = Some h}"

definition clients_ok :: "settings \<Rightarrow> clients \<Rightarrow> bool" where
  "clients_ok s c \<longleftrightarrow>
     set (cl_open c) = cached_clients s c \<and> distinct (map fst (cl_open c)) \<and>
     (\<forall>(i, x)\<in>set (cl_open c). i < cl_made c) \<and>
     (\<forall>m. cl_sessionmaker c = Some m \<longrightarrow> cl_engine c = Some m)"

lemma no_clients_ok: "clients_ok s no_clients"
  by (simp add: clients_ok_def cached_clients_def no_clients_def)

lemma open_below: "clients_ok s c \<Longrightarrow> cl_made c \<notin> fst ` set (cl_open c)"
  by (fastforce simp: clients_ok_def)

text \<open>A state with one more client, and that client in its cell.\<close>

lemma clients_okI:
  assumes "clients_ok s c" "cl_open c' = cl_open c @ [(cl_made c, x)]" "cl_made c' = cl_made c + 1"
    "cached_clients s c' = insert (cl_made c, x) (cached_clients s c)"
    "\<And>m. cl_sessionmaker c' = Some m \<Longrightarrow> cl_engine c' = Some m"
  shows "clients_ok s c'"
  using assms(1-4) open_below [OF assms(1)] assms(5) by (fastforce simp: clients_ok_def)

lemma get_engine_ok:
  assumes "clients_ok s c" "get_engine s c = (h, c')"
  shows "clients_ok s c' \<and> cl_engine c' = Some h"
proof (cases "cl_engine c")
  case None
  then have "cached_clients s c' = insert (cl_made c, create_engine s) (cached_clients s c)"
    using assms(2) by (auto simp: get_engine_def make_client_def cached_clients_def)
  moreover have "cl_sessionmaker c = None" using assms(1) None by (cases "cl_sessionmaker c") (auto simp: clients_ok_def)
  ultimately show ?thesis
    using assms(2) None by (intro conjI clients_okI [OF assms(1)]) (auto simp: get_engine_def make_client_def)
qed (use assms in \<open>auto simp: get_engine_def\<close>)

lemma get_sessionmaker_ok:
  assumes "clients_ok s c" "get_sessionmaker s c = (h, c')"
  shows "clients_ok s c'"
proof (cases "cl_sessionmaker c")
  case None
  obtain c1 where "get_engine s c = (h, c1)" "c' = c1\<lparr>cl_sessionmaker := Some h\<rparr>"
    using assms(2) None by (auto simp: get_sessionmaker_def split: prod.splits)
  then show ?thesis using get_engine_ok [OF assms(1)] by (auto simp: clients_ok_def cached_clients_def)
qed (use assms in \<open>auto simp: get_sessionmaker_def\<close>)

lemma get_redis_client_ok:
  assumes "clients_ok s c" "get_redis_client s c = (h, c')"
  shows "clients_ok s c' \<and> cl_redis c' = Some h"
proof (cases "cl_redis c")
  case None
  then have "cached_clients s c' = insert (cl_made c, create_redis_client s) (cached_clients s c)"
    using assms(2) by (auto simp: get_redis_client_def make_client_def cached_clients_def)
  then show ?thesis
    using assms None by (intro conjI clients_okI [OF assms(1)]) (auto simp: get_redis_client_def make_client_def clients_ok_def)
qed (use assms in \<open>auto simp: get_redis_client_def\<close>)

lemma get_s3_client_ok:
  assumes "clients_ok s c" "get_s3_client s c = (h, c')"
  shows "clients_ok s c'"
proof (cases "cl_s3 c")
  case None
  then have "cached_clients s c' = insert (cl_made c, create_s3_client s) (cached_clients s c)"
    using assms(2) by (auto simp: get_s3_client_def make_client_def cached_clients_def)
  then show ?thesis
    using assms None by (intro clients_okI [OF assms(1)]) (auto simp: get_s3_client_def make_client_def clients_ok_def)
qed (use assms in \<open>auto simp: get_s3_client_def\<close>)

text \<open>A client that is closed and whose cell is cleared.\<close>

lemma closed_ok:
  assumes "clients_ok s c" "cl_open c' = filter (\<lambda>(i, x). i \<noteq> k) (cl_open c)" "cl_made c' = cl_made c"
    "cached_clients s c' = {y \<in> cached_clients s c. fst y \<noteq> k}"
    "\<And>m. cl_sessionmaker c' = Some m \<Longrightarrow> cl_engine c' = Some m"
  shows "clients_ok s c'"
  using assms by (auto simp: clients_ok_def distinct_map_filter split_beta)

lemma other_handles:
  assumes "clients_ok s c"
  shows "cl_engine c = Some h \<Longrightarrow> cl_redis c \<noteq> Some h" "cl_engine c = Some h \<Longrightarrow> cl_s3 c \<noteq> Some h"
    "cl_redis c = Some h \<Longrightarrow> cl_s3 c \<noteq> Some h"
proof -
  have inj: "inj_on fst (cached_clients s c)" using assms unfolding clients_ok_def distinct_map by metis
  have same: "x = y" if "(h, x) \<in> cached_clients s c" "(h, y) \<in> cached_clients s c" for x y
    using inj_onD [OF inj _ that] by simp
  show "cl_engine c = Some h \<Longrightarrow> cl_redis c \<noteq> Some h"
    using same [of "create_engine s" "create_redis_client s"]
    by (auto simp: cached_clients_def create_engine_def create_redis_client_def)
  show "cl_engine c = Some h \<Longrightarrow> cl_s3 c \<noteq> Some h"
    using same [of "create_engine s" "create_s3_client s"]
    by (auto simp: cached_clients_def create_engine_def create_s3_client_def)
  show "cl_redis c = Some h \<Longrightarrow> cl_s3 c \<noteq> Some h"
    using same [of "create_redis_client s" "create_s3_client s"]
    by (auto simp: cached_clients_def create_redis_client_def create_s3_client_def)
qed

lemma dispose_engine_ok:
  assumes "clients_ok s c" "dispose_engine s closes c = (r, c')"
  shows "clients_ok s c'"
proof (cases "cl_engine c")
  case None
  then show ?thesis using assms by (auto simp: dispose_engine_def clients_ok_def cached_clients_def)
next
  case (Some e)
  show ?thesis
  proof (cases closes)
    case True
    then have c': "c' = (close_client e c)\<lparr>cl_engine := None, cl_sessionmaker := None\<rparr>"
      using assms(2) Some by (simp add: dispose_engine_def engine.hit [OF Some])
    have "cached_clients s c' = {y \<in> cached_clients s c. fst y \<noteq> e}"
      using Some other_handles [OF assms(1), of e] by (auto simp: c' cached_clients_def close_client_def)
    then show ?thesis by (intro closed_ok [OF assms(1)]) (auto simp: c' close_client_def)
  qed (use assms Some in \<open>simp add: dispose_engine_def engine.hit [OF Some]\<close>)
qed

lemma dispose_redis_client_ok:
  assumes "clients_ok s c" "dispose_redis_client s closes c = (r, c')"
  shows "clients_ok s c'"
proof (cases "cl_redis c")
  case None
  then show ?thesis using assms by (auto simp: dispose_redis_client_def clients_ok_def cached_clients_def)
next
  case (Some e)
  show ?thesis
  proof (cases closes)
    case True
    then have c': "c' = (close_client e c)\<lparr>cl_redis := None\<rparr>"
      using assms(2) Some by (simp add: dispose_redis_client_def redis_client.hit [OF Some])
    have "cached_clients s c' = {y \<in> cached_clients s c. fst y \<noteq> e}"
      using Some other_handles [OF assms(1), of e] by (auto simp: c' cached_clients_def close_client_def)
    then show ?thesis using assms(1) by (intro closed_ok [OF assms(1)]) (auto simp: c' close_client_def clients_ok_def)
  qed (use assms Some in \<open>simp add: dispose_redis_client_def redis_client.hit [OF Some]\<close>)
qed

lemma client_step_ok: "client_step s c c' \<Longrightarrow> clients_ok s c \<Longrightarrow> clients_ok s c'"
  by (induction rule: client_step.induct)
    (blast dest: get_engine_ok get_sessionmaker_ok get_redis_client_ok get_s3_client_ok dispose_engine_ok
      dispose_redis_client_ok)+

lemma client_steps_ok: "(client_step s)\<^sup>*\<^sup>* c c' \<Longrightarrow> clients_ok s c \<Longrightarrow> clients_ok s c'"
  by (induction rule: rtranclp_induct) (auto dest: client_step_ok)

text \<open>
  In any sequence of calls of the getters and disposals, failed disposals included, every open client is
  the cached one of its kind, so at most one engine, one Redis client and one object-store client are
  open, built from the settings; a session factory is always bound to the open engine; and a
  shutdown whose disposals both end normally leaves no connection pool open.
\<close>

theorem clients_never_leak:
  assumes "(client_step s)\<^sup>*\<^sup>* no_clients c"
  shows "distinct (map snd (cl_open c)) \<and> set (cl_open c) = cached_clients s c
    \<and> (\<forall>m. cl_sessionmaker c = Some m \<longrightarrow> (m, create_engine s) \<in> set (cl_open c))
    \<and> (dispose_clients s ec rc c = (True, c') \<longrightarrow>
         (\<forall>(i, x)\<in>set (cl_open c'). x = create_s3_client s) \<and> cl_engine c' = None \<and> cl_sessionmaker c' = None)"
proof -
  have ok: "clients_ok s c" by (rule client_steps_ok [OF assms no_clients_ok])
  have cells: "set (cl_open c) = cached_clients s c" and dist: "distinct (cl_open c)"
    using ok by (simp_all add: clients_ok_def distinct_map)
  have "inj_on snd (cached_clients s c)"
    by (auto simp: inj_on_def cached_clients_def create_engine_def create_redis_client_def create_s3_client_def)
  then have kinds: "distinct (map snd (cl_open c))" using cells dist by (simp add: distinct_map)
  have bound: "(m, create_engine s) \<in> set (cl_open c)" if "cl_sessionmaker c = Some m" for m
    using ok that unfolding cells by (auto simp: clients_ok_def cached_clients_def)
  have "(\<forall>(i, x)\<in>set (cl_open c'). x = create_s3_client s) \<and> cl_engine c' = None \<and> cl_sessionmaker c' = None"
    if ended: "dispose_clients s ec rc c = (True, c')"
  proof -
    obtain c1 where one: "dispose_engine s ec c = (True, c1)" and two: "dispose_redis_client s rc c1 = (True, c')"
      using ended by (auto simp: dispose_clients_def split: prod.splits bool.splits)
    have ok1: "clients_ok s c1" by (rule dispose_engine_ok [OF ok one])
    have empty1: "cl_engine c1 = None \<and> cl_sessionmaker c1 = None"
      using one by (auto simp: dispose_engine_def split: if_splits prod.splits)
    have "cl_engine c' = None \<and> cl_sessionmaker c' = None \<and> cl_redis c' = None"
      using two empty1 by (auto simp: dispose_redis_client_def get_redis_client_def close_client_def
          split: if_splits prod.splits option.splits)
    then show ?thesis
      using dispose_redis_client_ok [OF ok1 two] by (auto simp: clients_ok_def cached_clients_def)
  qed
  then show ?thesis using cells kinds bound by blast
qed

definition one_request :: "settings \<Rightarrow> clients" where
  "one_request s = snd (get_redis_client s (snd (get_sessionmaker s no_clients)))"

lemma one_request_reached: "(client_step s)\<^sup>*\<^sup>* no_clients (one_request s)"
proof -
  have "client_step s no_clients (snd (get_sessionmaker s no_clients))" by (rule step_sessionmaker) (rule prod.collapse [symmetric])
  moreover have "client_step s (snd (get_sessionmaker s no_clients)) (one_request s)"
    unfolding one_request_def by (rule step_redis) (rule prod.collapse [symmetric])
  ultimately show ?thesis by (meson rtranclp.rtrancl_into_rtrancl rtranclp.rtrancl_refl)
qed

lemma clients_never_leak_witness:
  "cl_sessionmaker (one_request demo_settings_raw) = Some 0 \<and> (0, create_engine demo_settings_raw) \<in> set (cl_open (one_request demo_settings_raw))
    \<and> fst (dispose_clients demo_settings_raw True True (one_request demo_settings_raw))
    \<and> cl_open (snd (dispose_clients demo_settings_raw True True (one_request demo_settings_raw))) = []"
proof -
  let ?s = demo_settings_raw
  have "cl_sessionmaker (one_request ?s) = Some 0"
    by (simp add: one_request_def client_defs no_clients_def)
  moreover have "dispose_clients ?s True True (one_request ?s) =
      (True, (one_request ?s)\<lparr>cl_open := [], cl_engine := None, cl_sessionmaker := None, cl_redis := None\<rparr>)"
    by (simp add: one_request_def dispose_clients_def client_defs no_clients_def)
  ultimately show ?thesis
    using clients_never_leak [OF one_request_reached [of ?s], of True True "snd (dispose_clients ?s True True (one_request ?s))"]
    by simp metis
qed

end
