(* ===== verification/Spec2Isabelle.thy ===== *)
theory Spec2Isabelle
  imports Message_Api Idempotency_Race Revocation_Race Workspace Credentials Bodies Clients Media Problems Startup
begin

text \<open>
  A model of the chatspace backend (\<^verbatim>\<open>src/backend/app\<close>, Python: FastAPI, PostgreSQL, Redis, an
  object store, SMTP) and the theorems that make it correct.  Paths below are under that
  directory.

  \<^bold>\<open>The program.\<close>  Clients register with an invite, log in, join channels, send messages with
  media, search for users, and listen on a WebSocket.  Requests pass the middleware stack, a rate
  limit and the authentication, run one database transaction, and publish events on Redis after
  the commit; every instance relays those events to its own sockets.  Presence counters, rate
  buckets, idempotency claims and the cache of session verdicts live in Redis, which may fail.

  \<^bold>\<open>Conventions.\<close>  A Python text is a list of code points, an \<open>int\<close> an \<open>int\<close>, a UUID a
  \<open>128 word\<close>, a \<open>datetime\<close> its microseconds since 1970, a float a rational.  A table is a list of
  rows without an order that matters, and inserting checks the constraints of the schema.  An
  exception is a value: \<open>Inl\<close>, \<open>None\<close>, or a case of an outcome type.  A transaction is a function
  from the committed database to an outcome and a database; where it reads before it writes, an
  argument \<open>others\<close> is what concurrent transactions commit in between (read committed), and
  \<open>get_db_session\<close> (theory Startup) is the commit or rollback around it.  A Redis or store call is
  answered, never arrives, or is executed while its answer is lost (\<open>redis_call\<close>).  Libraries
  (bcrypt, the JWT library, the imaging library, Unicode foldings, random tokens, SMTP) are
  parameters; what is used of Python's own library is defined.

  \<^bold>\<open>The theories and the code.\<close>
  \<^item> Prelude: types, fallible results, \<open>str.strip\<close>, \<open>str.split\<close>, positional numbers, keyed tables.
  \<^item> Identifiers: \<^verbatim>\<open>core/ids.py\<close>, \<^verbatim>\<open>core/redis_keys.py\<close>.  Ids increase; topics and keys are injective.
  \<^item> Cursor, Pagination: \<^verbatim>\<open>core/pagination.py\<close>.  The cursor's round trip down to the base64 bytes;
    the locales \<open>cursor_listing\<close> and \<open>keyset_source\<close> say what a paginated query owes its caller and
    show that a walk over the pages meets every visible row once; they are interpreted on the
    message histories, the channel list, the user search, the invite list and the user directory.
  \<^item> Schema: \<^verbatim>\<open>models/\<close> and the first migration.  Rows, constraints, and the locales
    \<open>row_store\<close> and \<open>deletable_store\<close> interpreted on every table.
  \<^item> Integrity, Workspace: all constraints of the schema as a property of the database, what each kind
    of statement owes them, and that any run of the services' transactions, nested and interleaved,
    keeps them.
  \<^item> Values: \<open>int()\<close>, \<open>uuid.UUID()\<close>, \<open>isoformat\<close>, JSON, the outcome of a route,
    \<^verbatim>\<open>core/redis_fail_modes.py\<close>.
  \<^item> Channels, Channel_Api: \<^verbatim>\<open>services/channels.py\<close>, \<^verbatim>\<open>services/channel_events.py\<close>,
    \<^verbatim>\<open>api/channels.py\<close>.  Channels keep an admin through departures and succession; what is
    announced is what was committed; the race in \<open>leave_channel\<close> that loses the admin.
  \<^item> Messages, Message_Api, Idempotency_Race: \<^verbatim>\<open>services/messages.py\<close>, \<^verbatim>\<open>services/message_events.py\<close>,
    \<^verbatim>\<open>api/messages.py\<close>.  Outcomes of a send whose Redis commands and commit fail one by one, replay
    until the claim's 24 hours are over, binding of media, editing and deleting; the race of sends
    under one key as a step relation with its invariant and progress measure.
  \<^item> Rate_Limit: \<^verbatim>\<open>core/rate_limit.py\<close>, \<^verbatim>\<open>core/rate_limit_deps.py\<close>, \<^verbatim>\<open>ws/rate_limit.py\<close>.  The bucket
    script against the locale \<open>metered\<close>, the exact retry hint, the frame window.
  \<^item> Presence: \<^verbatim>\<open>services/presence.py\<close>.  The counters refine the set of open connections; failures,
    crashes, expiry and restarts as a step relation.
  \<^item> Sessions, Auth: \<^verbatim>\<open>services/sessions.py\<close>, \<^verbatim>\<open>services/session_revocation.py\<close>, \<^verbatim>\<open>services/auth.py\<close>,
    \<^verbatim>\<open>core/jwt.py\<close>, \<^verbatim>\<open>core/deps.py\<close>, \<^verbatim>\<open>api/auth.py\<close>, \<^verbatim>\<open>api/sessions.py\<close>.  A refresh token works
    once, except for two refreshes that both read before either commits; login hands out credentials that authenticate.
  \<^item> Revocation_Race: the checks of one session, command by command, against its revocation: how
    late a revocation can take effect, and a run in which it is late.
  \<^item> Credentials: \<^verbatim>\<open>core/token_hash.py\<close>, \<^verbatim>\<open>core/security.py\<close>, \<^verbatim>\<open>core/client_ip.py\<close> and the random
    tokens.  A stored hash identifies its token; which bucket an attempt to log in takes from.
  \<^item> Passwords: \<^verbatim>\<open>core/password_policy.py\<close>, \<^verbatim>\<open>services/password_reset.py\<close>, \<^verbatim>\<open>api/password.py\<close>.
  \<^item> Invites, Invite_Api, Admin: \<^verbatim>\<open>services/invites.py\<close>, \<^verbatim>\<open>services/registration.py\<close>,
    \<^verbatim>\<open>services/bootstrap.py\<close>, \<^verbatim>\<open>services/admin_users.py\<close> and their routes.  An invite is spent once;
    the workspace keeps an active System Admin.
  \<^item> User_Directory: \<^verbatim>\<open>services/profile.py\<close>, \<^verbatim>\<open>services/user_search.py\<close>, \<^verbatim>\<open>api/me.py\<close>, \<^verbatim>\<open>api/users.py\<close>.
  \<^item> Ws_Gateway, Relay: \<^verbatim>\<open>ws/\<close>.  Connect and periodic authentication, frames, the registry, the
    endpoint, the relay of a message and the relay's task; who may hear what; a right that is lost
    closes the connection; the relay survives every failure of Redis and keeps the order.
  \<^item> Media_Validation, Media: \<^verbatim>\<open>core/media_validation.py\<close>, \<^verbatim>\<open>services/media*.py\<close>, \<^verbatim>\<open>jobs/\<close>,
    \<^verbatim>\<open>api/media.py\<close>.  Checks of an upload, the store, authorised links, the sweep of orphans.
  \<^item> Redaction, Metrics: \<^verbatim>\<open>core/redact.py\<close>, \<^verbatim>\<open>core/logging.py\<close>, \<^verbatim>\<open>core/error_monitor.py\<close>,
    \<^verbatim>\<open>core/metrics.py\<close>.  Secrets and tokens do not reach a log line.
  \<^item> Problems: \<^verbatim>\<open>core/correlation.py\<close>, \<^verbatim>\<open>core/middleware.py\<close>, \<^verbatim>\<open>core/body_limit.py\<close>,
    \<^verbatim>\<open>core/errors.py\<close>, \<^verbatim>\<open>core/request_body.py\<close>.  The stack around an arbitrary application.
  \<^item> Bodies: the request classes of \<^verbatim>\<open>schemas/\<close> and the routes as they are reached from a JSON body,
    over pydantic's validation as a parameter with its documented behaviour; a body without a
    required field is refused, any other gives its values to the route.
  \<^item> Email, Startup: \<^verbatim>\<open>services/email.py\<close>, \<^verbatim>\<open>core/config.py\<close>, \<^verbatim>\<open>main.py\<close>,
    \<^verbatim>\<open>services/readiness.py\<close>, \<^verbatim>\<open>api/health.py\<close>, \<^verbatim>\<open>api/metrics.py\<close>.
  \<^item> Clients: \<^verbatim>\<open>db/\<close>.  The cached clients of a process as the locale \<open>lazy_client\<close>, interpreted on
    the engine, the session factory, Redis and the object store; none is lost open.

  \<^bold>\<open>Bounds.\<close>  Loops of the code are structural recursions or bounded by the code's own constants:
  the resolve loop of a send by its attempts and rounds, the mailer by its configured attempts, the
  sweep by its batch, the bounded read by the number of chunks the source yields (it ends for every
  source that ends, and by the limit for any other).  The endpoint and the relay run over a list of
  turns of any length, so what is shown of them holds at every moment of an endless run.  No
  fuel is used whose end could be mistaken for a result.

  \<^bold>\<open>Not modelled, and why.\<close>  Route tables, dependency wiring and OpenAPI blocks (declarations
  FastAPI reads); FastAPI's own reading of a payload or of a declared body; how pydantic validates
  a body and parses the environment (a library; settings arrive typed); CORS (a library that adds headers); drivers, pools and time-outs of
  PostgreSQL, Redis and the object store (their documented behaviour is the store of the model);
  indexes and other parts of the schema that serve speed; texts with U+0000, which PostgreSQL
  refuses; the expiry of a rate bucket, which is shown not to matter; the calls that only count or log, except
  where a theorem is about them; test helpers.
\<close>

end
